(* ===== verification/Prelude.thy ===== *)
theory Prelude
  imports Main "HOL-Library.Sublist" "HOL-Library.Char_ord" "HOL-Library.List_Lexorder"
begin

text \<open>
  Shared vocabulary of the development: results with errors as values, the byte-string helpers
  of Go's \<^verbatim>\<open>strings\<close> package the sources use, tables as lists of rows with the few
  statement shapes the stores issue against SQLite, and generic lemmas on them.

  A store operation returns \<open>Inl e\<close> where the Go code returns an error (its transaction is
  rolled back, so the caller keeps the old state) and \<open>Inr (x, d)\<close> where it commits \<open>d\<close>.
\<close>

named_theorems evolve_rules \<open>rules showing that an operation moves table rows legally\<close>
named_theorems row_defs \<open>definitions unfolded when a row of a table is computed\<close>

section \<open>Results\<close>

definition bindR :: "'e + 'a \<Rightarrow> ('a \<Rightarrow> 'e + 'b) \<Rightarrow> 'e + 'b" where
  "bindR m k = (case m of Inl e \<Rightarrow> Inl e | Inr x \<Rightarrow> k x)"

definition ok_or :: "'e \<Rightarrow> 'a option \<Rightarrow> 'e + 'a" where
  "ok_or e m = (case m of None \<Rightarrow> Inl e | Some x \<Rightarrow> Inr x)"

definition refuse_if :: "bool \<Rightarrow> 'e \<Rightarrow> 'e + unit" where
  "refuse_if b e = (if b then Inl e else Inr ())"

text \<open>\<open>settle d m\<close> is the durable state after a transaction \<open>m\<close> begun in \<open>d\<close>.\<close>

definition settle :: "'d \<Rightarrow> 'e + 'a \<times> 'd \<Rightarrow> 'd" where
  "settle d m = (case m of Inl e \<Rightarrow> d | Inr (x, d') \<Rightarrow> d')"

lemma bindR_simps [simp]:
  "bindR (Inl e) k = Inl e"
  "bindR (Inr x) k = k x"
  by (simp_all add: bindR_def)

lemma bindR_Inr_iff: "bindR m k = Inr y \<longleftrightarrow> (\<exists>x. m = Inr x \<and> k x = Inr y)"
  by (cases m) simp_all

lemma bindR_Inl_iff: "bindR m k = Inl e \<longleftrightarrow> m = Inl e \<or> (\<exists>x. m = Inr x \<and> k x = Inl e)"
  by (cases m) simp_all

lemma bindR_InrE [elim]:
  assumes "bindR m k = Inr y"
  obtains x where "m = Inr x" and "k x = Inr y"
  using assms by (auto simp: bindR_Inr_iff)

lemma bindR_cong [fundef_cong]:
  assumes "m = m'" and "\<And>x. m' = Inr x \<Longrightarrow> k x = k' x"
  shows "bindR m k = bindR m' k'"
  using assms by (cases m') simp_all

lemma ok_or_simps [simp]:
  "ok_or e None = Inl e"
  "ok_or e (Some x) = Inr x"
  by (simp_all add: ok_or_def)

lemma ok_or_Inr_iff [simp]: "ok_or e m = Inr x \<longleftrightarrow> m = Some x"
  by (cases m) simp_all

lemma ok_or_Inl_iff [simp]: "ok_or e m = Inl e' \<longleftrightarrow> m = None \<and> e = e'"
  by (cases m) auto

lemma refuse_if_Inr_iff [simp]: "refuse_if b e = Inr u \<longleftrightarrow> \<not> b"
  by (simp add: refuse_if_def)

lemma refuse_if_Inl_iff [simp]: "refuse_if b e = Inl e' \<longleftrightarrow> b \<and> e = e'"
  by (simp add: refuse_if_def)

lemma refuse_if_simps [simp]:
  "refuse_if True e = Inl e"
  "refuse_if False e = Inr ()"
  by (simp_all add: refuse_if_def)

lemma settle_simps [simp]:
  "settle d (Inl e) = d"
  "settle d (Inr (x, d')) = d'"
  by (simp_all add: settle_def)

lemma settle_cases:
  assumes "P d" and "\<And>x d'. m = Inr (x, d') \<Longrightarrow> P d'"
  shows "P (settle d m)"
  using assms by (cases m) auto

section \<open>Byte strings\<close>

text \<open>
  A Go string is a byte sequence; \<open>char\<close> is a byte. \<open>lead_space\<close> is the width of the white
  space rune a byte string starts with (0 for none): the ASCII spaces, and the UTF-8 encodings of
  U+0085, U+00A0, U+1680, U+2000 to U+200A, U+2028, U+2029, U+202F, U+205F and U+3000, which is
  \<^verbatim>\<open>unicode.IsSpace\<close>.
\<close>

definition ascii_space :: "char \<Rightarrow> bool" where
  "ascii_space c = (c = CHR '' '' \<or> (of_char c \<ge> (9::nat) \<and> of_char c \<le> (13::nat)))"

definition wide_space :: "char \<Rightarrow> char \<Rightarrow> char \<Rightarrow> bool" where
  "wide_space a b c =
     (let x = of_char a :: nat; y = of_char b :: nat; z = of_char c :: nat
      in (x = 0xE1 \<and> y = 0x9A \<and> z = 0x80) \<or>
         (x = 0xE2 \<and> y = 0x80 \<and> (0x80 \<le> z \<and> z \<le> 0x8A \<or> z = 0xA8 \<or> z = 0xA9 \<or> z = 0xAF)) \<or>
         (x = 0xE2 \<and> y = 0x81 \<and> z = 0x9F) \<or>
         (x = 0xE3 \<and> y = 0x80 \<and> z = 0x80))"

definition latin_space :: "char \<Rightarrow> char \<Rightarrow> bool" where
  "latin_space a b = (of_char a = (0xC2::nat) \<and> (of_char b = (0x85::nat) \<or> of_char b = (0xA0::nat)))"

fun lead_space :: "string \<Rightarrow> nat" where
  "lead_space [] = 0"
| "lead_space (a # r) =
     (if ascii_space a then 1
      else case r of [] \<Rightarrow> 0
           | b # r' \<Rightarrow> if latin_space a b then 2
                       else (case r' of [] \<Rightarrow> 0 | c # _ \<Rightarrow> if wide_space a b c then 3 else 0))"

text \<open>The same for the rune a string ends with, read on the reversed string.\<close>

fun trail_space :: "string \<Rightarrow> nat" where
  "trail_space [] = 0"
| "trail_space (a # r) =
     (if ascii_space a then 1
      else case r of [] \<Rightarrow> 0
           | b # r' \<Rightarrow> if latin_space b a then 2
                       else (case r' of [] \<Rightarrow> 0 | c # _ \<Rightarrow> if wide_space c b a then 3 else 0))"

function strip :: "(string \<Rightarrow> nat) \<Rightarrow> string \<Rightarrow> string" where
  "strip w s = (if w s = 0 \<or> s = [] then s else strip w (drop (w s) s))"
  by pat_completeness auto
termination
  by (relation "measure (\<lambda>(w, s). length s)") auto

declare strip.simps [simp del]

definition TrimSpace :: "string \<Rightarrow> string" where
  "TrimSpace s = rev (strip trail_space (rev (strip lead_space s)))"

text \<open>\<^verbatim>\<open>strings.Cut\<close> with a one-byte separator: before, after, found.\<close>

fun Cut :: "char \<Rightarrow> string \<Rightarrow> string \<times> string \<times> bool" where
  "Cut c [] = ([], [], False)"
| "Cut c (x # xs) =
     (if x = c then ([], xs, True)
      else case Cut c xs of (a, b, ok) \<Rightarrow> (x # a, b, ok))"

definition HasPrefix :: "string \<Rightarrow> string \<Rightarrow> bool" where
  "HasPrefix s p = prefix p s"

lemma strip_suffix: "suffix (strip w s) s"
proof (induction w s rule: strip.induct)
  case (1 w s)
  show ?case
  proof (cases "w s = 0 \<or> s = []")
    case True
    then show ?thesis by (simp add: strip.simps [of w s])
  next
    case False
    with "1" have "suffix (strip w (drop (w s) s)) (drop (w s) s)" by simp
    then have "suffix (strip w (drop (w s) s)) s"
      by (meson suffix_drop suffix_order.trans)
    with False show ?thesis by (simp add: strip.simps [of w s])
  qed
qed

lemma strip_done: "w (strip w s) = 0 \<or> strip w s = []"
proof (induction w s rule: strip.induct)
  case (1 w s)
  then show ?case by (cases "w s = 0 \<or> s = []") (simp_all add: strip.simps [of w s])
qed

lemma strip_id: "w s = 0 \<Longrightarrow> strip w s = s"
  by (subst strip.simps) simp

lemma strip_idem [simp]: "strip w (strip w s) = strip w s"
  using strip_done [of w s] by (subst strip.simps) auto

lemma Cut_found:
  "Cut c s = (a, b, True) \<Longrightarrow> s = a @ c # b \<and> c \<notin> set a"
  by (induction s arbitrary: a b) (auto split: if_splits prod.splits)

lemma Cut_append: "c \<notin> set a \<Longrightarrow> Cut c (a @ c # b) = (a, b, True)"
  by (induction a) auto

lemma Cut_not_found: "c \<notin> set s \<Longrightarrow> Cut c s = (s, [], False)"
  by (induction s) auto

section \<open>Tables\<close>

text \<open>
  A table is the list of its rows in rowid order. \<open>sel\<close> is \<^verbatim>\<open>SELECT ... WHERE P\<close>,
  \<open>sel1\<close> its first row (\<^verbatim>\<open>QueryRow\<close>), and \<open>upd\<close> is
  \<^verbatim>\<open>UPDATE ... SET f WHERE P\<close>.
\<close>

definition sel :: "('r \<Rightarrow> bool) \<Rightarrow> 'r list \<Rightarrow> 'r list" where
  "sel P t = filter P t"

definition sel1 :: "('r \<Rightarrow> bool) \<Rightarrow> 'r list \<Rightarrow> 'r option" where
  "sel1 P t = find P t"

definition upd :: "('r \<Rightarrow> bool) \<Rightarrow> ('r \<Rightarrow> 'r) \<Rightarrow> 'r list \<Rightarrow> 'r list" where
  "upd P f t = map (\<lambda>r. if P r then f r else r) t"

lemma set_sel [simp]: "set (sel P t) = {r \<in> set t. P r}"
  by (simp add: sel_def)

lemma sel1_SomeD: "sel1 P t = Some r \<Longrightarrow> r \<in> set t \<and> P r"
  by (auto simp: sel1_def find_Some_iff)

lemma sel1_None_iff: "sel1 P t = None \<longleftrightarrow> (\<forall>r\<in>set t. \<not> P r)"
  by (auto simp: sel1_def find_None_iff)

lemma sel1_append: "sel1 P (t @ u) = (case sel1 P t of None \<Rightarrow> sel1 P u | Some r \<Rightarrow> Some r)"
  by (induction t) (simp_all add: sel1_def)

lemma sel1_Nil [simp]: "sel1 P [] = None"
  by (simp add: sel1_def)

lemma sel1_Cons [simp]: "sel1 P (r # t) = (if P r then Some r else sel1 P t)"
  by (simp add: sel1_def)

lemma upd_Nil [simp]: "upd P f [] = []"
  by (simp add: upd_def)

lemma upd_Cons [simp]: "upd P f (r # t) = (if P r then f r else r) # upd P f t"
  by (simp add: upd_def)

lemma upd_append [simp]: "upd P f (t @ u) = upd P f t @ upd P f u"
  by (simp add: upd_def)

lemma length_upd [simp]: "length (upd P f t) = length t"
  by (simp add: upd_def)

lemma set_upd: "set (upd P f t) = (\<lambda>r. if P r then f r else r) ` set t"
  by (simp add: upd_def)

lemma upd_memE:
  assumes "r' \<in> set (upd P f t)"
  obtains r where "r \<in> set t" and "r' = (if P r then f r else r)"
  using assms by (auto simp: set_upd)

lemma upd_idle: "(\<And>r. r \<in> set t \<Longrightarrow> \<not> P r) \<Longrightarrow> upd P f t = t"
  by (induction t) auto

lemma map_upd_same:
  assumes "\<And>r. P r \<Longrightarrow> g (f r) = g r"
  shows "map g (upd P f t) = map g t"
  using assms by (induction t) auto

text \<open>A lookup by a key the update does not change finds the updated row.\<close>

lemma sel1_upd:
  assumes "\<And>r. P r \<Longrightarrow> Q (f r) = Q r"
  shows "sel1 Q (upd P f t) = map_option (\<lambda>r. if P r then f r else r) (sel1 Q t)"
  using assms by (induction t) auto

lemma sel1_unique:
  assumes "distinct (map k t)" and "r \<in> set t"
  shows "sel1 (\<lambda>r'. k r' = k r) t = Some r"
  using assms
proof (induction t)
  case Nil
  then show ?case by simp
next
  case (Cons x t)
  show ?case
  proof (cases "k x = k r")
    case True
    with Cons.prems have "x = r" by (auto simp: image_iff)
    then show ?thesis by simp
  next
    case False
    with Cons show ?thesis by auto
  qed
qed

lemma distinct_key_eq:
  "distinct (map k t) \<Longrightarrow> r \<in> set t \<Longrightarrow> r' \<in> set t \<Longrightarrow> k r = k r' \<Longrightarrow> r = r'"
  by (metis sel1_unique option.inject)

section \<open>Tables that only evolve\<close>

text \<open>
  The contract several tables share: a write keeps the rows in place, moves each row only along a
  relation \<open>R\<close>, and may append rows. Nothing is ever deleted or reordered.
\<close>

definition evolves :: "('r \<Rightarrow> 'r \<Rightarrow> bool) \<Rightarrow> 'r list \<Rightarrow> 'r list \<Rightarrow> bool" where
  "evolves R t t' = list_all2 R t (take (length t) t')"

lemma evolves_length: "evolves R t t' \<Longrightarrow> length t \<le> length t'"
  by (auto simp: evolves_def dest: list_all2_lengthD)

lemma evolves_nth: "evolves R t t' \<Longrightarrow> i < length t \<Longrightarrow> R (t ! i) (t' ! i)"
  by (auto simp: evolves_def list_all2_conv_all_nth)

lemma evolvesI:
  "length t \<le> length t' \<Longrightarrow> (\<And>i. i < length t \<Longrightarrow> R (t ! i) (t' ! i)) \<Longrightarrow> evolves R t t'"
  by (auto simp: evolves_def list_all2_conv_all_nth)

lemma evolves_mono: "evolves R t t' \<Longrightarrow> (\<And>a b. R a b \<Longrightarrow> S a b) \<Longrightarrow> evolves S t t'"
  by (auto simp: evolves_def elim: list_all2_mono)

lemma evolves_mem:
  assumes "evolves R t t'" and "r \<in> set t"
  shows "\<exists>r'\<in>set t'. R r r'"
proof -
  from assms(2) obtain i where i: "i < length t" "t ! i = r"
    by (auto simp: in_set_conv_nth)
  with assms(1) have "R r (t' ! i)"
    using evolves_nth by fastforce
  moreover have "t' ! i \<in> set t'"
    using i evolves_length [OF assms(1)] by simp
  ultimately show ?thesis by blast
qed

locale evolving =
  fixes R :: "'r \<Rightarrow> 'r \<Rightarrow> bool"
  assumes R_refl: "R r r"
begin

lemma evolves_refl: "evolves R t t"
  by (simp add: evolves_def list_all2_refl R_refl)

lemma evolves_append: "evolves R t (t @ u)"
  by (simp add: evolves_def list_all2_refl R_refl)

lemma evolves_upd:
  assumes "\<And>r. r \<in> set t \<Longrightarrow> P r \<Longrightarrow> R r (f r)"
  shows "evolves R t (upd P f t)"
  using assms by (auto simp: evolves_def upd_def list_all2_conv_all_nth R_refl)

end

locale evolving_trans = evolving +
  assumes R_trans: "R a b \<Longrightarrow> R b c \<Longrightarrow> R a c"
begin

lemma evolves_trans:
  assumes "evolves R t u" and "evolves R u v"
  shows "evolves R t v"
proof (rule evolvesI)
  show "length t \<le> length v"
    using evolves_length [OF assms(1)] evolves_length [OF assms(2)] by simp
  show "R (t ! i) (v ! i)" if "i < length t" for i
    using that evolves_nth [OF assms(1)] evolves_nth [OF assms(2)] evolves_length [OF assms(1)] R_trans
    by (meson order_less_le_trans)
qed

end

end
