(* ===== verification/Timestamps.thy ===== *)
theory Timestamps
  imports Prelude "HOL-Library.Product_Lexorder"
begin

text \<open>
  Instants and their stored text (\<^verbatim>\<open>src/internal/sqlite/store.go\<close>,
  \<^verbatim>\<open>timestamp\<close> and \<^verbatim>\<open>parseTimestamp\<close>). The store keeps every instant as
  RFC3339Nano text in UTC. Most comparisons parse the text back; a few SQL statements compare the
  text itself (\<^verbatim>\<open>expires_at <= ?\<close> in \<^verbatim>\<open>SettleRounds\<close>,
  \<^verbatim>\<open>created_at < ?\<close> in the two prune statements, \<^verbatim>\<open>ORDER BY created_at\<close>).

  An instant is a number of nanoseconds. The text of an instant is its second, printed in the
  fixed-width form \<^verbatim>\<open>2006-01-02T15:04:05\<close>, followed by the fraction: nothing for a whole
  second, else a dot and the nine nanosecond digits without their trailing zeros, then the letter Z.
  For the years 0 to 9999 the fixed-width part orders as the number of the second does, so
  \<open>stamp\<close> keeps that number; the fraction is kept as the bytes that are printed.
\<close>

type_synonym time = int
type_synonym duration = int
type_synonym stamp = "int \<times> string"

definition digit_char :: "nat \<Rightarrow> char" where
  "digit_char n = char_of (48 + n)"

definition char_digit :: "char \<Rightarrow> nat" where
  "char_digit c = of_char c - 48"

fun digits :: "nat \<Rightarrow> nat \<Rightarrow> nat list" where
  "digits 0 n = []"
| "digits (Suc w) n = digits w (n div 10) @ [n mod 10]"

definition undigits :: "nat list \<Rightarrow> nat" where
  "undigits ds = foldl (\<lambda>a d. 10 * a + d) 0 ds"

definition trim_zeros :: "nat list \<Rightarrow> nat list" where
  "trim_zeros ds = rev (dropWhile (\<lambda>d. d = 0) (rev ds))"

definition frac_digits :: "nat \<Rightarrow> nat list" where
  "frac_digits n = trim_zeros (digits 9 n)"

definition frac_text :: "nat \<Rightarrow> string" where
  "frac_text n = (if n = 0 then ''Z'' else ''.'' @ map digit_char (frac_digits n) @ ''Z'')"

definition timestamp :: "time \<Rightarrow> stamp" where
  "timestamp t = (t div 1000000000, frac_text (nat (t mod 1000000000)))"

fun parse_frac :: "string \<Rightarrow> nat option" where
  "parse_frac s =
     (if s = ''Z'' then Some 0
      else case s of [] \<Rightarrow> None
           | c # r \<Rightarrow>
               (if c = CHR ''.'' \<and> r \<noteq> [] \<and> last r = CHR ''Z'' \<and> length r \<le> 10
                then let ds = map char_digit (butlast r)
                     in Some (undigits ds * 10 ^ (9 - length ds))
                else None))"

definition parseTimestamp :: "stamp \<Rightarrow> time option" where
  "parseTimestamp s = map_option (\<lambda>n. fst s * 1000000000 + int n) (parse_frac (snd s))"

text \<open>
  SQLite compares text bytewise and a proper prefix comes first, which is the library's
  lexicographic order on strings; on \<open>stamp\<close> it is the lexicographic order on pairs.
\<close>

definition stamp_less :: "stamp \<Rightarrow> stamp \<Rightarrow> bool" where
  "stamp_less a b = (a < b)"

definition stamp_le :: "stamp \<Rightarrow> stamp \<Rightarrow> bool" where
  "stamp_le a b = (a \<le> b)"

section \<open>Digits\<close>

lemma length_digits [simp]: "length (digits w n) = w"
  by (induction w arbitrary: n) simp_all

lemma digits_numeral:
  "digits (numeral k) n = digits (pred_numeral k) (n div 10) @ [n mod 10]"
  by (subst numeral_eq_Suc) (rule digits.simps(2))

lemma undigits_append: "undigits (xs @ [d]) = 10 * undigits xs + d"
  by (simp add: undigits_def)

lemma undigits_digits: "n < 10 ^ w \<Longrightarrow> undigits (digits w n) = n"
proof (induction w arbitrary: n)
  case 0
  then show ?case by (simp add: undigits_def)
next
  case (Suc w)
  then have "undigits (digits w (n div 10)) = n div 10"
    by (simp add: less_mult_imp_div_less mult.commute)
  then show ?case by (simp add: undigits_append)
qed

lemma digits_lt_10: "d \<in> set (digits w n) \<Longrightarrow> d < 10"
  by (induction w arbitrary: n) auto

lemma trim_zeros_pad: "trim_zeros ds @ replicate (length ds - length (trim_zeros ds)) 0 = ds"
proof (induction ds rule: rev_induct)
  case Nil
  then show ?case by (simp add: trim_zeros_def)
next
  case (snoc d ds)
  show ?case
  proof (cases "d = 0")
    case True
    then have same: "trim_zeros (ds @ [d]) = trim_zeros ds"
      by (simp add: trim_zeros_def)
    have "length (trim_zeros ds) \<le> length ds"
      by (metis snoc.IH length_append le_add1)
    then have "length (ds @ [d]) - length (trim_zeros ds)
        = Suc (length ds - length (trim_zeros ds))" by simp
    then show ?thesis using snoc.IH True same
      by (simp add: replicate_append_same [symmetric])
  next
    case False
    then show ?thesis by (simp add: trim_zeros_def)
  qed
qed

lemma length_trim_zeros: "length (trim_zeros ds) \<le> length ds"
  by (metis trim_zeros_pad length_append le_add1)

lemma undigits_pad: "undigits (ds @ replicate k 0) = undigits ds * 10 ^ k"
proof (induction k)
  case 0
  then show ?case by simp
next
  case (Suc k)
  have "undigits (ds @ replicate (Suc k) 0) = undigits ((ds @ replicate k 0) @ [0])"
    by (simp add: replicate_append_same)
  also have "\<dots> = 10 * undigits (ds @ replicate k 0) + 0"
    by (simp only: undigits_append)
  finally show ?case using Suc.IH by simp
qed

lemma frac_digits_value:
  assumes "n < 1000000000"
  shows "undigits (frac_digits n) * 10 ^ (9 - length (frac_digits n)) = n"
proof -
  have "n = undigits (digits 9 n)"
    using assms by (simp add: undigits_digits)
  also have "\<dots> = undigits (frac_digits n @ replicate (9 - length (frac_digits n)) 0)"
    using trim_zeros_pad [of "digits 9 n"] by (simp add: frac_digits_def)
  finally show ?thesis by (simp add: undigits_pad)
qed

lemma char_digit_char [simp]: "d < 10 \<Longrightarrow> char_digit (digit_char d) = d"
  by (simp add: char_digit_def digit_char_def)

lemma frac_digits_lt_10: "d \<in> set (frac_digits n) \<Longrightarrow> d < 10"
proof -
  assume "d \<in> set (frac_digits n)"
  then have "d \<in> set (digits 9 n)"
    unfolding frac_digits_def trim_zeros_def by (auto dest: set_dropWhileD)
  then show "d < 10" by (rule digits_lt_10)
qed

lemma parse_frac_text:
  assumes "n < 1000000000"
  shows "parse_frac (frac_text n) = Some n"
proof (cases "n = 0")
  case True
  then show ?thesis by (simp add: frac_text_def)
next
  case False
  have ds: "map char_digit (map digit_char (frac_digits n)) = frac_digits n"
    by (auto intro!: map_idI dest: frac_digits_lt_10)
  have "length (frac_digits n) \<le> 9"
    using length_trim_zeros [of "digits 9 n"] by (simp add: frac_digits_def)
  with False ds frac_digits_value [OF assms] show ?thesis
    by (simp add: frac_text_def Let_def del: map_map)
qed

section \<open>Round trip\<close>

lemma timestamp_roundtrip: "parseTimestamp (timestamp t) = Some t"
proof -
  have "nat (t mod 1000000000) < 1000000000"
    by (simp add: nat_less_iff)
  then show ?thesis
    by (simp add: parseTimestamp_def timestamp_def parse_frac_text del: parse_frac.simps)
qed

lemma timestamp_inject [simp]: "timestamp a = timestamp b \<longleftrightarrow> a = b"
  by (metis timestamp_roundtrip option.inject)

section \<open>Text order against time order\<close>

text \<open>Text comparison is exact for instants in different seconds.\<close>

lemma stamp_less_seconds:
  assumes "a div 1000000000 \<noteq> b div 1000000000"
  shows "stamp_less (timestamp a) (timestamp b) \<longleftrightarrow> a < b"
proof -
  have "a div 1000000000 < b div 1000000000 \<longleftrightarrow> a < b"
    using assms zdiv_mono1 [of a b 1000000000] zdiv_mono1 [of b a 1000000000] by linarith
  with assms show ?thesis
    by (auto simp: stamp_less_def timestamp_def)
qed

lemma stamp_le_seconds:
  assumes "a div 1000000000 \<noteq> b div 1000000000"
  shows "stamp_le (timestamp a) (timestamp b) \<longleftrightarrow> a \<le> b"
  using stamp_less_seconds [OF assms] assms by (auto simp: stamp_le_def stamp_less_def order.order_iff_strict)

text \<open>So a text comparison is off by less than a second.\<close>

lemma stamp_le_bound: "stamp_le (timestamp a) (timestamp b) \<Longrightarrow> a < b + 1000000000"
  by (cases "a div 1000000000 = b div 1000000000") (auto simp: stamp_le_seconds)

lemma stamp_le_complete: "a + 1000000000 \<le> b \<Longrightarrow> stamp_le (timestamp a) (timestamp b)"
  by (cases "a div 1000000000 = b div 1000000000") (auto simp: stamp_le_seconds)

lemma stamp_less_bound: "stamp_less (timestamp a) (timestamp b) \<Longrightarrow> a < b + 1000000000"
  using stamp_le_bound by (simp add: stamp_le_def stamp_less_def)

lemma stamp_less_complete: "a + 1000000000 \<le> b \<Longrightarrow> stamp_less (timestamp a) (timestamp b)"
  using stamp_le_complete [of a b] by (auto simp: stamp_le_def stamp_less_def order.order_iff_strict)

end
