(* ===== verification/Store_Types.thy ===== *)
theory Store_Types
  imports Timestamps
begin

text \<open>
  The persistence boundary of the messaging fabric (\<^verbatim>\<open>src/internal/store\<close>): its
  records, errors and pure helpers, and the database behind it
  (\<^verbatim>\<open>src/internal/sqlite/migrations\<close>). A Go struct is a record with one field per Go
  field; a pointer field is an \<open>option\<close>; the string-valued state columns that a CHECK constraint
  restricts to a fixed set are datatypes. The integer columns are 64-bit counters that start at 0 or
  1 and only ever grow by 1 per transaction, so they are \<open>int\<close>.
\<close>

section \<open>Constants\<close>

abbreviation CapabilityDeliverWhenIdle :: string where
  "CapabilityDeliverWhenIdle \<equiv> ''deliver_when_idle''"
abbreviation CapabilityDurableNextTurn :: string where
  "CapabilityDurableNextTurn \<equiv> ''durable_next_turn''"
abbreviation CapabilityWakeInactive :: string where
  "CapabilityWakeInactive \<equiv> ''wake_inactive''"
abbreviation CapabilityPendingNotice :: string where
  "CapabilityPendingNotice \<equiv> ''pending_notification''"
abbreviation CapabilityDeliverNextStep :: string where
  "CapabilityDeliverNextStep \<equiv> ''deliver_next_step''"

abbreviation AvailabilityBusy :: string where "AvailabilityBusy \<equiv> ''busy''"
abbreviation AvailabilityIdle :: string where "AvailabilityIdle \<equiv> ''idle''"
abbreviation AvailabilityInactive :: string where "AvailabilityInactive \<equiv> ''inactive''"

abbreviation PolicyNextTurn :: string where "PolicyNextTurn \<equiv> ''next_turn''"
abbreviation PolicyNextStep :: string where "PolicyNextStep \<equiv> ''next_step''"
abbreviation PolicyNoWake :: string where "PolicyNoWake \<equiv> ''no_wake''"

abbreviation SeatTextCharter :: string where "SeatTextCharter \<equiv> ''charter''"
abbreviation SeatTextHandoff :: string where "SeatTextHandoff \<equiv> ''handoff''"

abbreviation SeatVacant :: string where "SeatVacant \<equiv> ''vacant''"
abbreviation SeatHeld :: string where "SeatHeld \<equiv> ''held''"
abbreviation SeatStale :: string where "SeatStale \<equiv> ''stale''"
abbreviation SeatRetired :: string where "SeatRetired \<equiv> ''retired''"

abbreviation HoldingLeft :: string where "HoldingLeft \<equiv> ''left''"
abbreviation HoldingLeftWithoutHandoff :: string where
  "HoldingLeftWithoutHandoff \<equiv> ''left_without_handoff''"
abbreviation HoldingRelieved :: string where "HoldingRelieved \<equiv> ''relieved''"
abbreviation HoldingRetired :: string where "HoldingRetired \<equiv> ''retired''"

abbreviation SeatNoticeSender :: string where "SeatNoticeSender \<equiv> ''fabric/seats''"

definition NormalizePolicy :: "string \<Rightarrow> string \<times> bool" where
  "NormalizePolicy policy =
     (if policy = '''' \<or> policy = PolicyNextTurn \<or> policy = ''wake_when_idle''
      then (PolicyNextTurn, True)
      else if policy = PolicyNextStep then (PolicyNextStep, True)
      else if policy = PolicyNoWake \<or> policy = ''never_wake'' then (PolicyNoWake, True)
      else ('''', False))"

section \<open>Seat addresses\<close>

definition seatChar :: "char \<Rightarrow> bool" where
  "seatChar c =
     (let n = of_char c :: nat in (97 \<le> n \<and> n \<le> 122) \<or> (48 \<le> n \<and> n \<le> 57) \<or> c = CHR ''-'')"

definition seatPart :: "string \<Rightarrow> bool" where
  "seatPart value = (value \<noteq> '''' \<and> list_all seatChar value)"

definition IsSeatAddress :: "string \<Rightarrow> bool" where
  "IsSeatAddress address =
     (case Cut CHR ''.'' address of (scope, name, ok) \<Rightarrow> ok \<and> seatPart scope \<and> seatPart name)"

definition SeatScope :: "string \<Rightarrow> string" where
  "SeatScope address =
     (if \<not> IsSeatAddress address then ''''
      else case Cut CHR ''.'' address of (scope, _, _) \<Rightarrow> scope)"

section \<open>Records\<close>

record adapter_lease =
  al_adapter_id :: string
  al_instance_id :: string
  al_lease_token :: string
  al_expires_at :: time

record binding =
  b_address :: string
  b_bound :: bool
  b_adapter_id :: string
  b_target_ref :: string
  b_capabilities :: "string list"
  b_revision :: int
  b_generation :: int

record message =
  m_producer_id :: string
  m_operation_id :: string
  m_message_id :: string
  m_sender_address :: string
  m_recipient_address :: string
  m_body :: string
  m_correlation_id :: string
  m_reply_to_message_id :: string
  m_activation_policy :: string
  m_created_at :: time
  m_expires_at :: time
  m_sender_generation :: int
  m_recipient_generation :: int
  m_sender_session :: string
  m_sender_holding_id :: int
  m_sender_charter_version :: int

datatype delivery_state =
  Queued | Claimed | Dispatching | Delivered | Failed | Expired | Cancelled | OutcomeUnknown

fun state_name :: "delivery_state \<Rightarrow> string" where
  "state_name Queued = ''queued''"
| "state_name Claimed = ''claimed''"
| "state_name Dispatching = ''dispatching''"
| "state_name Delivered = ''delivered''"
| "state_name Failed = ''failed''"
| "state_name Expired = ''expired''"
| "state_name Cancelled = ''cancelled''"
| "state_name OutcomeUnknown = ''outcome_unknown''"

definition terminal_state :: "delivery_state \<Rightarrow> bool" where
  "terminal_state s = (s \<in> {Delivered, Failed, Expired, Cancelled, OutcomeUnknown})"

record delivery =
  d_delivery_id :: string
  d_message_id :: string
  d_recipient_address :: string
  d_recipient_generation :: int
  d_accepted_sequence :: int
  d_state :: delivery_state
  d_attempt_count :: int
  d_claim_owner_adapter_id :: string
  d_claim_owner_instance_id :: string
  d_claim_token :: string
  d_claim_expires_at :: "time option"
  d_claimed_at :: "time option"
  d_dispatch_action :: string
  d_native_attempt_ref :: string
  d_dispatching_at :: "time option"
  d_claim_holding_id :: int
  d_terminal_reason :: string
  d_created_at :: time
  d_expires_at :: time
  d_terminal_at :: "time option"

datatype round_status = RPending | RReplied | RExpired | RCancelled | RFailed

record round =
  r_round_id :: string
  r_producer_id :: string
  r_operation_id :: string
  r_root_message_id :: string
  r_sender_address :: string
  r_recipient_address :: string
  r_sender_generation :: int
  r_recipient_generation :: int
  r_correlation_id :: string
  r_status :: round_status
  r_reply_message_id :: string
  r_created_at :: time
  r_expires_at :: time
  r_terminal_at :: "time option"
  r_terminal_reason :: string
  r_revision :: int

record holding =
  h_seat_address :: string
  h_holding_id :: int
  h_seat_generation :: int
  h_holder_address :: string
  h_holder_adapter_id :: string
  h_holder_generation :: int
  h_started_at :: time
  h_start_note :: string
  h_ended_at :: "time option"
  h_end_reason :: string
  h_end_note :: string
  h_relieved_by :: int
  h_stale :: bool
  h_stale_reason :: string
  h_stale_since :: "time option"

record seat_text =
  st_seat_address :: string
  st_kind :: string
  st_version :: int
  st_body :: string
  st_length :: int
  st_set_at :: time
  st_set_by_address :: string
  st_set_by_adapter_id :: string
  st_set_by_seats :: "string list"
  st_holding_id :: int

record seat =
  s_address :: string
  s_generation :: int
  s_state :: string
  s_holding :: "holding option"
  s_charter_version :: int
  s_charter_summary :: string
  s_handoff_version :: int
  s_queued_mail :: int
  s_created_at :: time
  s_created_by :: string
  s_charter :: "seat_text option"
  s_handoff :: "seat_text option"

section \<open>Errors\<close>

text \<open>
  \<open>ErrSQL\<close> is a violated constraint or trigger of the schema; \<open>ErrInternal\<close> is an error the
  code builds with \<^verbatim>\<open>fmt.Errorf\<close> and no sentinel.
\<close>

datatype store_error =
    ErrNotFound
  | ErrConflict
  | ErrStaleRevision
  | ErrLeaseExpired
  | ErrLeaseFenced
  | ErrNotBound
  | ErrAdapterMismatch
  | ErrClaimFenced
  | ErrOperationConflict
  | ErrReplyOriginalNotFound
  | ErrReplySenderMismatch
  | ErrReplyRecipientMismatch
  | ErrReplyGenerationMismatch
  | SeatHeldError holding
  | ErrSeatVacant
  | ErrNotHolder
  | ErrSeatNotFound
  | ErrSeatRetired
  | VersionConflictError int
  | ErrVersionPruned
  | ErrVersionNotFound
  | ErrSQL string
  | ErrInternal string

section \<open>Printing\<close>

text \<open>\<^verbatim>\<open>fmt\<close>'s \<^verbatim>\<open>%d\<close>, and the notice texts.\<close>

fun dec_nat :: "nat \<Rightarrow> string" where
  "dec_nat n = (if n < 10 then [digit_char n] else dec_nat (n div 10) @ [digit_char (n mod 10)])"

declare dec_nat.simps [simp del]

definition dec :: "int \<Rightarrow> string" where
  "dec n = (if n < 0 then ''-'' @ dec_nat (nat (- n)) else dec_nat (nat n))"

definition ReliefNoticeBody :: "string \<Rightarrow> holding \<Rightarrow> string \<Rightarrow> string" where
  "ReliefNoticeBody st hold note =
     ''You no longer hold the seat '' @ st @ '': '' @ h_holder_address hold @ '' ('' @
     h_holder_adapter_id hold @ '') relieved you. Messages you send as '' @ st @
     '' will be refused. Its charter, handoff and holdings stay readable with `seat show '' @ st @ ''`.'' @
     (if note \<noteq> '''' then CHR 0x0A # ''Their note: '' @ note else '''')"

fun Join :: "string list \<Rightarrow> string \<Rightarrow> string" where
  "Join [] sep = ''''"
| "Join [x] sep = x"
| "Join (x # y # r) sep = x @ sep @ Join (y # r) sep"

definition CharterNoticeBody :: "string \<Rightarrow> seat_text \<Rightarrow> string" where
  "CharterNoticeBody st txt =
     (let by1 = st_set_by_address txt @ '' ('' @ st_set_by_adapter_id txt @ '')'';
          by2 = (if length (st_set_by_seats txt) > 0
                 then by1 @ '', holding '' @ Join (st_set_by_seats txt) '', '' else by1)
      in ''The charter of your seat '' @ st @ '' was changed by '' @ by2 @ '' (version '' @
         dec (st_version txt) @ ''). Read it with `seat show '' @ st @ ''`.'')"

section \<open>Requests and results\<close>

record submit_request =
  sm_producer_id :: string
  sm_lease_token :: string
  sm_operation_id :: string
  sm_fingerprint :: string
  sm_message_id :: string
  sm_delivery_id :: string
  sm_sender_address :: string
  sm_recipient_address :: string
  sm_body :: string
  sm_correlation_id :: string
  sm_reply_to_message_id :: string
  sm_activation_policy :: string
  sm_expires_at :: time
  sm_expected_sender_generation :: "int option"
  sm_expected_recipient_generation :: "int option"
  sm_as_seat :: string

record submit_result =
  sr_message :: message
  sr_delivery :: delivery
  sr_replayed :: bool

record begin_round_result =
  br_round :: "round option"
  br_message :: message
  br_delivery :: delivery
  br_replayed :: bool

record claim_result =
  cr_claimed :: bool
  cr_reason :: string
  cr_message :: "message option"
  cr_delivery :: "delivery option"
  cr_head :: "delivery option"
  cr_claim_token :: string
  cr_dispatch_action :: string
  cr_holder_address :: string
  cr_replayed :: bool

text \<open>A zero \<^verbatim>\<open>Delivery\<close> (the field a claim leaves unset) is \<open>None\<close>.\<close>

record delivery_op_result =
  do_claim :: claim_result
  do_delivery :: "delivery option"
  do_not_inserted_reason :: string
  do_replayed :: bool

record delivery_op_request =
  dq_kind :: string
  dq_adapter_id :: string
  dq_lease_token :: string
  dq_operation_id :: string
  dq_fingerprint :: string
  dq_address :: string
  dq_generation :: int
  dq_availability :: string
  dq_claim_duration :: duration
  dq_generated_claim_token :: string
  dq_delivery_id :: string
  dq_claim_token :: string
  dq_native_attempt_ref :: string
  dq_failure_reason :: string

record seat_op_request =
  sq_kind :: string
  sq_adapter_id :: string
  sq_lease_token :: string
  sq_operation_id :: string
  sq_fingerprint :: string
  sq_session_address :: string
  sq_seat_address :: string
  sq_note :: string
  sq_text_kind :: string
  sq_body :: string
  sq_expected_version :: "int option"
  sq_keep_versions :: int
  sq_notice_message_id :: string
  sq_notice_delivery_id :: string
  sq_notice_expires_at :: time

record seat_op_result =
  so_seat :: seat
  so_holding :: "holding option"
  so_previous_holding :: "holding option"
  so_text :: "seat_text option"
  so_notice_message_id :: string
  so_replayed :: bool

section \<open>The database\<close>

text \<open>
  One list of rows per table, in rowid order. A JSON column holds the value it encodes. The
  AUTOINCREMENT counter of \<^verbatim>\<open>deliveries\<close> is \<open>delivery_seq\<close>.
\<close>

record lease_row =
  lr_adapter_id :: string
  lr_instance_id :: string
  lr_lease_token :: string
  lr_expires_at :: time
  lr_updated_at :: time

record binding_row =
  bw_address :: string
  bw_adapter_id :: "string option"
  bw_target_ref :: "string option"
  bw_capabilities :: "string list"
  bw_revision :: int
  bw_generation :: int
  bw_updated_at :: time

record message_row =
  mr_message :: message
  mr_request_fingerprint :: string

record 'a receipt_row =
  rc_adapter_id :: string
  rc_operation_id :: string
  rc_kind :: string
  rc_fingerprint :: string
  rc_result :: 'a
  rc_created_at :: time

record seat_row =
  sw_address :: string
  sw_generation :: int
  sw_retired :: bool
  sw_current :: "int option"
  sw_last_holding :: int
  sw_charter_version :: int
  sw_handoff_version :: int
  sw_created_at :: time
  sw_created_by :: string
  sw_updated_at :: time

record seat_text_row =
  tw_seat_address :: string
  tw_kind :: string
  tw_version :: int
  tw_body :: string
  tw_set_at :: time
  tw_set_by_address :: string
  tw_set_by_adapter_id :: string
  tw_set_by_seats :: "string list"
  tw_holding_id :: "int option"

record db =
  leases :: "lease_row list"
  bindings :: "binding_row list"
  messages :: "message_row list"
  deliveries :: "delivery list"
  delivery_seq :: int
  rounds :: "round list"
  receipts :: "delivery_op_result receipt_row list"
  seats :: "seat_row list"
  holdings :: "holding list"
  texts :: "seat_text_row list"
  seat_receipts :: "seat_op_result receipt_row list"

definition empty_db :: db where
  "empty_db = \<lparr>leases = [], bindings = [], messages = [], deliveries = [], delivery_seq = 0,
     rounds = [], receipts = [], seats = [], holdings = [], texts = [], seat_receipts = []\<rparr>"

type_synonym 'a tx = "store_error + 'a \<times> db"

section \<open>Facts about the helpers\<close>

lemma IsSeatAddress_iff:
  "IsSeatAddress a \<longleftrightarrow>
     (\<exists>scope name. a = scope @ CHR ''.'' # name \<and> seatPart scope \<and> seatPart name)"
proof
  assume "IsSeatAddress a"
  then obtain scope name where "Cut CHR ''.'' a = (scope, name, True)"
    and "seatPart scope" "seatPart name"
    by (auto simp: IsSeatAddress_def split: prod.splits)
  then show "\<exists>scope name. a = scope @ CHR ''.'' # name \<and> seatPart scope \<and> seatPart name"
    using Cut_found by blast
next
  assume "\<exists>scope name. a = scope @ CHR ''.'' # name \<and> seatPart scope \<and> seatPart name"
  then obtain scope name where a: "a = scope @ CHR ''.'' # name" "seatPart scope" "seatPart name"
    by blast
  then have "CHR ''.'' \<notin> set scope"
    by (auto simp: seatPart_def seatChar_def list_all_iff Let_def)
  with a show "IsSeatAddress a"
    by (simp add: IsSeatAddress_def Cut_append)
qed

lemma NormalizePolicy_idem:
  "NormalizePolicy p = (q, True) \<Longrightarrow> NormalizePolicy q = (q, True)"
  by (auto simp: NormalizePolicy_def split: if_splits)

lemma terminal_state_simps [simp]:
  "terminal_state Queued = False"
  "terminal_state Claimed = False"
  "terminal_state Dispatching = False"
  "terminal_state Delivered = True"
  "terminal_state Failed = True"
  "terminal_state Expired = True"
  "terminal_state Cancelled = True"
  "terminal_state OutcomeUnknown = True"
  by (simp_all add: terminal_state_def)

lemma dec_nat_nonempty: "dec_nat n \<noteq> []"
  by (subst dec_nat.simps) simp

lemma digit_char_inject: "a < 10 \<Longrightarrow> b < 10 \<Longrightarrow> digit_char a = digit_char b \<longleftrightarrow> a = b"
  by (metis char_digit_char)

lemma dec_nat_inject: "dec_nat m = dec_nat n \<Longrightarrow> m = n"
proof (induction m arbitrary: n rule: dec_nat.induct)
  case (1 m)
  show ?case
  proof (cases "m < 10 \<or> n < 10")
    case True
    then show ?thesis
      using "1.prems" dec_nat_nonempty
      by (auto simp: dec_nat.simps [of m] dec_nat.simps [of n] digit_char_inject
            append_eq_Cons_conv Cons_eq_append_conv split: if_splits)
  next
    case False
    with "1.prems" have "dec_nat (m div 10) = dec_nat (n div 10)"
      and "digit_char (m mod 10) = digit_char (n mod 10)"
      by (simp_all add: dec_nat.simps [of m] dec_nat.simps [of n])
    with False "1.IH" have "m div 10 = n div 10" and "m mod 10 = n mod 10"
      by (auto simp: digit_char_inject)
    then show ?thesis by (metis div_mult_mod_eq)
  qed
qed

lemma dec_inject: "0 \<le> a \<Longrightarrow> 0 \<le> b \<Longrightarrow> dec a = dec b \<Longrightarrow> a = b"
  by (auto simp: dec_def dest: dec_nat_inject)

end
