(* ===== verification/Directory.thy ===== *)
theory Directory
  imports Store_Types
begin

text \<open>
  The directory of the fabric (\<^verbatim>\<open>src/internal/sqlite/store.go\<close>, first half): fenced
  adapter leases and address bindings. Every operation is one transaction.
\<close>

section \<open>Leases\<close>

record register_request =
  rg_adapter_id :: string
  rg_instance_id :: string
  rg_lease_token :: string
  rg_previous_lease_token :: string
  rg_expires_at :: time

record renew_request =
  rn_adapter_id :: string
  rn_lease_token :: string
  rn_expires_at :: time

definition leaseRow :: "db \<Rightarrow> string \<Rightarrow> lease_row option" where
  "leaseRow d adapter = sel1 (\<lambda>r. lr_adapter_id r = adapter) (leases d)"

definition RegisterAdapter :: "time \<Rightarrow> register_request \<Rightarrow> db \<Rightarrow> adapter_lease tx" where
  "RegisterAdapter now q d =
     (let lease = (\<lambda>token. \<lparr>al_adapter_id = rg_adapter_id q, al_instance_id = rg_instance_id q,
                     al_lease_token = token, al_expires_at = rg_expires_at q\<rparr>)
      in case leaseRow d (rg_adapter_id q) of
        None \<Rightarrow>
          Inr (lease (rg_lease_token q),
               d\<lparr>leases := leases d @ [\<lparr>lr_adapter_id = rg_adapter_id q,
                  lr_instance_id = rg_instance_id q, lr_lease_token = rg_lease_token q,
                  lr_expires_at = rg_expires_at q, lr_updated_at = now\<rparr>]\<rparr>)
      | Some row \<Rightarrow>
          if lr_instance_id row = rg_instance_id q
          then Inr (lease (lr_lease_token row),
                    d\<lparr>leases := upd (\<lambda>r. lr_adapter_id r = rg_adapter_id q)
                        (\<lambda>r. r\<lparr>lr_expires_at := rg_expires_at q, lr_updated_at := now\<rparr>) (leases d)\<rparr>)
          else if lr_expires_at row > now \<and> rg_previous_lease_token q \<noteq> lr_lease_token row
          then Inl ErrLeaseFenced
          else Inr (lease (rg_lease_token q),
                    d\<lparr>leases := upd (\<lambda>r. lr_adapter_id r = rg_adapter_id q)
                        (\<lambda>r. r\<lparr>lr_instance_id := rg_instance_id q, lr_lease_token := rg_lease_token q,
                               lr_expires_at := rg_expires_at q, lr_updated_at := now\<rparr>) (leases d)\<rparr>))"

definition currentLease :: "db \<Rightarrow> time \<Rightarrow> string \<Rightarrow> string \<Rightarrow> store_error + adapter_lease" where
  "currentLease d now adapterID token =
     (case leaseRow d adapterID of
        None \<Rightarrow> Inl ErrLeaseFenced
      | Some row \<Rightarrow>
          if lr_lease_token row \<noteq> token then Inl ErrLeaseFenced
          else if \<not> lr_expires_at row > now then Inl ErrLeaseExpired
          else Inr \<lparr>al_adapter_id = lr_adapter_id row, al_instance_id = lr_instance_id row,
                    al_lease_token = lr_lease_token row, al_expires_at = lr_expires_at row\<rparr>)"

definition RenewAdapter :: "time \<Rightarrow> renew_request \<Rightarrow> db \<Rightarrow> adapter_lease tx" where
  "RenewAdapter now q d =
     bindR (currentLease d now (rn_adapter_id q) (rn_lease_token q)) (\<lambda>lease.
       Inr (lease\<lparr>al_expires_at := rn_expires_at q\<rparr>,
            d\<lparr>leases := upd (\<lambda>r. lr_adapter_id r = rn_adapter_id q)
                (\<lambda>r. r\<lparr>lr_expires_at := rn_expires_at q, lr_updated_at := now\<rparr>) (leases d)\<rparr>))"

definition adapterLeaseLive :: "db \<Rightarrow> time \<Rightarrow> string \<Rightarrow> bool" where
  "adapterLeaseLive d now adapterID =
     (if adapterID = '''' then False
      else case leaseRow d adapterID of None \<Rightarrow> False | Some row \<Rightarrow> lr_expires_at row > now)"

section \<open>Bindings\<close>

definition scanBinding :: "binding_row \<Rightarrow> binding" where
  "scanBinding row =
     \<lparr>b_address = bw_address row, b_bound = (bw_adapter_id row \<noteq> None),
      b_adapter_id = (case bw_adapter_id row of None \<Rightarrow> '''' | Some a \<Rightarrow> a),
      b_target_ref = (case bw_target_ref row of None \<Rightarrow> '''' | Some a \<Rightarrow> a),
      b_capabilities = bw_capabilities row,
      b_revision = bw_revision row, b_generation = bw_generation row\<rparr>"

definition readBinding :: "db \<Rightarrow> string \<Rightarrow> binding option" where
  "readBinding d address =
     map_option scanBinding (sel1 (\<lambda>r. bw_address r = address) (bindings d))"

record put_binding_request =
  pb_address :: string
  pb_actor_adapter_id :: string
  pb_lease_token :: string
  pb_adapter_id :: string
  pb_target_ref :: string
  pb_capabilities :: "string list"
  pb_expected_revision :: "int option"

record unbind_request =
  ub_address :: string
  ub_actor_adapter_id :: string
  ub_lease_token :: string
  ub_expected_revision :: int

record sender_fence_request =
  sf_adapter_id :: string
  sf_lease_token :: string
  sf_sender_address :: string

definition PutBinding :: "time \<Rightarrow> put_binding_request \<Rightarrow> db \<Rightarrow> binding tx" where
  "PutBinding now q d =
     bindR (currentLease d now (pb_actor_adapter_id q) (pb_lease_token q)) (\<lambda>_.
     case readBinding d (pb_address q) of
       None \<Rightarrow>
         (if pb_expected_revision q \<noteq> None then Inl ErrStaleRevision
          else if pb_actor_adapter_id q \<noteq> pb_adapter_id q then Inl ErrAdapterMismatch
          else Inr (\<lparr>b_address = pb_address q, b_bound = True, b_adapter_id = pb_adapter_id q,
                     b_target_ref = pb_target_ref q, b_capabilities = pb_capabilities q,
                     b_revision = 1, b_generation = 1\<rparr>,
                    d\<lparr>bindings := bindings d @ [\<lparr>bw_address = pb_address q,
                       bw_adapter_id = Some (pb_adapter_id q), bw_target_ref = Some (pb_target_ref q),
                       bw_capabilities = pb_capabilities q, bw_revision = 1, bw_generation = 1,
                       bw_updated_at = now\<rparr>]\<rparr>))
     | Some existing \<Rightarrow>
         (case pb_expected_revision q of
            None \<Rightarrow> Inl ErrConflict
          | Some expected \<Rightarrow>
              if expected \<noteq> b_revision existing then Inl ErrStaleRevision
              else if b_bound existing \<and> b_adapter_id existing \<noteq> pb_actor_adapter_id q
              then Inl ErrAdapterMismatch
              else
                (let generation =
                       (if \<not> b_bound existing \<or> b_adapter_id existing \<noteq> pb_adapter_id q
                           \<or> b_target_ref existing \<noteq> pb_target_ref q
                        then b_generation existing + 1 else b_generation existing)
                 in Inr (\<lparr>b_address = b_address existing, b_bound = True, b_adapter_id = pb_adapter_id q,
                          b_target_ref = pb_target_ref q, b_capabilities = pb_capabilities q,
                          b_revision = b_revision existing + 1, b_generation = generation\<rparr>,
                         d\<lparr>bindings := upd (\<lambda>r. bw_address r = b_address existing)
                            (\<lambda>r. r\<lparr>bw_adapter_id := Some (pb_adapter_id q),
                                   bw_target_ref := Some (pb_target_ref q),
                                   bw_capabilities := pb_capabilities q,
                                   bw_revision := b_revision existing + 1,
                                   bw_generation := generation, bw_updated_at := now\<rparr>)
                            (bindings d)\<rparr>))))"

definition Unbind :: "time \<Rightarrow> unbind_request \<Rightarrow> db \<Rightarrow> binding tx" where
  "Unbind now q d =
     bindR (currentLease d now (ub_actor_adapter_id q) (ub_lease_token q)) (\<lambda>_.
     bindR (ok_or ErrNotFound (readBinding d (ub_address q))) (\<lambda>existing.
       if \<not> b_bound existing then Inl ErrNotBound
       else if b_revision existing \<noteq> ub_expected_revision q then Inl ErrStaleRevision
       else if b_adapter_id existing \<noteq> ub_actor_adapter_id q then Inl ErrAdapterMismatch
       else Inr (\<lparr>b_address = b_address existing, b_bound = False, b_adapter_id = '''',
                  b_target_ref = '''', b_capabilities = [],
                  b_revision = b_revision existing + 1, b_generation = b_generation existing + 1\<rparr>,
                 d\<lparr>bindings := upd (\<lambda>r. bw_address r = b_address existing)
                    (\<lambda>r. r\<lparr>bw_adapter_id := None, bw_target_ref := None, bw_capabilities := [],
                           bw_revision := b_revision existing + 1,
                           bw_generation := b_generation existing + 1, bw_updated_at := now\<rparr>)
                    (bindings d)\<rparr>)))"

definition Resolve :: "string \<Rightarrow> db \<Rightarrow> store_error + binding" where
  "Resolve address d = ok_or ErrNotFound (readBinding d address)"

definition ListBindings :: "db \<Rightarrow> binding list" where
  "ListBindings d = map scanBinding (sort_key bw_address (bindings d))"

definition FenceSender :: "time \<Rightarrow> sender_fence_request \<Rightarrow> db \<Rightarrow> binding tx" where
  "FenceSender now q d =
     bindR (currentLease d now (sf_adapter_id q) (sf_lease_token q)) (\<lambda>_.
     bindR (ok_or ErrNotFound (readBinding d (sf_sender_address q))) (\<lambda>binding.
       if \<not> b_bound binding then Inl ErrNotBound
       else if b_adapter_id binding \<noteq> sf_adapter_id q then Inl ErrAdapterMismatch
       else Inr (binding, d)))"

definition ownedBinding :: "db \<Rightarrow> string \<Rightarrow> string \<Rightarrow> store_error + binding" where
  "ownedBinding d address adapterID =
     bindR (ok_or ErrNotFound (readBinding d address)) (\<lambda>binding.
       if \<not> b_bound binding then Inl ErrNotBound
       else if b_adapter_id binding \<noteq> adapterID then Inl ErrAdapterMismatch
       else Inr binding)"

end
