(* ===== verification/Ledger.thy ===== *)
theory Ledger
  imports Directory
begin

text \<open>
  The statements the store issues against \<^verbatim>\<open>messages\<close>, \<^verbatim>\<open>deliveries\<close> and
  \<^verbatim>\<open>rounds\<close> (\<^verbatim>\<open>src/internal/sqlite/store.go\<close>,
  \<^verbatim>\<open>delivery.go\<close>, \<^verbatim>\<open>round.go\<close>), with the keys, CHECK constraints, foreign
  keys and triggers of the schema: a statement that violates one is \<open>ErrSQL\<close> and its transaction
  rolls back. The second half holds what every such statement keeps: the ledger invariant, and the
  relation along which delivery and round rows move.
\<close>

section \<open>Reads\<close>

definition publicDelivery :: "delivery \<Rightarrow> delivery" where
  "publicDelivery v = v\<lparr>d_claim_token := ''''\<rparr>"

definition readMessage :: "db \<Rightarrow> string \<Rightarrow> message option" where
  "readMessage d messageID =
     map_option mr_message (sel1 (\<lambda>r. m_message_id (mr_message r) = messageID) (messages d))"

definition readDelivery :: "db \<Rightarrow> string \<Rightarrow> delivery option" where
  "readDelivery d deliveryID = sel1 (\<lambda>r. d_delivery_id r = deliveryID) (deliveries d)"

definition readDeliveryByMessage :: "db \<Rightarrow> string \<Rightarrow> delivery option" where
  "readDeliveryByMessage d messageID = sel1 (\<lambda>r. d_message_id r = messageID) (deliveries d)"

definition readRound :: "db \<Rightarrow> string \<Rightarrow> round option" where
  "readRound d roundID = sel1 (\<lambda>r. r_round_id r = roundID) (rounds d)"

definition readRoundByRoot :: "db \<Rightarrow> string \<Rightarrow> round option" where
  "readRoundByRoot d rootID = sel1 (\<lambda>r. r_root_message_id r = rootID) (rounds d)"

section \<open>Schema\<close>

definition message_check :: "message \<Rightarrow> bool" where
  "message_check m = (m_activation_policy m \<in> {PolicyNextTurn, PolicyNextStep, PolicyNoWake})"

definition delivery_check :: "delivery \<Rightarrow> bool" where
  "delivery_check v =
     ((\<not> terminal_state (d_state v) \<and> d_terminal_reason v = '''' \<and> d_terminal_at v = None) \<or>
      (terminal_state (d_state v) \<and> d_terminal_at v \<noteq> None))"

definition round_check :: "round \<Rightarrow> bool" where
  "round_check v =
     ((r_status v = RPending \<and> r_reply_message_id v = '''' \<and> r_terminal_at v = None
        \<and> r_terminal_reason v = '''') \<or>
      (r_status v = RReplied \<and> r_reply_message_id v \<noteq> '''' \<and> r_terminal_at v \<noteq> None) \<or>
      (r_status v \<in> {RExpired, RCancelled, RFailed} \<and> r_terminal_at v \<noteq> None))"

definition message_ids :: "db \<Rightarrow> string list" where
  "message_ids d = map (\<lambda>r. m_message_id (mr_message r)) (messages d)"

definition insertMessage :: "message \<Rightarrow> string \<Rightarrow> db \<Rightarrow> store_error + db" where
  "insertMessage m fp d =
     (if m_message_id m \<in> set (message_ids d) then Inl (ErrSQL ''messages.message_id'')
      else if list_ex (\<lambda>r. m_producer_id (mr_message r) = m_producer_id m
                 \<and> m_operation_id (mr_message r) = m_operation_id m) (messages d)
      then Inl (ErrSQL ''messages.producer_id, messages.operation_id'')
      else if \<not> message_check m then Inl (ErrSQL ''messages CHECK'')
      else Inr (d\<lparr>messages := messages d @ [\<lparr>mr_message = m, mr_request_fingerprint = fp\<rparr>]\<rparr>))"

definition queuedDelivery ::
  "string \<Rightarrow> string \<Rightarrow> string \<Rightarrow> int \<Rightarrow> int \<Rightarrow> time \<Rightarrow> time \<Rightarrow> delivery" where
  "queuedDelivery deliveryID messageID address generation sequence created expires =
     \<lparr>d_delivery_id = deliveryID, d_message_id = messageID, d_recipient_address = address,
      d_recipient_generation = generation, d_accepted_sequence = sequence, d_state = Queued,
      d_attempt_count = 0, d_claim_owner_adapter_id = '''', d_claim_owner_instance_id = '''',
      d_claim_token = '''', d_claim_expires_at = None, d_claimed_at = None, d_dispatch_action = '''',
      d_native_attempt_ref = '''', d_dispatching_at = None, d_claim_holding_id = 0,
      d_terminal_reason = '''', d_created_at = created, d_expires_at = expires,
      d_terminal_at = None\<rparr>"

definition insertDelivery ::
  "string \<Rightarrow> string \<Rightarrow> string \<Rightarrow> int \<Rightarrow> time \<Rightarrow> time \<Rightarrow> db \<Rightarrow> delivery tx" where
  "insertDelivery deliveryID messageID address generation created expires d =
     (let v = queuedDelivery deliveryID messageID address generation (delivery_seq d + 1) created expires
      in if messageID \<notin> set (message_ids d) then Inl (ErrSQL ''FOREIGN KEY deliveries.message_id'')
         else if list_ex (\<lambda>r. d_delivery_id r = deliveryID) (deliveries d)
         then Inl (ErrSQL ''deliveries.delivery_id'')
         else if list_ex (\<lambda>r. d_message_id r = messageID) (deliveries d)
         then Inl (ErrSQL ''deliveries.message_id'')
         else Inr (v, d\<lparr>deliveries := deliveries d @ [v], delivery_seq := delivery_seq d + 1\<rparr>))"

definition updateDeliveries ::
  "(delivery \<Rightarrow> bool) \<Rightarrow> (delivery \<Rightarrow> delivery) \<Rightarrow> db \<Rightarrow> store_error + db" where
  "updateDeliveries P f d =
     (if list_ex (\<lambda>r. P r \<and> terminal_state (d_state r)) (deliveries d)
      then Inl (ErrSQL ''terminal deliveries are immutable'')
      else if list_ex (\<lambda>r. P r \<and> \<not> delivery_check (f r)) (deliveries d)
      then Inl (ErrSQL ''deliveries CHECK'')
      else Inr (d\<lparr>deliveries := upd P f (deliveries d)\<rparr>))"

definition insertRound :: "round \<Rightarrow> db \<Rightarrow> store_error + db" where
  "insertRound v d =
     (if list_ex (\<lambda>r. r_round_id r = r_round_id v) (rounds d) then Inl (ErrSQL ''rounds.round_id'')
      else if list_ex (\<lambda>r. r_root_message_id r = r_root_message_id v) (rounds d)
      then Inl (ErrSQL ''rounds.root_message_id'')
      else if list_ex (\<lambda>r. r_producer_id r = r_producer_id v \<and> r_operation_id r = r_operation_id v) (rounds d)
      then Inl (ErrSQL ''rounds.producer_id, rounds.operation_id'')
      else if r_root_message_id v \<notin> set (message_ids d)
      then Inl (ErrSQL ''FOREIGN KEY rounds.root_message_id'')
      else if \<not> round_check v then Inl (ErrSQL ''rounds CHECK'')
      else Inr (d\<lparr>rounds := rounds d @ [v]\<rparr>))"

definition updateRounds :: "(round \<Rightarrow> bool) \<Rightarrow> (round \<Rightarrow> round) \<Rightarrow> db \<Rightarrow> store_error + db" where
  "updateRounds P f d =
     (if list_ex (\<lambda>r. P r \<and> r_status r \<noteq> RPending) (rounds d)
      then Inl (ErrSQL ''terminal rounds are immutable'')
      else if list_ex (\<lambda>r. P r \<and> \<not> round_check (f r)) (rounds d) then Inl (ErrSQL ''rounds CHECK'')
      else if list_ex (\<lambda>r. P r \<and> r_reply_message_id (f r) \<noteq> ''''
                 \<and> r_reply_message_id (f r) \<notin> set (message_ids d)) (rounds d)
      then Inl (ErrSQL ''FOREIGN KEY rounds.reply_message_id'')
      else Inr (d\<lparr>rounds := upd P f (rounds d)\<rparr>))"

section \<open>Terminal transitions\<close>

definition terminalizeRound ::
  "time \<Rightarrow> string \<Rightarrow> round_status \<Rightarrow> string \<Rightarrow> string \<Rightarrow> db \<Rightarrow> store_error + db" where
  "terminalizeRound now roundID status reason replyID d =
     updateRounds (\<lambda>r. r_round_id r = roundID \<and> r_status r = RPending)
       (\<lambda>r. r\<lparr>r_status := status, r_reply_message_id := replyID, r_terminal_at := Some now,
              r_terminal_reason := reason, r_revision := r_revision r + 1\<rparr>) d"

fun bridge_status :: "delivery_state \<Rightarrow> round_status option" where
  "bridge_status Failed = Some RFailed"
| "bridge_status Expired = Some RExpired"
| "bridge_status Cancelled = Some RCancelled"
| "bridge_status _ = None"

definition bridgeRoundDeliveryTerminal ::
  "time \<Rightarrow> string \<Rightarrow> delivery_state \<Rightarrow> string \<Rightarrow> db \<Rightarrow> store_error + db" where
  "bridgeRoundDeliveryTerminal now deliveryID state reason d =
     (case bridge_status state of
        None \<Rightarrow> Inr d
      | Some status \<Rightarrow>
          (case readDelivery d deliveryID of
             None \<Rightarrow> Inr d
           | Some v \<Rightarrow>
               (case readRoundByRoot d (d_message_id v) of
                  None \<Rightarrow> Inr d
                | Some round \<Rightarrow>
                    if r_status round \<noteq> RPending then Inr d
                    else terminalizeRound now (r_round_id round) status reason '''' d)))"

definition terminalize ::
  "time \<Rightarrow> string \<Rightarrow> delivery_state \<Rightarrow> string \<Rightarrow> db \<Rightarrow> store_error + db" where
  "terminalize now deliveryID state reason d =
     bindR (updateDeliveries (\<lambda>r. d_delivery_id r = deliveryID)
       (\<lambda>r. r\<lparr>d_state := state, d_terminal_reason := reason, d_terminal_at := Some now\<rparr>) d)
       (bridgeRoundDeliveryTerminal now deliveryID state reason)"

text \<open>The SET clause that returns a claimed row to the queue.\<close>

definition unclaim :: "delivery \<Rightarrow> delivery" where
  "unclaim r = r\<lparr>d_state := Queued, d_claim_owner_adapter_id := '''', d_claim_owner_instance_id := '''',
     d_claim_token := '''', d_claim_expires_at := None, d_claimed_at := None, d_dispatch_action := ''''\<rparr>"

section \<open>The ledger invariant\<close>

text \<open>
  Messages and deliveries are written in lockstep, so the \<open>i\<close>-th delivery is the one delivery of the
  \<open>i\<close>-th message, and its accepted sequence number is \<open>i + 1\<close>. A queued delivery has no claim.
\<close>

definition delivery_of :: "message_row \<Rightarrow> delivery \<Rightarrow> bool" where
  "delivery_of m v =
     (d_message_id v = m_message_id (mr_message m) \<and>
      d_recipient_address v = m_recipient_address (mr_message m) \<and>
      d_recipient_generation v = m_recipient_generation (mr_message m) \<and>
      d_created_at v = m_created_at (mr_message m) \<and>
      d_expires_at v = m_expires_at (mr_message m))"

definition claim_shape :: "delivery \<Rightarrow> bool" where
  "claim_shape v =
     ((d_state v = Queued \<longrightarrow>
         d_claim_owner_adapter_id v = '''' \<and> d_claim_owner_instance_id v = '''' \<and>
         d_claim_token v = '''' \<and> d_claim_expires_at v = None \<and> d_claimed_at v = None \<and>
         d_dispatch_action v = '''') \<and>
      (d_state v = Claimed \<longrightarrow> d_claim_expires_at v \<noteq> None \<and> d_claimed_at v \<noteq> None) \<and>
      (d_state v = Dispatching \<longrightarrow> d_dispatching_at v \<noteq> None))"

definition messages_inv :: "db \<Rightarrow> bool" where
  "messages_inv d =
     (distinct (message_ids d) \<and>
      distinct (map (\<lambda>r. (m_producer_id (mr_message r), m_operation_id (mr_message r))) (messages d)) \<and>
      (\<forall>r\<in>set (messages d). message_check (mr_message r)))"

definition deliveries_inv :: "db \<Rightarrow> bool" where
  "deliveries_inv d =
     (0 \<le> delivery_seq d \<and> list_all2 delivery_of (messages d) (deliveries d) \<and>
      distinct (map d_delivery_id (deliveries d)) \<and>
      map d_accepted_sequence (deliveries d) = [1..delivery_seq d] \<and>
      (\<forall>v\<in>set (deliveries d). delivery_check v \<and> claim_shape v))"

definition rounds_inv :: "db \<Rightarrow> bool" where
  "rounds_inv d =
     (distinct (map r_round_id (rounds d)) \<and> distinct (map r_root_message_id (rounds d)) \<and>
      distinct (map (\<lambda>r. (r_producer_id r, r_operation_id r)) (rounds d)) \<and>
      (\<forall>r\<in>set (rounds d). round_check r \<and> r_root_message_id r \<in> set (message_ids d) \<and>
         (r_reply_message_id r = '''' \<or> r_reply_message_id r \<in> set (message_ids d))))"

definition ledger_inv :: "db \<Rightarrow> bool" where
  "ledger_inv d = (messages_inv d \<and> deliveries_inv d \<and> rounds_inv d)"

section \<open>How rows move\<close>

text \<open>
  \<open>delivery_moves E\<close>: a write keeps the identity of a delivery, moves its state along \<open>E\<close> or not
  at all, never lowers its attempt count, and leaves a terminal row exactly as it is.
\<close>

definition delivery_moves ::
  "(delivery_state \<Rightarrow> delivery_state \<Rightarrow> bool) \<Rightarrow> delivery \<Rightarrow> delivery \<Rightarrow> bool" where
  "delivery_moves E r r' =
     (d_delivery_id r' = d_delivery_id r \<and> d_message_id r' = d_message_id r \<and>
      d_recipient_address r' = d_recipient_address r \<and>
      d_recipient_generation r' = d_recipient_generation r \<and>
      d_accepted_sequence r' = d_accepted_sequence r \<and>
      d_created_at r' = d_created_at r \<and> d_expires_at r' = d_expires_at r \<and>
      d_attempt_count r \<le> d_attempt_count r' \<and>
      (d_state r' = d_state r \<or> E (d_state r) (d_state r')) \<and>
      (terminal_state (d_state r) \<longrightarrow> r' = r))"

definition round_moves :: "round \<Rightarrow> round \<Rightarrow> bool" where
  "round_moves r r' =
     (r_round_id r' = r_round_id r \<and> r_root_message_id r' = r_root_message_id r \<and>
      r_producer_id r' = r_producer_id r \<and> r_operation_id r' = r_operation_id r \<and>
      r_sender_address r' = r_sender_address r \<and> r_recipient_address r' = r_recipient_address r \<and>
      r_created_at r' = r_created_at r \<and> r_expires_at r' = r_expires_at r \<and>
      r_revision r \<le> r_revision r' \<and>
      (r_status r \<noteq> RPending \<longrightarrow> r' = r))"

interpretation dm: evolving "delivery_moves E" for E
  by unfold_locales (simp add: delivery_moves_def)

lemma delivery_moves_trans:
  assumes "transp E" and "delivery_moves E a b" and "delivery_moves E b c"
  shows "delivery_moves E a c"
proof -
  have "d_state c = d_state a \<or> E (d_state a) (d_state c)"
    using assms by (auto simp: delivery_moves_def dest: transpD)
  moreover have "terminal_state (d_state a) \<longrightarrow> c = a"
    using assms by (auto simp: delivery_moves_def)
  ultimately show ?thesis
    using assms(2,3) by (auto simp: delivery_moves_def)
qed

lemma delivery_moves_mono:
  "delivery_moves E a b \<Longrightarrow> (\<And>s s'. E s s' \<Longrightarrow> F s s') \<Longrightarrow> delivery_moves F a b"
  by (auto simp: delivery_moves_def)

lemma delivery_evolves_trans:
  assumes "transp E" and "evolves (delivery_moves E) t u" and "evolves (delivery_moves E) u v"
  shows "evolves (delivery_moves E) t v"
proof -
  have "evolving_trans (delivery_moves E)"
    using delivery_moves_trans [OF assms(1)] by unfold_locales
  then show ?thesis using assms(2,3) by (rule evolving_trans.evolves_trans)
qed

interpretation rm: evolving_trans round_moves
  by unfold_locales (auto simp: round_moves_def)

text \<open>Messages are only ever appended.\<close>

interpretation mm: evolving_trans "(=) :: message_row \<Rightarrow> message_row \<Rightarrow> bool"
  by unfold_locales auto

section \<open>Frames\<close>

text \<open>The tables that no message, delivery or round statement writes.\<close>

definition same_rest :: "db \<Rightarrow> db \<Rightarrow> bool" where
  "same_rest d d' =
     (leases d' = leases d \<and> bindings d' = bindings d \<and> receipts d' = receipts d \<and>
      seats d' = seats d \<and> holdings d' = holdings d \<and> texts d' = texts d \<and>
      seat_receipts d' = seat_receipts d)"

lemma same_rest_refl [simp]: "same_rest d d"
  by (simp add: same_rest_def)

lemma same_rest_trans [trans]: "same_rest a b \<Longrightarrow> same_rest b c \<Longrightarrow> same_rest a c"
  by (simp add: same_rest_def)

lemma updateDeliveries_Inr:
  assumes "updateDeliveries P f d = Inr d'"
  shows "d' = d\<lparr>deliveries := upd P f (deliveries d)\<rparr>"
    and "\<And>r. r \<in> set (deliveries d) \<Longrightarrow> P r \<Longrightarrow> \<not> terminal_state (d_state r)"
    and "\<And>r. r \<in> set (deliveries d) \<Longrightarrow> P r \<Longrightarrow> delivery_check (f r)"
  using assms by (auto simp: updateDeliveries_def list_ex_iff split: if_splits)

lemma updateRounds_Inr:
  assumes "updateRounds P f d = Inr d'"
  shows "d' = d\<lparr>rounds := upd P f (rounds d)\<rparr>"
    and "\<And>r. r \<in> set (rounds d) \<Longrightarrow> P r \<Longrightarrow> r_status r = RPending"
    and "\<And>r. r \<in> set (rounds d) \<Longrightarrow> P r \<Longrightarrow> round_check (f r)"
    and "\<And>r. r \<in> set (rounds d) \<Longrightarrow> P r \<Longrightarrow> r_reply_message_id (f r) \<noteq> '''' \<Longrightarrow>
           r_reply_message_id (f r) \<in> set (message_ids d)"
  using assms by (auto simp: updateRounds_def list_ex_iff split: if_splits)

lemma message_ids_cong [simp]:
  "message_ids (d\<lparr>deliveries := x\<rparr>) = message_ids d"
  "message_ids (d\<lparr>rounds := y\<rparr>) = message_ids d"
  "message_ids (d\<lparr>delivery_seq := z\<rparr>) = message_ids d"
  by (simp_all add: message_ids_def)

section \<open>Statements keep the invariant\<close>

lemma deliveries_inv_upd:
  assumes inv: "deliveries_inv d"
    and moves: "\<And>r. r \<in> set (deliveries d) \<Longrightarrow> P r \<Longrightarrow> delivery_moves E r (f r)"
    and checks: "\<And>r. r \<in> set (deliveries d) \<Longrightarrow> P r \<Longrightarrow> delivery_check (f r) \<and> claim_shape (f r)"
  shows "deliveries_inv (d\<lparr>deliveries := upd P f (deliveries d)\<rparr>)"
proof -
  let ?t = "deliveries d"
  have "list_all2 delivery_of (messages d) (upd P f ?t)"
    using inv moves by (auto simp: deliveries_inv_def upd_def list_all2_conv_all_nth
        delivery_of_def delivery_moves_def)
  moreover have "map d_delivery_id (upd P f ?t) = map d_delivery_id ?t"
    and "map d_accepted_sequence (upd P f ?t) = map d_accepted_sequence ?t"
    using moves by (auto simp: upd_def delivery_moves_def)
  ultimately show ?thesis
    using inv checks by (auto simp: deliveries_inv_def set_upd)
qed

lemma updateDeliveries_inv:
  assumes "updateDeliveries P f d = Inr d'" and "ledger_inv d"
    and "\<And>r. r \<in> set (deliveries d) \<Longrightarrow> P r \<Longrightarrow> \<not> terminal_state (d_state r) \<Longrightarrow>
           delivery_moves E r (f r) \<and> claim_shape (f r)"
  shows "ledger_inv d'" and "evolves (delivery_moves E) (deliveries d) (deliveries d')"
    and "same_rest d d'" and "messages d' = messages d" and "rounds d' = rounds d"
proof -
  note upd = updateDeliveries_Inr [OF assms(1)]
  have "deliveries_inv d'"
    unfolding upd(1) using assms(2,3) upd(2,3)
    by (intro deliveries_inv_upd) (auto simp: ledger_inv_def)
  then show "ledger_inv d'"
    using assms(2) upd(1) by (simp add: ledger_inv_def messages_inv_def rounds_inv_def)
  show "evolves (delivery_moves E) (deliveries d) (deliveries d')"
    using assms(3) upd by (auto intro: dm.evolves_upd)
qed (use updateDeliveries_Inr(1) [OF assms(1)] in \<open>auto simp: same_rest_def\<close>)

lemma rounds_inv_upd:
  assumes inv: "rounds_inv d"
    and moves: "\<And>r. r \<in> set (rounds d) \<Longrightarrow> P r \<Longrightarrow> round_moves r (f r)"
    and checks: "\<And>r. r \<in> set (rounds d) \<Longrightarrow> P r \<Longrightarrow> round_check (f r) \<and>
          (r_reply_message_id (f r) = '''' \<or> r_reply_message_id (f r) \<in> set (message_ids d))"
  shows "rounds_inv (d\<lparr>rounds := upd P f (rounds d)\<rparr>)"
proof -
  have "map r_round_id (upd P f (rounds d)) = map r_round_id (rounds d)"
    and "map r_root_message_id (upd P f (rounds d)) = map r_root_message_id (rounds d)"
    and "map (\<lambda>r. (r_producer_id r, r_operation_id r)) (upd P f (rounds d))
         = map (\<lambda>r. (r_producer_id r, r_operation_id r)) (rounds d)"
    using moves by (auto simp: upd_def round_moves_def)
  moreover have "r_root_message_id (f r) = r_root_message_id r" if "r \<in> set (rounds d)" "P r" for r
    using moves [OF that] by (simp add: round_moves_def)
  ultimately show ?thesis
    using inv checks by (auto simp: rounds_inv_def set_upd)
qed

lemma terminalizeRound_inv:
  assumes "terminalizeRound now roundID status reason replyID d = Inr d'"
  shows "ledger_inv d \<Longrightarrow> ledger_inv d'" and "evolves round_moves (rounds d) (rounds d')"
    and "same_rest d d'" and "messages d' = messages d" and "deliveries d' = deliveries d"
    and "delivery_seq d' = delivery_seq d"
proof -
  note u = assms [unfolded terminalizeRound_def]
  note upd = updateRounds_Inr [OF u]
  have mv: "round_moves r (r\<lparr>r_status := status, r_reply_message_id := replyID,
      r_terminal_at := Some now, r_terminal_reason := reason, r_revision := r_revision r + 1\<rparr>)"
    if "r_status r = RPending" for r
    using that by (simp add: round_moves_def)
  show "evolves round_moves (rounds d) (rounds d')"
    unfolding upd(1) by (auto intro!: rm.evolves_upd mv)
  show "ledger_inv d'" if "ledger_inv d"
  proof -
    have "rounds_inv d'"
      unfolding upd(1) using that upd(3,4) by (intro rounds_inv_upd) (auto simp: ledger_inv_def mv)
    then show ?thesis
      using that upd(1) by (simp add: ledger_inv_def messages_inv_def deliveries_inv_def)
  qed
qed (use updateRounds_Inr(1) [OF assms [unfolded terminalizeRound_def]] in \<open>auto simp: same_rest_def\<close>)

lemma bridge_inv:
  assumes "bridgeRoundDeliveryTerminal now deliveryID state reason d = Inr d'"
  shows "ledger_inv d \<Longrightarrow> ledger_inv d'" and "evolves round_moves (rounds d) (rounds d')"
    and "same_rest d d'" and "messages d' = messages d" and "deliveries d' = deliveries d"
    and "delivery_seq d' = delivery_seq d"
  using assms unfolding bridgeRoundDeliveryTerminal_def
  by (auto split: option.splits if_splits intro: rm.evolves_refl dest: terminalizeRound_inv)

lemma terminalize_inv:
  assumes t: "terminalize now deliveryID state reason d = Inr d'" and inv: "ledger_inv d"
    and E: "\<And>r. r \<in> set (deliveries d) \<Longrightarrow> d_delivery_id r = deliveryID \<Longrightarrow> E (d_state r) state"
    and st: "terminal_state state"
  shows "ledger_inv d'" and "evolves (delivery_moves E) (deliveries d) (deliveries d')"
    and "evolves round_moves (rounds d) (rounds d')"
    and "same_rest d d'" and "messages d' = messages d"
proof -
  let ?f = "\<lambda>r. r\<lparr>d_state := state, d_terminal_reason := reason, d_terminal_at := Some now\<rparr>"
  obtain d1 where u: "updateDeliveries (\<lambda>r. d_delivery_id r = deliveryID) ?f d = Inr d1"
    and b: "bridgeRoundDeliveryTerminal now deliveryID state reason d1 = Inr d'"
    using t by (auto simp: terminalize_def)
  have step: "delivery_moves E r (?f r) \<and> claim_shape (?f r)"
    if "r \<in> set (deliveries d)" "d_delivery_id r = deliveryID" "\<not> terminal_state (d_state r)" for r
    using that E st by (auto simp: delivery_moves_def claim_shape_def)
  note w = updateDeliveries_inv [where E = E, OF u inv step]
  show "ledger_inv d'" using bridge_inv(1) [OF b] w(1) by blast
  show "evolves (delivery_moves E) (deliveries d) (deliveries d')"
    using w(2) bridge_inv(5) [OF b] by simp
  show "evolves round_moves (rounds d) (rounds d')"
    using w(5) bridge_inv(2) [OF b] by simp
  show "same_rest d d'" using w(3) bridge_inv(3) [OF b] by (rule same_rest_trans)
  show "messages d' = messages d" using w(4) bridge_inv(4) [OF b] by simp
qed

section \<open>Ledger steps\<close>

text \<open>
  The contract of every transaction towards the ledger: deliveries move along \<open>E\<close>, rounds resolve
  at most once, messages are only appended, and nothing is deleted.
\<close>

definition ledger_step :: "(delivery_state \<Rightarrow> delivery_state \<Rightarrow> bool) \<Rightarrow> db \<Rightarrow> db \<Rightarrow> bool" where
  "ledger_step E d d' =
     (evolves (delivery_moves E) (deliveries d) (deliveries d') \<and>
      evolves round_moves (rounds d) (rounds d') \<and>
      evolves (=) (messages d) (messages d'))"

definition no_moves :: "delivery_state \<Rightarrow> delivery_state \<Rightarrow> bool" where
  "no_moves s s' = False"

lemma transp_no_moves [simp]: "transp no_moves"
  by (simp add: no_moves_def transp_def)

lemma ledger_step_refl [simp]: "ledger_step E d d"
  by (simp add: ledger_step_def dm.evolves_refl rm.evolves_refl mm.evolves_refl)

lemma ledger_step_same:
  "messages d' = messages d \<Longrightarrow> deliveries d' = deliveries d \<Longrightarrow> rounds d' = rounds d \<Longrightarrow>
   ledger_step E d d'"
  by (simp add: ledger_step_def dm.evolves_refl rm.evolves_refl mm.evolves_refl)

lemma ledger_step_trans:
  "transp E \<Longrightarrow> ledger_step E a b \<Longrightarrow> ledger_step E b c \<Longrightarrow> ledger_step E a c"
  unfolding ledger_step_def
  by (blast intro: delivery_evolves_trans rm.evolves_trans mm.evolves_trans)

lemma ledger_step_mono:
  "ledger_step E a b \<Longrightarrow> (\<And>s s'. E s s' \<Longrightarrow> F s s') \<Longrightarrow> ledger_step F a b"
  unfolding ledger_step_def using delivery_moves_mono by (blast intro: evolves_mono)

lemma ledger_step_no_moves: "ledger_step no_moves a b \<Longrightarrow> ledger_step E a b"
  by (erule ledger_step_mono) (simp add: no_moves_def)

lemma updateDeliveries_step:
  assumes "updateDeliveries P f d = Inr d'" and "ledger_inv d"
    and "\<And>r. r \<in> set (deliveries d) \<Longrightarrow> P r \<Longrightarrow> \<not> terminal_state (d_state r) \<Longrightarrow>
           delivery_moves E r (f r) \<and> claim_shape (f r)"
  shows "ledger_inv d' \<and> ledger_step E d d' \<and> same_rest d d'"
  using updateDeliveries_inv [where E = E, OF assms]
  by (simp add: ledger_step_def rm.evolves_refl mm.evolves_refl)

lemma terminalizeRound_step:
  assumes "terminalizeRound now roundID status reason replyID d = Inr d'"
  shows "(ledger_inv d \<longrightarrow> ledger_inv d') \<and> ledger_step E d d' \<and> same_rest d d'"
  using terminalizeRound_inv [OF assms]
  by (simp add: ledger_step_def dm.evolves_refl mm.evolves_refl)

lemma terminalize_step:
  assumes "terminalize now deliveryID state reason d = Inr d'" and "ledger_inv d"
    and "\<And>r. r \<in> set (deliveries d) \<Longrightarrow> d_delivery_id r = deliveryID \<Longrightarrow> E (d_state r) state"
    and "terminal_state state"
  shows "ledger_inv d' \<and> ledger_step E d d' \<and> same_rest d d'"
  using terminalize_inv [where E = E, OF assms]
  by (simp add: ledger_step_def mm.evolves_refl)

section \<open>Appending a message with its delivery\<close>

lemma insertMessage_Inr:
  assumes "insertMessage m fp d = Inr d'"
  shows "d' = d\<lparr>messages := messages d @ [\<lparr>mr_message = m, mr_request_fingerprint = fp\<rparr>]\<rparr>"
    and "m_message_id m \<notin> set (message_ids d)"
    and "\<And>r. r \<in> set (messages d) \<Longrightarrow>
           (m_producer_id (mr_message r), m_operation_id (mr_message r))
             \<noteq> (m_producer_id m, m_operation_id m)"
    and "message_check m"
  using assms by (auto simp: insertMessage_def list_ex_iff split: if_splits)

lemma insertDelivery_Inr:
  assumes "insertDelivery deliveryID messageID address generation created expires d = Inr (v, d')"
  shows "v = queuedDelivery deliveryID messageID address generation (delivery_seq d + 1) created expires"
    and "d' = d\<lparr>deliveries := deliveries d @ [v], delivery_seq := delivery_seq d + 1\<rparr>"
    and "deliveryID \<notin> d_delivery_id ` set (deliveries d)"
  using assms by (auto simp: insertDelivery_def list_ex_iff Let_def split: if_splits)

lemma delivery_seq_length: "deliveries_inv d \<Longrightarrow> delivery_seq d = int (length (deliveries d))"
  by (auto simp: deliveries_inv_def dest!: arg_cong [where f = length])

lemma append_ledger:
  assumes m: "insertMessage m fp d = Inr d1"
    and v: "insertDelivery deliveryID (m_message_id m) (m_recipient_address m)
              (m_recipient_generation m) (m_created_at m) (m_expires_at m) d1 = Inr (v, d2)"
  shows "ledger_inv d \<Longrightarrow> ledger_inv d2"
    and "ledger_step E d d2" and "same_rest d d2"
    and "delivery_seq d2 = delivery_seq d + 1"
    and "messages d2 = messages d @ [\<lparr>mr_message = m, mr_request_fingerprint = fp\<rparr>]"
    and "deliveries d2 = deliveries d @ [v]" and "rounds d2 = rounds d"
    and "d_state v = Queued"
proof -
  note m' = insertMessage_Inr [OF m] and v' = insertDelivery_Inr [OF v]
  show "ledger_inv d2" if inv: "ledger_inv d"
  proof -
    have "[1..delivery_seq d + 1] = [1..delivery_seq d] @ [delivery_seq d + 1]"
      using inv by (simp add: ledger_inv_def deliveries_inv_def upto_rec2)
    then have "deliveries_inv d2"
      using inv m' v' by (auto simp: ledger_inv_def deliveries_inv_def queuedDelivery_def
          delivery_of_def delivery_check_def claim_shape_def list_all2_appendI)
    moreover have "messages_inv d2"
      using inv m' v' by (fastforce simp: ledger_inv_def messages_inv_def message_ids_def)
    moreover have "rounds_inv d2"
      using inv m' v' by (auto simp: ledger_inv_def rounds_inv_def message_ids_def)
    ultimately show ?thesis by (simp add: ledger_inv_def)
  qed
qed (use insertMessage_Inr [OF m] insertDelivery_Inr [OF v] in
      \<open>auto simp: ledger_step_def same_rest_def queuedDelivery_def
         intro: dm.evolves_append rm.evolves_refl mm.evolves_append\<close>)

end
