(* ===== verification/Submission.thy ===== *)
theory Submission
  imports Ledger
begin

text \<open>
  Message acceptance and reply rounds (\<^verbatim>\<open>src/internal/sqlite/store.go\<close> second half,
  \<^verbatim>\<open>src/internal/sqlite/round.go\<close>), with the seat reads acceptance depends on
  (\<^verbatim>\<open>readSeatRow\<close>, \<^verbatim>\<open>readHolding\<close>, \<^verbatim>\<open>currentHolding\<close> of
  \<^verbatim>\<open>seat.go\<close>).
\<close>

section \<open>Seat reads\<close>

definition readSeatRow :: "db \<Rightarrow> string \<Rightarrow> seat_row option" where
  "readSeatRow d address = sel1 (\<lambda>r. sw_address r = address) (seats d)"

definition readHolding :: "db \<Rightarrow> string \<Rightarrow> int \<Rightarrow> store_error + holding" where
  "readHolding d st hid =
     ok_or (ErrInternal ''read seat holding'')
       (sel1 (\<lambda>h. h_seat_address h = st \<and> h_holding_id h = hid) (holdings d))"

definition currentHolding :: "db \<Rightarrow> string \<Rightarrow> store_error + seat_row \<times> holding option" where
  "currentHolding d address =
     bindR (ok_or ErrSeatNotFound (readSeatRow d address)) (\<lambda>row.
       if sw_retired row then Inl ErrSeatRetired
       else case sw_current row of
              None \<Rightarrow> Inr (row, None)
            | Some hid \<Rightarrow> bindR (readHolding d address hid) (\<lambda>h. Inr (row, Some h)))"

section \<open>Recipients\<close>

definition recipientForSubmit :: "db \<Rightarrow> string \<Rightarrow> store_error + int" where
  "recipientForSubmit d address =
     (if IsSeatAddress address
      then bindR (ok_or ErrSeatNotFound (readSeatRow d address)) (\<lambda>row.
             if sw_retired row then Inl ErrSeatRetired else Inr (sw_generation row))
      else bindR (ok_or ErrNotFound (readBinding d address)) (\<lambda>recipient.
             if \<not> b_bound recipient then Inl ErrNotBound else Inr (b_generation recipient)))"

text \<open>The empty reason means the work can still be delivered.\<close>

definition undeliverableReason :: "db \<Rightarrow> string \<Rightarrow> int \<Rightarrow> string" where
  "undeliverableReason d address generation =
     (if IsSeatAddress address
      then (case readSeatRow d address of
              None \<Rightarrow> ''seat_retired''
            | Some row \<Rightarrow> if sw_retired row \<or> sw_generation row \<noteq> generation then ''seat_retired'' else '''')
      else (case readBinding d address of
              None \<Rightarrow> ''recipient_unbound''
            | Some binding \<Rightarrow>
                if \<not> b_bound binding then ''recipient_unbound''
                else if b_generation binding \<noteq> generation then ''binding_generation_changed''
                else ''''))"

section \<open>Acceptance\<close>

definition validateReply :: "db \<Rightarrow> message \<Rightarrow> store_error + unit" where
  "validateReply d msg =
     (if m_reply_to_message_id msg = '''' then Inr ()
      else bindR (ok_or ErrReplyOriginalNotFound (readMessage d (m_reply_to_message_id msg))) (\<lambda>original.
        if m_sender_address msg \<noteq> m_recipient_address original then Inl ErrReplySenderMismatch
        else if m_recipient_address msg \<noteq> m_sender_address original then Inl ErrReplyRecipientMismatch
        else if m_sender_generation msg \<noteq> m_recipient_generation original
             \<or> m_recipient_generation msg \<noteq> m_sender_generation original
        then Inl ErrReplyGenerationMismatch
        else Inr ()))"

text \<open>
  Who the message is from: the sending session, or the seat it holds. The result is the sender
  address and generation of the envelope, and the session, holding and charter version behind a
  seat.
\<close>

definition senderIdentity ::
  "db \<Rightarrow> submit_request \<Rightarrow> binding \<Rightarrow> store_error + string \<times> int \<times> string \<times> int \<times> int" where
  "senderIdentity d q sender =
     (if sm_as_seat q = '''' then Inr (sm_sender_address q, b_generation sender, '''', 0, 0)
      else bindR (currentHolding d (sm_as_seat q)) (\<lambda>(row, hold).
        case hold of
          None \<Rightarrow> Inl ErrNotHolder
        | Some h \<Rightarrow>
            if h_holder_address h \<noteq> b_address sender \<or> h_holder_generation h \<noteq> b_generation sender
               \<or> h_holder_adapter_id h \<noteq> b_adapter_id sender
            then Inl ErrNotHolder
            else Inr (sw_address row, sw_generation row, b_address sender, h_holding_id h,
                      sw_charter_version row)))"

definition acceptMessage :: "time \<Rightarrow> submit_request \<Rightarrow> db \<Rightarrow> (message \<times> delivery) tx" where
  "acceptMessage now q d =
     bindR (currentLease d now (sm_producer_id q) (sm_lease_token q)) (\<lambda>_.
     bindR (ownedBinding d (sm_sender_address q) (sm_producer_id q)) (\<lambda>sender.
     bindR (senderIdentity d q sender) (\<lambda>(senderAddress, senderGeneration, senderSession, senderHolding, senderCharter).
     bindR (refuse_if (sm_expected_sender_generation q \<noteq> None
              \<and> sm_expected_sender_generation q \<noteq> Some senderGeneration) ErrStaleRevision) (\<lambda>_.
     bindR (recipientForSubmit d (sm_recipient_address q)) (\<lambda>recipientGeneration.
     bindR (refuse_if (sm_expected_recipient_generation q \<noteq> None
              \<and> sm_expected_recipient_generation q \<noteq> Some recipientGeneration) ErrStaleRevision) (\<lambda>_.
     let msg = \<lparr>m_producer_id = sm_producer_id q, m_operation_id = sm_operation_id q,
                m_message_id = sm_message_id q, m_sender_address = senderAddress,
                m_recipient_address = sm_recipient_address q, m_body = sm_body q,
                m_correlation_id = sm_correlation_id q,
                m_reply_to_message_id = sm_reply_to_message_id q,
                m_activation_policy = sm_activation_policy q, m_created_at = now,
                m_expires_at = sm_expires_at q, m_sender_generation = senderGeneration,
                m_recipient_generation = recipientGeneration, m_sender_session = senderSession,
                m_sender_holding_id = senderHolding, m_sender_charter_version = senderCharter\<rparr>
     in bindR (validateReply d msg) (\<lambda>_.
        bindR (insertMessage msg (sm_fingerprint q) d) (\<lambda>d1.
        bindR (insertDelivery (sm_delivery_id q) (sm_message_id q) (sm_recipient_address q)
                 recipientGeneration now (sm_expires_at q) d1) (\<lambda>(v, d2).
        Inr ((msg, v), d2))))))))))"

record submission =
  sub_message :: message
  sub_delivery :: delivery
  sub_fingerprint :: string

definition readSubmission :: "db \<Rightarrow> string \<Rightarrow> string \<Rightarrow> store_error + submission option" where
  "readSubmission d producerID operationID =
     (case sel1 (\<lambda>r. m_producer_id (mr_message r) = producerID
                   \<and> m_operation_id (mr_message r) = operationID) (messages d) of
        None \<Rightarrow> Inr None
      | Some row \<Rightarrow>
          (case readDeliveryByMessage d (m_message_id (mr_message row)) of
             None \<Rightarrow> Inl (ErrInternal ''message operation missing delivery'')
           | Some v \<Rightarrow> Inr (Some \<lparr>sub_message = mr_message row, sub_delivery = publicDelivery v,
                                 sub_fingerprint = mr_request_fingerprint row\<rparr>)))"

definition LookupMessageOperation :: "string \<Rightarrow> string \<Rightarrow> db \<Rightarrow> store_error + submission option" where
  "LookupMessageOperation producerID operationID d = readSubmission d producerID operationID"

definition resolveRoundReply :: "time \<Rightarrow> message \<Rightarrow> db \<Rightarrow> store_error + db" where
  "resolveRoundReply now msg d =
     (if m_reply_to_message_id msg = '''' then Inr d
      else case readRoundByRoot d (m_reply_to_message_id msg) of
             None \<Rightarrow> Inr d
           | Some round \<Rightarrow>
               if r_status round \<noteq> RPending then Inr d
               else if \<not> r_expires_at round > now
               then terminalizeRound now (r_round_id round) RExpired ''ttl_expired'' '''' d
               else terminalizeRound now (r_round_id round) RReplied ''reply_received'' (m_message_id msg) d)"

definition SubmitMessage :: "time \<Rightarrow> submit_request \<Rightarrow> db \<Rightarrow> submit_result tx" where
  "SubmitMessage now q d =
     bindR (readSubmission d (sm_producer_id q) (sm_operation_id q)) (\<lambda>existing.
       case existing of
         Some e \<Rightarrow>
           if sub_fingerprint e \<noteq> sm_fingerprint q then Inl ErrOperationConflict
           else Inr (\<lparr>sr_message = sub_message e, sr_delivery = sub_delivery e, sr_replayed = True\<rparr>, d)
       | None \<Rightarrow>
           bindR (acceptMessage now q d) (\<lambda>((msg, v), d1).
           bindR (resolveRoundReply now msg d1) (\<lambda>d2.
           Inr (\<lparr>sr_message = msg, sr_delivery = v, sr_replayed = False\<rparr>, d2))))"

section \<open>Rounds\<close>

record begin_round_request =
  bq_submit :: submit_request
  bq_round_id :: string
  bq_round_expires_at :: time

definition LookupRoundOperation ::
  "string \<Rightarrow> string \<Rightarrow> db \<Rightarrow> store_error + (string \<times> begin_round_result) option" where
  "LookupRoundOperation producerID operationID d =
     bindR (readSubmission d producerID operationID) (\<lambda>found.
       case found of
         None \<Rightarrow> Inr None
       | Some s \<Rightarrow>
           Inr (Some (sub_fingerprint s,
             \<lparr>br_round = readRoundByRoot d (m_message_id (sub_message s)),
              br_message = sub_message s, br_delivery = sub_delivery s, br_replayed = False\<rparr>)))"

definition BeginRound :: "time \<Rightarrow> begin_round_request \<Rightarrow> db \<Rightarrow> begin_round_result tx" where
  "BeginRound now q d =
     bindR (readSubmission d (sm_producer_id (bq_submit q)) (sm_operation_id (bq_submit q))) (\<lambda>existing.
       case existing of
         Some e \<Rightarrow>
           if sub_fingerprint e \<noteq> sm_fingerprint (bq_submit q) then Inl ErrOperationConflict
           else (case readRoundByRoot d (m_message_id (sub_message e)) of
                   None \<Rightarrow> Inl ErrOperationConflict
                 | Some round \<Rightarrow>
                     Inr (\<lparr>br_round = Some round, br_message = sub_message e,
                           br_delivery = sub_delivery e, br_replayed = True\<rparr>, d))
       | None \<Rightarrow>
           bindR (acceptMessage now (bq_submit q) d) (\<lambda>((msg, v), d1).
           let round = \<lparr>r_round_id = bq_round_id q, r_producer_id = sm_producer_id (bq_submit q),
                 r_operation_id = sm_operation_id (bq_submit q), r_root_message_id = m_message_id msg,
                 r_sender_address = m_sender_address msg, r_recipient_address = m_recipient_address msg,
                 r_sender_generation = m_sender_generation msg,
                 r_recipient_generation = m_recipient_generation msg,
                 r_correlation_id = m_correlation_id msg, r_status = RPending,
                 r_reply_message_id = '''', r_created_at = now, r_expires_at = bq_round_expires_at q,
                 r_terminal_at = None, r_terminal_reason = '''', r_revision = 1\<rparr>
           in bindR (insertRound round d1) (\<lambda>d2.
              Inr (\<lparr>br_round = Some round, br_message = msg, br_delivery = v, br_replayed = False\<rparr>, d2))))"

definition GetRound :: "string \<Rightarrow> db \<Rightarrow> store_error + round" where
  "GetRound roundID d = ok_or ErrNotFound (readRound d roundID)"

definition ListRounds :: "db \<Rightarrow> round list" where
  "ListRounds d = sort_key (\<lambda>r. (timestamp (r_created_at r), r_round_id r)) (rounds d)"

definition CancelRound :: "time \<Rightarrow> string \<Rightarrow> db \<Rightarrow> round tx" where
  "CancelRound now roundID d =
     bindR (ok_or ErrNotFound (readRound d roundID)) (\<lambda>round.
       if r_status round = RCancelled then Inr (round, d)
       else if r_status round \<noteq> RPending then Inl ErrConflict
       else bindR (terminalizeRound now (r_round_id round) RCancelled ''cancelled_by_request'' '''' d) (\<lambda>d1.
            bindR (ok_or ErrNotFound (readRound d1 roundID)) (\<lambda>round'. Inr (round', d1))))"

fun settleRoundRows :: "time \<Rightarrow> round list \<Rightarrow> round list \<Rightarrow> db \<Rightarrow> (round list) tx" where
  "settleRoundRows now [] settled d = Inr (settled, d)"
| "settleRoundRows now (round # rows) settled d =
     bindR (terminalizeRound now (r_round_id round) RExpired ''ttl_expired'' '''' d) (\<lambda>d1.
     bindR (ok_or ErrNotFound (readRound d1 (r_round_id round))) (\<lambda>round'.
     settleRoundRows now rows (settled @ [round']) d1))"

definition SettleRounds :: "time \<Rightarrow> db \<Rightarrow> (round list) tx" where
  "SettleRounds now d =
     settleRoundRows now
       (sort_key (\<lambda>r. (timestamp (r_created_at r), r_round_id r))
          (sel (\<lambda>r. r_status r = RPending \<and> stamp_le (timestamp (r_expires_at r)) (timestamp now)) (rounds d)))
       [] d"

section \<open>Inspection\<close>

definition GetMessage :: "string \<Rightarrow> db \<Rightarrow> store_error + message" where
  "GetMessage messageID d = ok_or ErrNotFound (readMessage d messageID)"

definition ListMessages :: "db \<Rightarrow> message list" where
  "ListMessages d =
     sort_key (\<lambda>m. (timestamp (m_created_at m), m_message_id m)) (map mr_message (messages d))"

definition GetDelivery :: "string \<Rightarrow> db \<Rightarrow> store_error + delivery" where
  "GetDelivery deliveryID d = map_sum id publicDelivery (ok_or ErrNotFound (readDelivery d deliveryID))"

definition listDeliveries :: "(delivery \<Rightarrow> bool) \<Rightarrow> db \<Rightarrow> delivery list" where
  "listDeliveries P d = map publicDelivery (sort_key d_accepted_sequence (sel P (deliveries d)))"

definition ListDeliveries :: "db \<Rightarrow> delivery list" where
  "ListDeliveries d = listDeliveries (\<lambda>_. True) d"

definition ListDispatching :: "string \<Rightarrow> nat \<Rightarrow> db \<Rightarrow> delivery list" where
  "ListDispatching adapterID limit d =
     take limit (listDeliveries (\<lambda>v. d_state v = Dispatching \<and> d_claim_owner_adapter_id v = adapterID) d)"

definition Mailbox :: "string \<Rightarrow> db \<Rightarrow> delivery list" where
  "Mailbox address d = listDeliveries (\<lambda>v. d_recipient_address v = address) d"

definition headForUpdate :: "db \<Rightarrow> string \<Rightarrow> int \<Rightarrow> delivery option" where
  "headForUpdate d address generation =
     (case sort_key d_accepted_sequence
             (sel (\<lambda>v. d_recipient_address v = address \<and> d_recipient_generation v = generation
                     \<and> \<not> terminal_state (d_state v)) (deliveries d)) of
        [] \<Rightarrow> None | v # _ \<Rightarrow> Some v)"

definition HeadDelivery :: "string \<Rightarrow> int \<Rightarrow> db \<Rightarrow> delivery option" where
  "HeadDelivery address generation d = map_option publicDelivery (headForUpdate d address generation)"

record traffic =
  tr_messages :: "message list"
  tr_deliveries :: "delivery list"
  tr_rounds :: "round list"

text \<open>The three queries of the traffic snapshot.\<close>

definition listMessagesQuery :: "db \<Rightarrow> message list" where
  "listMessagesQuery d =
     sort_key (\<lambda>m. (timestamp (m_created_at m), m_message_id m)) (map mr_message (messages d))"

definition listDeliveriesQuery :: "db \<Rightarrow> delivery list" where
  "listDeliveriesQuery d = map publicDelivery (sort_key d_accepted_sequence (deliveries d))"

definition listRoundsQuery :: "db \<Rightarrow> round list" where
  "listRoundsQuery d = sort_key (\<lambda>r. (timestamp (r_created_at r), r_round_id r)) (rounds d)"

definition Traffic :: "db \<Rightarrow> traffic" where
  "Traffic d = \<lparr>tr_messages = listMessagesQuery d, tr_deliveries = listDeliveriesQuery d,
                tr_rounds = listRoundsQuery d\<rparr>"

section \<open>Acceptance keeps the ledger\<close>

text \<open>What an accepted message is, field by field, and the authority it was accepted under.\<close>

lemma acceptMessage_Inr:
  assumes "acceptMessage now q d = Inr ((msg, v), d')"
  shows "\<exists>d1. insertMessage msg (sm_fingerprint q) d = Inr d1 \<and>
           insertDelivery (sm_delivery_id q) (m_message_id msg) (m_recipient_address msg)
             (m_recipient_generation msg) (m_created_at msg) (m_expires_at msg) d1 = Inr (v, d')"
    and "m_producer_id msg = sm_producer_id q \<and> m_operation_id msg = sm_operation_id q \<and>
         m_message_id msg = sm_message_id q \<and> m_recipient_address msg = sm_recipient_address q \<and>
         m_body msg = sm_body q \<and> m_reply_to_message_id msg = sm_reply_to_message_id q \<and>
         m_created_at msg = now \<and> m_expires_at msg = sm_expires_at q"
    and "\<exists>lease. currentLease d now (sm_producer_id q) (sm_lease_token q) = Inr lease"
    and "recipientForSubmit d (sm_recipient_address q) = Inr (m_recipient_generation msg)"
    and "\<exists>sender. ownedBinding d (sm_sender_address q) (sm_producer_id q) = Inr sender \<and>
           senderIdentity d q sender =
             Inr (m_sender_address msg, m_sender_generation msg, m_sender_session msg,
                  m_sender_holding_id msg, m_sender_charter_version msg)"
    and "validateReply d msg = Inr ()"
  using assms unfolding acceptMessage_def Let_def
  by (auto simp: bindR_Inr_iff split: prod.splits)

lemma acceptMessage_step:
  assumes "acceptMessage now q d = Inr ((msg, v), d')"
  shows "(ledger_inv d \<longrightarrow> ledger_inv d') \<and> ledger_step E d d' \<and> same_rest d d'"
    and "messages d' = messages d @ [\<lparr>mr_message = msg, mr_request_fingerprint = sm_fingerprint q\<rparr>]"
    and "deliveries d' = deliveries d @ [v]" and "rounds d' = rounds d" and "d_state v = Queued"
    and "v = queuedDelivery (sm_delivery_id q) (sm_message_id q) (sm_recipient_address q)
               (m_recipient_generation msg) (delivery_seq d + 1) now (sm_expires_at q)"
proof -
  obtain d1 where ins: "insertMessage msg (sm_fingerprint q) d = Inr d1"
      "insertDelivery (sm_delivery_id q) (m_message_id msg) (m_recipient_address msg)
         (m_recipient_generation msg) (m_created_at msg) (m_expires_at msg) d1 = Inr (v, d')"
    using acceptMessage_Inr(1) [OF assms] by blast
  note a = append_ledger [OF ins]
  show "(ledger_inv d \<longrightarrow> ledger_inv d') \<and> ledger_step E d d' \<and> same_rest d d'"
    using a(1-3) by blast
  show "messages d' = messages d @ [\<lparr>mr_message = msg, mr_request_fingerprint = sm_fingerprint q\<rparr>]"
    and "deliveries d' = deliveries d @ [v]" and "rounds d' = rounds d" and "d_state v = Queued"
    using a(5-8) by simp_all
  show "v = queuedDelivery (sm_delivery_id q) (sm_message_id q) (sm_recipient_address q)
               (m_recipient_generation msg) (delivery_seq d + 1) now (sm_expires_at q)"
    using insertDelivery_Inr(1) [OF ins(2)] insertMessage_Inr(1) [OF ins(1)]
      acceptMessage_Inr(2) [OF assms] by simp
qed

lemma resolveRoundReply_step:
  assumes "resolveRoundReply now msg d = Inr d'"
  shows "(ledger_inv d \<longrightarrow> ledger_inv d') \<and> ledger_step E d d' \<and> same_rest d d'"
    and "messages d' = messages d" and "deliveries d' = deliveries d"
  using assms terminalizeRound_step terminalizeRound_inv(4,5) unfolding resolveRoundReply_def
  by (auto split: option.splits if_splits)

text \<open>The two ways a submission succeeds.\<close>

lemma SubmitMessage_cases:
  assumes "SubmitMessage now q d = Inr (res, d')"
  obtains (replay) e where
      "readSubmission d (sm_producer_id q) (sm_operation_id q) = Inr (Some e)"
      "sub_fingerprint e = sm_fingerprint q" "d' = d"
      "res = \<lparr>sr_message = sub_message e, sr_delivery = sub_delivery e, sr_replayed = True\<rparr>"
    | (accept) msg v d1 where
      "readSubmission d (sm_producer_id q) (sm_operation_id q) = Inr None"
      "acceptMessage now q d = Inr ((msg, v), d1)" "resolveRoundReply now msg d1 = Inr d'"
      "res = \<lparr>sr_message = msg, sr_delivery = v, sr_replayed = False\<rparr>"
proof -
  from assms obtain x where x: "readSubmission d (sm_producer_id q) (sm_operation_id q) = Inr x"
    by (auto simp: SubmitMessage_def bindR_Inr_iff)
  show thesis
  proof (cases x)
    case None
    with assms x show thesis
      by (auto simp: SubmitMessage_def bindR_Inr_iff intro: accept)
  next
    case (Some e)
    with assms x show thesis
      by (auto simp: SubmitMessage_def intro: replay split: if_splits)
  qed
qed

lemma SubmitMessage_step:
  assumes "SubmitMessage now q d = Inr (res, d')"
  shows "(ledger_inv d \<longrightarrow> ledger_inv d') \<and> ledger_step no_moves d d' \<and> same_rest d d'"
  using assms
proof (cases rule: SubmitMessage_cases)
  case replay
  then show ?thesis by simp
next
  case (accept msg v d1)
  note a = acceptMessage_step(1) [OF accept(2), of no_moves]
    and r = resolveRoundReply_step(1) [OF accept(3), of no_moves]
  from a r show ?thesis
    using ledger_step_trans [OF transp_no_moves] same_rest_trans by blast
qed

section \<open>Rounds keep the ledger\<close>

lemma insertRound_Inr:
  assumes "insertRound v d = Inr d'"
  shows "d' = d\<lparr>rounds := rounds d @ [v]\<rparr>"
    and "r_round_id v \<notin> r_round_id ` set (rounds d)"
    and "r_root_message_id v \<notin> r_root_message_id ` set (rounds d)"
    and "(r_producer_id v, r_operation_id v) \<notin> (\<lambda>r. (r_producer_id r, r_operation_id r)) ` set (rounds d)"
    and "r_root_message_id v \<in> set (message_ids d)" and "round_check v"
  using assms by (auto simp: insertRound_def list_ex_iff split: if_splits)

lemma insertRound_step:
  assumes "insertRound v d = Inr d'" and "r_reply_message_id v = ''''"
  shows "(ledger_inv d \<longrightarrow> ledger_inv d') \<and> ledger_step E d d' \<and> same_rest d d'"
proof -
  note i = insertRound_Inr [OF assms(1)]
  have "rounds_inv d'" if "rounds_inv d"
    using that i assms(2) by (auto simp: rounds_inv_def)
  then show ?thesis
    using i(1) by (auto simp: ledger_inv_def messages_inv_def deliveries_inv_def ledger_step_def
        same_rest_def dm.evolves_refl mm.evolves_refl rm.evolves_append)
qed

lemma BeginRound_step:
  assumes "BeginRound now q d = Inr (res, d')"
  shows "(ledger_inv d \<longrightarrow> ledger_inv d') \<and> ledger_step no_moves d d' \<and> same_rest d d'"
proof (cases "\<exists>e. readSubmission d (sm_producer_id (bq_submit q)) (sm_operation_id (bq_submit q)) = Inr (Some e)")
  case True
  then show ?thesis
    using assms by (auto simp: BeginRound_def split: if_splits option.splits)
next
  case False
  with assms obtain msg v d1 r where a: "acceptMessage now (bq_submit q) d = Inr ((msg, v), d1)"
    and i: "insertRound r d1 = Inr d'" and r: "r_reply_message_id r = ''''"
    unfolding BeginRound_def Let_def
    by (force simp: bindR_Inr_iff split: option.splits if_splits prod.splits)
  from acceptMessage_step(1) [OF a, of no_moves] insertRound_step [OF i r, of no_moves]
  show ?thesis using ledger_step_trans [OF transp_no_moves] same_rest_trans by blast
qed

lemma CancelRound_step:
  assumes "CancelRound now roundID d = Inr (res, d')"
  shows "(ledger_inv d \<longrightarrow> ledger_inv d') \<and> ledger_step no_moves d d' \<and> same_rest d d'"
  using assms terminalizeRound_step unfolding CancelRound_def
  by (auto simp: bindR_Inr_iff split: if_splits)

lemma settleRoundRows_step:
  assumes "settleRoundRows now rows settled d = Inr (res, d')"
  shows "(ledger_inv d \<longrightarrow> ledger_inv d') \<and> ledger_step no_moves d d' \<and> same_rest d d'"
  using assms
proof (induction now rows settled d rule: settleRoundRows.induct)
  case (1 now settled d)
  then show ?case by simp
next
  case (2 now round rows settled d)
  from "2.prems" obtain d1 round' where
      t: "terminalizeRound now (r_round_id round) RExpired ''ttl_expired'' '''' d = Inr d1"
      and rd: "ok_or ErrNotFound (readRound d1 (r_round_id round)) = Inr round'"
      and rest: "settleRoundRows now rows (settled @ [round']) d1 = Inr (res, d')"
    by (auto simp: bindR_Inr_iff)
  from "2.IH" [OF t rd rest] terminalizeRound_step [OF t, of no_moves]
  show ?case using ledger_step_trans [OF transp_no_moves] same_rest_trans by blast
qed

lemma SettleRounds_step:
  assumes "SettleRounds now d = Inr (res, d')"
  shows "(ledger_inv d \<longrightarrow> ledger_inv d') \<and> ledger_step no_moves d d' \<and> same_rest d d'"
  using assms settleRoundRows_step unfolding SettleRounds_def by blast

end
