(* ===== verification/Delivery_Protocol.thy ===== *)
theory Delivery_Protocol
  imports Submission
begin

text \<open>
  The delivery protocol (\<^verbatim>\<open>src/internal/sqlite/delivery.go\<close>, and
  \<^verbatim>\<open>CancelDelivery\<close> and \<^verbatim>\<open>SettlePending\<close> of \<^verbatim>\<open>store.go\<close>):
  an adapter claims the head of a mailbox, begins dispatch, and reconciles the outcome. Each
  adapter operation leaves a receipt that an exact retry replays.
\<close>

section \<open>Claim\<close>

definition noClaim :: "string \<Rightarrow> delivery option \<Rightarrow> delivery_op_result" where
  "noClaim reason head =
     \<lparr>do_claim = \<lparr>cr_claimed = False, cr_reason = reason, cr_message = None, cr_delivery = None,
        cr_head = head, cr_claim_token = '''', cr_dispatch_action = '''', cr_holder_address = '''',
        cr_replayed = False\<rparr>,
      do_delivery = None, do_not_inserted_reason = '''', do_replayed = False\<rparr>"

definition deliveryResult :: "delivery \<Rightarrow> string \<Rightarrow> delivery_op_result" where
  "deliveryResult v reason =
     (noClaim '''' None)\<lparr>do_delivery := Some (publicDelivery v), do_not_inserted_reason := reason\<rparr>"

definition queuedInvalid :: "db \<Rightarrow> time \<Rightarrow> delivery \<Rightarrow> bool \<times> string" where
  "queuedInvalid d now v =
     (if \<not> d_expires_at v > now then (True, ''ttl_expired'')
      else let reason = undeliverableReason d (d_recipient_address v) (d_recipient_generation v)
           in (reason \<noteq> '''', reason))"

text \<open>\<open>RouteBlocked\<close> is a route with a reason; \<open>RouteThrough\<close> has the binding, holder and holding.\<close>

datatype route = RouteBlocked string | RouteThrough binding string int

definition claimRoute :: "db \<Rightarrow> delivery_op_request \<Rightarrow> store_error + route" where
  "claimRoute d q =
     (if \<not> IsSeatAddress (dq_address q)
      then bindR (ownedBinding d (dq_address q) (dq_adapter_id q)) (\<lambda>binding.
             if b_generation binding \<noteq> dq_generation q then Inl ErrConflict
             else Inr (RouteThrough binding '''' 0))
      else bindR (ok_or ErrSeatNotFound (readSeatRow d (dq_address q))) (\<lambda>row.
             if sw_retired row \<or> sw_generation row \<noteq> dq_generation q then Inl ErrConflict
             else case sw_current row of
                    None \<Rightarrow> Inr (RouteBlocked ''seat_vacant'')
                  | Some hid \<Rightarrow>
                      bindR (readHolding d (sw_address row) hid) (\<lambda>h.
                      bindR (ownedBinding d (h_holder_address h) (dq_adapter_id q)) (\<lambda>binding.
                        if b_generation binding \<noteq> h_holder_generation h
                        then Inr (RouteBlocked ''holding_stale'')
                        else Inr (RouteThrough binding (h_holder_address h) (h_holding_id h))))))"

definition claimAction :: "string \<Rightarrow> string list \<Rightarrow> string \<Rightarrow> string \<times> string" where
  "claimAction policy0 caps availability =
     (let policy = fst (NormalizePolicy policy0); has = (\<lambda>want. want \<in> set caps)
      in if policy = PolicyNoWake
         then (if availability = AvailabilityBusy \<and> has CapabilityDeliverNextStep
               then (''deliver_next_step'', '''') else ('''', ''not_eligible''))
         else if availability = AvailabilityBusy
         then (if policy = PolicyNextStep \<and> has CapabilityDeliverNextStep
               then (''deliver_next_step'', '''')
               else if has CapabilityDurableNextTurn then (''register_next_turn'', '''')
               else if has CapabilityPendingNotice then ('''', ''pending_notification'')
               else ('''', ''not_eligible''))
         else if availability = AvailabilityIdle
         then (if has CapabilityDeliverWhenIdle then (''deliver_at_idle'', '''')
               else ('''', ''not_eligible''))
         else if availability = AvailabilityInactive
         then (if has CapabilityWakeInactive then (''wake_then_deliver'', '''')
               else ('''', ''not_eligible''))
         else ('''', ''not_eligible''))"

definition claimRow :: "time \<Rightarrow> delivery_op_request \<Rightarrow> adapter_lease \<Rightarrow> int \<Rightarrow> string \<Rightarrow> delivery \<Rightarrow> delivery" where
  "claimRow now q lease holdingID action r =
     r\<lparr>d_state := Claimed, d_attempt_count := d_attempt_count r + 1,
       d_claim_owner_adapter_id := dq_adapter_id q, d_claim_owner_instance_id := al_instance_id lease,
       d_claim_token := dq_generated_claim_token q,
       d_claim_expires_at := Some (now + dq_claim_duration q), d_claimed_at := Some now,
       d_dispatch_action := action, d_claim_holding_id := holdingID\<rparr>"

text \<open>The loop of a claim ends because each round makes one more delivery terminal.\<close>

definition open_count :: "db \<Rightarrow> nat" where
  "open_count d = length (filter (\<lambda>v. \<not> terminal_state (d_state v)) (deliveries d))"

lemma headForUpdate_Some:
  assumes "headForUpdate d address generation = Some v"
  shows "v \<in> set (deliveries d)" and "d_recipient_address v = address"
    and "d_recipient_generation v = generation" and "\<not> terminal_state (d_state v)"
proof -
  let ?c = "sel (\<lambda>v. d_recipient_address v = address \<and> d_recipient_generation v = generation
                     \<and> \<not> terminal_state (d_state v)) (deliveries d)"
  from assms obtain rest where "sort_key d_accepted_sequence ?c = v # rest"
    by (auto simp: headForUpdate_def split: list.splits)
  then have "v \<in> set (sort_key d_accepted_sequence ?c)" by (metis list.set_intros(1))
  then have "v \<in> set ?c" by (simp only: set_sort)
  then show "v \<in> set (deliveries d)" and "d_recipient_address v = address"
    and "d_recipient_generation v = generation" and "\<not> terminal_state (d_state v)"
    by simp_all
qed

lemma terminalize_deliveries:
  assumes "terminalize now deliveryID state reason d = Inr d'"
  shows "deliveries d' = upd (\<lambda>r. d_delivery_id r = deliveryID)
     (\<lambda>r. r\<lparr>d_state := state, d_terminal_reason := reason, d_terminal_at := Some now\<rparr>) (deliveries d)"
  using assms bridge_inv(5) updateDeliveries_Inr(1) unfolding terminalize_def
  by (fastforce simp: bindR_Inr_iff)

lemma terminalize_messages:
  assumes "terminalize now deliveryID state reason d = Inr d'"
  shows "messages d' = messages d"
  using assms bridge_inv(4) updateDeliveries_Inr(1) unfolding terminalize_def
  by (fastforce simp: bindR_Inr_iff)

lemma terminalize_open_count:
  assumes "terminalize now (d_delivery_id v) state reason d = Inr d'"
    and "v \<in> set (deliveries d)" and "\<not> terminal_state (d_state v)" and "terminal_state state"
  shows "open_count d' < open_count d"
proof -
  let ?f = "\<lambda>r. r\<lparr>d_state := state, d_terminal_reason := reason, d_terminal_at := Some now\<rparr>"
  have "length (filter (\<lambda>x. \<not> terminal_state (d_state x)) (upd (\<lambda>r. d_delivery_id r = d_delivery_id v) ?f t))
        < length (filter (\<lambda>x. \<not> terminal_state (d_state x)) t)"
    if "v \<in> set t" for t
    using that
  proof (induction t)
    case Nil
    then show ?case by simp
  next
    case (Cons x t)
    have le: "length (filter (\<lambda>x. \<not> terminal_state (d_state x)) (upd (\<lambda>r. d_delivery_id r = d_delivery_id v) ?f u))
        \<le> length (filter (\<lambda>x. \<not> terminal_state (d_state x)) u)" for u
      using assms(4) by (induction u) auto
    show ?case
    proof (cases "x = v")
      case True
      then show ?thesis using le [of t] assms(3,4) by simp
    next
      case False
      with Cons have "length (filter (\<lambda>x. \<not> terminal_state (d_state x)) (upd (\<lambda>r. d_delivery_id r = d_delivery_id v) ?f t))
        < length (filter (\<lambda>x. \<not> terminal_state (d_state x)) t)" by simp
      then show ?thesis using assms(4) by auto
    qed
  qed
  then show ?thesis
    using assms(2) by (simp add: open_count_def terminalize_deliveries [OF assms(1)])
qed

function claimLoop ::
  "time \<Rightarrow> delivery_op_request \<Rightarrow> adapter_lease \<Rightarrow> binding \<Rightarrow> string \<Rightarrow> int \<Rightarrow> db \<Rightarrow> delivery_op_result tx" where
  "claimLoop now q lease binding holder holdingID d =
     (case headForUpdate d (dq_address q) (dq_generation q) of
        None \<Rightarrow> Inr (noClaim ''no_work'' None, d)
      | Some head \<Rightarrow>
          if d_state head \<noteq> Queued
          then Inr (noClaim (''head_'' @ state_name (d_state head)) (Some (publicDelivery head)), d)
          else if fst (queuedInvalid d now head)
          then bindR (terminalize now (d_delivery_id head)
                        (if snd (queuedInvalid d now head) = ''ttl_expired'' then Expired else Failed)
                        (snd (queuedInvalid d now head)) d)
                 (\<lambda>d1. claimLoop now q lease binding holder holdingID d1)
          else bindR (ok_or ErrNotFound (readMessage d (d_message_id head))) (\<lambda>msg.
                 case claimAction (m_activation_policy msg) (b_capabilities binding) (dq_availability q) of
                   (action, reason) \<Rightarrow>
                     if action = '''' then Inr (noClaim reason (Some (publicDelivery head)), d)
                     else bindR (updateDeliveries
                                  (\<lambda>r. d_delivery_id r = d_delivery_id head \<and> d_state r = Queued)
                                  (claimRow now q lease holdingID action) d) (\<lambda>d1.
                          bindR (ok_or ErrNotFound (readDelivery d1 (d_delivery_id head))) (\<lambda>v.
                          Inr (\<lparr>do_claim = \<lparr>cr_claimed = True, cr_reason = '''', cr_message = Some msg,
                                  cr_delivery = Some (publicDelivery v), cr_head = None,
                                  cr_claim_token = dq_generated_claim_token q,
                                  cr_dispatch_action = action, cr_holder_address = holder,
                                  cr_replayed = False\<rparr>,
                                do_delivery = None, do_not_inserted_reason = '''', do_replayed = False\<rparr>,
                               d1)))))"
  by pat_completeness auto
termination
  by (relation "measure (\<lambda>(now, q, lease, binding, holder, holdingID, d). open_count d)")
    (auto dest: headForUpdate_Some intro!: terminalize_open_count)

declare claimLoop.simps [simp del]

definition claim :: "time \<Rightarrow> delivery_op_request \<Rightarrow> db \<Rightarrow> delivery_op_result tx" where
  "claim now q d =
     bindR (currentLease d now (dq_adapter_id q) (dq_lease_token q)) (\<lambda>lease.
     bindR (claimRoute d q) (\<lambda>rt.
       case rt of
         RouteBlocked reason \<Rightarrow> Inr (noClaim reason None, d)
       | RouteThrough binding holder holdingID \<Rightarrow> claimLoop now q lease binding holder holdingID d))"

section \<open>Transitions of a claimed delivery\<close>

definition claimFence :: "db \<Rightarrow> time \<Rightarrow> delivery \<Rightarrow> delivery_op_request \<Rightarrow> store_error + adapter_lease" where
  "claimFence d now v q =
     bindR (currentLease d now (dq_adapter_id q) (dq_lease_token q)) (\<lambda>lease.
       if d_claim_owner_adapter_id v \<noteq> dq_adapter_id q
          \<or> d_claim_owner_instance_id v \<noteq> al_instance_id lease \<or> d_claim_token v \<noteq> dq_claim_token q
       then Inl ErrClaimFenced
       else case d_claim_expires_at v of
              None \<Rightarrow> Inl ErrLeaseExpired
            | Some expires \<Rightarrow> if \<not> expires > now then Inl ErrLeaseExpired else Inr lease)"

definition claimTransition :: "time \<Rightarrow> delivery_op_request \<Rightarrow> db \<Rightarrow> delivery_op_result tx" where
  "claimTransition now q d =
     bindR (ok_or ErrNotFound (readDelivery d (dq_delivery_id q))) (\<lambda>v.
     bindR (claimFence d now v q) (\<lambda>_.
     bindR (refuse_if (d_state v \<noteq> Claimed) ErrConflict) (\<lambda>_.
     bindR (if dq_kind q = ''renew''
            then updateDeliveries (\<lambda>r. d_delivery_id r = d_delivery_id v)
                   (\<lambda>r. r\<lparr>d_claim_expires_at := Some (now + dq_claim_duration q)\<rparr>) d
            else if dq_kind q = ''release''
            then updateDeliveries (\<lambda>r. d_delivery_id r = d_delivery_id v) unclaim d
            else if dq_kind q = ''begin_dispatch''
            then updateDeliveries (\<lambda>r. d_delivery_id r = d_delivery_id v)
                   (\<lambda>r. r\<lparr>d_state := Dispatching, d_native_attempt_ref := dq_native_attempt_ref q,
                          d_dispatching_at := Some now\<rparr>) d
            else terminalize now (d_delivery_id v) Failed ''adapter_failed'' d) (\<lambda>d1.
     bindR (ok_or ErrNotFound (readDelivery d1 (d_delivery_id v))) (\<lambda>v'.
     Inr (deliveryResult v' '''', d1))))))"

section \<open>Reconciliation\<close>

definition reconcile :: "time \<Rightarrow> delivery_op_request \<Rightarrow> db \<Rightarrow> delivery_op_result tx" where
  "reconcile now q d =
     bindR (ok_or ErrNotFound (readDelivery d (dq_delivery_id q))) (\<lambda>v.
     bindR (refuse_if (d_state v \<noteq> Dispatching) ErrConflict) (\<lambda>_.
     bindR (refuse_if (d_native_attempt_ref v \<noteq> dq_native_attempt_ref q) ErrClaimFenced) (\<lambda>_.
     bindR (currentLease d now (dq_adapter_id q) (dq_lease_token q)) (\<lambda>_.
     bindR (refuse_if (d_claim_owner_adapter_id v \<noteq> dq_adapter_id q) ErrAdapterMismatch) (\<lambda>_.
     let (state, reason) =
           (if dq_kind q = ''outcome_unknown'' then (OutcomeUnknown, ''native_outcome_unknown'')
            else if dq_kind q = ''fail'' then (Failed, ''native_failed'')
            else (Delivered, ''native_accepted''))
     in bindR (terminalize now (d_delivery_id v) state reason d) (\<lambda>d1.
        bindR (ok_or ErrNotFound (readDelivery d1 (d_delivery_id v))) (\<lambda>v'.
        Inr (deliveryResult v' '''', d1))))))))"

definition notInserted :: "time \<Rightarrow> delivery_op_request \<Rightarrow> db \<Rightarrow> delivery_op_result tx" where
  "notInserted now q d =
     bindR (ok_or ErrNotFound (readDelivery d (dq_delivery_id q))) (\<lambda>v.
     bindR (currentLease d now (dq_adapter_id q) (dq_lease_token q)) (\<lambda>lease.
     bindR (refuse_if (d_state v \<noteq> Dispatching) ErrConflict) (\<lambda>_.
     bindR (refuse_if (d_claim_owner_adapter_id v \<noteq> dq_adapter_id q) ErrAdapterMismatch) (\<lambda>_.
     bindR (refuse_if (d_claim_owner_instance_id v \<noteq> al_instance_id lease
              \<or> d_claim_token v \<noteq> dq_claim_token q
              \<or> d_native_attempt_ref v \<noteq> dq_native_attempt_ref q) ErrClaimFenced) (\<lambda>_.
     bindR (updateDeliveries (\<lambda>r. d_delivery_id r = d_delivery_id v \<and> d_state r = Dispatching)
              (\<lambda>r. (unclaim r)\<lparr>d_dispatching_at := None\<rparr>) d) (\<lambda>d1.
     bindR (ok_or ErrNotFound (readDelivery d1 (d_delivery_id v))) (\<lambda>v'.
     Inr (deliveryResult v' (dq_failure_reason q), d1))))))))"

section \<open>Receipts\<close>

definition lookupReceipt :: "'a receipt_row list \<Rightarrow> string \<Rightarrow> string \<Rightarrow> (string \<times> 'a) option" where
  "lookupReceipt rows adapterID operationID =
     map_option (\<lambda>r. (rc_fingerprint r, rc_result r))
       (sel1 (\<lambda>r. rc_adapter_id r = adapterID \<and> rc_operation_id r = operationID) rows)"

definition LookupDeliveryOperation ::
  "string \<Rightarrow> string \<Rightarrow> db \<Rightarrow> (string \<times> delivery_op_result) option" where
  "LookupDeliveryOperation adapterID operationID d = lookupReceipt (receipts d) adapterID operationID"

definition runDeliveryOperation :: "time \<Rightarrow> delivery_op_request \<Rightarrow> db \<Rightarrow> delivery_op_result tx" where
  "runDeliveryOperation now q d =
     (if dq_kind q = ''claim'' then claim now q d
      else if dq_kind q \<in> {''renew'', ''release'', ''begin_dispatch'', ''fail_claimed''}
      then claimTransition now q d
      else if dq_kind q \<in> {''acknowledge'', ''fail'', ''outcome_unknown''} then reconcile now q d
      else if dq_kind q = ''not_inserted'' then notInserted now q d
      else Inl (ErrInternal ''unknown delivery operation''))"

definition markReplayed :: "delivery_op_result \<Rightarrow> delivery_op_result" where
  "markReplayed r = r\<lparr>do_replayed := True, do_claim := (do_claim r)\<lparr>cr_replayed := True\<rparr>\<rparr>"

definition deliveryReceipt ::
  "time \<Rightarrow> delivery_op_request \<Rightarrow> delivery_op_result \<Rightarrow> delivery_op_result receipt_row" where
  "deliveryReceipt now q res =
     \<lparr>rc_adapter_id = dq_adapter_id q, rc_operation_id = dq_operation_id q, rc_kind = dq_kind q,
      rc_fingerprint = dq_fingerprint q, rc_result = res, rc_created_at = now\<rparr>"

definition DeliveryOperation :: "time \<Rightarrow> delivery_op_request \<Rightarrow> db \<Rightarrow> delivery_op_result tx" where
  "DeliveryOperation now q d =
     (case lookupReceipt (receipts d) (dq_adapter_id q) (dq_operation_id q) of
        Some (fp, old) \<Rightarrow>
          if fp \<noteq> dq_fingerprint q then Inl ErrOperationConflict else Inr (markReplayed old, d)
      | None \<Rightarrow>
          bindR (runDeliveryOperation now q d) (\<lambda>(res, d1).
            if dq_kind q = ''claim'' \<and> \<not> cr_claimed (do_claim res) then Inr (res, d1)
            else Inr (res, d1\<lparr>receipts := receipts d1 @ [deliveryReceipt now q res]\<rparr>)))"

text \<open>
  \<^verbatim>\<open>DELETE ... WHERE rowid IN (SELECT rowid ... WHERE created_at < ? LIMIT ?)\<close> has no
  ORDER BY: \<open>plan\<close> is the order in which SQLite happens to visit the candidate rows.
\<close>

definition pruneRows ::
  "('a receipt_row list \<Rightarrow> 'a receipt_row list) \<Rightarrow> time \<Rightarrow> nat \<Rightarrow> 'a receipt_row list
     \<Rightarrow> nat \<times> 'a receipt_row list" where
  "pruneRows plan cutoff limit rows =
     (let candidates = sel (\<lambda>r. stamp_less (timestamp (rc_created_at r)) (timestamp cutoff)) rows;
          victims = take limit (plan candidates);
          kept = filter (\<lambda>r. (rc_adapter_id r, rc_operation_id r)
                        \<notin> (\<lambda>v. (rc_adapter_id v, rc_operation_id v)) ` set victims) rows
      in (length rows - length kept, kept))"

definition PruneDeliveryOperations ::
  "(delivery_op_result receipt_row list \<Rightarrow> delivery_op_result receipt_row list) \<Rightarrow> time \<Rightarrow> nat \<Rightarrow> db \<Rightarrow> nat \<times> db" where
  "PruneDeliveryOperations plan cutoff limit d =
     (case pruneRows plan cutoff limit (receipts d) of (n, rows) \<Rightarrow> (n, d\<lparr>receipts := rows\<rparr>))"

section \<open>Cancellation and settlement\<close>

definition CancelDelivery :: "time \<Rightarrow> string \<Rightarrow> db \<Rightarrow> delivery tx" where
  "CancelDelivery now deliveryID d =
     bindR (ok_or ErrNotFound (readDelivery d deliveryID)) (\<lambda>v.
       if d_state v = Cancelled then Inr (publicDelivery v, d)
       else if d_state v \<noteq> Queued \<and> d_state v \<noteq> Claimed then Inl ErrConflict
       else bindR (updateDeliveries
                     (\<lambda>r. d_delivery_id r = deliveryID \<and> (d_state r = Queued \<or> d_state r = Claimed))
                     (\<lambda>r. (unclaim r)\<lparr>d_state := Cancelled, d_terminal_reason := ''cancelled_by_request'',
                            d_terminal_at := Some now\<rparr>) d) (\<lambda>d1.
            bindR (bridgeRoundDeliveryTerminal now deliveryID Cancelled ''cancelled_by_request'' d1) (\<lambda>d2.
            bindR (ok_or ErrNotFound (readDelivery d2 deliveryID)) (\<lambda>v'.
            Inr (publicDelivery v', d2)))))"

text \<open>Why a pending delivery settles: nothing, a terminal state and its reason, or an expired claim.\<close>

datatype settlement = Keep | Terminal delivery_state string | ReleaseClaim

definition settlementOf :: "db \<Rightarrow> time \<Rightarrow> delivery \<Rightarrow> settlement" where
  "settlementOf d now v =
     (if d_state v = Dispatching
      then (if \<not> adapterLeaseLive d now (d_claim_owner_adapter_id v)
            then Terminal OutcomeUnknown ''dispatch_lost'' else Keep)
      else if \<not> d_expires_at v > now then Terminal Expired ''ttl_expired''
      else let why = undeliverableReason d (d_recipient_address v) (d_recipient_generation v)
           in if why \<noteq> '''' then Terminal Failed why
              else if d_state v = Claimed \<and>
                      (case d_claim_expires_at v of None \<Rightarrow> False | Some e \<Rightarrow> \<not> e > now)
              then ReleaseClaim else Keep)"

definition openPending :: "delivery \<Rightarrow> bool" where
  "openPending v = (d_state v \<in> {Queued, Claimed, Dispatching})"

fun settleRows :: "time \<Rightarrow> delivery list \<Rightarrow> delivery list \<Rightarrow> db \<Rightarrow> (delivery list) tx" where
  "settleRows now [] settled d = Inr (settled, d)"
| "settleRows now (v # rows) settled d =
     (case settlementOf d now v of
        Keep \<Rightarrow> settleRows now rows settled d
      | ReleaseClaim \<Rightarrow>
          bindR (updateDeliveries (\<lambda>r. d_delivery_id r = d_delivery_id v \<and> d_state r = Claimed) unclaim d) (\<lambda>d1.
          bindR (ok_or ErrNotFound (readDelivery d1 (d_delivery_id v))) (\<lambda>v'.
          settleRows now rows (settled @ [publicDelivery v']) d1))
      | Terminal state reason \<Rightarrow>
          bindR (updateDeliveries (\<lambda>r. d_delivery_id r = d_delivery_id v \<and> openPending r)
                   (\<lambda>r. r\<lparr>d_state := state, d_terminal_reason := reason, d_terminal_at := Some now\<rparr>) d) (\<lambda>d1.
          bindR (bridgeRoundDeliveryTerminal now (d_delivery_id v) state reason d1) (\<lambda>d2.
          settleRows now rows
            (settled @ [publicDelivery (v\<lparr>d_state := state, d_terminal_reason := reason,
                                          d_terminal_at := Some now\<rparr>)]) d2)))"

definition SettlePending :: "time \<Rightarrow> db \<Rightarrow> (delivery list) tx" where
  "SettlePending now d =
     settleRows now (sort_key d_accepted_sequence (sel openPending (deliveries d))) [] d"

section \<open>Which moves each operation makes\<close>

definition claim_moves :: "delivery_state \<Rightarrow> delivery_state \<Rightarrow> bool" where
  "claim_moves s s' = (s = Queued \<and> s' \<in> {Claimed, Failed, Expired})"

definition transition_moves :: "delivery_state \<Rightarrow> delivery_state \<Rightarrow> bool" where
  "transition_moves s s' = (s = Claimed \<and> s' \<in> {Queued, Dispatching, Failed})"

definition reconcile_moves :: "delivery_state \<Rightarrow> delivery_state \<Rightarrow> bool" where
  "reconcile_moves s s' = (s = Dispatching \<and> s' \<in> {Delivered, Failed, OutcomeUnknown})"

definition requeue_moves :: "delivery_state \<Rightarrow> delivery_state \<Rightarrow> bool" where
  "requeue_moves s s' = (s = Dispatching \<and> s' = Queued)"

definition cancel_moves :: "delivery_state \<Rightarrow> delivery_state \<Rightarrow> bool" where
  "cancel_moves s s' = (s \<in> {Queued, Claimed} \<and> s' = Cancelled)"

definition settle_moves :: "delivery_state \<Rightarrow> delivery_state \<Rightarrow> bool" where
  "settle_moves s s' =
     ((s = Queued \<and> s' \<in> {Expired, Failed}) \<or> (s = Claimed \<and> s' \<in> {Expired, Failed, Queued}) \<or>
      (s = Dispatching \<and> s' = OutcomeUnknown))"

lemmas moves_defs = claim_moves_def transition_moves_def reconcile_moves_def requeue_moves_def
  cancel_moves_def settle_moves_def

lemma transp_claim_moves: "transp claim_moves"
  by (auto simp: transp_def claim_moves_def)

lemma transp_settle_moves: "transp settle_moves"
  by (auto simp: transp_def settle_moves_def)

text \<open>A delivery id names one row of a well-formed ledger.\<close>

lemma delivery_unique:
  assumes "ledger_inv d" and "r \<in> set (deliveries d)" and "v \<in> set (deliveries d)"
    and "d_delivery_id r = d_delivery_id v"
  shows "r = v"
  using assms distinct_key_eq [of d_delivery_id "deliveries d" r v]
  by (simp add: ledger_inv_def deliveries_inv_def)

lemma readDelivery_Some:
  "readDelivery d did = Some v \<Longrightarrow> v \<in> set (deliveries d) \<and> d_delivery_id v = did"
  by (auto simp: readDelivery_def dest: sel1_SomeD)

lemma readDelivery_mem:
  "ledger_inv d \<Longrightarrow> v \<in> set (deliveries d) \<Longrightarrow> readDelivery d (d_delivery_id v) = Some v"
  unfolding readDelivery_def ledger_inv_def deliveries_inv_def
  using sel1_unique [of d_delivery_id "deliveries d" v] by simp

lemma readDelivery_upd:
  assumes "\<And>r. d_delivery_id (f r) = d_delivery_id r"
  shows "sel1 (\<lambda>r. d_delivery_id r = did) (upd P f t)
           = map_option (\<lambda>r. if P r then f r else r) (sel1 (\<lambda>r. d_delivery_id r = did) t)"
  by (rule sel1_upd) (simp add: assms)

lemma terminalize_one_step:
  assumes "terminalize now (d_delivery_id v) state reason d = Inr d'" and "ledger_inv d"
    and "v \<in> set (deliveries d)" and "E (d_state v) state" and "terminal_state state"
  shows "ledger_inv d' \<and> ledger_step E d d' \<and> same_rest d d'"
proof (rule terminalize_step [OF assms(1,2) _ assms(5)])
  fix r assume "r \<in> set (deliveries d)" and "d_delivery_id r = d_delivery_id v"
  then have "r = v" using assms(2,3) delivery_unique by blast
  with assms(4) show "E (d_state r) state" by simp
qed

lemma updateDeliveries_one_step:
  assumes "updateDeliveries P f d = Inr d'" and "ledger_inv d" and "v \<in> set (deliveries d)"
    and "\<And>r. P r \<Longrightarrow> d_delivery_id r = d_delivery_id v"
    and "delivery_moves E v (f v)" and "claim_shape (f v)"
  shows "ledger_inv d' \<and> ledger_step E d d' \<and> same_rest d d'"
proof (rule updateDeliveries_step [OF assms(1,2)])
  fix r assume "r \<in> set (deliveries d)" and "P r"
  then have "r = v" using assms(2-4) delivery_unique by blast
  with assms(5,6) show "delivery_moves E r (f r) \<and> claim_shape (f r)" by simp
qed

section \<open>Claim\<close>

lemma headForUpdate_least:
  assumes "headForUpdate d address generation = Some v"
    and "w \<in> set (deliveries d)" and "d_recipient_address w = address"
    and "d_recipient_generation w = generation" and "\<not> terminal_state (d_state w)"
  shows "d_accepted_sequence v \<le> d_accepted_sequence w"
proof -
  let ?c = "sel (\<lambda>v. d_recipient_address v = address \<and> d_recipient_generation v = generation
                     \<and> \<not> terminal_state (d_state v)) (deliveries d)"
  from assms(1) obtain rest where s: "sort_key d_accepted_sequence ?c = v # rest"
    by (auto simp: headForUpdate_def split: list.splits)
  have "w \<in> set ?c" using assms(2-5) by simp
  then have "w \<in> set (v # rest)" unfolding s [symmetric] by (simp only: set_sort)
  moreover have "sorted (map d_accepted_sequence (v # rest))"
    unfolding s [symmetric] by (rule sorted_sort_key)
  ultimately show ?thesis by auto
qed

text \<open>The three ways one round of the claim loop ends.\<close>

lemma claimLoop_cases:
  assumes "claimLoop now q lease binding holder holdingID d = Inr (res, d')"
  obtains (idle) "d' = d" "\<not> cr_claimed (do_claim res)"
    | (dead) head d1 where "headForUpdate d (dq_address q) (dq_generation q) = Some head"
        "d_state head = Queued" "fst (queuedInvalid d now head)"
        "terminalize now (d_delivery_id head)
           (if snd (queuedInvalid d now head) = ''ttl_expired'' then Expired else Failed)
           (snd (queuedInvalid d now head)) d = Inr d1"
        "claimLoop now q lease binding holder holdingID d1 = Inr (res, d')"
    | (claimed) head msg action v where "headForUpdate d (dq_address q) (dq_generation q) = Some head"
        "d_state head = Queued" "\<not> fst (queuedInvalid d now head)"
        "readMessage d (d_message_id head) = Some msg"
        "fst (claimAction (m_activation_policy msg) (b_capabilities binding) (dq_availability q)) = action"
        "action \<noteq> ''''"
        "updateDeliveries (\<lambda>r. d_delivery_id r = d_delivery_id head \<and> d_state r = Queued)
           (claimRow now q lease holdingID action) d = Inr d'"
        "readDelivery d' (d_delivery_id head) = Some v"
        "res = \<lparr>do_claim = \<lparr>cr_claimed = True, cr_reason = '''', cr_message = Some msg,
                  cr_delivery = Some (publicDelivery v), cr_head = None,
                  cr_claim_token = dq_generated_claim_token q, cr_dispatch_action = action,
                  cr_holder_address = holder, cr_replayed = False\<rparr>,
                do_delivery = None, do_not_inserted_reason = '''', do_replayed = False\<rparr>"
proof (cases "headForUpdate d (dq_address q) (dq_generation q)")
  case None
  with assms show thesis
    by (auto simp: claimLoop.simps [of now q lease binding holder holdingID d] noClaim_def intro: idle)
next
  case (Some head)
  note eq = assms [unfolded claimLoop.simps [of now q lease binding holder holdingID d] Some option.case]
  consider (busy) "d_state head \<noteq> Queued"
    | (dead') "d_state head = Queued" "fst (queuedInvalid d now head)"
    | (live) "d_state head = Queued" "\<not> fst (queuedInvalid d now head)" by blast
  then show thesis
  proof cases
    case busy
    with eq show thesis by (auto simp: noClaim_def intro: idle)
  next
    case dead'
    with eq show thesis by (simp add: bindR_Inr_iff) (blast intro: dead [OF Some])
  next
    case live
    with eq obtain msg where msg: "readMessage d (d_message_id head) = Some msg"
      by (auto simp: bindR_Inr_iff)
    obtain action reason where ar:
      "claimAction (m_activation_policy msg) (b_capabilities binding) (dq_availability q) = (action, reason)"
      by fastforce
    show thesis
    proof (cases "action = ''''")
      case True
      with eq live msg ar show thesis by (auto simp: noClaim_def intro: idle)
    next
      case False
      with eq live msg ar show thesis
        by (auto simp: bindR_Inr_iff intro: claimed [OF Some live msg])
    qed
  qed
qed

text \<open>
  Everything a successful claim rests on. \<open>d0\<close> is the state after the dead heads were made
  terminal.
\<close>

definition claim_spec ::
  "time \<Rightarrow> delivery_op_request \<Rightarrow> adapter_lease \<Rightarrow> binding \<Rightarrow> int \<Rightarrow> db \<Rightarrow> delivery_op_result \<Rightarrow> db \<Rightarrow> bool" where
  "claim_spec now q lease binding holdingID d0 res d' =
     (if cr_claimed (do_claim res)
      then \<exists>head msg action. headForUpdate d0 (dq_address q) (dq_generation q) = Some head \<and>
             d_state head = Queued \<and> \<not> fst (queuedInvalid d0 now head) \<and>
             readMessage d0 (d_message_id head) = Some msg \<and>
             fst (claimAction (m_activation_policy msg) (b_capabilities binding) (dq_availability q)) = action \<and>
             action \<noteq> '''' \<and>
             updateDeliveries (\<lambda>r. d_delivery_id r = d_delivery_id head \<and> d_state r = Queued)
               (claimRow now q lease holdingID action) d0 = Inr d' \<and>
             cr_delivery (do_claim res) = Some (publicDelivery (claimRow now q lease holdingID action head)) \<and>
             cr_message (do_claim res) = Some msg \<and>
             cr_claim_token (do_claim res) = dq_generated_claim_token q \<and>
             cr_dispatch_action (do_claim res) = action
      else d' = d0)"

lemma claimLoop_spec:
  assumes "claimLoop now q lease binding holder holdingID d = Inr (res, d')" and "ledger_inv d"
  shows "\<exists>d0. ledger_inv d0 \<and> ledger_step claim_moves d d0 \<and> same_rest d d0 \<and> messages d0 = messages d \<and>
     claim_spec now q lease binding holdingID d0 res d'"
  using assms
proof (induction "open_count d" arbitrary: d rule: less_induct)
  case less
  from less.prems(1) show ?case
  proof (cases rule: claimLoop_cases)
    case idle
    then have "claim_spec now q lease binding holdingID d res d'" by (simp add: claim_spec_def)
    with less.prems(2) show ?thesis by (intro exI [of _ d]) simp
  next
    case (dead head d1)
    note h = headForUpdate_Some [OF dead(1)]
    have one: "ledger_inv d1 \<and> ledger_step claim_moves d d1 \<and> same_rest d d1"
      by (rule terminalize_one_step [OF dead(4) less.prems(2) h(1)]) (auto simp: dead(2) claim_moves_def)
    have "open_count d1 < open_count d"
      by (rule terminalize_open_count [OF dead(4) h(1,4)]) simp
    from less.hyps [OF this dead(5)] one obtain d0 where d0: "ledger_inv d0"
      "ledger_step claim_moves d1 d0" "same_rest d1 d0" "messages d0 = messages d1"
      "claim_spec now q lease binding holdingID d0 res d'"
      by blast
    have "messages d0 = messages d" using d0(4) terminalize_messages [OF dead(4)] by simp
    with one d0 show ?thesis
      using ledger_step_trans [OF transp_claim_moves] same_rest_trans by blast
  next
    case (claimed head msg action v)
    have "readDelivery d (d_delivery_id head) = Some head"
      using less.prems(2) headForUpdate_Some(1) [OF claimed(1)] by (rule readDelivery_mem)
    then have "v = claimRow now q lease holdingID action head"
      using claimed(2,8) updateDeliveries_Inr(1) [OF claimed(7)]
      by (simp add: readDelivery_def readDelivery_upd claimRow_def)
    with claimed(9) have "cr_claimed (do_claim res)"
      "cr_delivery (do_claim res) = Some (publicDelivery (claimRow now q lease holdingID action head))"
      "cr_message (do_claim res) = Some msg"
      "cr_claim_token (do_claim res) = dq_generated_claim_token q"
      "cr_dispatch_action (do_claim res) = action"
      by simp_all
    with claimed(1-7) have "claim_spec now q lease binding holdingID d res d'"
      unfolding claim_spec_def by (simp only: if_True) blast
    with less.prems(2) show ?thesis by (intro exI [of _ d]) simp
  qed
qed

lemma claimRow_moves:
  "d_state v = Queued \<Longrightarrow> delivery_moves claim_moves v (claimRow now q lease holdingID action v)"
  by (simp add: delivery_moves_def claimRow_def claim_moves_def)

lemma claimRow_shape: "claim_shape (claimRow now q lease holdingID action v)"
  by (simp add: claim_shape_def claimRow_def)

lemma claim_spec_step:
  assumes "claim_spec now q lease binding holdingID d res d'" and "ledger_inv d"
  shows "ledger_inv d' \<and> ledger_step claim_moves d d' \<and> same_rest d d'"
proof (cases "cr_claimed (do_claim res)")
  case True
  with assms(1) obtain head action where
      h: "headForUpdate d (dq_address q) (dq_generation q) = Some head" "d_state head = Queued"
      and u: "updateDeliveries (\<lambda>r. d_delivery_id r = d_delivery_id head \<and> d_state r = Queued)
               (claimRow now q lease holdingID action) d = Inr d'"
    by (auto simp: claim_spec_def)
  show ?thesis
    by (rule updateDeliveries_one_step [OF u assms(2) headForUpdate_Some(1) [OF h(1)]])
      (simp_all add: claimRow_moves claimRow_shape h(2))
next
  case False
  with assms show ?thesis by (simp add: claim_spec_def)
qed

lemma claim_step:
  assumes "claim now q d = Inr (res, d')" and "ledger_inv d"
  shows "ledger_inv d' \<and> ledger_step claim_moves d d' \<and> same_rest d d'"
proof -
  from assms(1) obtain lease rt where "claimRoute d q = Inr rt"
    and c: "(case rt of RouteBlocked reason \<Rightarrow> Inr (noClaim reason None, d)
         | RouteThrough binding holder holdingID \<Rightarrow> claimLoop now q lease binding holder holdingID d)
           = Inr (res, d')"
    by (auto simp: claim_def bindR_Inr_iff)
  show ?thesis
  proof (cases rt)
    case (RouteBlocked reason)
    with c assms(2) show ?thesis by simp
  next
    case (RouteThrough binding holder holdingID)
    with c have "claimLoop now q lease binding holder holdingID d = Inr (res, d')" by simp
    from claimLoop_spec [OF this assms(2)] obtain d0 where
        d0: "ledger_inv d0" "ledger_step claim_moves d d0" "same_rest d d0"
        "claim_spec now q lease binding holdingID d0 res d'" by blast
    from claim_spec_step [OF d0(4,1)] d0(2,3) show ?thesis
      using ledger_step_trans [OF transp_claim_moves] same_rest_trans by blast
  qed
qed

section \<open>The other delivery operations\<close>

lemma claimTransition_step:
  assumes "claimTransition now q d = Inr (res, d')" and inv: "ledger_inv d"
  shows "ledger_inv d' \<and> ledger_step transition_moves d d' \<and> same_rest d d'"
proof -
  let ?P = "\<lambda>v r. d_delivery_id r = d_delivery_id v"
  from assms(1) obtain v lease where v: "readDelivery d (dq_delivery_id q) = Some v"
    and st: "d_state v = Claimed" and f: "claimFence d now v q = Inr lease"
    and cases: "updateDeliveries (?P v) (\<lambda>r. r\<lparr>d_claim_expires_at := Some (now + dq_claim_duration q)\<rparr>) d = Inr d' \<or>
      updateDeliveries (?P v) unclaim d = Inr d' \<or>
      updateDeliveries (?P v) (\<lambda>r. r\<lparr>d_state := Dispatching, d_native_attempt_ref := dq_native_attempt_ref q,
                          d_dispatching_at := Some now\<rparr>) d = Inr d' \<or>
      terminalize now (d_delivery_id v) Failed ''adapter_failed'' d = Inr d'"
    unfolding claimTransition_def by (auto simp: bindR_Inr_iff split: if_splits)
  have mem: "v \<in> set (deliveries d)" using readDelivery_Some [OF v] by blast
  then have shape: "claim_shape v" using inv by (auto simp: ledger_inv_def deliveries_inv_def)
  from cases show ?thesis
  proof (elim disjE)
    assume "terminalize now (d_delivery_id v) Failed ''adapter_failed'' d = Inr d'"
    then show ?thesis by (rule terminalize_one_step [OF _ inv mem]) (auto simp: st moves_defs)
  qed (erule updateDeliveries_one_step [OF _ inv mem];
       simp add: st shape delivery_moves_def moves_defs claim_shape_def unclaim_def
                 shape [unfolded claim_shape_def])+
qed

lemma reconcile_step:
  assumes "reconcile now q d = Inr (res, d')" and "ledger_inv d"
  shows "ledger_inv d' \<and> ledger_step reconcile_moves d d' \<and> same_rest d d'"
proof -
  from assms(1) obtain v state reason where v: "readDelivery d (dq_delivery_id q) = Some v"
    and st: "d_state v = Dispatching" and to: "state \<in> {Delivered, Failed, OutcomeUnknown}"
    and t: "terminalize now (d_delivery_id v) state reason d = Inr d'"
    unfolding reconcile_def Let_def
    by (auto simp: bindR_Inr_iff split: if_splits prod.splits)
  have "v \<in> set (deliveries d)" using readDelivery_Some [OF v] by blast
  from terminalize_one_step [OF t assms(2) this] st to show ?thesis
    by (auto simp: reconcile_moves_def)
qed

lemma notInserted_step:
  assumes "notInserted now q d = Inr (res, d')" and "ledger_inv d"
  shows "ledger_inv d' \<and> ledger_step requeue_moves d d' \<and> same_rest d d'"
proof -
  from assms(1) obtain v where v: "readDelivery d (dq_delivery_id q) = Some v"
    and st: "d_state v = Dispatching"
    and u: "updateDeliveries (\<lambda>r. d_delivery_id r = d_delivery_id v \<and> d_state r = Dispatching)
              (\<lambda>r. (unclaim r)\<lparr>d_dispatching_at := None\<rparr>) d = Inr d'"
    unfolding notInserted_def by (auto simp: bindR_Inr_iff)
  have "v \<in> set (deliveries d)" using readDelivery_Some [OF v] by blast
  then show ?thesis
    by (rule updateDeliveries_one_step [OF u assms(2)])
      (auto simp: st unclaim_def delivery_moves_def requeue_moves_def claim_shape_def)
qed

lemma CancelDelivery_step:
  assumes "CancelDelivery now deliveryID d = Inr (res, d')" and "ledger_inv d"
  shows "ledger_inv d' \<and> ledger_step cancel_moves d d' \<and> same_rest d d'"
proof (cases "d' = d")
  case True
  with assms(2) show ?thesis by simp
next
  case False
  let ?f = "\<lambda>r. (unclaim r)\<lparr>d_state := Cancelled, d_terminal_reason := ''cancelled_by_request'',
                            d_terminal_at := Some now\<rparr>"
  from assms(1) False obtain v d1 where v: "readDelivery d deliveryID = Some v"
    and u: "updateDeliveries (\<lambda>r. d_delivery_id r = deliveryID \<and> (d_state r = Queued \<or> d_state r = Claimed))
              ?f d = Inr d1"
    and b: "bridgeRoundDeliveryTerminal now deliveryID Cancelled ''cancelled_by_request'' d1 = Inr d'"
    unfolding CancelDelivery_def by (auto simp: bindR_Inr_iff split: if_splits)
  have "ledger_inv d1 \<and> ledger_step cancel_moves d d1 \<and> same_rest d d1"
    by (rule updateDeliveries_step [OF u assms(2)])
      (auto simp: unclaim_def delivery_moves_def cancel_moves_def claim_shape_def)
  then show ?thesis
    using bridge_inv [OF b] by (auto simp: ledger_step_def same_rest_def intro: rm.evolves_trans)
qed

lemma settlementOf_moves:
  "openPending v \<Longrightarrow> settlementOf d now v = Terminal state reason \<Longrightarrow>
   terminal_state state \<and> settle_moves (d_state v) state \<and> reason \<noteq> ''''"
  by (auto simp: settlementOf_def openPending_def settle_moves_def Let_def split: if_splits)

text \<open>Settling one row leaves the others alone, so the rows still to settle stay as they were read.\<close>

lemma settleRows_step:
  assumes "settleRows now rows settled d = Inr (res, d')" and "ledger_inv d"
    and "\<And>v. v \<in> set rows \<Longrightarrow> openPending v \<and> v \<in> set (deliveries d)"
    and "distinct (map d_delivery_id rows)"
  shows "ledger_inv d' \<and> ledger_step settle_moves d d' \<and> same_rest d d'"
  using assms
proof (induction now rows settled d rule: settleRows.induct)
  case (1 now settled d)
  then show ?case by simp
next
  case (2 now v rows settled d)
  let ?open = "\<lambda>r. d_delivery_id r = d_delivery_id v \<and> openPending r"
  note mem = "2.prems"(3) [of v, simplified]
  have others: "w \<in> set (upd P f (deliveries d))"
    if "w \<in> set rows" and "\<And>r. P r \<Longrightarrow> d_delivery_id r = d_delivery_id v" for w P f
    using that "2.prems"(3,4) by (auto simp: set_upd image_iff intro!: bexI [of _ w])
  have step: "ledger_inv d' \<and> ledger_step settle_moves d1 d' \<and> same_rest d1 d' \<Longrightarrow>
      ledger_inv d1 \<and> ledger_step settle_moves d d1 \<and> same_rest d d1 \<Longrightarrow> ?case" for d1
    using ledger_step_trans [OF transp_settle_moves] same_rest_trans by blast
  show ?case
  proof (cases "settlementOf d now v")
    case Keep
    with "2" show ?thesis by simp
  next
    case ReleaseClaim
    from "2.prems"(1) ReleaseClaim obtain d1 v' where
        u: "updateDeliveries (\<lambda>r. d_delivery_id r = d_delivery_id v \<and> d_state r = Claimed) unclaim d = Inr d1"
        and rd: "ok_or ErrNotFound (readDelivery d1 (d_delivery_id v)) = Inr v'"
        and rest: "settleRows now rows (settled @ [publicDelivery v']) d1 = Inr (res, d')"
      by (auto simp: bindR_Inr_iff)
    have "d_state v = Claimed"
      using ReleaseClaim by (auto simp: settlementOf_def Let_def split: if_splits)
    then have one: "ledger_inv d1 \<and> ledger_step settle_moves d d1 \<and> same_rest d d1"
      using mem by (intro updateDeliveries_one_step [OF u "2.prems"(2)])
        (auto simp: unclaim_def delivery_moves_def settle_moves_def claim_shape_def)
    have "w \<in> set (deliveries d1)" if "w \<in> set rows" for w
      using updateDeliveries_Inr(1) [OF u] by (auto intro: others [OF that])
    with "2.prems"(3,4) one "2.IH"(3) [OF ReleaseClaim u rd rest] show ?thesis
      by (intro step [of d1]) simp_all
  next
    case (Terminal state reason)
    let ?f = "\<lambda>r. r\<lparr>d_state := state, d_terminal_reason := reason, d_terminal_at := Some now\<rparr>"
    from "2.prems"(1) Terminal obtain d1 d2 where u: "updateDeliveries ?open ?f d = Inr d1"
        and b: "bridgeRoundDeliveryTerminal now (d_delivery_id v) state reason d1 = Inr d2"
        and rest: "settleRows now rows (settled @ [publicDelivery (?f v)]) d2 = Inr (res, d')"
      by (auto simp: bindR_Inr_iff)
    have "ledger_inv d1 \<and> ledger_step settle_moves d d1 \<and> same_rest d d1"
      using settlementOf_moves [OF _ Terminal] mem
      by (intro updateDeliveries_one_step [OF u "2.prems"(2)])
        (auto simp: delivery_moves_def claim_shape_def openPending_def)
    then have one: "ledger_inv d2 \<and> ledger_step settle_moves d d2 \<and> same_rest d d2"
      using bridge_inv [OF b] by (auto simp: ledger_step_def same_rest_def intro: rm.evolves_trans)
    have "deliveries d2 = upd ?open ?f (deliveries d)"
      using bridge_inv(5) [OF b] updateDeliveries_Inr(1) [OF u] by simp
    then have "w \<in> set (deliveries d2)" if "w \<in> set rows" for w
      by (auto intro: others [OF that])
    with "2.prems"(3,4) one "2.IH"(2) [OF Terminal u b rest] show ?thesis
      by (intro step [of d2]) simp_all
  qed
qed

lemma SettlePending_step:
  assumes "SettlePending now d = Inr (res, d')" and "ledger_inv d"
  shows "ledger_inv d' \<and> ledger_step settle_moves d d' \<and> same_rest d d'"
proof (rule settleRows_step [OF assms(1) [unfolded SettlePending_def] assms(2)])
  let ?rows = "sort_key d_accepted_sequence (sel openPending (deliveries d))"
  show "openPending v \<and> v \<in> set (deliveries d)" if "v \<in> set ?rows" for v
    using that by simp
  have "distinct (map d_delivery_id (sel openPending (deliveries d)))"
    using assms(2) by (simp add: ledger_inv_def deliveries_inv_def sel_def distinct_map_filter)
  then show "distinct (map d_delivery_id ?rows)"
    by (simp add: distinct_map inj_on_def)
qed

end
