(* ===== verification/Seats.thy ===== *)
theory Seats
  imports Delivery_Protocol
begin

text \<open>
  Seats (\<^verbatim>\<open>src/internal/sqlite/seat.go\<close>): addresses one session holds at a time, with a
  charter and a handoff text, and mail that waits for the next holder. \<open>seat_inv\<close> is the invariant
  of the three seat tables.
\<close>

section \<open>Reads\<close>

definition textVersion :: "seat_row \<Rightarrow> string \<Rightarrow> int" where
  "textVersion r kind = (if kind = SeatTextCharter then sw_charter_version r else sw_handoff_version r)"

definition markStale :: "db \<Rightarrow> time \<Rightarrow> holding \<Rightarrow> holding" where
  "markStale d now h =
     (if h_ended_at h \<noteq> None then h
      else case readBinding d (h_holder_address h) of
             None \<Rightarrow> h\<lparr>h_stale := True, h_stale_reason := ''holder_unbound''\<rparr>
           | Some binding \<Rightarrow>
               if \<not> b_bound binding then h\<lparr>h_stale := True, h_stale_reason := ''holder_unbound''\<rparr>
               else if b_generation binding \<noteq> h_holder_generation h
                       \<or> b_adapter_id binding \<noteq> h_holder_adapter_id h
               then h\<lparr>h_stale := True, h_stale_reason := ''holder_rebound''\<rparr>
               else case leaseRow d (b_adapter_id binding) of
                      None \<Rightarrow> h\<lparr>h_stale := True, h_stale_reason := ''adapter_lease_expired''\<rparr>
                    | Some lease \<Rightarrow>
                        if \<not> lr_expires_at lease > now
                        then h\<lparr>h_stale := True, h_stale_reason := ''adapter_lease_expired'',
                               h_stale_since := Some (lr_expires_at lease)\<rparr>
                        else h)"

definition scanSeatText :: "seat_text_row \<Rightarrow> bool \<Rightarrow> seat_text" where
  "scanSeatText r withBody =
     \<lparr>st_seat_address = tw_seat_address r, st_kind = tw_kind r, st_version = tw_version r,
      st_body = (if withBody then tw_body r else ''''), st_length = int (length (tw_body r)),
      st_set_at = tw_set_at r, st_set_by_address = tw_set_by_address r,
      st_set_by_adapter_id = tw_set_by_adapter_id r, st_set_by_seats = tw_set_by_seats r,
      st_holding_id = (case tw_holding_id r of None \<Rightarrow> 0 | Some h \<Rightarrow> h)\<rparr>"

definition readSeatText :: "db \<Rightarrow> string \<Rightarrow> string \<Rightarrow> int \<Rightarrow> seat_text option" where
  "readSeatText d st kind version =
     map_option (\<lambda>r. scanSeatText r True)
       (sel1 (\<lambda>r. tw_seat_address r = st \<and> tw_kind r = kind \<and> tw_version r = version) (texts d))"

definition currentText :: "db \<Rightarrow> seat_row \<Rightarrow> string \<Rightarrow> seat_text option" where
  "currentText d row kind =
     (if textVersion row kind = 0 then None
      else readSeatText d (sw_address row) kind (textVersion row kind))"

definition seatView :: "db \<Rightarrow> time \<Rightarrow> seat_row \<Rightarrow> bool \<Rightarrow> store_error + seat" where
  "seatView d now row full =
     bindR (case sw_current row of
              None \<Rightarrow> Inr None
            | Some hid \<Rightarrow> bindR (readHolding d (sw_address row) hid) (\<lambda>h. Inr (Some (markStale d now h))))
       (\<lambda>hold.
        let charter = currentText d row SeatTextCharter; handoff = currentText d row SeatTextHandoff
        in Inr \<lparr>s_address = sw_address row, s_generation = sw_generation row,
             s_state = (case hold of
                          None \<Rightarrow> if sw_retired row then SeatRetired else SeatVacant
                        | Some h \<Rightarrow> if h_stale h then SeatStale else SeatHeld),
             s_holding = hold, s_charter_version = sw_charter_version row,
             s_charter_summary = (case charter of
                                    None \<Rightarrow> ''''
                                  | Some t \<Rightarrow> fst (Cut CHR 0x0A (TrimSpace (st_body t)))),
             s_handoff_version = sw_handoff_version row,
             s_queued_mail = int (length (sel (\<lambda>v. d_recipient_address v = sw_address row
                                \<and> d_recipient_generation v = sw_generation row \<and> openPending v)
                                (deliveries d))),
             s_created_at = sw_created_at row, s_created_by = sw_created_by row,
             s_charter = (if full then charter else None),
             s_handoff = (if full then handoff else None)\<rparr>)"

definition heldSeats :: "db \<Rightarrow> string \<Rightarrow> string list" where
  "heldSeats d session =
     map h_seat_address (sort_key h_seat_address
       (sel (\<lambda>h. h_holder_address h = session \<and> h_ended_at h = None) (holdings d)))"

section \<open>Statements\<close>

definition updateSeats :: "(seat_row \<Rightarrow> bool) \<Rightarrow> (seat_row \<Rightarrow> seat_row) \<Rightarrow> db \<Rightarrow> store_error + db" where
  "updateSeats P f d =
     (if list_ex (\<lambda>r. P r \<and> sw_retired (f r) \<and> sw_current (f r) \<noteq> None) (seats d)
      then Inl (ErrSQL ''seats CHECK'')
      else Inr (d\<lparr>seats := upd P f (seats d)\<rparr>))"

definition holding_check :: "holding \<Rightarrow> bool" where
  "holding_check h =
     ((h_ended_at h = None \<and> h_end_reason h = '''') \<or>
      (h_ended_at h \<noteq> None \<and> h_end_reason h \<in> {HoldingLeft, HoldingLeftWithoutHandoff, HoldingRelieved, HoldingRetired}))"

definition insertHolding :: "holding \<Rightarrow> db \<Rightarrow> store_error + db" where
  "insertHolding h d =
     (if list_ex (\<lambda>r. h_seat_address r = h_seat_address h \<and> h_holding_id r = h_holding_id h) (holdings d)
      then Inl (ErrSQL ''seat_holdings.seat_address, seat_holdings.holding_id'')
      else if readSeatRow d (h_seat_address h) = None
      then Inl (ErrSQL ''FOREIGN KEY seat_holdings.seat_address'')
      else Inr (d\<lparr>holdings := holdings d @ [h]\<rparr>))"

definition updateHoldings :: "(holding \<Rightarrow> bool) \<Rightarrow> (holding \<Rightarrow> holding) \<Rightarrow> db \<Rightarrow> store_error + db" where
  "updateHoldings P f d =
     (if list_ex (\<lambda>h. P h \<and> \<not> holding_check (f h)) (holdings d) then Inl (ErrSQL ''seat_holdings CHECK'')
      else Inr (d\<lparr>holdings := upd P f (holdings d)\<rparr>))"

definition insertText :: "seat_text_row \<Rightarrow> db \<Rightarrow> store_error + db" where
  "insertText r d =
     (if list_ex (\<lambda>t. tw_seat_address t = tw_seat_address r \<and> tw_kind t = tw_kind r
                 \<and> tw_version t = tw_version r) (texts d)
      then Inl (ErrSQL ''seat_texts.seat_address, seat_texts.kind, seat_texts.version'')
      else if readSeatRow d (tw_seat_address r) = None
      then Inl (ErrSQL ''FOREIGN KEY seat_texts.seat_address'')
      else if tw_kind r \<noteq> SeatTextCharter \<and> tw_kind r \<noteq> SeatTextHandoff
      then Inl (ErrSQL ''seat_texts CHECK'')
      else Inr (d\<lparr>texts := texts d @ [r]\<rparr>))"

definition issuedVersion :: "db \<Rightarrow> string \<Rightarrow> string \<Rightarrow> int" where
  "issuedVersion d st kind =
     fold max (map tw_version (sel (\<lambda>t. tw_seat_address t = st \<and> tw_kind t = kind) (texts d))) 0"

section \<open>Seat operations\<close>

definition openSeat :: "time \<Rightarrow> seat_op_request \<Rightarrow> db \<Rightarrow> seat_row tx" where
  "openSeat now q d =
     bindR (case readSeatRow d (sq_seat_address q) of
              None \<Rightarrow>
                Inr (d\<lparr>seats := seats d @ [\<lparr>sw_address = sq_seat_address q, sw_generation = 1,
                       sw_retired = False, sw_current = None, sw_last_holding = 0,
                       sw_charter_version = 0, sw_handoff_version = 0, sw_created_at = now,
                       sw_created_by = sq_session_address q, sw_updated_at = now\<rparr>]\<rparr>)
            | Some row \<Rightarrow>
                if sw_retired row
                then updateSeats (\<lambda>r. sw_address r = sq_seat_address q)
                       (\<lambda>r. r\<lparr>sw_generation := sw_generation r + 1, sw_retired := False,
                              sw_charter_version := 0, sw_handoff_version := 0, sw_created_at := now,
                              sw_created_by := sq_session_address q, sw_updated_at := now\<rparr>) d
                else Inr d)
       (\<lambda>d1. bindR (ok_or ErrSeatNotFound (readSeatRow d1 (sq_seat_address q))) (\<lambda>row. Inr (row, d1)))"

definition existingSeat :: "seat_op_request \<Rightarrow> db \<Rightarrow> store_error + seat_row" where
  "existingSeat q d = ok_or ErrSeatNotFound (readSeatRow d (sq_seat_address q))"

definition currentID :: "seat_row \<Rightarrow> int" where
  "currentID row = (case sw_current row of None \<Rightarrow> 0 | Some hid \<Rightarrow> hid)"

definition heldError :: "time \<Rightarrow> seat_row \<Rightarrow> db \<Rightarrow> store_error" where
  "heldError now row d =
     (case readHolding d (sw_address row) (currentID row) of
        Inl e \<Rightarrow> e
      | Inr h \<Rightarrow> SeatHeldError (markStale d now h))"

definition releaseClaims :: "seat_row \<Rightarrow> db \<Rightarrow> store_error + db" where
  "releaseClaims row d =
     updateDeliveries (\<lambda>v. d_recipient_address v = sw_address row \<and> d_state v = Claimed) unclaim d"

definition newHolding :: "time \<Rightarrow> seat_op_request \<Rightarrow> binding \<Rightarrow> seat_row \<Rightarrow> holding" where
  "newHolding now q session row =
     \<lparr>h_seat_address = sw_address row, h_holding_id = sw_last_holding row + 1,
      h_seat_generation = sw_generation row, h_holder_address = b_address session,
      h_holder_adapter_id = b_adapter_id session, h_holder_generation = b_generation session,
      h_started_at = now, h_start_note = sq_note q, h_ended_at = None, h_end_reason = '''',
      h_end_note = '''', h_relieved_by = 0, h_stale = False, h_stale_reason = '''',
      h_stale_since = None\<rparr>"

definition startHolding :: "time \<Rightarrow> seat_op_request \<Rightarrow> binding \<Rightarrow> seat_row \<Rightarrow> db \<Rightarrow> holding tx" where
  "startHolding now q session row d =
     bindR (insertHolding (newHolding now q session row) d) (\<lambda>d1.
     bindR (updateSeats (\<lambda>r. sw_address r = sw_address row)
              (\<lambda>r. r\<lparr>sw_current := Some (sw_last_holding row + 1),
                     sw_last_holding := sw_last_holding row + 1, sw_updated_at := now\<rparr>) d1) (\<lambda>d2.
     bindR (releaseClaims row d2) (\<lambda>d3.
     bindR (readHolding d3 (sw_address row) (sw_last_holding row + 1)) (\<lambda>h. Inr (h, d3)))))"

definition endHolding ::
  "time \<Rightarrow> seat_row \<Rightarrow> string \<Rightarrow> string \<Rightarrow> int \<Rightarrow> db \<Rightarrow> holding tx" where
  "endHolding now row reason note relievedBy d =
     bindR (updateHoldings (\<lambda>h. h_seat_address h = sw_address row \<and> h_holding_id h = currentID row
                                \<and> h_ended_at h = None)
              (\<lambda>h. h\<lparr>h_ended_at := Some now, h_end_reason := reason, h_end_note := note,
                     h_relieved_by := relievedBy\<rparr>) d) (\<lambda>d1.
     bindR (updateSeats (\<lambda>r. sw_address r = sw_address row)
              (\<lambda>r. r\<lparr>sw_current := None, sw_updated_at := now\<rparr>) d1) (\<lambda>d2.
     bindR (releaseClaims row d2) (\<lambda>d3.
     bindR (readHolding d3 (sw_address row) (currentID row)) (\<lambda>h. Inr (h, d3)))))"

definition previousHolding :: "seat_row \<Rightarrow> int \<Rightarrow> db \<Rightarrow> store_error + holding option" where
  "previousHolding row current d =
     (if current \<le> 1 then Inr None
      else bindR (readHolding d (sw_address row) (current - 1)) (\<lambda>h. Inr (Some h)))"

definition seatResult ::
  "time \<Rightarrow> seat_op_request \<Rightarrow> holding option \<Rightarrow> holding option \<Rightarrow> db \<Rightarrow> store_error + seat_op_result" where
  "seatResult now q hold previous d =
     bindR (existingSeat q d) (\<lambda>row.
     bindR (seatView d now row True) (\<lambda>view.
     Inr \<lparr>so_seat = view, so_holding = hold, so_previous_holding = previous, so_text = None,
          so_notice_message_id = '''', so_replayed = False\<rparr>))"

definition take_seat :: "time \<Rightarrow> seat_op_request \<Rightarrow> binding \<Rightarrow> db \<Rightarrow> seat_op_result tx" where
  "take_seat now q session d =
     bindR (openSeat now q d) (\<lambda>(row, d1).
       if sw_current row \<noteq> None then Inl (heldError now row d1)
       else bindR (startHolding now q session row d1) (\<lambda>(h, d2).
            bindR (previousHolding row (h_holding_id h) d2) (\<lambda>previous.
            bindR (seatResult now q (Some h) previous d2) (\<lambda>res. Inr (res, d2)))))"

definition leave :: "time \<Rightarrow> seat_op_request \<Rightarrow> binding \<Rightarrow> db \<Rightarrow> seat_op_result tx" where
  "leave now q session d =
     bindR (existingSeat q d) (\<lambda>row.
     case sw_current row of
       None \<Rightarrow> Inl ErrNotHolder
     | Some hid \<Rightarrow>
         bindR (readHolding d (sw_address row) hid) (\<lambda>current.
           if h_holder_address current \<noteq> b_address session then Inl ErrNotHolder
           else
             let reason = (if list_ex (\<lambda>t. tw_seat_address t = sw_address row \<and> tw_kind t = SeatTextHandoff
                                 \<and> tw_holding_id t = Some (h_holding_id current)) (texts d)
                           then HoldingLeft else HoldingLeftWithoutHandoff)
             in bindR (endHolding now row reason (sq_note q) 0 d) (\<lambda>(ended, d1).
                bindR (seatResult now q None (Some ended) d1) (\<lambda>res. Inr (res, d1)))))"

definition seatNotice :: "time \<Rightarrow> seat_op_request \<Rightarrow> string \<Rightarrow> string \<Rightarrow> string \<Rightarrow> db \<Rightarrow> string tx" where
  "seatNotice now q recipient operationID body d =
     (case readBinding d recipient of
        None \<Rightarrow> Inr ('''', d)
      | Some binding \<Rightarrow>
          if \<not> b_bound binding \<or> sq_notice_message_id q = '''' then Inr ('''', d)
          else
            let msg = \<lparr>m_producer_id = SeatNoticeSender, m_operation_id = operationID,
                  m_message_id = sq_notice_message_id q, m_sender_address = SeatNoticeSender,
                  m_recipient_address = recipient, m_body = body, m_correlation_id = '''',
                  m_reply_to_message_id = '''', m_activation_policy = PolicyNextTurn,
                  m_created_at = now, m_expires_at = sq_notice_expires_at q, m_sender_generation = 0,
                  m_recipient_generation = b_generation binding, m_sender_session = '''',
                  m_sender_holding_id = 0, m_sender_charter_version = 0\<rparr>
            in bindR (insertMessage msg '''' d) (\<lambda>d1.
               bindR (insertDelivery (sq_notice_delivery_id q) (sq_notice_message_id q) recipient
                        (b_generation binding) now (sq_notice_expires_at q) d1) (\<lambda>(_, d2).
               Inr (sq_notice_message_id q, d2))))"

definition reliefOperation :: "string \<Rightarrow> int \<Rightarrow> string" where
  "reliefOperation address hid = ''seat-relief/'' @ address @ ''/'' @ dec hid"

definition charterOperation :: "string \<Rightarrow> int \<Rightarrow> string" where
  "charterOperation address version = ''seat-charter/'' @ address @ ''/'' @ dec version"

definition relieve :: "time \<Rightarrow> seat_op_request \<Rightarrow> binding \<Rightarrow> db \<Rightarrow> seat_op_result tx" where
  "relieve now q session d =
     bindR (existingSeat q d) (\<lambda>row.
     case sw_current row of
       None \<Rightarrow> Inl ErrSeatVacant
     | Some hid \<Rightarrow>
         bindR (readHolding d (sw_address row) hid) (\<lambda>current.
           if h_holder_address current = b_address session then Inl (heldError now row d)
           else bindR (endHolding now row HoldingRelieved '''' (sw_last_holding row + 1) d) (\<lambda>(ended, d1).
                bindR (startHolding now q session (row\<lparr>sw_current := None\<rparr>) d1) (\<lambda>(h, d2).
                bindR (seatResult now q (Some h) (Some ended) d2) (\<lambda>res.
                bindR (seatNotice now q (h_holder_address ended)
                         (reliefOperation (sw_address row) (h_holding_id ended))
                         (ReliefNoticeBody (sw_address row) h (sq_note q)) d2) (\<lambda>(mid, d3).
                Inr (res\<lparr>so_notice_message_id := mid\<rparr>, d3)))))))"

definition textRow ::
  "time \<Rightarrow> seat_op_request \<Rightarrow> binding \<Rightarrow> seat_row \<Rightarrow> int \<Rightarrow> db \<Rightarrow> seat_text_row" where
  "textRow now q session row version d =
     \<lparr>tw_seat_address = sw_address row, tw_kind = sq_text_kind q, tw_version = version,
      tw_body = sq_body q, tw_set_at = now, tw_set_by_address = b_address session,
      tw_set_by_adapter_id = b_adapter_id session, tw_set_by_seats = heldSeats d (b_address session),
      tw_holding_id = sw_current row\<rparr>"

definition pruneTexts :: "seat_op_request \<Rightarrow> seat_row \<Rightarrow> int \<Rightarrow> db \<Rightarrow> db" where
  "pruneTexts q row version d =
     (if sq_keep_versions q > 0
      then d\<lparr>texts := filter (\<lambda>t. \<not> (tw_seat_address t = sw_address row \<and> tw_kind t = sq_text_kind q
                        \<and> tw_version t \<le> version - sq_keep_versions q)) (texts d)\<rparr>
      else d)"

definition recordVersion :: "time \<Rightarrow> string \<Rightarrow> int \<Rightarrow> seat_row \<Rightarrow> seat_row" where
  "recordVersion now kind version r =
     (if kind = SeatTextHandoff then r\<lparr>sw_handoff_version := version, sw_updated_at := now\<rparr>
      else r\<lparr>sw_charter_version := version, sw_updated_at := now\<rparr>)"

text \<open>The end of \<^verbatim>\<open>setText\<close>: a holder that did not write its new charter is told.\<close>

definition textNotice ::
  "time \<Rightarrow> seat_op_request \<Rightarrow> binding \<Rightarrow> seat_row \<Rightarrow> int \<Rightarrow> seat_text \<Rightarrow> holding option
     \<Rightarrow> seat_op_result \<Rightarrow> db \<Rightarrow> seat_op_result tx" where
  "textNotice now q session row version tt hold res d =
     (case hold of
        Some h \<Rightarrow>
          if sq_text_kind q = SeatTextCharter \<and> h_holder_address h \<noteq> b_address session
          then bindR (seatNotice now q (h_holder_address h) (charterOperation (sw_address row) version)
                        (CharterNoticeBody (sw_address row) tt) d) (\<lambda>(mid, d5).
               Inr (res\<lparr>so_text := Some tt, so_notice_message_id := mid\<rparr>, d5))
          else Inr (res\<lparr>so_text := Some tt\<rparr>, d)
      | None \<Rightarrow> Inr (res\<lparr>so_text := Some tt\<rparr>, d))"

definition setText :: "time \<Rightarrow> seat_op_request \<Rightarrow> binding \<Rightarrow> db \<Rightarrow> seat_op_result tx" where
  "setText now q session d =
     bindR (openSeat now q d) (\<lambda>(row, d1).
     let kind = sq_text_kind q; current = textVersion row kind
     in bindR (refuse_if (sq_expected_version q \<noteq> None \<and> sq_expected_version q \<noteq> Some current)
                 (VersionConflictError current)) (\<lambda>_.
        let version = issuedVersion d1 (sw_address row) kind + 1
        in bindR (insertText (textRow now q session row version d1) d1) (\<lambda>d2.
           bindR (updateSeats (\<lambda>r. sw_address r = sw_address row) (recordVersion now kind version) d2) (\<lambda>d3.
           let d4 = pruneTexts q row version d3
           in bindR (ok_or (ErrInternal ''read seat text'') (readSeatText d4 (sw_address row) kind version)) (\<lambda>tt.
              bindR (case sw_current row of
                       None \<Rightarrow> Inr None
                     | Some hid \<Rightarrow> bindR (readHolding d4 (sw_address row) hid) (\<lambda>h. Inr (Some h))) (\<lambda>hold.
              bindR (seatResult now q hold None d4) (\<lambda>res.
              textNotice now q session row version tt hold res d4)))))))"

fun failMail :: "time \<Rightarrow> string list \<Rightarrow> db \<Rightarrow> store_error + db" where
  "failMail now [] d = Inr d"
| "failMail now (did # ids) d =
     bindR (terminalize now did Failed ''seat_retired'' d) (failMail now ids)"

definition retire :: "time \<Rightarrow> seat_op_request \<Rightarrow> binding \<Rightarrow> db \<Rightarrow> seat_op_result tx" where
  "retire now q session d =
     bindR (existingSeat q d) (\<lambda>row.
     bindR (refuse_if (sw_retired row) ErrSeatRetired) (\<lambda>_.
     bindR (case sw_current row of
              None \<Rightarrow> Inr (None, d)
            | Some _ \<Rightarrow> bindR (endHolding now row HoldingRetired (sq_note q) 0 d) (\<lambda>(h, d1). Inr (Some h, d1)))
       (\<lambda>(ended, d1).
     bindR (updateSeats (\<lambda>r. sw_address r = sw_address row)
              (\<lambda>r. r\<lparr>sw_retired := True, sw_current := None, sw_updated_at := now\<rparr>) d1) (\<lambda>d2.
     bindR (failMail now (map d_delivery_id (sel (\<lambda>v. d_recipient_address v = sw_address row
                            \<and> (d_state v = Queued \<or> d_state v = Claimed)) (deliveries d2))) d2) (\<lambda>d3.
     bindR (seatResult now q None ended d3) (\<lambda>res. Inr (res, d3)))))))"

definition runSeatOperation :: "time \<Rightarrow> seat_op_request \<Rightarrow> binding \<Rightarrow> db \<Rightarrow> seat_op_result tx" where
  "runSeatOperation now q session d =
     (if sq_kind q = ''take'' then take_seat now q session d
      else if sq_kind q = ''leave'' then leave now q session d
      else if sq_kind q = ''relieve'' then relieve now q session d
      else if sq_kind q = ''set_text'' then setText now q session d
      else if sq_kind q = ''retire'' then retire now q session d
      else Inl (ErrInternal ''unknown seat operation''))"

definition LookupSeatOperation :: "string \<Rightarrow> string \<Rightarrow> db \<Rightarrow> (string \<times> seat_op_result) option" where
  "LookupSeatOperation adapterID operationID d = lookupReceipt (seat_receipts d) adapterID operationID"

definition seatReceipt :: "time \<Rightarrow> seat_op_request \<Rightarrow> seat_op_result \<Rightarrow> seat_op_result receipt_row" where
  "seatReceipt now q res =
     \<lparr>rc_adapter_id = sq_adapter_id q, rc_operation_id = sq_operation_id q, rc_kind = sq_kind q,
      rc_fingerprint = sq_fingerprint q, rc_result = res, rc_created_at = now\<rparr>"

definition SeatOperation :: "time \<Rightarrow> seat_op_request \<Rightarrow> db \<Rightarrow> seat_op_result tx" where
  "SeatOperation now q d =
     (case lookupReceipt (seat_receipts d) (sq_adapter_id q) (sq_operation_id q) of
        Some (fp, old) \<Rightarrow>
          if fp \<noteq> sq_fingerprint q then Inl ErrOperationConflict
          else Inr (old\<lparr>so_replayed := True\<rparr>, d)
      | None \<Rightarrow>
          bindR (currentLease d now (sq_adapter_id q) (sq_lease_token q)) (\<lambda>_.
          bindR (ownedBinding d (sq_session_address q) (sq_adapter_id q)) (\<lambda>session.
          bindR (runSeatOperation now q session d) (\<lambda>(res, d1).
          Inr (res, d1\<lparr>seat_receipts := seat_receipts d1 @ [seatReceipt now q res]\<rparr>)))))"

section \<open>Inspection\<close>

record seat_filter =
  sfl_scope :: string
  sfl_holder :: string
  sfl_state :: string

definition seatMatches :: "seat_filter \<Rightarrow> seat \<Rightarrow> bool" where
  "seatMatches flt view =
     ((sfl_holder flt = '''' \<or>
        (case s_holding view of None \<Rightarrow> False | Some h \<Rightarrow> h_holder_address h = sfl_holder flt)) \<and>
      (sfl_state flt = '''' \<or> s_state view = sfl_state flt))"

fun seatViews :: "db \<Rightarrow> time \<Rightarrow> seat_filter \<Rightarrow> seat_row list \<Rightarrow> store_error + seat list" where
  "seatViews d now flt [] = Inr []"
| "seatViews d now flt (row # rows) =
     bindR (seatView d now row False) (\<lambda>view.
     bindR (seatViews d now flt rows) (\<lambda>views.
     Inr (if seatMatches flt view then view # views else views)))"

definition ListSeats :: "time \<Rightarrow> seat_filter \<Rightarrow> db \<Rightarrow> store_error + seat list" where
  "ListSeats now flt d =
     seatViews d now flt
       (filter (\<lambda>r. sfl_scope flt = '''' \<or> SeatScope (sw_address r) = sfl_scope flt)
          (sort_key sw_address (seats d)))"

definition GetSeat :: "time \<Rightarrow> string \<Rightarrow> db \<Rightarrow> store_error + seat" where
  "GetSeat now address d =
     bindR (ok_or ErrSeatNotFound (readSeatRow d address)) (\<lambda>row. seatView d now row True)"

definition GetSeatText :: "string \<Rightarrow> string \<Rightarrow> int \<Rightarrow> db \<Rightarrow> store_error + seat_text" where
  "GetSeatText address kind version0 d =
     bindR (ok_or ErrSeatNotFound (readSeatRow d address)) (\<lambda>row.
       if version0 = 0 \<and> textVersion row kind = 0 then Inl ErrVersionNotFound
       else
         let version = (if version0 = 0 then textVersion row kind else version0)
         in case readSeatText d address kind version of
              Some t \<Rightarrow> Inr t
            | None \<Rightarrow>
                if version > 0 \<and> version \<le> issuedVersion d address kind then Inl ErrVersionPruned
                else Inl ErrVersionNotFound)"

definition ListSeatTexts :: "string \<Rightarrow> string \<Rightarrow> db \<Rightarrow> store_error + seat_text list" where
  "ListSeatTexts address kind d =
     bindR (ok_or ErrSeatNotFound (readSeatRow d address)) (\<lambda>_.
     Inr (map (\<lambda>r. scanSeatText r False)
       (sort_key (\<lambda>t. - tw_version t) (sel (\<lambda>t. tw_seat_address t = address \<and> tw_kind t = kind) (texts d)))))"

definition ListSeatHoldings :: "time \<Rightarrow> string \<Rightarrow> db \<Rightarrow> store_error + holding list" where
  "ListSeatHoldings now address d =
     bindR (ok_or ErrSeatNotFound (readSeatRow d address)) (\<lambda>_.
     Inr (map (markStale d now)
       (sort_key (\<lambda>h. - h_holding_id h) (sel (\<lambda>h. h_seat_address h = address) (holdings d)))))"

definition PruneSeatOperations ::
  "(seat_op_result receipt_row list \<Rightarrow> seat_op_result receipt_row list) \<Rightarrow> time \<Rightarrow> nat \<Rightarrow> db \<Rightarrow> nat \<times> db" where
  "PruneSeatOperations plan cutoff limit d =
     (case pruneRows plan cutoff limit (seat_receipts d) of (n, rows) \<Rightarrow> (n, d\<lparr>seat_receipts := rows\<rparr>))"

end
