(* ===== verification/Seat_Invariant.thy ===== *)
theory Seat_Invariant
  imports Seats
begin

text \<open>
  The invariant of the seat tables and that every seat operation keeps it: a seat has at most one
  open holding and names it, holding ids are issued densely and never reused, an ended holding never
  changes, and the current version of a text is the newest one issued and is still stored.
\<close>

section \<open>Holdings\<close>

definition hkey :: "holding \<Rightarrow> string \<times> int" where
  "hkey h = (h_seat_address h, h_holding_id h)"

definition seat_ok :: "seat_row \<Rightarrow> holding list \<Rightarrow> bool" where
  "seat_ok r H =
     ((sw_retired r \<longrightarrow> sw_current r = None) \<and> 0 \<le> sw_last_holding r \<and>
      (\<forall>i. (\<exists>h\<in>set H. hkey h = (sw_address r, i)) \<longleftrightarrow> 1 \<le> i \<and> i \<le> sw_last_holding r) \<and>
      (\<forall>h\<in>set H. h_seat_address h = sw_address r \<longrightarrow>
         (h_ended_at h = None \<longleftrightarrow> sw_current r = Some (h_holding_id h))) \<and>
      (\<forall>i. sw_current r = Some i \<longrightarrow> 1 \<le> i \<and> i \<le> sw_last_holding r))"

definition holdings_inv :: "seat_row list \<Rightarrow> holding list \<Rightarrow> bool" where
  "holdings_inv S H =
     (distinct (map sw_address S) \<and> distinct (map hkey H) \<and> (\<forall>r\<in>set S. seat_ok r H) \<and>
      (\<forall>h\<in>set H. h_seat_address h \<in> sw_address ` set S \<and> holding_check h))"

definition text_kinds :: "string set" where
  "text_kinds = {SeatTextCharter, SeatTextHandoff}"

definition tkey :: "seat_text_row \<Rightarrow> string \<times> string \<times> int" where
  "tkey t = (tw_seat_address t, tw_kind t, tw_version t)"

definition version_ok :: "seat_row \<Rightarrow> string \<Rightarrow> seat_text_row list \<Rightarrow> bool" where
  "version_ok r kind T =
     (textVersion r kind = 0 \<or>
      ((\<exists>t\<in>set T. tkey t = (sw_address r, kind, textVersion r kind)) \<and>
       (\<forall>t\<in>set T. tw_seat_address t = sw_address r \<and> tw_kind t = kind \<longrightarrow>
          tw_version t \<le> textVersion r kind)))"

definition texts_inv :: "seat_row list \<Rightarrow> seat_text_row list \<Rightarrow> bool" where
  "texts_inv S T =
     (distinct (map tkey T) \<and>
      (\<forall>t\<in>set T. tw_seat_address t \<in> sw_address ` set S \<and> tw_kind t \<in> text_kinds \<and> 1 \<le> tw_version t) \<and>
      (\<forall>r\<in>set S. \<forall>kind\<in>text_kinds. version_ok r kind T))"

definition seat_inv :: "db \<Rightarrow> bool" where
  "seat_inv d = (holdings_inv (seats d) (holdings d) \<and> texts_inv (seats d) (texts d))"

definition holding_moves :: "holding \<Rightarrow> holding \<Rightarrow> bool" where
  "holding_moves h h' =
     (hkey h' = hkey h \<and> h_seat_generation h' = h_seat_generation h \<and>
      h_holder_address h' = h_holder_address h \<and> h_holder_adapter_id h' = h_holder_adapter_id h \<and>
      h_holder_generation h' = h_holder_generation h \<and> h_started_at h' = h_started_at h \<and>
      h_start_note h' = h_start_note h \<and> (h_ended_at h \<noteq> None \<longrightarrow> h' = h))"

definition seat_row_moves :: "seat_row \<Rightarrow> seat_row \<Rightarrow> bool" where
  "seat_row_moves r r' =
     (sw_address r' = sw_address r \<and> sw_generation r \<le> sw_generation r' \<and>
      sw_last_holding r \<le> sw_last_holding r')"

interpretation hm: evolving_trans holding_moves
  by unfold_locales (auto simp: holding_moves_def)

interpretation sm: evolving_trans seat_row_moves
  by unfold_locales (auto simp: seat_row_moves_def)

section \<open>Writing one seat\<close>

lemma seat_ok_cong:
  assumes "\<And>h. h_seat_address h = sw_address r \<Longrightarrow> h \<in> set H' \<longleftrightarrow> h \<in> set H"
  shows "seat_ok r H' \<longleftrightarrow> seat_ok r H"
proof -
  have ids: "(\<exists>h\<in>set H'. hkey h = (sw_address r, i)) \<longleftrightarrow> (\<exists>h\<in>set H. hkey h = (sw_address r, i))" for i
    using assms by (auto simp: hkey_def)
  have each: "(\<forall>h\<in>set H'. h_seat_address h = sw_address r \<longrightarrow> Q h) \<longleftrightarrow>
      (\<forall>h\<in>set H. h_seat_address h = sw_address r \<longrightarrow> Q h)" for Q
    using assms by blast
  show ?thesis by (simp only: seat_ok_def ids each)
qed

lemma seat_ok_fields:
  assumes "sw_address r' = sw_address r" and "sw_last_holding r' = sw_last_holding r"
    and "sw_current r' = sw_current r" and "sw_retired r' \<longrightarrow> sw_current r' = None"
  shows "seat_ok r H \<Longrightarrow> seat_ok r' H"
  using assms by (auto simp: seat_ok_def)

lemma holdings_inv_write:
  assumes inv: "holdings_inv S H"
    and row: "\<And>r. r \<in> set S \<Longrightarrow> sw_address r = a \<Longrightarrow> sw_address (f r) = a \<and> seat_ok (f r) H'"
    and others: "\<And>h. h_seat_address h \<noteq> a \<Longrightarrow> h \<in> set H' \<longleftrightarrow> h \<in> set H"
    and keys: "distinct (map hkey H')"
    and here: "\<And>h. h \<in> set H' \<Longrightarrow> h_seat_address h = a \<Longrightarrow> a \<in> sw_address ` set S \<and> holding_check h"
  shows "holdings_inv (upd (\<lambda>r. sw_address r = a) f S) H'"
proof -
  have addr: "map sw_address (upd (\<lambda>r. sw_address r = a) f S) = map sw_address S"
    using row by (auto simp: upd_def)
  then have "sw_address ` set (upd (\<lambda>r. sw_address r = a) f S) = sw_address ` set S"
    by (metis set_map)
  moreover have "seat_ok r H'" if "r \<in> set S" "sw_address r \<noteq> a" for r
    using inv that others by (subst seat_ok_cong [of r H' H]) (auto simp: holdings_inv_def)
  moreover have "h_seat_address h \<in> sw_address ` set S \<and> holding_check h" if "h \<in> set H'" for h
    using that here others inv by (cases "h_seat_address h = a") (auto simp: holdings_inv_def)
  ultimately show ?thesis
    using inv keys row addr by (auto simp: holdings_inv_def elim!: upd_memE)
qed

lemma holdings_inv_fields:
  assumes "holdings_inv S H"
    and "\<And>r. r \<in> set S \<Longrightarrow> sw_address r = a \<Longrightarrow>
       sw_address (f r) = a \<and> sw_last_holding (f r) = sw_last_holding r \<and>
       sw_current (f r) = sw_current r \<and> (sw_retired (f r) \<longrightarrow> sw_current r = None)"
  shows "holdings_inv (upd (\<lambda>r. sw_address r = a) f S) H"
proof (rule holdings_inv_write [OF assms(1)])
  fix r assume r: "r \<in> set S" "sw_address r = a"
  then have "seat_ok r H" using assms(1) by (simp add: holdings_inv_def)
  then show "sw_address (f r) = a \<and> seat_ok (f r) H"
    using assms(2) [OF r] r(2) by (auto intro: seat_ok_fields)
qed (use assms(1) in \<open>auto simp: holdings_inv_def\<close>)

lemma holdings_inv_start:
  assumes inv: "holdings_inv S H" and r0: "r0 \<in> set S" "sw_current r0 = None"
    and h: "hkey h = (sw_address r0, sw_last_holding r0 + 1)" "h_ended_at h = None" "holding_check h"
    and f: "\<And>r. r \<in> set S \<Longrightarrow> sw_address r = sw_address r0 \<Longrightarrow>
       sw_address (f r) = sw_address r0 \<and> sw_last_holding (f r) = sw_last_holding r0 + 1 \<and>
       sw_current (f r) = Some (sw_last_holding r0 + 1) \<and> \<not> sw_retired (f r)"
  shows "holdings_inv (upd (\<lambda>r. sw_address r = sw_address r0) f S) (H @ [h])"
proof -
  have ok: "seat_ok r0 H" using inv r0 by (simp add: holdings_inv_def)
  have fresh: "hkey h \<notin> hkey ` set H"
  proof
    assume "hkey h \<in> hkey ` set H"
    then have "\<exists>g\<in>set H. hkey g = (sw_address r0, sw_last_holding r0 + 1)"
      unfolding h(1) [symmetric] by (metis imageE)
    with ok have "sw_last_holding r0 + 1 \<le> sw_last_holding r0"
      unfolding seat_ok_def by blast
    then show False by simp
  qed
  show ?thesis
  proof (rule holdings_inv_write [OF inv])
    fix r assume "r \<in> set S" and "sw_address r = sw_address r0"
    then have fr: "sw_address (f r) = sw_address r0" "sw_last_holding (f r) = sw_last_holding r0 + 1"
      "sw_current (f r) = Some (sw_last_holding r0 + 1)" "\<not> sw_retired (f r)"
      using f by auto
    have "(\<exists>g\<in>set (H @ [h]). hkey g = (sw_address r0, i)) \<longleftrightarrow>
        (\<exists>g\<in>set H. hkey g = (sw_address r0, i)) \<or> i = sw_last_holding r0 + 1" for i
      using h(1) by auto
    then have ids: "(\<exists>g\<in>set (H @ [h]). hkey g = (sw_address r0, i)) \<longleftrightarrow> 1 \<le> i \<and> i \<le> sw_last_holding r0 + 1" for i
      using ok by (auto simp: seat_ok_def)
    have old: "h_ended_at g \<noteq> None \<and> h_holding_id g \<noteq> sw_last_holding r0 + 1"
      if "g \<in> set H" "h_seat_address g = sw_address r0" for g
      using that ok r0(2) fresh h(1) by (auto simp: seat_ok_def hkey_def image_iff)
    have "\<forall>g\<in>set (H @ [h]). h_seat_address g = sw_address r0 \<longrightarrow>
        (h_ended_at g = None \<longleftrightarrow> sw_last_holding r0 + 1 = h_holding_id g)"
      using old h(1,2) by (fastforce simp: hkey_def)
    then show "sw_address (f r) = sw_address r0 \<and> seat_ok (f r) (H @ [h])"
      using ok fr ids by (simp add: seat_ok_def)
  qed (use inv fresh h r0 in \<open>auto simp: holdings_inv_def hkey_def\<close>)
qed

lemma holdings_inv_end:
  assumes inv: "holdings_inv S H" and r0: "r0 \<in> set S" "sw_current r0 = Some hid"
    and g: "\<And>h. h \<in> set H \<Longrightarrow> hkey h = (sw_address r0, hid) \<Longrightarrow>
       hkey (g h) = hkey h \<and> h_ended_at (g h) \<noteq> None \<and> holding_check (g h)"
    and f: "\<And>r. r \<in> set S \<Longrightarrow> sw_address r = sw_address r0 \<Longrightarrow>
       sw_address (f r) = sw_address r0 \<and> sw_last_holding (f r) = sw_last_holding r0 \<and>
       sw_current (f r) = None"
    and P: "\<And>h. h \<in> set H \<Longrightarrow> P h \<longleftrightarrow> hkey h = (sw_address r0, hid)"
  shows "holdings_inv (upd (\<lambda>r. sw_address r = sw_address r0) f S) (upd P g H)"
proof -
  have ok: "seat_ok r0 H" using inv r0 by (simp add: holdings_inv_def)
  have keys: "map hkey (upd P g H) = map hkey H"
    using g P by (auto simp: upd_def)
  then have "hkey ` set (upd P g H) = hkey ` set H" by (metis set_map)
  then have ids: "(\<exists>h\<in>set (upd P g H). hkey h = k) \<longleftrightarrow> (\<exists>h\<in>set H. hkey h = k)" for k
    by (metis (no_types, lifting) imageE imageI)
  have ended: "h_ended_at h \<noteq> None"
    if "h \<in> set (upd P g H)" "h_seat_address h = sw_address r0" for h
    using that ok r0(2) g P by (auto simp: seat_ok_def hkey_def elim!: upd_memE split: if_splits)
  show ?thesis
  proof (rule holdings_inv_write [OF inv])
    fix r assume "r \<in> set S" and "sw_address r = sw_address r0"
    with f ok ids ended show "sw_address (f r) = sw_address r0 \<and> seat_ok (f r) (upd P g H)"
      by (auto simp: seat_ok_def)
  next
    fix h assume "h \<in> set (upd P g H)" and "h_seat_address h = sw_address r0"
    with inv g P r0(1) show "sw_address r0 \<in> sw_address ` set S \<and> holding_check h"
      by (auto simp: holdings_inv_def elim!: upd_memE split: if_splits)
  next
    fix h :: holding
    assume "h_seat_address h \<noteq> sw_address r0"
    with g P show "h \<in> set (upd P g H) \<longleftrightarrow> h \<in> set H"
      by (force simp: set_upd image_iff hkey_def)
  qed (use inv keys in \<open>simp add: holdings_inv_def\<close>)
qed

section \<open>Texts\<close>

lemma version_ok_cong:
  assumes "\<And>t. tw_seat_address t = sw_address r \<Longrightarrow> t \<in> set T' \<longleftrightarrow> t \<in> set T"
  shows "version_ok r kind T' \<longleftrightarrow> version_ok r kind T"
proof -
  have "(\<exists>t\<in>set T'. tkey t = (sw_address r, kind, v)) \<longleftrightarrow> (\<exists>t\<in>set T. tkey t = (sw_address r, kind, v))" for v
    using assms by (auto simp: tkey_def)
  moreover have "(\<forall>t\<in>set T'. tw_seat_address t = sw_address r \<and> tw_kind t = kind \<longrightarrow> Q t) \<longleftrightarrow>
      (\<forall>t\<in>set T. tw_seat_address t = sw_address r \<and> tw_kind t = kind \<longrightarrow> Q t)" for Q
    using assms by blast
  ultimately show ?thesis by (simp only: version_ok_def)
qed

lemma texts_inv_write:
  assumes inv: "texts_inv S T"
    and row: "\<And>r. r \<in> set S \<Longrightarrow> sw_address r = a \<Longrightarrow>
       sw_address (f r) = a \<and> (\<forall>kind\<in>text_kinds. version_ok (f r) kind T')"
    and others: "\<And>t. tw_seat_address t \<noteq> a \<Longrightarrow> t \<in> set T' \<longleftrightarrow> t \<in> set T"
    and keys: "distinct (map tkey T')"
    and here: "\<And>t. t \<in> set T' \<Longrightarrow> tw_seat_address t = a \<Longrightarrow>
       a \<in> sw_address ` set S \<and> tw_kind t \<in> text_kinds \<and> 1 \<le> tw_version t"
  shows "texts_inv (upd (\<lambda>r. sw_address r = a) f S) T'"
proof -
  have "map sw_address (upd (\<lambda>r. sw_address r = a) f S) = map sw_address S"
    using row by (auto simp: upd_def)
  then have "sw_address ` set (upd (\<lambda>r. sw_address r = a) f S) = sw_address ` set S"
    by (metis set_map)
  moreover have "version_ok r kind T'" if "r \<in> set S" "sw_address r \<noteq> a" "kind \<in> text_kinds" for r kind
    using inv that others by (subst version_ok_cong [of r T' T]) (auto simp: texts_inv_def)
  moreover have "tw_seat_address t \<in> sw_address ` set S \<and> tw_kind t \<in> text_kinds \<and> 1 \<le> tw_version t"
    if "t \<in> set T'" for t
    using that here others inv by (cases "tw_seat_address t = a") (auto simp: texts_inv_def)
  ultimately show ?thesis
    using keys row by (auto simp: texts_inv_def elim!: upd_memE)
qed

lemma version_ok_fields:
  "version_ok r kind T \<Longrightarrow> sw_address r' = sw_address r \<Longrightarrow> textVersion r' kind = textVersion r kind \<Longrightarrow>
   version_ok r' kind T"
  by (simp add: version_ok_def)

lemma version_ok_zero: "textVersion r kind = 0 \<Longrightarrow> version_ok r kind T"
  by (simp add: version_ok_def)

text \<open>A write to a seat row that leaves its text versions alone, or clears them.\<close>

lemma texts_inv_fields:
  assumes "texts_inv S T"
    and "\<And>r. r \<in> set S \<Longrightarrow> sw_address r = a \<Longrightarrow> sw_address (f r) = a \<and>
       (\<forall>kind\<in>text_kinds. textVersion (f r) kind = 0 \<or> textVersion (f r) kind = textVersion r kind)"
  shows "texts_inv (upd (\<lambda>r. sw_address r = a) f S) T"
proof (rule texts_inv_write [OF assms(1)])
  fix r assume r: "r \<in> set S" "sw_address r = a"
  then have "\<forall>kind\<in>text_kinds. version_ok r kind T" using assms(1) by (simp add: texts_inv_def)
  then show "sw_address (f r) = a \<and> (\<forall>kind\<in>text_kinds. version_ok (f r) kind T)"
    using assms(2) [OF r] r(2) by (auto intro: version_ok_fields version_ok_zero)
qed (use assms(1) in \<open>auto simp: texts_inv_def\<close>)

lemma fold_max_ge: "x \<in> set xs \<or> x \<le> a \<Longrightarrow> x \<le> fold max xs (a::int)"
proof (induction xs arbitrary: a)
  case (Cons y xs)
  have "x \<in> set xs \<or> x \<le> max y a"
    using Cons.prems by (metis set_ConsD max.cobounded1 max.coboundedI2)
  from Cons.IH [OF this] show ?case by simp
qed simp

lemma issuedVersion_bounds:
  "0 \<le> issuedVersion d st kind"
  "t \<in> set (texts d) \<Longrightarrow> tw_seat_address t = st \<Longrightarrow> tw_kind t = kind \<Longrightarrow> tw_version t \<le> issuedVersion d st kind"
  unfolding issuedVersion_def by (rule fold_max_ge; auto)+

text \<open>
  Setting a text: the new version is above every stored one of its kind, the seat row names it, and
  pruning drops old versions only.
\<close>

lemma texts_inv_set:
  assumes inv: "texts_inv S T" and r0: "r0 \<in> set S"
    and t: "tkey t = (sw_address r0, kind, version)" "kind \<in> text_kinds" "1 \<le> version"
    and newest: "\<And>u. u \<in> set T \<Longrightarrow> tw_seat_address u = sw_address r0 \<Longrightarrow> tw_kind u = kind \<Longrightarrow>
       tw_version u < version"
    and keep: "\<And>u. u \<in> set (T @ [t]) \<Longrightarrow> \<not> K u \<Longrightarrow>
       tw_seat_address u = sw_address r0 \<and> tw_kind u = kind \<and> tw_version u < version"
  shows "texts_inv (upd (\<lambda>r. sw_address r = sw_address r0) (recordVersion now kind version) S)
           (filter K (T @ [t]))"
proof (rule texts_inv_write [OF inv])
  fix r assume r: "r \<in> set S" "sw_address r = sw_address r0"
  let ?r = "recordVersion now kind version r"
  have addr: "sw_address ?r = sw_address r0" using r(2) by (simp add: recordVersion_def)
  have "version_ok ?r k (filter K (T @ [t]))" if k: "k \<in> text_kinds" for k
  proof (cases "k = kind")
    case True
    have v: "textVersion ?r kind = version"
      using t(2) by (auto simp: recordVersion_def textVersion_def text_kinds_def)
    have "K t" using keep [of t] t(1) by (auto simp: tkey_def)
    moreover have "tw_version u \<le> version" if "u \<in> set (T @ [t])" "tw_seat_address u = sw_address r0"
      "tw_kind u = kind" for u
      using that newest [of u] t(1) by (auto simp: tkey_def)
    ultimately show ?thesis
      using True v addr t(1) by (auto simp: version_ok_def)
  next
    case False
    then have same: "textVersion ?r k = textVersion r k"
      using t(2) k by (auto simp: recordVersion_def textVersion_def text_kinds_def)
    have "version_ok r k T" using inv r(1) k by (simp add: texts_inv_def)
    then have "version_ok r k (filter K (T @ [t]))"
      using False keep t(1) unfolding version_ok_def tkey_def by (fastforce simp: r(2))
    then show ?thesis by (rule version_ok_fields) (simp_all add: same addr r(2))
  qed
  with addr show "sw_address ?r = sw_address r0 \<and> (\<forall>k\<in>text_kinds. version_ok ?r k (filter K (T @ [t])))"
    by blast
next
  fix u :: seat_text_row
  assume "tw_seat_address u \<noteq> sw_address r0"
  then show "u \<in> set (filter K (T @ [t])) \<longleftrightarrow> u \<in> set T"
    using keep [of u] t(1) by (auto simp: tkey_def)
next
  have "tkey t \<notin> tkey ` set T" using newest t(1) by (force simp: tkey_def)
  then have "distinct (map tkey (T @ [t]))" using inv by (simp add: texts_inv_def)
  then show "distinct (map tkey (filter K (T @ [t])))" by (rule distinct_map_filter)
next
  fix u assume "u \<in> set (filter K (T @ [t]))" and "tw_seat_address u = sw_address r0"
  then show "sw_address r0 \<in> sw_address ` set S \<and> tw_kind u \<in> text_kinds \<and> 1 \<le> tw_version u"
    using inv r0 t by (auto simp: texts_inv_def tkey_def split: if_splits)
qed

section \<open>What a seat transaction may do\<close>

text \<open>
  A seat operation releases claims of the seat's mail back to the queue or fails the mail; it may add
  one notice message. It never touches leases, bindings or receipts.
\<close>

definition seat_moves :: "delivery_state \<Rightarrow> delivery_state \<Rightarrow> bool" where
  "seat_moves s s' = ((s = Claimed \<and> s' = Queued) \<or> (s \<in> {Queued, Claimed} \<and> s' = Failed))"

definition seat_frame :: "db \<Rightarrow> db \<Rightarrow> bool" where
  "seat_frame d d' =
     (leases d' = leases d \<and> bindings d' = bindings d \<and> receipts d' = receipts d \<and>
      seat_receipts d' = seat_receipts d)"

definition seat_step :: "db \<Rightarrow> db \<Rightarrow> bool" where
  "seat_step d d' =
     (ledger_step seat_moves d d' \<and> evolves holding_moves (holdings d) (holdings d') \<and>
      evolves seat_row_moves (seats d) (seats d') \<and> seat_frame d d')"

definition fabric_inv :: "db \<Rightarrow> bool" where
  "fabric_inv d = (ledger_inv d \<and> seat_inv d)"

lemma transp_seat_moves: "transp seat_moves"
  by (auto simp: transp_def seat_moves_def)

lemma seat_step_refl [simp]: "seat_step d d"
  by (simp add: seat_step_def seat_frame_def hm.evolves_refl sm.evolves_refl)

lemma seat_step_trans: "seat_step a b \<Longrightarrow> seat_step b c \<Longrightarrow> seat_step a c"
  unfolding seat_step_def seat_frame_def
  using ledger_step_trans [OF transp_seat_moves] by (auto intro: hm.evolves_trans sm.evolves_trans)

lemma ledger_inv_cong:
  "messages d' = messages d \<Longrightarrow> deliveries d' = deliveries d \<Longrightarrow> delivery_seq d' = delivery_seq d \<Longrightarrow>
   rounds d' = rounds d \<Longrightarrow> ledger_inv d' = ledger_inv d"
  by (simp add: ledger_inv_def messages_inv_def deliveries_inv_def rounds_inv_def message_ids_def)

lemma seat_step_ledger:
  assumes "ledger_step seat_moves d d'" and "same_rest d d'"
  shows "seat_step d d'" and "seat_inv d' = seat_inv d"
  using assms by (simp_all add: seat_step_def seat_inv_def same_rest_def seat_frame_def
      hm.evolves_refl sm.evolves_refl)

lemma seat_step_tables:
  assumes "messages d' = messages d" and "deliveries d' = deliveries d"
    and "delivery_seq d' = delivery_seq d" and "rounds d' = rounds d" and "seat_frame d d'"
    and "evolves holding_moves (holdings d) (holdings d')" and "evolves seat_row_moves (seats d) (seats d')"
  shows "seat_step d d'" and "ledger_inv d' = ledger_inv d"
  using assms by (simp_all add: seat_step_def ledger_step_same ledger_inv_cong [of d' d])

section \<open>Statements\<close>

lemma updateSeats_Inr:
  "updateSeats P f d = Inr d' \<Longrightarrow> d' = d\<lparr>seats := upd P f (seats d)\<rparr>"
  by (auto simp: updateSeats_def split: if_splits)

lemma insertHolding_Inr:
  "insertHolding h d = Inr d' \<Longrightarrow> d' = d\<lparr>holdings := holdings d @ [h]\<rparr>"
  by (auto simp: insertHolding_def split: if_splits)

lemma updateHoldings_Inr:
  assumes "updateHoldings P f d = Inr d'"
  shows "d' = d\<lparr>holdings := upd P f (holdings d)\<rparr>"
    and "\<And>h. h \<in> set (holdings d) \<Longrightarrow> P h \<Longrightarrow> holding_check (f h)"
  using assms by (auto simp: updateHoldings_def list_ex_iff split: if_splits)

lemma insertText_Inr:
  assumes "insertText r d = Inr d'"
  shows "d' = d\<lparr>texts := texts d @ [r]\<rparr>" and "tw_kind r \<in> text_kinds"
  using assms by (auto simp: insertText_def text_kinds_def split: if_splits)

lemma readSeatRow_Some:
  "readSeatRow d a = Some r \<Longrightarrow> r \<in> set (seats d) \<and> sw_address r = a"
  by (auto simp: readSeatRow_def dest: sel1_SomeD)

lemma readHolding_Inr:
  "readHolding d a i = Inr h \<Longrightarrow> h \<in> set (holdings d) \<and> hkey h = (a, i)"
  by (auto simp: readHolding_def hkey_def dest: sel1_SomeD)

lemma seat_unique:
  "seat_inv d \<Longrightarrow> r \<in> set (seats d) \<Longrightarrow> r' \<in> set (seats d) \<Longrightarrow> sw_address r = sw_address r' \<Longrightarrow> r = r'"
  unfolding seat_inv_def holdings_inv_def by (blast intro: distinct_key_eq)

lemma seat_unchanged:
  assumes "\<And>r. sw_address (f r) = sw_address r"
  shows "sel1 (\<lambda>r. sw_address r = a) (upd P f t) = map_option (\<lambda>r. if P r then f r else r) (sel1 (\<lambda>r. sw_address r = a) t)"
  by (rule sel1_upd) (simp add: assms)

lemma releaseClaims_Inr:
  assumes "releaseClaims row d = Inr d'"
  shows "d' = d\<lparr>deliveries := upd (\<lambda>v. d_recipient_address v = sw_address row \<and> d_state v = Claimed)
                 unclaim (deliveries d)\<rparr>"
    and "ledger_inv d \<Longrightarrow> ledger_inv d' \<and> seat_step d d' \<and> seat_inv d' = seat_inv d"
proof -
  note u = assms [unfolded releaseClaims_def]
  show "d' = d\<lparr>deliveries := upd (\<lambda>v. d_recipient_address v = sw_address row \<and> d_state v = Claimed)
                 unclaim (deliveries d)\<rparr>"
    by (rule updateDeliveries_Inr(1) [OF u])
  assume inv: "ledger_inv d"
  have "ledger_inv d' \<and> ledger_step seat_moves d d' \<and> same_rest d d'"
    by (rule updateDeliveries_step [OF u inv])
      (auto simp: unclaim_def delivery_moves_def seat_moves_def claim_shape_def)
  then show "ledger_inv d' \<and> seat_step d d' \<and> seat_inv d' = seat_inv d"
    using seat_step_ledger by blast
qed

section \<open>Starting and ending a holding\<close>

lemma startHolding_Inr:
  assumes "startHolding now q session row d = Inr (h, d')"
  shows "d' = d\<lparr>holdings := holdings d @ [newHolding now q session row],
      seats := upd (\<lambda>r. sw_address r = sw_address row)
        (\<lambda>r. r\<lparr>sw_current := Some (sw_last_holding row + 1),
               sw_last_holding := sw_last_holding row + 1, sw_updated_at := now\<rparr>) (seats d),
      deliveries := upd (\<lambda>v. d_recipient_address v = sw_address row \<and> d_state v = Claimed)
                 unclaim (deliveries d)\<rparr>"
    and "readHolding d' (sw_address row) (sw_last_holding row + 1) = Inr h"
  using assms unfolding startHolding_def
  by (auto simp: bindR_Inr_iff dest!: insertHolding_Inr updateSeats_Inr releaseClaims_Inr(1))

lemma startHolding_step:
  assumes s: "startHolding now q session row d = Inr (h, d')" and inv: "fabric_inv d"
    and r0: "r0 \<in> set (seats d)" "sw_address row = sw_address r0" "sw_last_holding row = sw_last_holding r0"
    "sw_current r0 = None" "\<not> sw_retired r0"
  shows "fabric_inv d' \<and> seat_step d d'"
proof -
  let ?f = "\<lambda>r. r\<lparr>sw_current := Some (sw_last_holding row + 1),
               sw_last_holding := sw_last_holding row + 1, sw_updated_at := now\<rparr>"
  let ?S = "upd (\<lambda>r. sw_address r = sw_address row) ?f (seats d)"
  let ?H = "holdings d @ [newHolding now q session row]"
  let ?d = "d\<lparr>holdings := ?H, seats := ?S\<rparr>"
  from s obtain d2 where d2: "releaseClaims row d2 = Inr d'" "d2 = ?d"
    unfolding startHolding_def
    by (auto simp: bindR_Inr_iff dest!: insertHolding_Inr updateSeats_Inr)
  have same: "r = r0" if "r \<in> set (seats d)" "sw_address r = sw_address r0" for r
    using that inv r0(1) seat_unique by (auto simp: fabric_inv_def)
  have "evolves seat_row_moves (seats d) ?S"
    by (rule sm.evolves_upd) (use r0 same in \<open>fastforce simp: seat_row_moves_def\<close>)
  then have t: "seat_step d ?d" "ledger_inv ?d = ledger_inv d"
    using seat_step_tables [of ?d d] by (simp_all add: seat_frame_def hm.evolves_append)
  have "holdings_inv ?S ?H"
    unfolding r0(2)
    by (rule holdings_inv_start) (use inv r0 same in
      \<open>auto simp: fabric_inv_def seat_inv_def newHolding_def hkey_def holding_check_def\<close>)
  moreover have "texts_inv ?S (texts d)"
    by (rule texts_inv_fields) (use inv in \<open>auto simp: fabric_inv_def seat_inv_def textVersion_def\<close>)
  ultimately have "fabric_inv ?d" using inv t(2) by (simp add: fabric_inv_def seat_inv_def)
  then show ?thesis
    using releaseClaims_Inr(2) [OF d2(1)] t(1) d2(2) seat_step_trans by (auto simp: fabric_inv_def)
qed

lemma endHolding_Inr:
  assumes "endHolding now row reason note relievedBy d = Inr (h, d')"
  shows "d' = d\<lparr>holdings := upd (\<lambda>h. h_seat_address h = sw_address row \<and> h_holding_id h = currentID row
                                \<and> h_ended_at h = None)
              (\<lambda>h. h\<lparr>h_ended_at := Some now, h_end_reason := reason, h_end_note := note,
                     h_relieved_by := relievedBy\<rparr>) (holdings d),
      seats := upd (\<lambda>r. sw_address r = sw_address row)
        (\<lambda>r. r\<lparr>sw_current := None, sw_updated_at := now\<rparr>) (seats d),
      deliveries := upd (\<lambda>v. d_recipient_address v = sw_address row \<and> d_state v = Claimed)
                 unclaim (deliveries d)\<rparr>"
    and "readHolding d' (sw_address row) (currentID row) = Inr h"
  using assms unfolding endHolding_def
  by (auto simp: bindR_Inr_iff dest!: updateHoldings_Inr(1) updateSeats_Inr releaseClaims_Inr(1))

lemma current_open:
  assumes "seat_inv d" and "row \<in> set (seats d)" and "sw_current row = Some hid"
    and "h \<in> set (holdings d)" and "hkey h = (sw_address row, hid)"
  shows "h_ended_at h = None"
  using assms by (auto simp: seat_inv_def holdings_inv_def seat_ok_def hkey_def)

lemma endHolding_step:
  assumes e: "endHolding now row reason note relievedBy d = Inr (h, d')" and inv: "fabric_inv d"
    and row: "row \<in> set (seats d)" "sw_current row = Some hid"
  shows "fabric_inv d' \<and> seat_step d d'"
proof -
  let ?P = "\<lambda>h. h_seat_address h = sw_address row \<and> h_holding_id h = currentID row \<and> h_ended_at h = None"
  let ?g = "\<lambda>h. h\<lparr>h_ended_at := Some now, h_end_reason := reason, h_end_note := note,
                     h_relieved_by := relievedBy\<rparr>"
  let ?f = "\<lambda>r. r\<lparr>sw_current := None, sw_updated_at := now\<rparr>"
  let ?S = "upd (\<lambda>r. sw_address r = sw_address row) ?f (seats d)"
  let ?H = "upd ?P ?g (holdings d)"
  let ?d = "d\<lparr>holdings := ?H, seats := ?S\<rparr>"
  from e obtain d1 d2 where u: "updateHoldings ?P ?g d = Inr d1"
    and s: "updateSeats (\<lambda>r. sw_address r = sw_address row) ?f d1 = Inr d2"
    and rel: "releaseClaims row d2 = Inr d'"
    unfolding endHolding_def by (auto simp: bindR_Inr_iff)
  have d2: "releaseClaims row d2 = Inr d'" "d2 = ?d"
    using rel updateSeats_Inr [OF s] updateHoldings_Inr(1) [OF u] by simp_all
  have "evolves seat_row_moves (seats d) ?S"
    by (rule sm.evolves_upd) (auto simp: seat_row_moves_def)
  moreover have "evolves holding_moves (holdings d) ?H"
    by (rule hm.evolves_upd) (auto simp: holding_moves_def hkey_def)
  ultimately have t: "seat_step d ?d" "ledger_inv ?d = ledger_inv d"
    using seat_step_tables [of ?d d] by (simp_all add: seat_frame_def)
  have key: "?P h \<longleftrightarrow> hkey h = (sw_address row, hid)" if "h \<in> set (holdings d)" for h
    using that row current_open [of d row hid h] inv
    by (auto simp: fabric_inv_def hkey_def currentID_def)
  have "holdings_inv ?S ?H"
  proof (rule holdings_inv_end [where hid = hid])
    fix h assume h: "h \<in> set (holdings d)" "hkey h = (sw_address row, hid)"
    then have "?P h" using key by blast
    with updateHoldings_Inr(2) [OF u h(1)]
    show "hkey (?g h) = hkey h \<and> h_ended_at (?g h) \<noteq> None \<and> holding_check (?g h)"
      by (simp add: hkey_def)
  next
    fix r assume r: "r \<in> set (seats d)" "sw_address r = sw_address row"
    then have "r = row" using inv row(1) seat_unique by (auto simp: fabric_inv_def)
    then show "sw_address (?f r) = sw_address row \<and> sw_last_holding (?f r) = sw_last_holding row \<and>
        sw_current (?f r) = None" by simp
  qed (use inv row key in \<open>auto simp: fabric_inv_def seat_inv_def\<close>)
  moreover have "texts_inv ?S (texts d)"
    by (rule texts_inv_fields) (use inv in \<open>auto simp: fabric_inv_def seat_inv_def textVersion_def\<close>)
  ultimately have "fabric_inv ?d" using inv t(2) by (simp add: fabric_inv_def seat_inv_def)
  then show ?thesis
    using releaseClaims_Inr(2) [OF d2(1)] t(1) d2(2) seat_step_trans by (auto simp: fabric_inv_def)
qed

section \<open>Opening a seat\<close>

lemma openSeat_cases:
  assumes "openSeat now q d = Inr (row, d')"
  obtains (created) "readSeatRow d (sq_seat_address q) = None"
      "row = \<lparr>sw_address = sq_seat_address q, sw_generation = 1, sw_retired = False, sw_current = None,
              sw_last_holding = 0, sw_charter_version = 0, sw_handoff_version = 0, sw_created_at = now,
              sw_created_by = sq_session_address q, sw_updated_at = now\<rparr>"
      "d' = d\<lparr>seats := seats d @ [row]\<rparr>"
    | (recreated) old where "readSeatRow d (sq_seat_address q) = Some old" "sw_retired old"
      "row = old\<lparr>sw_generation := sw_generation old + 1, sw_retired := False, sw_charter_version := 0,
                 sw_handoff_version := 0, sw_created_at := now, sw_created_by := sq_session_address q,
                 sw_updated_at := now\<rparr>"
      "d' = d\<lparr>seats := upd (\<lambda>r. sw_address r = sq_seat_address q)
               (\<lambda>r. r\<lparr>sw_generation := sw_generation r + 1, sw_retired := False,
                      sw_charter_version := 0, sw_handoff_version := 0, sw_created_at := now,
                      sw_created_by := sq_session_address q, sw_updated_at := now\<rparr>) (seats d)\<rparr>"
    | (existing) "readSeatRow d (sq_seat_address q) = Some row" "\<not> sw_retired row" "d' = d"
proof (cases "readSeatRow d (sq_seat_address q)")
  case None
  then show thesis
    using assms unfolding openSeat_def
    by (intro created) (auto simp: readSeatRow_def sel1_append bindR_Inr_iff)
next
  case (Some old)
  then have "sw_address old = sq_seat_address q" using readSeatRow_Some by blast
  then show thesis
    using assms Some unfolding openSeat_def
    by (cases "sw_retired old")
      (auto simp: bindR_Inr_iff readSeatRow_def seat_unchanged dest!: updateSeats_Inr
        intro: recreated existing)
qed

lemma openSeat_step:
  assumes op: "openSeat now q d = Inr (row, d')" and inv: "fabric_inv d"
  shows "fabric_inv d' \<and> seat_step d d' \<and> row \<in> set (seats d') \<and> sw_address row = sq_seat_address q \<and>
    \<not> sw_retired row \<and> readSeatRow d' (sq_seat_address q) = Some row"
  using op
proof (cases rule: openSeat_cases)
  case created
  then have new: "sq_seat_address q \<notin> sw_address ` set (seats d)"
    by (auto simp: readSeatRow_def sel1_None_iff)
  then have other: "h_seat_address h \<noteq> sq_seat_address q" if "h \<in> set (holdings d)" for h
    using inv that by (metis fabric_inv_def seat_inv_def holdings_inv_def)
  then have "seat_ok row (holdings d)"
    using created(2) by (auto simp: seat_ok_def hkey_def)
  then have "seat_inv d'"
    using inv new created(2,3) by (auto simp: fabric_inv_def seat_inv_def holdings_inv_def texts_inv_def
        version_ok_def textVersion_def)
  moreover have "seat_step d d'" "ledger_inv d' = ledger_inv d"
    using seat_step_tables [of d' d] created(3)
    by (simp_all add: seat_frame_def hm.evolves_refl sm.evolves_append)
  moreover have "readSeatRow d' (sq_seat_address q) = Some row"
    using created by (simp add: readSeatRow_def sel1_append)
  ultimately show ?thesis using inv created(2,3) by (simp add: fabric_inv_def)
next
  case (recreated old)
  let ?f = "\<lambda>r. r\<lparr>sw_generation := sw_generation r + 1, sw_retired := False,
                      sw_charter_version := 0, sw_handoff_version := 0, sw_created_at := now,
                      sw_created_by := sq_session_address q, sw_updated_at := now\<rparr>"
  have rd: "readSeatRow d' (sq_seat_address q) = Some row"
    using recreated readSeatRow_Some [OF recreated(1)] by (auto simp: readSeatRow_def seat_unchanged)
  have "evolves seat_row_moves (seats d) (seats d')"
    unfolding recreated(4) by (auto simp: seat_row_moves_def intro: sm.evolves_upd)
  then have t: "seat_step d d'" "ledger_inv d' = ledger_inv d"
    using seat_step_tables [of d' d] recreated(4) by (simp_all add: seat_frame_def hm.evolves_refl)
  have "holdings_inv (upd (\<lambda>r. sw_address r = sq_seat_address q) ?f (seats d)) (holdings d)"
    by (rule holdings_inv_fields) (use inv in \<open>auto simp: fabric_inv_def seat_inv_def\<close>)
  moreover have "texts_inv (upd (\<lambda>r. sw_address r = sq_seat_address q) ?f (seats d)) (texts d)"
    by (rule texts_inv_fields) (use inv in \<open>auto simp: fabric_inv_def seat_inv_def textVersion_def\<close>)
  ultimately have "seat_inv d'" using recreated(4) by (simp add: seat_inv_def)
  with t inv rd recreated(3) readSeatRow_Some [OF rd] show ?thesis by (simp add: fabric_inv_def)
next
  case existing
  with inv readSeatRow_Some show ?thesis by auto
qed

section \<open>Seat operations keep the invariant\<close>

lemma notice_step:
  assumes "seatNotice now q recipient operationID body d = Inr (mid, d')" and "fabric_inv d"
  shows "fabric_inv d' \<and> seat_step d d'"
proof (cases "d' = d")
  case True
  with assms(2) show ?thesis by simp
next
  case False
  with assms(1) obtain msg d1 v where i: "insertMessage msg '''' d = Inr d1"
    "insertDelivery (sq_notice_delivery_id q) (m_message_id msg) (m_recipient_address msg)
       (m_recipient_generation msg) (m_created_at msg) (m_expires_at msg) d1 = Inr (v, d')"
    unfolding seatNotice_def Let_def
    by (fastforce simp: bindR_Inr_iff split: option.splits if_splits prod.splits)
  note a = append_ledger [OF i]
  from a(1) assms(2) seat_step_ledger [OF a(2,3)] show ?thesis by (simp add: fabric_inv_def)
qed

lemma take_seat_step:
  assumes "take_seat now q session d = Inr (res, d')" and "fabric_inv d"
  shows "fabric_inv d' \<and> seat_step d d'"
proof -
  from assms(1) obtain row d1 h where op: "openSeat now q d = Inr (row, d1)"
    and free: "sw_current row = None" and st: "startHolding now q session row d1 = Inr (h, d')"
    unfolding take_seat_def by (auto simp: bindR_Inr_iff split: if_splits)
  note o = openSeat_step [OF op assms(2)]
  from o free have "fabric_inv d' \<and> seat_step d1 d'"
    by (intro startHolding_step [OF st]) auto
  with o show ?thesis using seat_step_trans by blast
qed

lemma leave_step:
  assumes "leave now q session d = Inr (res, d')" and "fabric_inv d"
  shows "fabric_inv d' \<and> seat_step d d'"
proof -
  from assms(1) obtain row hid reason nt ended where row: "readSeatRow d (sq_seat_address q) = Some row"
    and cur: "sw_current row = Some hid" and e: "endHolding now row reason nt 0 d = Inr (ended, d')"
    unfolding leave_def existingSeat_def Let_def
    by (auto simp: bindR_Inr_iff split: option.splits if_splits)
  show ?thesis using endHolding_step [OF e assms(2) _ cur] readSeatRow_Some [OF row] by blast
qed

lemma relieve_step:
  assumes "relieve now q session d = Inr (res, d')" and inv: "fabric_inv d"
  shows "fabric_inv d' \<and> seat_step d d'"
proof -
  from assms(1) obtain row hid ended d1 h d2 mid op body where
      rd: "readSeatRow d (sq_seat_address q) = Some row" and cur: "sw_current row = Some hid"
    and e: "endHolding now row HoldingRelieved '''' (sw_last_holding row + 1) d = Inr (ended, d1)"
    and s: "startHolding now q session (row\<lparr>sw_current := None\<rparr>) d1 = Inr (h, d2)"
    and n: "seatNotice now q (h_holder_address ended) op body d2 = Inr (mid, d')"
    unfolding relieve_def existingSeat_def
    by (auto simp: bindR_Inr_iff split: option.splits if_splits)
  have row: "row \<in> set (seats d)" using readSeatRow_Some [OF rd] by blast
  then have live: "\<not> sw_retired row"
    using inv cur by (auto simp: fabric_inv_def seat_inv_def holdings_inv_def seat_ok_def)
  note e1 = endHolding_step [OF e inv row cur]
  let ?r = "row\<lparr>sw_current := None, sw_updated_at := now\<rparr>"
  have "?r \<in> set (seats d1)"
    using row endHolding_Inr(1) [OF e] by (auto simp: set_upd image_iff intro!: bexI [of _ row])
  then have s1: "fabric_inv d2 \<and> seat_step d1 d2"
    using e1 live by (intro startHolding_step [OF s, of ?r]) auto
  from e1 s1 notice_step [OF n] show ?thesis using seat_step_trans by blast
qed

text \<open>The states a text change passes through; only the notice at its end may still add a message.\<close>

lemma setText_Inr:
  assumes "setText now q session d = Inr (res, d')"
  obtains row d1 version d2 d3 d4 tt where "openSeat now q d = Inr (row, d1)"
    "sq_expected_version q = None \<or> sq_expected_version q = Some (textVersion row (sq_text_kind q))"
    "version = issuedVersion d1 (sw_address row) (sq_text_kind q) + 1"
    "insertText (textRow now q session row version d1) d1 = Inr d2"
    "updateSeats (\<lambda>r. sw_address r = sw_address row) (recordVersion now (sq_text_kind q) version) d2 = Inr d3"
    "d4 = pruneTexts q row version d3"
    "readSeatText d4 (sw_address row) (sq_text_kind q) version = Some tt" "so_text res = Some tt"
    "d' = d4 \<or> (\<exists>a op body mid. seatNotice now q a op body d4 = Inr (mid, d'))"
proof -
  let ?k = "sq_text_kind q"
  let ?v = "\<lambda>row d1. issuedVersion d1 (sw_address row) ?k + 1"
  from assms obtain row d1 d2 d3 tt hold r where
      s: "openSeat now q d = Inr (row, d1)"
      "\<not> (sq_expected_version q \<noteq> None \<and> sq_expected_version q \<noteq> Some (textVersion row ?k))"
      "insertText (textRow now q session row (?v row d1) d1) d1 = Inr d2"
      "updateSeats (\<lambda>r. sw_address r = sw_address row) (recordVersion now ?k (?v row d1)) d2 = Inr d3"
      "readSeatText (pruneTexts q row (?v row d1) d3) (sw_address row) ?k (?v row d1) = Some tt"
    and fin: "textNotice now q session row (?v row d1) tt hold r (pruneTexts q row (?v row d1) d3) = Inr (res, d')"
    unfolding setText_def Let_def by (auto simp: bindR_Inr_iff)
  from fin have "so_text res = Some tt \<and> (d' = pruneTexts q row (?v row d1) d3 \<or>
     (\<exists>a op body mid. seatNotice now q a op body (pruneTexts q row (?v row d1) d3) = Inr (mid, d')))"
    unfolding textNotice_def by (cases hold) (auto simp: bindR_Inr_iff split: if_splits)
  with s show thesis by (intro that [OF s(1) _ refl s(3,4) refl s(5)]) auto
qed

lemma setText_step:
  assumes "setText now q session d = Inr (res, d')" and inv: "fabric_inv d"
  shows "fabric_inv d' \<and> seat_step d d'"
proof -
  let ?k = "sq_text_kind q"
  from assms(1) obtain row d1 v d2 d3 d4 where op: "openSeat now q d = Inr (row, d1)"
    and v: "v = issuedVersion d1 (sw_address row) ?k + 1"
    and i: "insertText (textRow now q session row v d1) d1 = Inr d2"
    and u: "updateSeats (\<lambda>r. sw_address r = sw_address row) (recordVersion now ?k v) d2 = Inr d3"
    and p: "d4 = pruneTexts q row v d3"
    and n: "d' = d4 \<or> (\<exists>a op body mid. seatNotice now q a op body d4 = Inr (mid, d'))"
    by (rule setText_Inr)
  note o = openSeat_step [OF op inv]
  let ?t = "textRow now q session row v d1"
  let ?K = "\<lambda>t. \<not> (sq_keep_versions q > 0 \<and> tw_seat_address t = sw_address row \<and> tw_kind t = ?k
                     \<and> tw_version t \<le> v - sq_keep_versions q)"
  let ?S = "upd (\<lambda>r. sw_address r = sw_address row) (recordVersion now ?k v) (seats d1)"
  have d3: "d3 = d1\<lparr>texts := texts d1 @ [?t], seats := ?S\<rparr>"
    using updateSeats_Inr [OF u] insertText_Inr(1) [OF i] by simp
  have d4: "texts d4 = filter ?K (texts d1 @ [?t])" "seats d4 = ?S" "holdings d4 = holdings d1"
    "messages d4 = messages d1" "deliveries d4 = deliveries d1" "delivery_seq d4 = delivery_seq d1"
    "rounds d4 = rounds d1" "seat_frame d1 d4"
    unfolding p d3 pruneTexts_def by (simp_all add: seat_frame_def)
  have "evolves seat_row_moves (seats d1) (seats d4)"
    unfolding d4 by (rule sm.evolves_upd) (auto simp: seat_row_moves_def recordVersion_def)
  then have t: "seat_step d1 d4" "ledger_inv d4 = ledger_inv d1"
    using seat_step_tables [of d4 d1] d4 by (simp_all add: hm.evolves_refl)
  have "texts_inv (seats d4) (texts d4)"
    unfolding d4
  proof (rule texts_inv_set)
    show "tkey ?t = (sw_address row, ?k, v)" by (simp add: tkey_def textRow_def)
    show "?k \<in> text_kinds" using insertText_Inr(2) [OF i] by (simp add: textRow_def)
    show "1 \<le> v" using issuedVersion_bounds(1) by (simp add: v)
    show "tw_version w < v" if "w \<in> set (texts d1)" "tw_seat_address w = sw_address row" "tw_kind w = ?k" for w
      using issuedVersion_bounds(2) [OF that] by (simp add: v)
  qed (use o in \<open>auto simp: fabric_inv_def seat_inv_def\<close>)
  moreover have "holdings_inv (seats d4) (holdings d4)"
    unfolding d4 by (rule holdings_inv_fields) (use o in
      \<open>auto simp: fabric_inv_def seat_inv_def holdings_inv_def seat_ok_def recordVersion_def\<close>)
  ultimately have "fabric_inv d4" using o t(2) by (simp add: fabric_inv_def seat_inv_def)
  moreover have "seat_step d d4" using o t(1) seat_step_trans by blast
  ultimately show ?thesis using n notice_step seat_step_trans by blast
qed

lemma failMail_step:
  assumes "failMail now ids d = Inr d'" and "ledger_inv d"
    and "\<And>did v. did \<in> set ids \<Longrightarrow> v \<in> set (deliveries d) \<Longrightarrow> d_delivery_id v = did \<Longrightarrow>
       d_state v \<in> {Queued, Claimed}"
    and "distinct ids"
  shows "ledger_inv d' \<and> ledger_step seat_moves d d' \<and> same_rest d d'"
  using assms
proof (induction now ids d rule: failMail.induct)
  case (1 now d)
  then show ?case by simp
next
  case (2 now did ids d)
  from "2.prems"(1) obtain d1 where t: "terminalize now did Failed ''seat_retired'' d = Inr d1"
    and rest: "failMail now ids d1 = Inr d'" by (auto simp: bindR_Inr_iff)
  have one: "ledger_inv d1 \<and> ledger_step seat_moves d d1 \<and> same_rest d d1"
    by (rule terminalize_step [OF t "2.prems"(2)]) (use "2.prems"(3) in \<open>auto simp: seat_moves_def\<close>)
  have "d_state v \<in> {Queued, Claimed}"
    if "i \<in> set ids" "v \<in> set (deliveries d1)" "d_delivery_id v = i" for i v
    using that "2.prems"(3) [of i v] "2.prems"(4) unfolding terminalize_deliveries [OF t]
    by (auto elim!: upd_memE split: if_splits)
  with "2.IH" [OF t rest] one "2.prems"(4)
  have "ledger_inv d' \<and> ledger_step seat_moves d1 d' \<and> same_rest d1 d'" by simp
  with one show ?case using ledger_step_trans [OF transp_seat_moves] same_rest_trans by blast
qed

lemma retire_step:
  assumes "retire now q session d = Inr (res, d')" and inv: "fabric_inv d"
  shows "fabric_inv d' \<and> seat_step d d'"
proof -
  let ?f = "\<lambda>r. r\<lparr>sw_retired := True, sw_current := None, sw_updated_at := now\<rparr>"
  let ?mail = "\<lambda>row. sel (\<lambda>v. d_recipient_address v = sw_address row
                            \<and> (d_state v = Queued \<or> d_state v = Claimed))"
  from assms(1) obtain row d1 d2 ended where rd: "readSeatRow d (sq_seat_address q) = Some row"
    and c: "(case sw_current row of None \<Rightarrow> Inr (None, d)
            | Some _ \<Rightarrow> bindR (endHolding now row HoldingRetired (sq_note q) 0 d) (\<lambda>(h, d1). Inr (Some h, d1)))
            = Inr (ended, d1)"
    and u: "updateSeats (\<lambda>r. sw_address r = sw_address row) ?f d1 = Inr d2"
    and f: "failMail now (map d_delivery_id (?mail row (deliveries d2))) d2 = Inr d'"
    unfolding retire_def existingSeat_def by (auto simp: bindR_Inr_iff)
  have e: "sw_current row = None \<and> d1 = d \<or>
      (\<exists>hid h. sw_current row = Some hid \<and> endHolding now row HoldingRetired (sq_note q) 0 d = Inr (h, d1))"
    using c by (cases "sw_current row") (auto simp: bindR_Inr_iff)
  have row: "row \<in> set (seats d)" using readSeatRow_Some [OF rd] by blast
  have e1: "fabric_inv d1 \<and> seat_step d d1"
    using e inv endHolding_step [OF _ inv row] by auto
  have vacant: "sw_current r = None" if "r \<in> set (seats d1)" "sw_address r = sw_address row" for r
    using e
  proof (elim disjE exE conjE)
    assume "sw_current row = None" and "d1 = d"
    with that row inv show ?thesis using seat_unique by (auto simp: fabric_inv_def)
  next
    fix hid h assume "endHolding now row HoldingRetired (sq_note q) 0 d = Inr (h, d1)"
    from endHolding_Inr(1) [OF this] that show ?thesis by (auto elim!: upd_memE split: if_splits)
  qed
  let ?S = "upd (\<lambda>r. sw_address r = sw_address row) ?f (seats d1)"
  have d2: "d2 = d1\<lparr>seats := ?S\<rparr>" by (rule updateSeats_Inr [OF u])
  have "evolves seat_row_moves (seats d1) ?S"
    by (rule sm.evolves_upd) (auto simp: seat_row_moves_def)
  then have t: "seat_step d1 d2" "ledger_inv d2 = ledger_inv d1"
    using seat_step_tables [of d2 d1] d2 by (simp_all add: seat_frame_def hm.evolves_refl)
  have "holdings_inv ?S (holdings d1)"
    by (rule holdings_inv_fields) (use e1 vacant in \<open>auto simp: fabric_inv_def seat_inv_def\<close>)
  moreover have "texts_inv ?S (texts d1)"
    by (rule texts_inv_fields) (use e1 in \<open>auto simp: fabric_inv_def seat_inv_def textVersion_def\<close>)
  ultimately have inv2: "fabric_inv d2" using e1 t(2) d2 by (simp add: fabric_inv_def seat_inv_def)
  have "ledger_inv d' \<and> ledger_step seat_moves d2 d' \<and> same_rest d2 d'"
  proof (rule failMail_step [OF f])
    show "ledger_inv d2" using inv2 by (simp add: fabric_inv_def)
    then show "distinct (map d_delivery_id (?mail row (deliveries d2)))"
      by (simp add: ledger_inv_def deliveries_inv_def sel_def distinct_map_filter)
    fix did v
    assume "did \<in> set (map d_delivery_id (?mail row (deliveries d2)))"
      and "v \<in> set (deliveries d2)" and "d_delivery_id v = did"
    then show "d_state v \<in> {Queued, Claimed}"
      using delivery_unique [OF \<open>ledger_inv d2\<close>] by auto
  qed
  then have "fabric_inv d' \<and> seat_step d2 d'"
    using inv2 seat_step_ledger by (auto simp: fabric_inv_def)
  with e1 t(1) show ?thesis using seat_step_trans by blast
qed

lemma runSeatOperation_step:
  assumes "runSeatOperation now q session d = Inr (res, d')" and "fabric_inv d"
  shows "fabric_inv d' \<and> seat_step d d'"
  using assms take_seat_step leave_step relieve_step setText_step retire_step
  unfolding runSeatOperation_def by (auto split: if_splits)

end
