(* ===== verification/Directory_Invariant.thy ===== *)
theory Directory_Invariant
  imports Seat_Invariant
begin

text \<open>
  The contract of the directory: the invariant of the lease and binding tables, how their rows move,
  compare-and-set updates of bindings, and the fence an adapter lease puts in front of every
  operation that carries a lease token.
\<close>

section \<open>Invariant\<close>

definition binding_ok :: "binding_row \<Rightarrow> bool" where
  "binding_ok r =
     ((bw_adapter_id r = None \<longleftrightarrow> bw_target_ref r = None) \<and>
      (bw_adapter_id r = None \<longrightarrow> bw_capabilities r = []) \<and>
      1 \<le> bw_generation r \<and> bw_generation r \<le> bw_revision r)"

definition directory_inv :: "db \<Rightarrow> bool" where
  "directory_inv d =
     (distinct (map lr_adapter_id (leases d)) \<and> distinct (map bw_address (bindings d)) \<and>
      (\<forall>r\<in>set (bindings d). binding_ok r))"

text \<open>
  Revisions and generations only grow, a row changes only with its revision, and a route (adapter and
  target) changes only with its generation.
\<close>

definition binding_moves :: "binding_row \<Rightarrow> binding_row \<Rightarrow> bool" where
  "binding_moves r r' =
     (bw_address r' = bw_address r \<and> bw_revision r \<le> bw_revision r' \<and> bw_generation r \<le> bw_generation r' \<and>
      (bw_revision r' = bw_revision r \<longrightarrow> r' = r) \<and>
      (bw_generation r' = bw_generation r \<longrightarrow>
         bw_adapter_id r' = bw_adapter_id r \<and> bw_target_ref r' = bw_target_ref r))"

definition lease_moves :: "lease_row \<Rightarrow> lease_row \<Rightarrow> bool" where
  "lease_moves r r' = (lr_adapter_id r' = lr_adapter_id r)"

interpretation bm: evolving_trans binding_moves
  by unfold_locales (auto simp: binding_moves_def)

interpretation lm: evolving_trans lease_moves
  by unfold_locales (auto simp: lease_moves_def)

definition directory_step :: "db \<Rightarrow> db \<Rightarrow> bool" where
  "directory_step d d' =
     (evolves lease_moves (leases d) (leases d') \<and> evolves binding_moves (bindings d) (bindings d') \<and>
      messages d' = messages d \<and> deliveries d' = deliveries d \<and> delivery_seq d' = delivery_seq d \<and>
      rounds d' = rounds d \<and> receipts d' = receipts d \<and> seats d' = seats d \<and>
      holdings d' = holdings d \<and> texts d' = texts d \<and> seat_receipts d' = seat_receipts d)"

lemma directory_step_refl [simp]: "directory_step d d"
  by (simp add: directory_step_def lm.evolves_refl bm.evolves_refl)

section \<open>Reads\<close>

lemma leaseRow_Some: "leaseRow d a = Some r \<Longrightarrow> r \<in> set (leases d) \<and> lr_adapter_id r = a"
  by (auto simp: leaseRow_def dest: sel1_SomeD)

lemma readBinding_Some:
  assumes "readBinding d a = Some b"
  obtains r where "r \<in> set (bindings d)" "bw_address r = a" "b = scanBinding r"
  using assms by (auto simp: readBinding_def dest: sel1_SomeD)

lemma readBinding_None: "readBinding d a = None \<longleftrightarrow> a \<notin> bw_address ` set (bindings d)"
  by (auto simp: readBinding_def sel1_None_iff)

lemma binding_row_unique:
  "directory_inv d \<Longrightarrow> r \<in> set (bindings d) \<Longrightarrow> r' \<in> set (bindings d) \<Longrightarrow>
   bw_address r = bw_address r' \<Longrightarrow> r = r'"
  unfolding directory_inv_def by (blast intro: distinct_key_eq)

section \<open>Leases\<close>

lemma currentLease_Inr_iff:
  "currentLease d now adapterID token = Inr lease \<longleftrightarrow>
     (\<exists>row. leaseRow d adapterID = Some row \<and> lr_lease_token row = token \<and> lr_expires_at row > now \<and>
        lease = \<lparr>al_adapter_id = lr_adapter_id row, al_instance_id = lr_instance_id row,
                 al_lease_token = lr_lease_token row, al_expires_at = lr_expires_at row\<rparr>)"
  by (auto simp: currentLease_def split: option.splits)

lemma leaseRow_upd:
  assumes "\<And>r. lr_adapter_id (f r) = lr_adapter_id r"
  shows "sel1 (\<lambda>r. lr_adapter_id r = a) (upd P f t)
     = map_option (\<lambda>r. if P r then f r else r) (sel1 (\<lambda>r. lr_adapter_id r = a) t)"
  by (rule sel1_upd) (simp add: assms)

lemma RegisterAdapter_step:
  assumes "RegisterAdapter now q d = Inr (lease, d')" and "directory_inv d"
  shows "directory_inv d' \<and> directory_step d d'"
proof (cases "leaseRow d (rg_adapter_id q)")
  case None
  with assms(1) obtain x where d': "d' = d\<lparr>leases := leases d @ [x]\<rparr>" "lr_adapter_id x = rg_adapter_id q"
    by (auto simp: RegisterAdapter_def Let_def)
  have "rg_adapter_id q \<notin> lr_adapter_id ` set (leases d)"
    using None by (auto simp: leaseRow_def sel1_None_iff)
  with assms(2) d' show ?thesis
    by (simp add: directory_inv_def directory_step_def bm.evolves_refl lm.evolves_append)
next
  case (Some row)
  obtain f where d': "d' = d\<lparr>leases := upd (\<lambda>r. lr_adapter_id r = rg_adapter_id q) f (leases d)\<rparr>"
    and f: "\<And>r. lr_adapter_id (f r) = lr_adapter_id r"
    using assms(1) Some by (auto simp: RegisterAdapter_def Let_def split: if_splits)
  have "map lr_adapter_id (leases d') = map lr_adapter_id (leases d)"
    unfolding d' by (simp add: map_upd_same f)
  moreover have "evolves lease_moves (leases d) (leases d')"
    unfolding d' by (auto intro: lm.evolves_upd simp: lease_moves_def f)
  ultimately show ?thesis
    using assms(2) d' by (simp add: directory_inv_def directory_step_def bm.evolves_refl)
qed

lemma RenewAdapter_step:
  assumes "RenewAdapter now q d = Inr (lease, d')" and "directory_inv d"
  shows "directory_inv d' \<and> directory_step d d'"
proof -
  let ?f = "\<lambda>r. r\<lparr>lr_expires_at := rn_expires_at q, lr_updated_at := now\<rparr>"
  have d': "d' = d\<lparr>leases := upd (\<lambda>r. lr_adapter_id r = rn_adapter_id q) ?f (leases d)\<rparr>"
    using assms(1) by (auto simp: RenewAdapter_def bindR_Inr_iff)
  have "map lr_adapter_id (leases d') = map lr_adapter_id (leases d)"
    unfolding d' by (simp add: map_upd_same)
  moreover have "evolves lease_moves (leases d) (leases d')"
    unfolding d' by (auto intro: lm.evolves_upd simp: lease_moves_def)
  ultimately show ?thesis
    using assms(2) d' by (simp add: directory_inv_def directory_step_def bm.evolves_refl)
qed

section \<open>Bindings\<close>

text \<open>The rows of both binding writes.\<close>

lemma bindings_write:
  assumes "directory_inv d" and "row \<in> set (bindings d)"
    and "binding_moves row (f row)" and "binding_ok (f row)"
    and d': "d' = d\<lparr>bindings := upd (\<lambda>r. bw_address r = bw_address row) f (bindings d)\<rparr>"
  shows "directory_inv d' \<and> directory_step d d' \<and>
    readBinding d' a = (if a = bw_address row then Some (scanBinding (f row)) else readBinding d a)"
proof -
  let ?P = "\<lambda>r. bw_address r = bw_address row"
  have same: "r = row" if "r \<in> set (bindings d)" "?P r" for r
    using that assms(1,2) binding_row_unique by blast
  have addr: "bw_address (f row) = bw_address row" using assms(3) by (simp add: binding_moves_def)
  have upd: "bindings d' = upd (\<lambda>r. r = row) f (bindings d)"
    unfolding d' using same by (auto simp: upd_def)
  have "map bw_address (bindings d') = map bw_address (bindings d)"
    unfolding upd using addr by (intro map_upd_same) simp
  moreover have "evolves binding_moves (bindings d) (bindings d')"
    unfolding upd using assms(3) by (auto intro: bm.evolves_upd)
  moreover have "\<forall>r\<in>set (bindings d'). binding_ok r"
    unfolding upd using assms(1,4) by (auto simp: directory_inv_def elim!: upd_memE)
  moreover have "readBinding d' a = (if a = bw_address row then Some (scanBinding (f row)) else readBinding d a)"
  proof -
    have "sel1 (\<lambda>r. bw_address r = a) (bindings d')
        = map_option (\<lambda>r. if r = row then f r else r) (sel1 (\<lambda>r. bw_address r = a) (bindings d))"
      unfolding upd by (rule sel1_upd) (use addr in auto)
    moreover have "sel1 (\<lambda>r. bw_address r = bw_address row) (bindings d) = Some row"
      using assms(1,2) by (intro sel1_unique) (auto simp: directory_inv_def)
    moreover have "r \<noteq> row" if "a \<noteq> bw_address row" "sel1 (\<lambda>r. bw_address r = a) (bindings d) = Some r" for r
      using that sel1_SomeD by fastforce
    ultimately show ?thesis
      by (cases "sel1 (\<lambda>r. bw_address r = a) (bindings d)") (auto simp: readBinding_def)
  qed
  ultimately show ?thesis
    using assms(1) d' by (simp add: directory_inv_def directory_step_def lm.evolves_refl)
qed

lemma PutBinding_step:
  assumes put: "PutBinding now q d = Inr (b, d')" and inv: "directory_inv d"
  shows "directory_inv d' \<and> directory_step d d' \<and>
    readBinding d' a = (if a = pb_address q then Some b else readBinding d a)"
proof (cases "readBinding d (pb_address q)")
  case None
  let ?x = "\<lparr>bw_address = pb_address q, bw_adapter_id = Some (pb_adapter_id q),
              bw_target_ref = Some (pb_target_ref q), bw_capabilities = pb_capabilities q,
              bw_revision = 1, bw_generation = 1, bw_updated_at = now\<rparr>"
  from put None have d': "d' = d\<lparr>bindings := bindings d @ [?x]\<rparr>" and b: "b = scanBinding ?x"
    by (simp_all add: PutBinding_def bindR_Inr_iff scanBinding_def split: if_splits)
  have new: "pb_address q \<notin> bw_address ` set (bindings d)"
    using None by (simp add: readBinding_None)
  have "readBinding d' a = (if a = pb_address q then Some b else readBinding d a)"
    using None b unfolding d' readBinding_def
    by (cases "sel1 (\<lambda>r. bw_address r = a) (bindings d)") (auto simp: sel1_append)
  moreover have "directory_inv d'"
    using inv new by (simp add: d' directory_inv_def binding_ok_def)
  moreover have "directory_step d d'"
    by (simp add: d' directory_step_def lm.evolves_refl bm.evolves_append)
  ultimately show ?thesis by blast
next
  case (Some existing)
  then obtain row where row: "row \<in> set (bindings d)" "bw_address row = pb_address q" "existing = scanBinding row"
    by (rule readBinding_Some)
  define gen where "gen = (if \<not> b_bound existing \<or> b_adapter_id existing \<noteq> pb_adapter_id q
                           \<or> b_target_ref existing \<noteq> pb_target_ref q
                        then b_generation existing + 1 else b_generation existing)"
  let ?f = "\<lambda>r. r\<lparr>bw_adapter_id := Some (pb_adapter_id q), bw_target_ref := Some (pb_target_ref q),
                  bw_capabilities := pb_capabilities q, bw_revision := b_revision existing + 1,
                  bw_generation := gen, bw_updated_at := now\<rparr>"
  have ok: "binding_ok row" using inv row(1) by (simp add: directory_inv_def)
  from put Some have d': "d' = d\<lparr>bindings := upd (\<lambda>r. bw_address r = bw_address row) ?f (bindings d)\<rparr>"
    and b: "b = scanBinding (?f row)"
    by (auto simp: PutBinding_def bindR_Inr_iff Let_def gen_def row(3) scanBinding_def
        split: option.splits if_splits)
  have "binding_moves row (?f row)"
    using ok by (auto simp: binding_moves_def gen_def row(3) scanBinding_def binding_ok_def)
  moreover have "binding_ok (?f row)"
    using ok by (auto simp: binding_ok_def gen_def row(3) scanBinding_def)
  ultimately show ?thesis
    using bindings_write [OF inv row(1) _ _ d'] b row(2) by simp
qed

lemma Unbind_step:
  assumes un: "Unbind now q d = Inr (b, d')" and inv: "directory_inv d"
  shows "directory_inv d' \<and> directory_step d d' \<and>
    readBinding d' a = (if a = ub_address q then Some b else readBinding d a)"
proof -
  from un obtain existing where ex: "readBinding d (ub_address q) = Some existing"
    by (auto simp: Unbind_def bindR_Inr_iff)
  then obtain row where row: "row \<in> set (bindings d)" "bw_address row = ub_address q" "existing = scanBinding row"
    by (rule readBinding_Some)
  let ?f = "\<lambda>r. r\<lparr>bw_adapter_id := None, bw_target_ref := None, bw_capabilities := [],
                  bw_revision := b_revision existing + 1,
                  bw_generation := b_generation existing + 1, bw_updated_at := now\<rparr>"
  from un ex have d': "d' = d\<lparr>bindings := upd (\<lambda>r. bw_address r = bw_address row) ?f (bindings d)\<rparr>"
    and b: "b = scanBinding (?f row)"
    by (auto simp: Unbind_def bindR_Inr_iff row(3) scanBinding_def split: if_splits)
  have "binding_ok row" using inv row(1) by (simp add: directory_inv_def)
  then have "binding_moves row (?f row)" and "binding_ok (?f row)"
    by (auto simp: binding_moves_def binding_ok_def row(3) scanBinding_def)
  then show ?thesis
    using bindings_write [OF inv row(1) _ _ d'] b row(2) by simp
qed

end
