(* ===== verification/Fabric.thy ===== *)
theory Fabric
  imports Directory_Invariant
begin

text \<open>
  The store as one state machine: every exported mutating operation of
  \<^verbatim>\<open>store.Store\<close> (\<^verbatim>\<open>src/internal/store/store.go\<close>) is a step between
  committed databases. The generic contracts are locales: a machine with an invariant, a machine
  whose steps stay inside a preorder, and an operation that leaves a receipt for its retries.
\<close>

section \<open>Machines\<close>

locale invariant_machine =
  fixes step :: "'s \<Rightarrow> 's \<Rightarrow> bool" and inv :: "'s \<Rightarrow> bool"
  assumes step_inv: "inv s \<Longrightarrow> step s t \<Longrightarrow> inv t"
begin

lemma run_inv: "step\<^sup>*\<^sup>* s t \<Longrightarrow> inv s \<Longrightarrow> inv t"
  by (induction rule: rtranclp_induct) (auto intro: step_inv)

end

locale guided_machine = invariant_machine +
  fixes within :: "'s \<Rightarrow> 's \<Rightarrow> bool"
  assumes within_refl: "within s s"
    and within_trans: "within s t \<Longrightarrow> within t u \<Longrightarrow> within s u"
    and step_within: "inv s \<Longrightarrow> step s t \<Longrightarrow> within s t"
begin

lemma run_within: "step\<^sup>*\<^sup>* s t \<Longrightarrow> inv s \<Longrightarrow> within s t"
proof (induction rule: rtranclp_induct)
  case base
  then show ?case by (simp add: within_refl)
next
  case (step t u)
  from step.hyps(1) step.prems have "inv t" by (rule run_inv)
  with step show ?case by (blast intro: within_trans step_within)
qed

end

section \<open>Steps\<close>

text \<open>
  The life of a delivery. A terminal state has no way out; a dispatched delivery is never expired,
  cancelled or claimed again without first returning to the queue.
\<close>

fun delivery_edge :: "delivery_state \<Rightarrow> delivery_state \<Rightarrow> bool" where
  "delivery_edge Queued s = (s \<in> {Claimed, Failed, Expired, Cancelled})"
| "delivery_edge Claimed s = (s \<in> {Queued, Dispatching, Failed, Expired, Cancelled})"
| "delivery_edge Dispatching s = (s \<in> {Queued, Delivered, Failed, OutcomeUnknown})"
| "delivery_edge _ s = False"

inductive live_step :: "db \<Rightarrow> db \<Rightarrow> bool" where
  register: "RegisterAdapter now rg d = Inr (lease, d') \<Longrightarrow> live_step d d'"
| renew: "RenewAdapter now rn d = Inr (lease, d') \<Longrightarrow> live_step d d'"
| put: "PutBinding now pb d = Inr (b, d') \<Longrightarrow> live_step d d'"
| unbind: "Unbind now ub d = Inr (b, d') \<Longrightarrow> live_step d d'"
| submit: "SubmitMessage now sm d = Inr (sr, d') \<Longrightarrow> live_step d d'"
| begin_round: "BeginRound now bq d = Inr (br, d') \<Longrightarrow> live_step d d'"
| cancel_round: "CancelRound now rid d = Inr (r, d') \<Longrightarrow> live_step d d'"
| settle_rounds: "SettleRounds now d = Inr (rs, d') \<Longrightarrow> live_step d d'"
| delivery_op: "DeliveryOperation now dq d = Inr (dr, d') \<Longrightarrow> live_step d d'"
| cancel_delivery: "CancelDelivery now did d = Inr (v, d') \<Longrightarrow> live_step d d'"
| settle_pending: "SettlePending now d = Inr (vs, d') \<Longrightarrow> live_step d d'"
| seat_op: "SeatOperation now sq d = Inr (so, d') \<Longrightarrow> live_step d d'"

inductive fabric_step :: "db \<Rightarrow> db \<Rightarrow> bool" where
  live: "live_step d d' \<Longrightarrow> fabric_step d d'"
| prune: "PruneDeliveryOperations plan cutoff limit d = (n, d') \<Longrightarrow> fabric_step d d'"
| prune_seats: "PruneSeatOperations seat_plan cutoff limit d = (n, d') \<Longrightarrow> fabric_step d d'"

inductive_cases fabric_stepE: "fabric_step d d'"

definition receipt_key :: "'a receipt_row \<Rightarrow> string \<times> string" where
  "receipt_key r = (rc_adapter_id r, rc_operation_id r)"

definition receipts_inv :: "db \<Rightarrow> bool" where
  "receipts_inv d =
     (distinct (map receipt_key (receipts d)) \<and> distinct (map receipt_key (seat_receipts d)))"

definition db_inv :: "db \<Rightarrow> bool" where
  "db_inv d = (directory_inv d \<and> fabric_inv d \<and> receipts_inv d)"

text \<open>What one committed transaction may do to each table but the receipts.\<close>

definition fabric_moves :: "(delivery_state \<Rightarrow> delivery_state \<Rightarrow> bool) \<Rightarrow> db \<Rightarrow> db \<Rightarrow> bool" where
  "fabric_moves E d d' =
     (ledger_step E d d' \<and> evolves holding_moves (holdings d) (holdings d') \<and>
      evolves seat_row_moves (seats d) (seats d') \<and> evolves binding_moves (bindings d) (bindings d') \<and>
      evolves lease_moves (leases d) (leases d'))"

definition receipts_grow :: "db \<Rightarrow> db \<Rightarrow> bool" where
  "receipts_grow d d' =
     (evolves (=) (receipts d) (receipts d') \<and> evolves (=) (seat_receipts d) (seat_receipts d'))"

interpretation rgm: evolving_trans "(=) :: 'a receipt_row \<Rightarrow> 'a receipt_row \<Rightarrow> bool"
  by unfold_locales auto

lemma receipts_grow_same:
  "receipts d' = receipts d \<Longrightarrow> seat_receipts d' = seat_receipts d \<Longrightarrow> receipts_grow d d'"
  by (simp add: receipts_grow_def rgm.evolves_refl)

lemma receipts_grow_trans: "receipts_grow a b \<Longrightarrow> receipts_grow b c \<Longrightarrow> receipts_grow a c"
  unfolding receipts_grow_def by (blast intro: rgm.evolves_trans)

lemma fabric_moves_refl [simp]: "fabric_moves E d d"
  by (simp add: fabric_moves_def hm.evolves_refl sm.evolves_refl bm.evolves_refl lm.evolves_refl)

lemma fabric_moves_trans:
  "transp E \<Longrightarrow> fabric_moves E a b \<Longrightarrow> fabric_moves E b c \<Longrightarrow> fabric_moves E a c"
  unfolding fabric_moves_def
  by (blast intro: ledger_step_trans hm.evolves_trans sm.evolves_trans bm.evolves_trans lm.evolves_trans)

lemma fabric_moves_mono:
  "fabric_moves E a b \<Longrightarrow> (\<And>s s'. E s s' \<Longrightarrow> F s s') \<Longrightarrow> fabric_moves F a b"
  unfolding fabric_moves_def by (blast intro: ledger_step_mono)

section \<open>Every step\<close>

lemma moves_are_edges:
  "no_moves s s' \<Longrightarrow> delivery_edge s s'" "claim_moves s s' \<Longrightarrow> delivery_edge s s'"
  "transition_moves s s' \<Longrightarrow> delivery_edge s s'" "reconcile_moves s s' \<Longrightarrow> delivery_edge s s'"
  "requeue_moves s s' \<Longrightarrow> delivery_edge s s'" "cancel_moves s s' \<Longrightarrow> delivery_edge s s'"
  "settle_moves s s' \<Longrightarrow> delivery_edge s s'" "seat_moves s s' \<Longrightarrow> delivery_edge s s'"
  by (auto simp: no_moves_def moves_defs seat_moves_def)

text \<open>The contract towards the whole database of a transaction on each group of tables.\<close>

definition good_step :: "db \<Rightarrow> db \<Rightarrow> bool" where
  "good_step d d' = (db_inv d' \<and> fabric_moves delivery_edge d d' \<and> receipts_grow d d')"

lemma good_directory:
  assumes "directory_inv d'" and "directory_step d d'" and "db_inv d"
  shows "good_step d d'"
proof -
  have "fabric_inv d'"
    using assms(2,3) ledger_inv_cong [of d' d]
    by (simp add: db_inv_def directory_step_def fabric_inv_def seat_inv_def)
  then have "db_inv d'" using assms by (simp add: db_inv_def receipts_inv_def directory_step_def)
  moreover have "fabric_moves delivery_edge d d'"
    using assms(2) by (simp add: fabric_moves_def directory_step_def ledger_step_same
        hm.evolves_refl sm.evolves_refl)
  moreover have "receipts_grow d d'"
    using assms(2) by (intro receipts_grow_same) (simp_all add: directory_step_def)
  ultimately show ?thesis by (simp add: good_step_def)
qed

lemma good_ledger:
  assumes "ledger_inv d'" and "ledger_step E d d'" and "same_rest d d'" and "db_inv d"
    and "\<And>s s'. E s s' \<Longrightarrow> delivery_edge s s'"
  shows "good_step d d'"
proof -
  have "db_inv d'"
    using assms(1,3,4) by (simp add: db_inv_def fabric_inv_def seat_inv_def directory_inv_def
        receipts_inv_def same_rest_def)
  moreover have "fabric_moves delivery_edge d d'"
    using ledger_step_mono [OF assms(2,5)] assms(3)
    by (simp add: fabric_moves_def same_rest_def hm.evolves_refl sm.evolves_refl bm.evolves_refl
        lm.evolves_refl)
  moreover have "receipts_grow d d'"
    using assms(3) by (intro receipts_grow_same) (simp_all add: same_rest_def)
  ultimately show ?thesis by (simp add: good_step_def)
qed

lemma good_seat:
  assumes "fabric_inv d'" and "seat_step d d'" and "db_inv d"
  shows "good_step d d'"
proof -
  have "db_inv d'"
    using assms by (simp add: db_inv_def directory_inv_def receipts_inv_def seat_step_def seat_frame_def)
  moreover have "ledger_step delivery_edge d d'"
    using assms(2) moves_are_edges(8) ledger_step_mono by (metis seat_step_def)
  then have "fabric_moves delivery_edge d d'"
    using assms(2) by (simp add: fabric_moves_def seat_step_def seat_frame_def bm.evolves_refl lm.evolves_refl)
  moreover have "receipts_grow d d'"
    using assms(2) by (intro receipts_grow_same) (simp_all add: seat_step_def seat_frame_def)
  ultimately show ?thesis by (simp add: good_step_def)
qed

text \<open>Appending a receipt under a fresh key.\<close>

lemma good_receipt:
  assumes "good_step d d1" and "receipt_key r \<notin> receipt_key ` set (receipts d1)"
  shows "good_step d (d1\<lparr>receipts := receipts d1 @ [r]\<rparr>)"
proof -
  let ?d = "d1\<lparr>receipts := receipts d1 @ [r]\<rparr>"
  have "db_inv ?d"
    using assms ledger_inv_cong [of ?d d1]
    by (simp add: good_step_def db_inv_def fabric_inv_def seat_inv_def directory_inv_def receipts_inv_def)
  moreover have "receipts_grow d1 ?d"
    by (simp add: receipts_grow_def rgm.evolves_append rgm.evolves_refl)
  moreover have "fabric_moves delivery_edge d ?d"
    using assms(1) by (simp add: good_step_def fabric_moves_def ledger_step_def)
  ultimately show ?thesis
    using assms(1) receipts_grow_trans unfolding good_step_def by blast
qed

lemma good_seat_receipt:
  assumes "good_step d d1" and "receipt_key r \<notin> receipt_key ` set (seat_receipts d1)"
  shows "good_step d (d1\<lparr>seat_receipts := seat_receipts d1 @ [r]\<rparr>)"
proof -
  let ?d = "d1\<lparr>seat_receipts := seat_receipts d1 @ [r]\<rparr>"
  have "db_inv ?d"
    using assms ledger_inv_cong [of ?d d1]
    by (simp add: good_step_def db_inv_def fabric_inv_def seat_inv_def directory_inv_def receipts_inv_def)
  moreover have "receipts_grow d1 ?d"
    by (simp add: receipts_grow_def rgm.evolves_append rgm.evolves_refl)
  moreover have "fabric_moves delivery_edge d ?d"
    using assms(1) by (simp add: good_step_def fabric_moves_def ledger_step_def)
  ultimately show ?thesis
    using assms(1) receipts_grow_trans unfolding good_step_def by blast
qed

lemma good_step_refl: "db_inv d \<Longrightarrow> good_step d d"
  by (simp add: good_step_def receipts_grow_same)

lemma lookupReceipt_None:
  "lookupReceipt rows a op = None \<longleftrightarrow> (a, op) \<notin> receipt_key ` set rows"
  by (auto simp: lookupReceipt_def sel1_None_iff receipt_key_def)

lemma runDeliveryOperation_step:
  assumes "runDeliveryOperation now q d = Inr (res, d')" and "db_inv d"
  shows "good_step d d' \<and> same_rest d d'"
proof -
  have inv: "ledger_inv d" using assms(2) by (simp add: db_inv_def fabric_inv_def)
  from assms(1) consider "claim now q d = Inr (res, d')" | "claimTransition now q d = Inr (res, d')"
    | "reconcile now q d = Inr (res, d')" | "notInserted now q d = Inr (res, d')"
    by (auto simp: runDeliveryOperation_def split: if_splits)
  then obtain E where "ledger_inv d' \<and> ledger_step E d d' \<and> same_rest d d'"
    and "\<And>s s'. E s s' \<Longrightarrow> delivery_edge s s'"
    using claim_step claimTransition_step reconcile_step notInserted_step inv moves_are_edges
    by cases metis+
  then show ?thesis using good_ledger assms(2) by blast
qed

text \<open>A first execution: the operation runs and leaves its receipt, but for a claim that found no work.\<close>

lemma DeliveryOperation_fresh:
  assumes "lookupReceipt (receipts d) (dq_adapter_id q) (dq_operation_id q) = None"
  shows "DeliveryOperation now q d = Inr (res, d') \<longleftrightarrow>
    (\<exists>d1. runDeliveryOperation now q d = Inr (res, d1) \<and>
       d' = (if dq_kind q = ''claim'' \<and> \<not> cr_claimed (do_claim res) then d1
             else d1\<lparr>receipts := receipts d1 @ [deliveryReceipt now q res]\<rparr>))"
  using assms by (cases "runDeliveryOperation now q d") (auto simp: DeliveryOperation_def split: if_splits)

lemma SeatOperation_fresh:
  assumes "lookupReceipt (seat_receipts d) (sq_adapter_id q) (sq_operation_id q) = None"
  shows "SeatOperation now q d = Inr (res, d') \<longleftrightarrow>
    (\<exists>lease session d1. currentLease d now (sq_adapter_id q) (sq_lease_token q) = Inr lease \<and>
       ownedBinding d (sq_session_address q) (sq_adapter_id q) = Inr session \<and>
       runSeatOperation now q session d = Inr (res, d1) \<and>
       d' = d1\<lparr>seat_receipts := seat_receipts d1 @ [seatReceipt now q res]\<rparr>)"
  using assms by (auto simp: SeatOperation_def bindR_Inr_iff)

lemma receipt_keys [simp]:
  "receipt_key (deliveryReceipt now dq res) = (dq_adapter_id dq, dq_operation_id dq)"
  "receipt_key (seatReceipt now sq res') = (sq_adapter_id sq, sq_operation_id sq)"
  by (simp_all add: receipt_key_def deliveryReceipt_def seatReceipt_def)

lemma DeliveryOperation_step:
  assumes "DeliveryOperation now q d = Inr (res, d')" and "db_inv d"
  shows "good_step d d'"
proof (cases "lookupReceipt (receipts d) (dq_adapter_id q) (dq_operation_id q)")
  case (Some old)
  with assms show ?thesis
    by (auto simp: DeliveryOperation_def good_step_refl split: if_splits prod.splits)
next
  case None
  with assms(1) obtain d1 where run: "runDeliveryOperation now q d = Inr (res, d1)"
    and d': "d' = (if dq_kind q = ''claim'' \<and> \<not> cr_claimed (do_claim res) then d1
                   else d1\<lparr>receipts := receipts d1 @ [deliveryReceipt now q res]\<rparr>)"
    by (auto simp: DeliveryOperation_fresh)
  note s = runDeliveryOperation_step [OF run assms(2)]
  then have "receipts d1 = receipts d" by (simp add: same_rest_def)
  with None s good_receipt [of d d1 "deliveryReceipt now q res"] show ?thesis
    unfolding d' by (simp add: lookupReceipt_None)
qed

lemma SeatOperation_step:
  assumes "SeatOperation now q d = Inr (res, d')" and "db_inv d"
  shows "good_step d d'"
proof (cases "lookupReceipt (seat_receipts d) (sq_adapter_id q) (sq_operation_id q)")
  case (Some old)
  with assms show ?thesis
    by (auto simp: SeatOperation_def good_step_refl split: if_splits prod.splits)
next
  case None
  with assms(1) obtain session d1 where run: "runSeatOperation now q session d = Inr (res, d1)"
    and d': "d' = d1\<lparr>seat_receipts := seat_receipts d1 @ [seatReceipt now q res]\<rparr>"
    by (auto simp: SeatOperation_fresh)
  have "fabric_inv d" using assms(2) by (simp add: db_inv_def)
  note s = runSeatOperation_step [OF run this]
  then have "seat_receipts d1 = seat_receipts d" by (simp add: seat_step_def seat_frame_def)
  with None good_seat [of d1 d] s assms(2) show ?thesis
    unfolding d' by (intro good_seat_receipt) (auto simp: lookupReceipt_None)
qed

lemma live_step_good:
  assumes "live_step d d'" and inv: "db_inv d"
  shows "good_step d d'"
proof -
  have dir: "directory_inv d" and led: "ledger_inv d" using inv by (simp_all add: db_inv_def fabric_inv_def)
  from assms(1) show ?thesis
  proof cases
    case (submit now sm sr)
    with SubmitMessage_step led inv show ?thesis by (blast intro: good_ledger moves_are_edges(1))
  next
    case (begin_round now bq br)
    with BeginRound_step led inv show ?thesis by (blast intro: good_ledger moves_are_edges(1))
  next
    case (cancel_round now rid r)
    with CancelRound_step led inv show ?thesis by (blast intro: good_ledger moves_are_edges(1))
  next
    case (settle_rounds now rs)
    with SettleRounds_step led inv show ?thesis by (blast intro: good_ledger moves_are_edges(1))
  next
    case (cancel_delivery now did v)
    with CancelDelivery_step led inv show ?thesis by (blast intro: good_ledger moves_are_edges(6))
  next
    case (settle_pending now vs)
    with SettlePending_step led inv show ?thesis by (blast intro: good_ledger moves_are_edges(7))
  next
    case (register now rg lease)
    with RegisterAdapter_step dir inv show ?thesis by (blast intro: good_directory)
  next
    case (renew now rn lease)
    with RenewAdapter_step dir inv show ?thesis by (blast intro: good_directory)
  next
    case (put now pb b)
    with PutBinding_step dir inv show ?thesis by (blast intro: good_directory)
  next
    case (unbind now ub b)
    with Unbind_step dir inv show ?thesis by (blast intro: good_directory)
  qed (use DeliveryOperation_step SeatOperation_step inv in \<open>blast+\<close>)
qed


text \<open>Pruning touches receipts only, and only removes some.\<close>

lemma prune_step:
  assumes "fabric_step d d'" and "db_inv d"
  shows "db_inv d' \<and> fabric_moves delivery_edge d d'"
  using assms(1)
proof cases
  case live
  with live_step_good assms(2) show ?thesis by (auto simp: good_step_def)
next
  case (prune plan cutoff limit n)
  then have d': "d' = d\<lparr>receipts := snd (pruneRows plan cutoff limit (receipts d))\<rparr>"
    by (auto simp: PruneDeliveryOperations_def split: prod.splits)
  have "distinct (map receipt_key (receipts d'))"
    using assms(2) unfolding d' pruneRows_def Let_def
    by (simp add: db_inv_def receipts_inv_def distinct_map_filter)
  then show ?thesis
    using assms(2) ledger_inv_cong [of d' d] unfolding d'
    by (simp add: db_inv_def fabric_inv_def seat_inv_def directory_inv_def receipts_inv_def
        fabric_moves_def ledger_step_same hm.evolves_refl sm.evolves_refl bm.evolves_refl lm.evolves_refl)
next
  case (prune_seats plan cutoff limit n)
  then have d': "d' = d\<lparr>seat_receipts := snd (pruneRows plan cutoff limit (seat_receipts d))\<rparr>"
    by (auto simp: PruneSeatOperations_def split: prod.splits)
  have "distinct (map receipt_key (seat_receipts d'))"
    using assms(2) unfolding d' pruneRows_def Let_def
    by (simp add: db_inv_def receipts_inv_def distinct_map_filter)
  then show ?thesis
    using assms(2) ledger_inv_cong [of d' d] unfolding d'
    by (simp add: db_inv_def fabric_inv_def seat_inv_def directory_inv_def receipts_inv_def
        fabric_moves_def ledger_step_same hm.evolves_refl sm.evolves_refl bm.evolves_refl lm.evolves_refl)
qed

section \<open>Runs\<close>

text \<open>Along a run deliveries move along paths of the life cycle; every other table moves as in one step.\<close>

definition delivery_path :: "delivery_state \<Rightarrow> delivery_state \<Rightarrow> bool" where
  "delivery_path = delivery_edge\<^sup>+\<^sup>+"

lemma transp_delivery_path: "transp delivery_path"
  by (auto simp: transp_def delivery_path_def)

interpretation fm: guided_machine fabric_step db_inv "fabric_moves delivery_path"
proof
  show "db_inv s \<Longrightarrow> fabric_step s t \<Longrightarrow> db_inv t" for s t
    using prune_step by blast
  show "fabric_moves delivery_path s s" for s by simp
  show "fabric_moves delivery_path s t \<Longrightarrow> fabric_moves delivery_path t u \<Longrightarrow> fabric_moves delivery_path s u"
    for s t u by (rule fabric_moves_trans [OF transp_delivery_path])
  show "fabric_moves delivery_path s t" if "db_inv s" "fabric_step s t" for s t
    using prune_step [OF that(2,1)] fabric_moves_mono
    by (metis delivery_path_def tranclp.r_into_trancl)
qed

interpretation lv: guided_machine live_step db_inv "\<lambda>d d'. fabric_moves delivery_path d d' \<and> receipts_grow d d'"
proof
  show "db_inv s \<Longrightarrow> live_step s t \<Longrightarrow> db_inv t" for s t
    using live_step_good by (auto simp: good_step_def)
  show "fabric_moves delivery_path s s \<and> receipts_grow s s" for s by (simp add: receipts_grow_same)
  show "fabric_moves delivery_path s u \<and> receipts_grow s u"
    if "fabric_moves delivery_path s t \<and> receipts_grow s t" "fabric_moves delivery_path t u \<and> receipts_grow t u"
    for s t u using that fabric_moves_trans [OF transp_delivery_path] receipts_grow_trans by blast
  show "fabric_moves delivery_path s t \<and> receipts_grow s t" if "db_inv s" "live_step s t" for s t
    using live_step_good [OF that(2,1)] fabric_moves_mono unfolding good_step_def
    by (metis delivery_path_def tranclp.r_into_trancl)
qed

lemma db_inv_empty: "db_inv empty_db"
  by (simp add: db_inv_def empty_db_def directory_inv_def fabric_inv_def ledger_inv_def messages_inv_def
      deliveries_inv_def rounds_inv_def seat_inv_def holdings_inv_def texts_inv_def receipts_inv_def
      message_ids_def)

definition reachable :: "db \<Rightarrow> bool" where
  "reachable d = fabric_step\<^sup>*\<^sup>* empty_db d"

lemma reachable_inv: "reachable d \<Longrightarrow> db_inv d"
  unfolding reachable_def by (erule fm.run_inv) (rule db_inv_empty)

end
