(* ===== verification/Replay.thy ===== *)
theory Replay
  imports Fabric
begin

text \<open>
  Idempotency. Submissions, rounds, adapter delivery operations and seat operations all look for an
  earlier execution under the caller's operation id before they look at current authority. The locale
  \<open>receipted\<close> states that contract once: an execution is found again in every later database, an exact
  retry replays it without touching the database, and a different request under its id is refused.
\<close>

locale receipted =
  fixes run :: "'q \<Rightarrow> 'd \<Rightarrow> store_error + 'r \<times> 'd"
    and look :: "'k \<Rightarrow> 'd \<Rightarrow> (string \<times> 'r) option"
    and key :: "'q \<Rightarrow> 'k" and fp :: "'q \<Rightarrow> string"
    and replay :: "'r \<Rightarrow> 'r" and sim :: "'r \<Rightarrow> 'r \<Rightarrow> bool"
    and records :: "'q \<Rightarrow> 'r \<Rightarrow> bool"
    and ok :: "'d \<Rightarrow> bool" and later :: "'d \<Rightarrow> 'd \<Rightarrow> bool"
  assumes found: "ok d \<Longrightarrow> look (key q) d = Some (f, r) \<Longrightarrow>
      run q d = (if f \<noteq> fp q then Inl ErrOperationConflict else Inr (replay r, d))"
    and recorded: "ok d \<Longrightarrow> look (key q) d = None \<Longrightarrow> run q d = Inr (r, d') \<Longrightarrow> records q r \<Longrightarrow>
      ok d' \<and> look (key q) d' = Some (fp q, r)"
    and kept: "ok d \<Longrightarrow> later d d' \<Longrightarrow> look k d = Some (f, r) \<Longrightarrow>
      ok d' \<and> (\<exists>r'. look k d' = Some (f, r') \<and> sim r r')"
begin

theorem retry:
  assumes "ok d" and "look (key q) d = None" and "run q d = Inr (r, d')" and "records q r"
    and "later d' d''" and "key q' = key q"
  shows "\<exists>r'. sim r r' \<and>
    run q' d'' = (if fp q' = fp q then Inr (replay r', d'') else Inl ErrOperationConflict)"
proof -
  from recorded [OF assms(1-4)] have "ok d'" "look (key q) d' = Some (fp q, r)" by blast+
  from kept [OF this(1) assms(5) this(2)] obtain r' where r': "ok d''" "look (key q) d'' = Some (fp q, r')" "sim r r'"
    by blast
  then have "look (key q') d'' = Some (fp q, r')" using assms(6) by simp
  from found [OF r'(1) this] r'(3) show ?thesis by auto
qed

end

section \<open>Receipts\<close>

lemma sel1_grow:
  assumes "evolves (=) t t'" and "sel1 P t = Some r"
  shows "sel1 P t' = Some r"
proof -
  have "t = take (length t) t'" using assms(1) by (simp add: evolves_def list.rel_eq)
  then have "t' = t @ drop (length t) t'" by (metis append_take_drop_id)
  with assms(2) show ?thesis by (metis sel1_append option.simps(5))
qed

lemma lookupReceipt_grow:
  assumes "evolves (=) t t'" and "lookupReceipt t a op = Some x"
  shows "lookupReceipt t' a op = Some x"
proof -
  from assms(2) obtain r where "sel1 (\<lambda>r. rc_adapter_id r = a \<and> rc_operation_id r = op) t = Some r"
    and "x = (rc_fingerprint r, rc_result r)"
    by (auto simp: lookupReceipt_def)
  with sel1_grow [OF assms(1)] show ?thesis by (simp add: lookupReceipt_def)
qed

lemma lookupReceipt_snoc:
  "lookupReceipt t a op = None \<Longrightarrow> rc_adapter_id r = a \<Longrightarrow> rc_operation_id r = op \<Longrightarrow>
   lookupReceipt (t @ [r]) a op = Some (rc_fingerprint r, rc_result r)"
  by (auto simp: lookupReceipt_def sel1_append split: option.splits)

definition records_delivery :: "delivery_op_request \<Rightarrow> delivery_op_result \<Rightarrow> bool" where
  "records_delivery q res = (dq_kind q = ''claim'' \<longrightarrow> cr_claimed (do_claim res))"

lemma live_run:
  assumes "db_inv d" and "live_step\<^sup>*\<^sup>* d d'"
  shows "db_inv d'" and "receipts_grow d d'" and "fabric_moves delivery_path d d'"
  using lv.run_inv [OF assms(2,1)] lv.run_within [OF assms(2,1)] by blast+

interpretation dop: receipted
    "\<lambda>(now, q) d. DeliveryOperation now q d" "\<lambda>(a, op) d. lookupReceipt (receipts d) a op"
    "\<lambda>(now, q). (dq_adapter_id q, dq_operation_id q)" "\<lambda>(now, q). dq_fingerprint q"
    markReplayed "(=)" "\<lambda>(now, q). records_delivery q" db_inv "live_step\<^sup>*\<^sup>*"
proof (unfold_locales, goal_cases)
  case (1 d q f r)
  then show ?case by (cases q) (simp add: DeliveryOperation_def)
next
  case (2 d q r d')
  obtain now dq where q: "q = (now, dq)" by (cases q)
  from 2 q have none: "lookupReceipt (receipts d) (dq_adapter_id dq) (dq_operation_id dq) = None"
    and op: "DeliveryOperation now dq d = Inr (r, d')" and rec: "records_delivery dq r" by simp_all
  from op rec obtain d1 where run: "runDeliveryOperation now dq d = Inr (r, d1)"
    and d': "d' = d1\<lparr>receipts := receipts d1 @ [deliveryReceipt now dq r]\<rparr>"
    unfolding DeliveryOperation_fresh [OF none] records_delivery_def by auto
  have "receipts d1 = receipts d"
    using runDeliveryOperation_step [OF run "2"(1)] by (simp add: same_rest_def)
  with none d' have "lookupReceipt (receipts d') (dq_adapter_id dq) (dq_operation_id dq) = Some (dq_fingerprint dq, r)"
    using lookupReceipt_snoc [OF none, of "deliveryReceipt now dq r"] by (simp add: deliveryReceipt_def)
  with DeliveryOperation_step [OF op "2"(1)] q show ?case by (simp add: good_step_def)
next
  case (3 d d' k f r)
  then show ?case
    using live_run [OF "3"(1,2)] lookupReceipt_grow by (auto simp: receipts_grow_def split: prod.splits)
qed

interpretation sop: receipted
    "\<lambda>(now, q) d. SeatOperation now q d" "\<lambda>(a, op) d. lookupReceipt (seat_receipts d) a op"
    "\<lambda>(now, q). (sq_adapter_id q, sq_operation_id q)" "\<lambda>(now, q). sq_fingerprint q"
    "\<lambda>r. r\<lparr>so_replayed := True\<rparr>" "(=)" "\<lambda>q r. True" db_inv "live_step\<^sup>*\<^sup>*"
proof (unfold_locales, goal_cases)
  case (1 d q f r)
  then show ?case by (cases q) (simp add: SeatOperation_def)
next
  case (2 d q r d')
  obtain now sq where q: "q = (now, sq)" by (cases q)
  from 2 q have none: "lookupReceipt (seat_receipts d) (sq_adapter_id sq) (sq_operation_id sq) = None"
    and op: "SeatOperation now sq d = Inr (r, d')" by simp_all
  from op obtain session d1 where run: "runSeatOperation now sq session d = Inr (r, d1)"
    and d': "d' = d1\<lparr>seat_receipts := seat_receipts d1 @ [seatReceipt now sq r]\<rparr>"
    unfolding SeatOperation_fresh [OF none] by auto
  have "fabric_inv d" using "2"(1) by (simp add: db_inv_def)
  then have "seat_receipts d1 = seat_receipts d"
    using runSeatOperation_step [OF run] by (simp add: seat_step_def seat_frame_def)
  with none d' have "lookupReceipt (seat_receipts d') (sq_adapter_id sq) (sq_operation_id sq) = Some (sq_fingerprint sq, r)"
    using lookupReceipt_snoc [OF none, of "seatReceipt now sq r"] by (simp add: seatReceipt_def)
  with SeatOperation_step [OF op "2"(1)] q show ?case by (simp add: good_step_def)
next
  case (3 d d' k f r)
  then show ?case
    using live_run [OF "3"(1,2)] lookupReceipt_grow by (auto simp: receipts_grow_def split: prod.splits)
qed

section \<open>Submissions\<close>

text \<open>
  A submission's receipt is its message row, which no prune removes. A replay shows the delivery as it is
  now, so it may have moved since.
\<close>

definition look_submission :: "string \<times> string \<Rightarrow> db \<Rightarrow> (string \<times> submit_result) option" where
  "look_submission k d =
     (case readSubmission d (fst k) (snd k) of
        Inr (Some e) \<Rightarrow> Some (sub_fingerprint e,
          \<lparr>sr_message = sub_message e, sr_delivery = sub_delivery e, sr_replayed = False\<rparr>)
      | _ \<Rightarrow> None)"

definition same_submission :: "submit_result \<Rightarrow> submit_result \<Rightarrow> bool" where
  "same_submission r r' =
     (sr_message r' = sr_message r \<and>
      delivery_moves delivery_path (publicDelivery (sr_delivery r)) (publicDelivery (sr_delivery r')))"

lemma readSubmission_total:
  assumes "ledger_inv d"
  shows "\<exists>x. readSubmission d a op = Inr x"
proof (cases "sel1 (\<lambda>r. m_producer_id (mr_message r) = a \<and> m_operation_id (mr_message r) = op) (messages d)")
  case None
  then show ?thesis by (simp add: readSubmission_def)
next
  case (Some row)
  then have "row \<in> set (messages d)" by (auto dest: sel1_SomeD)
  then obtain i where i: "i < length (messages d)" "messages d ! i = row" by (auto simp: in_set_conv_nth)
  have "list_all2 delivery_of (messages d) (deliveries d)"
    using assms by (simp add: ledger_inv_def deliveries_inv_def)
  with i have "deliveries d ! i \<in> set (deliveries d)"
    and "d_message_id (deliveries d ! i) = m_message_id (mr_message row)"
    by (auto simp: list_all2_conv_all_nth delivery_of_def)
  then have "readDeliveryByMessage d (m_message_id (mr_message row)) \<noteq> None"
    by (auto simp: readDeliveryByMessage_def sel1_None_iff)
  then show ?thesis using Some by (auto simp: readSubmission_def)
qed

lemma delivery_message_ids:
  assumes "ledger_inv d"
  shows "map d_message_id (deliveries d) = message_ids d"
proof (rule nth_equalityI)
  have l: "list_all2 delivery_of (messages d) (deliveries d)"
    using assms by (simp add: ledger_inv_def deliveries_inv_def)
  then show "length (map d_message_id (deliveries d)) = length (message_ids d)"
    by (simp add: message_ids_def list_all2_lengthD)
  fix i assume "i < length (map d_message_id (deliveries d))"
  with l show "map d_message_id (deliveries d) ! i = message_ids d ! i"
    by (auto simp: message_ids_def list_all2_conv_all_nth delivery_of_def)
qed

lemma readDeliveryByMessage_mem:
  assumes "ledger_inv d" and "v \<in> set (deliveries d)"
  shows "readDeliveryByMessage d (d_message_id v) = Some v"
proof -
  have "distinct (map d_message_id (deliveries d))"
    unfolding delivery_message_ids [OF assms(1)] using assms(1) by (simp add: ledger_inv_def messages_inv_def)
  then show ?thesis unfolding readDeliveryByMessage_def by (rule sel1_unique) (rule assms(2))
qed

lemma readDeliveryByMessage_Some:
  "readDeliveryByMessage d i = Some v \<Longrightarrow> v \<in> set (deliveries d) \<and> d_message_id v = i"
  by (auto simp: readDeliveryByMessage_def dest: sel1_SomeD)

lemma look_submission_Some:
  assumes "look_submission k d = Some (f, r)"
  obtains row v where
    "sel1 (\<lambda>x. m_producer_id (mr_message x) = fst k \<and> m_operation_id (mr_message x) = snd k) (messages d) = Some row"
    "readDeliveryByMessage d (m_message_id (mr_message row)) = Some v"
    "f = mr_request_fingerprint row"
    "r = \<lparr>sr_message = mr_message row, sr_delivery = publicDelivery v, sr_replayed = False\<rparr>"
  using assms by (auto simp: look_submission_def readSubmission_def split: option.splits sum.splits)

lemma publicDelivery_moves: "delivery_moves E v v' \<Longrightarrow> delivery_moves E (publicDelivery v) (publicDelivery v')"
  by (auto simp: delivery_moves_def publicDelivery_def)

lemma look_submission_kept:
  assumes "db_inv d" and "fabric_step\<^sup>*\<^sup>* d d'" and "look_submission k d = Some (f, r)"
  shows "\<exists>r'. look_submission k d' = Some (f, r') \<and> same_submission r r'"
proof -
  from assms(3) obtain row v where
      row: "sel1 (\<lambda>x. m_producer_id (mr_message x) = fst k \<and> m_operation_id (mr_message x) = snd k) (messages d) = Some row"
      and v: "readDeliveryByMessage d (m_message_id (mr_message row)) = Some v"
      and fr: "f = mr_request_fingerprint row"
      "r = \<lparr>sr_message = mr_message row, sr_delivery = publicDelivery v, sr_replayed = False\<rparr>"
    by (rule look_submission_Some)
  have inv: "ledger_inv d'" using fm.run_inv [OF assms(2,1)] by (simp add: db_inv_def fabric_inv_def)
  have run: "evolves (=) (messages d) (messages d')" "evolves (delivery_moves delivery_path) (deliveries d) (deliveries d')"
    using fm.run_within [OF assms(2,1)] by (auto simp: fabric_moves_def ledger_step_def)
  from readDeliveryByMessage_Some [OF v] evolves_mem [OF run(2)] obtain v' where
      v': "v' \<in> set (deliveries d')" "delivery_moves delivery_path v v'" by blast
  then have "d_message_id v' = m_message_id (mr_message row)"
    using readDeliveryByMessage_Some [OF v] by (simp add: delivery_moves_def)
  with readDeliveryByMessage_mem [OF inv v'(1)] sel1_grow [OF run(1) row]
  have "look_submission k d' = Some (f, \<lparr>sr_message = mr_message row, sr_delivery = publicDelivery v', sr_replayed = False\<rparr>)"
    by (simp add: look_submission_def readSubmission_def fr)
  moreover have "same_submission r \<lparr>sr_message = mr_message row, sr_delivery = publicDelivery v', sr_replayed = False\<rparr>"
    using publicDelivery_moves [OF publicDelivery_moves [OF v'(2)]] by (simp add: same_submission_def fr)
  ultimately show ?thesis by blast
qed

lemma accepted_found:
  assumes inv: "ledger_inv d" "ledger_inv d'"
    and none: "readSubmission d (m_producer_id msg) (m_operation_id msg) = Inr None"
    and m: "messages d' = messages d @ [\<lparr>mr_message = msg, mr_request_fingerprint = fp\<rparr>]"
    and v: "v \<in> set (deliveries d')" "d_message_id v = m_message_id msg"
  shows "readSubmission d' (m_producer_id msg) (m_operation_id msg) =
    Inr (Some \<lparr>sub_message = msg, sub_delivery = publicDelivery v, sub_fingerprint = fp\<rparr>)"
proof -
  have "sel1 (\<lambda>r. m_producer_id (mr_message r) = m_producer_id msg \<and> m_operation_id (mr_message r) = m_operation_id msg)
      (messages d) = None"
    using none by (auto simp: readSubmission_def split: option.splits)
  with readDeliveryByMessage_mem [OF inv(2) v(1)] v(2) show ?thesis
    by (simp add: readSubmission_def m sel1_append)
qed

interpretation sub: receipted
    "\<lambda>(now, q) d. SubmitMessage now q d" look_submission
    "\<lambda>(now, q). (sm_producer_id q, sm_operation_id q)" "\<lambda>(now, q). sm_fingerprint q"
    "\<lambda>r. r\<lparr>sr_replayed := True\<rparr>" same_submission "\<lambda>q r. True" db_inv "fabric_step\<^sup>*\<^sup>*"
proof (unfold_locales, goal_cases)
  case (1 d q f r)
  then show ?case
    by (cases q) (auto simp: SubmitMessage_def look_submission_def split: option.splits sum.splits)
next
  case (2 d q r d')
  obtain now sm where q: "q = (now, sm)" by (cases q)
  from 2 q have op: "SubmitMessage now sm d = Inr (r, d')" by simp
  have good: "good_step d d'" using live_step_good [OF live_step.submit [OF op] "2"(1)] .
  have led: "ledger_inv d" "ledger_inv d'"
    using "2"(1) good by (simp_all add: good_step_def db_inv_def fabric_inv_def)
  have absent: "readSubmission d (sm_producer_id sm) (sm_operation_id sm) = Inr None"
    using readSubmission_total [OF led(1), of "sm_producer_id sm" "sm_operation_id sm"] "2"(2) q
    by (auto simp: look_submission_def split: option.splits sum.splits)
  with op obtain msg v d1 where a: "acceptMessage now sm d = Inr ((msg, v), d1)"
    and rr: "resolveRoundReply now msg d1 = Inr d'"
    and r: "r = \<lparr>sr_message = msg, sr_delivery = v, sr_replayed = False\<rparr>"
    by (cases rule: SubmitMessage_cases) auto
  note m = acceptMessage_step [OF a] and m' = resolveRoundReply_step(2,3) [OF rr] and f = acceptMessage_Inr(2) [OF a]
  have "readSubmission d' (m_producer_id msg) (m_operation_id msg) =
    Inr (Some \<lparr>sub_message = msg, sub_delivery = publicDelivery v, sub_fingerprint = sm_fingerprint sm\<rparr>)"
  proof (rule accepted_found [OF led])
    show "v \<in> set (deliveries d')" using m(3) m'(2) by simp
    show "d_message_id v = m_message_id msg" using m(6) f by (simp add: queuedDelivery_def)
    show "readSubmission d (m_producer_id msg) (m_operation_id msg) = Inr None"
      using absent f by simp
  qed (simp add: m(2) m'(1))
  then have "look_submission (sm_producer_id sm, sm_operation_id sm) d' = Some (sm_fingerprint sm, r)"
    using f m(6) by (simp add: look_submission_def r publicDelivery_def queuedDelivery_def)
  with good q show ?case by (simp add: good_step_def)
next
  case (3 d d' k f r)
  then show ?case using look_submission_kept fm.run_inv by blast
qed

section \<open>Rounds\<close>

definition look_round :: "string \<times> string \<Rightarrow> db \<Rightarrow> (string \<times> begin_round_result) option" where
  "look_round k d =
     (case LookupRoundOperation (fst k) (snd k) d of
        Inr (Some (f, r)) \<Rightarrow> if br_round r = None then None else Some (f, r)
      | _ \<Rightarrow> None)"

definition same_round :: "begin_round_result \<Rightarrow> begin_round_result \<Rightarrow> bool" where
  "same_round r r' =
     (br_message r' = br_message r \<and>
      delivery_moves delivery_path (publicDelivery (br_delivery r)) (publicDelivery (br_delivery r')) \<and>
      (\<exists>v v'. br_round r = Some v \<and> br_round r' = Some v' \<and> round_moves v v'))"

lemma readRoundByRoot_mem:
  assumes "ledger_inv d" and "v \<in> set (rounds d)"
  shows "readRoundByRoot d (r_root_message_id v) = Some v"
  unfolding readRoundByRoot_def
  by (rule sel1_unique) (use assms in \<open>simp_all add: ledger_inv_def rounds_inv_def\<close>)

lemma readRoundByRoot_Some:
  "readRoundByRoot d i = Some v \<Longrightarrow> v \<in> set (rounds d) \<and> r_root_message_id v = i"
  by (auto simp: readRoundByRoot_def dest: sel1_SomeD)

lemma look_round_Some:
  "look_round k d = Some (f, r) \<longleftrightarrow>
     (\<exists>s v. look_submission k d = Some (f, s) \<and> readRoundByRoot d (m_message_id (sr_message s)) = Some v \<and>
        r = \<lparr>br_round = Some v, br_message = sr_message s, br_delivery = sr_delivery s, br_replayed = False\<rparr>)"
  by (auto simp: look_round_def look_submission_def LookupRoundOperation_def
      split: option.splits sum.splits)

lemma look_round_kept:
  assumes "db_inv d" and "fabric_step\<^sup>*\<^sup>* d d'" and "look_round k d = Some (f, r)"
  shows "\<exists>r'. look_round k d' = Some (f, r') \<and> same_round r r'"
proof -
  from assms(3) obtain s v where s: "look_submission k d = Some (f, s)"
    and v: "readRoundByRoot d (m_message_id (sr_message s)) = Some v"
    and r: "r = \<lparr>br_round = Some v, br_message = sr_message s, br_delivery = sr_delivery s, br_replayed = False\<rparr>"
    by (auto simp: look_round_Some)
  from look_submission_kept [OF assms(1,2) s] obtain s' where
      s': "look_submission k d' = Some (f, s')" "same_submission s s'" by blast
  have inv: "ledger_inv d'" using fm.run_inv [OF assms(2,1)] by (simp add: db_inv_def fabric_inv_def)
  have "evolves round_moves (rounds d) (rounds d')"
    using fm.run_within [OF assms(2,1)] by (auto simp: fabric_moves_def ledger_step_def)
  from evolves_mem [OF this] readRoundByRoot_Some [OF v] obtain v' where
      v': "v' \<in> set (rounds d')" "round_moves v v'" by blast
  then have "readRoundByRoot d' (m_message_id (sr_message s')) = Some v'"
    using readRoundByRoot_mem [OF inv v'(1)] readRoundByRoot_Some [OF v] s'(2)
    by (simp add: round_moves_def same_submission_def)
  with s' v' show ?thesis
    unfolding look_round_Some by (auto simp: same_round_def r same_submission_def)
qed

interpretation rnd: receipted
    "\<lambda>(now, q) d. BeginRound now q d" look_round
    "\<lambda>(now, q). (sm_producer_id (bq_submit q), sm_operation_id (bq_submit q))"
    "\<lambda>(now, q). sm_fingerprint (bq_submit q)"
    "\<lambda>r. r\<lparr>br_replayed := True\<rparr>" same_round "\<lambda>q r. True" db_inv "fabric_step\<^sup>*\<^sup>*"
proof (unfold_locales, goal_cases)
  case (1 d q f r)
  then show ?case
    by (cases q) (auto simp: look_round_Some look_submission_def BeginRound_def split: option.splits sum.splits)
next
  case (2 d q r d')
  obtain now bq where q: "q = (now, bq)" by (cases q)
  let ?sm = "bq_submit bq"
  from 2 q have op: "BeginRound now bq d = Inr (r, d')" by simp
  have good: "good_step d d'" using live_step_good [OF live_step.begin_round [OF op] "2"(1)] .
  have led: "ledger_inv d" "ledger_inv d'"
    using "2"(1) good by (simp_all add: good_step_def db_inv_def fabric_inv_def)
  have absent: "readSubmission d (sm_producer_id ?sm) (sm_operation_id ?sm) = Inr None"
    using readSubmission_total [OF led(1), of "sm_producer_id ?sm" "sm_operation_id ?sm"] "2"(2) q op
    by (auto simp: look_round_def LookupRoundOperation_def BeginRound_def split: option.splits if_splits)
  with op obtain msg v d1 rd where a: "acceptMessage now ?sm d = Inr ((msg, v), d1)"
    and i: "insertRound rd d1 = Inr d'" and rd: "r_root_message_id rd = m_message_id msg"
    and r: "r = \<lparr>br_round = Some rd, br_message = msg, br_delivery = v, br_replayed = False\<rparr>"
    by (auto simp: BeginRound_def bindR_Inr_iff Let_def)
  note m = acceptMessage_step [OF a] and f = acceptMessage_Inr(2) [OF a] and i' = insertRound_Inr(1) [OF i]
  have "readSubmission d' (m_producer_id msg) (m_operation_id msg) =
    Inr (Some \<lparr>sub_message = msg, sub_delivery = publicDelivery v, sub_fingerprint = sm_fingerprint ?sm\<rparr>)"
  proof (rule accepted_found [OF led])
    show "v \<in> set (deliveries d')" using m(3) i' by simp
    show "d_message_id v = m_message_id msg" using m(6) f by (simp add: queuedDelivery_def)
    show "readSubmission d (m_producer_id msg) (m_operation_id msg) = Inr None" using absent f by simp
  qed (simp add: m(2) i')
  then have "look_submission (sm_producer_id ?sm, sm_operation_id ?sm) d'
      = Some (sm_fingerprint ?sm, \<lparr>sr_message = msg, sr_delivery = v, sr_replayed = False\<rparr>)"
    using f m(6) by (simp add: look_submission_def publicDelivery_def queuedDelivery_def)
  moreover have "readRoundByRoot d' (m_message_id msg) = Some rd"
    using readRoundByRoot_mem [OF led(2), of rd] rd i' by simp
  ultimately have "look_round (sm_producer_id ?sm, sm_operation_id ?sm) d' = Some (sm_fingerprint ?sm, r)"
    unfolding look_round_Some r by auto
  with good q show ?case by (simp add: good_step_def)
next
  case (3 d d' k f r)
  then show ?case using look_round_kept fm.run_inv by blast
qed

end
