(* ===== verification/Scenario.thy ===== *)
theory Scenario
  imports Replay
begin

text \<open>
  A concrete run of the fabric: an adapter registers, binds two sessions, a message goes from one to the
  other and is claimed. The guarantees extend the run (a dispatch, a round with its reply, a seat that is
  taken, relieved, given a charter and retired) to show that their hypotheses hold on real executions.
\<close>

definition succeeds :: "'e + 'a \<times> 'd \<Rightarrow> bool" where
  "succeeds m = (case m of Inl _ \<Rightarrow> False | Inr _ \<Rightarrow> True)"

definition value_of :: "'e + 'a \<times> 'd \<Rightarrow> 'a" where
  "value_of m = (case m of Inr (x, _) \<Rightarrow> x)"

lemma succeeds_settle: "succeeds m \<Longrightarrow> m = Inr (value_of m, settle d m)"
  by (cases m) (auto simp: succeeds_def value_of_def)

lemma reachable_live:
  assumes "reachable d" and "live_step d d'"
  shows "reachable d'"
  using assms fabric_step.live unfolding reachable_def by (metis rtranclp.rtrancl_into_rtrancl)

lemma reachable_empty: "reachable empty_db"
  by (simp add: reachable_def)

definition reg_a :: register_request where
  "reg_a = \<lparr>rg_adapter_id = ''A'', rg_instance_id = ''i1'', rg_lease_token = ''ta'',
     rg_previous_lease_token = '''', rg_expires_at = 1000\<rparr>"

definition bind_req :: "string \<Rightarrow> put_binding_request" where
  "bind_req a = \<lparr>pb_address = a, pb_actor_adapter_id = ''A'', pb_lease_token = ''ta'',
     pb_adapter_id = ''A'', pb_target_ref = ''ref'', pb_capabilities = [''deliver_when_idle''],
     pb_expected_revision = None\<rparr>"

definition submit_req :: "string \<Rightarrow> string \<Rightarrow> string \<Rightarrow> string \<Rightarrow> submit_request" where
  "submit_req op rcpt reply as =
     \<lparr>sm_producer_id = ''A'', sm_lease_token = ''ta'', sm_operation_id = op, sm_fingerprint = ''fp'' @ op,
      sm_message_id = ''m'' @ op, sm_delivery_id = ''d'' @ op, sm_sender_address = ''alice'',
      sm_recipient_address = rcpt, sm_body = ''hello'', sm_correlation_id = '''',
      sm_reply_to_message_id = reply, sm_activation_policy = PolicyNextTurn, sm_expires_at = 500,
      sm_expected_sender_generation = None, sm_expected_recipient_generation = None, sm_as_seat = as\<rparr>"

definition claim_req :: "string \<Rightarrow> string \<Rightarrow> delivery_op_request" where
  "claim_req op a =
     \<lparr>dq_kind = ''claim'', dq_adapter_id = ''A'', dq_lease_token = ''ta'', dq_operation_id = op,
      dq_fingerprint = ''fp'' @ op, dq_address = a, dq_generation = 1, dq_availability = AvailabilityIdle,
      dq_claim_duration = 100, dq_generated_claim_token = ''tok'', dq_delivery_id = '''',
      dq_claim_token = '''', dq_native_attempt_ref = '''', dq_failure_reason = ''''\<rparr>"

definition d1 :: db where "d1 = settle empty_db (RegisterAdapter 1 reg_a empty_db)"
definition d2 :: db where "d2 = settle d1 (PutBinding 2 (bind_req ''alice'') d1)"
definition d3 :: db where "d3 = settle d2 (PutBinding 3 (bind_req ''bob'') d2)"
definition d4 :: db where "d4 = settle d3 (SubmitMessage 4 (submit_req ''1'' ''bob'' '''' '''') d3)"
definition d5 :: db where "d5 = settle d4 (DeliveryOperation 5 (claim_req ''c'' ''bob'') d4)"

lemma ok1: "succeeds (RegisterAdapter 1 reg_a empty_db)" by code_simp
lemma ok2: "succeeds (PutBinding 2 (bind_req ''alice'') d1)" by code_simp
lemma ok3: "succeeds (PutBinding 3 (bind_req ''bob'') d2)" by code_simp
lemma ok4: "succeeds (SubmitMessage 4 (submit_req ''1'' ''bob'' '''' '''') d3)" by code_simp
lemma ok5: "succeeds (DeliveryOperation 5 (claim_req ''c'' ''bob'') d4)" by code_simp

end
