(* ===== verification/Delivery_Guarantees.thy ===== *)
theory Delivery_Guarantees
  imports Scenario
begin

text \<open>
  What the delivery protocol promises: claims take the oldest open delivery of a mailbox, transitions
  are fenced by lease and claim token, settlement is total and complete, and the delivery of a round's
  root decides the round. Each guarantee comes with a run of the scenario on which it applies.
\<close>

section \<open>Reachable states\<close>

lemma reachable_ledger: "reachable d \<Longrightarrow> ledger_inv d"
  using reachable_inv by (simp add: db_inv_def fabric_inv_def)

lemma scenario_reachable [simp]:
  "reachable d1" "reachable d2" "reachable d3" "reachable d4" "reachable d5"
proof -
  show r1: "reachable d1" unfolding d1_def
    using reachable_live [OF reachable_empty] live_step.register succeeds_settle [OF ok1] by metis
  show r2: "reachable d2" unfolding d2_def
    using reachable_live [OF r1] live_step.put succeeds_settle [OF ok2] by metis
  show r3: "reachable d3" unfolding d3_def
    using reachable_live [OF r2] live_step.put succeeds_settle [OF ok3] by metis
  show r4: "reachable d4" unfolding d4_def
    using reachable_live [OF r3] live_step.submit succeeds_settle [OF ok4] by metis
  show "reachable d5" unfolding d5_def
    using reachable_live [OF r4] live_step.delivery_op succeeds_settle [OF ok5] by metis
qed

section \<open>Claims\<close>

lemma noClaim_simps [simp]:
  "cr_claimed (do_claim (noClaim reason head)) = False" "do_replayed (noClaim reason head) = False"
  by (simp_all add: noClaim_def)

lemma claim_Inr_spec:
  assumes "claim now q d = Inr (res, d')" and "ledger_inv d" and "cr_claimed (do_claim res)"
  shows "\<exists>lease binding holdingID d0. currentLease d now (dq_adapter_id q) (dq_lease_token q) = Inr lease \<and>
     ledger_inv d0 \<and> ledger_step claim_moves d d0 \<and> same_rest d d0 \<and> messages d0 = messages d \<and>
     claim_spec now q lease binding holdingID d0 res d'"
proof -
  from assms(1) obtain lease rt where l: "currentLease d now (dq_adapter_id q) (dq_lease_token q) = Inr lease"
    and c: "(case rt of RouteBlocked reason \<Rightarrow> Inr (noClaim reason None, d)
         | RouteThrough binding holder holdingID \<Rightarrow> claimLoop now q lease binding holder holdingID d)
           = Inr (res, d')"
    by (auto simp: claim_def bindR_Inr_iff)
  with assms(3) obtain binding holder holdingID where
      "claimLoop now q lease binding holder holdingID d = Inr (res, d')"
    by (cases rt) auto
  from claimLoop_spec [OF this assms(2)] l show ?thesis by blast
qed

text \<open>A queued row of a later state was queued before, or is new.\<close>

lemma claim_moves_queued:
  assumes "delivery_moves claim_moves v w" and "d_state w = Queued"
  shows "d_state v = Queued"
  using assms by (auto simp: delivery_moves_def claim_moves_def)

lemma ledger_step_readDelivery:
  assumes "ledger_step E d d'" and "ledger_inv d'" and "v \<in> set (deliveries d)"
  shows "\<exists>v'. readDelivery d' (d_delivery_id v) = Some v' \<and> delivery_moves E v v'"
proof -
  from assms(1,3) obtain v' where v': "v' \<in> set (deliveries d')" "delivery_moves E v v'"
    using evolves_mem by (metis ledger_step_def)
  then have "d_delivery_id v' = d_delivery_id v" by (simp add: delivery_moves_def)
  with readDelivery_mem [OF assms(2) v'(1)] v'(2) show ?thesis by auto
qed

lemma claim_keeps_length:
  assumes "ledger_inv d" and "ledger_inv d0" and "messages d0 = messages d"
  shows "length (deliveries d0) = length (deliveries d)"
  using delivery_message_ids [OF assms(1)] delivery_message_ids [OF assms(2)] assms(3)
  by (metis length_map message_ids_def)


lemma claim_origin:
  assumes "ledger_step claim_moves d d0" and "ledger_inv d" and "ledger_inv d0" and "messages d0 = messages d"
    and "head \<in> set (deliveries d0)" and "d_state head = Queued"
  shows "\<exists>v\<in>set (deliveries d). d_delivery_id v = d_delivery_id head \<and> d_state v = Queued \<and>
     d_expires_at v = d_expires_at head"
proof -
  from assms(5) obtain i where i: "i < length (deliveries d0)" "deliveries d0 ! i = head"
    by (auto simp: in_set_conv_nth)
  then have "i < length (deliveries d)" using claim_keeps_length [OF assms(2-4)] by simp
  then have mem: "deliveries d ! i \<in> set (deliveries d)"
    and mv: "delivery_moves claim_moves (deliveries d ! i) head"
    using evolves_nth [of "delivery_moves claim_moves" "deliveries d" "deliveries d0" i] i(2) assms(1)
    by (simp_all add: ledger_step_def)
  from claim_moves_queued [OF mv assms(6)] mv mem show ?thesis
    by (intro bexI [of _ "deliveries d ! i"]) (simp_all add: delivery_moves_def)
qed

text \<open>
  C14: First in, first out. A claim that is granted takes a delivery that was queued for that mailbox and
  generation and had not expired, and in the committed state every delivery of the mailbox accepted
  before it is terminal: no delivery overtakes another.
\<close>

theorem claim_takes_oldest:
  assumes "reachable d" and "DeliveryOperation now q d = Inr (res, d')" and "dq_kind q = ''claim''"
    and "\<not> do_replayed res" and "cr_claimed (do_claim res)"
  shows "\<exists>v v'. v \<in> set (deliveries d) \<and> d_state v = Queued \<and> d_expires_at v > now \<and>
     readDelivery d' (d_delivery_id v) = Some v' \<and> d_state v' = Claimed \<and>
     d_recipient_address v' = dq_address q \<and> d_recipient_generation v' = dq_generation q \<and>
     cr_delivery (do_claim res) = Some (publicDelivery v') \<and>
     (\<forall>w\<in>set (deliveries d'). d_recipient_address w = dq_address q \<and>
        d_recipient_generation w = dq_generation q \<and> d_accepted_sequence w < d_accepted_sequence v' \<longrightarrow>
        terminal_state (d_state w))"
proof -
  have inv: "ledger_inv d" by (rule reachable_ledger [OF assms(1)])
  have fresh: "lookupReceipt (receipts d) (dq_adapter_id q) (dq_operation_id q) = None"
    using assms(2,4) by (auto simp: DeliveryOperation_def markReplayed_def split: option.splits if_splits)
  from assms(2,3) obtain dc where c: "claim now q d = Inr (res, dc)" and "deliveries d' = deliveries dc"
    unfolding DeliveryOperation_fresh [OF fresh] by (auto simp: runDeliveryOperation_def split: if_splits)
  then have rd: "readDelivery d' = readDelivery dc" and mem: "set (deliveries d') = set (deliveries dc)"
    by (simp_all add: readDelivery_def fun_eq_iff)
  from claim_Inr_spec [OF c inv assms(5)] obtain lease binding holdingID d0 where
      d0: "ledger_inv d0" "ledger_step claim_moves d d0" "messages d0 = messages d"
      and spec: "claim_spec now q lease binding holdingID d0 res dc" by blast
  from spec assms(5) obtain head action where
      h: "headForUpdate d0 (dq_address q) (dq_generation q) = Some head" "d_state head = Queued"
      and live: "\<not> fst (queuedInvalid d0 now head)"
      and u: "updateDeliveries (\<lambda>r. d_delivery_id r = d_delivery_id head \<and> d_state r = Queued)
               (claimRow now q lease holdingID action) d0 = Inr dc"
      and cd: "cr_delivery (do_claim res) = Some (publicDelivery (claimRow now q lease holdingID action head))"
    by (auto simp: claim_spec_def)
  let ?v' = "claimRow now q lease holdingID action head"
  note hd = headForUpdate_Some [OF h(1)]
  obtain v where v: "v \<in> set (deliveries d)" "d_delivery_id v = d_delivery_id head" "d_state v = Queued"
      "d_expires_at v = d_expires_at head"
    using claim_origin [OF d0(2) inv d0(1,3) hd(1) h(2)] by blast
  have "readDelivery dc (d_delivery_id v) = Some ?v'"
    using readDelivery_mem [OF d0(1) hd(1)] updateDeliveries_Inr(1) [OF u] h(2) v(2)
    by (simp add: readDelivery_def readDelivery_upd claimRow_def)
  moreover have "d_expires_at v > now"
    using live v(4) by (auto simp: queuedInvalid_def split: if_splits)
  moreover have "terminal_state (d_state w)"
    if w: "w \<in> set (deliveries dc)" "d_recipient_address w = dq_address q"
      "d_recipient_generation w = dq_generation q" "d_accepted_sequence w < d_accepted_sequence ?v'" for w
  proof -
    from w(1) obtain r where r: "r \<in> set (deliveries d0)"
        "w = (if d_delivery_id r = d_delivery_id head \<and> d_state r = Queued
              then claimRow now q lease holdingID action r else r)"
      unfolding updateDeliveries_Inr(1) [OF u] by (auto elim: upd_memE)
    have "r \<noteq> head" using w(4) r(2) h(2) by auto
    then have "w \<in> set (deliveries d0)"
      using r delivery_unique [OF d0(1) r(1) hd(1)] by (auto split: if_splits)
    then show ?thesis
      using headForUpdate_least [OF h(1), of w] w by (auto simp: claimRow_def)
  qed
  ultimately show ?thesis
    using v cd hd rd mem by (intro exI [of _ v] exI [of _ ?v']) (simp add: claimRow_def)
qed

theorem claim_takes_oldest_witness:
  "\<exists>v v'. v \<in> set (deliveries d4) \<and> d_state v = Queued \<and> d_expires_at v > 5 \<and>
     readDelivery d5 (d_delivery_id v) = Some v' \<and> d_state v' = Claimed \<and>
     d_recipient_address v' = ''bob'' \<and> d_recipient_generation v' = 1"
proof -
  let ?m = "DeliveryOperation 5 (claim_req ''c'' ''bob'') d4"
  have "\<not> do_replayed (value_of ?m) \<and> cr_claimed (do_claim (value_of ?m))" by code_simp
  moreover have "?m = Inr (value_of ?m, d5)"
    unfolding d5_def by (rule succeeds_settle [OF ok5])
  ultimately show ?thesis
    using claim_takes_oldest [of d4 5 "claim_req ''c'' ''bob''" "value_of ?m" d5]
    by (simp add: claim_req_def) blast
qed

section \<open>Policies\<close>

text \<open>
  The action a claim hands to the adapter respects the sender's policy and the target's
  capabilities: a sleeping target is woken only for a policy other than no_wake and only with the wake
  capability, a running turn is touched only for next_step or no_wake and only with the next-step
  capability, and an adapter that can merely show a notice gets no action at all.
\<close>

theorem claimAction_respects_policy:
  assumes "claimAction policy caps availability = (action, reason)"
  shows "(action = '''' \<longleftrightarrow> reason \<noteq> '''') \<and>
     (action = ''wake_then_deliver'' \<longrightarrow> availability = AvailabilityInactive \<and>
        fst (NormalizePolicy policy) \<noteq> PolicyNoWake \<and> CapabilityWakeInactive \<in> set caps) \<and>
     (action = ''deliver_next_step'' \<longrightarrow> availability = AvailabilityBusy \<and>
        fst (NormalizePolicy policy) \<in> {PolicyNextStep, PolicyNoWake} \<and> CapabilityDeliverNextStep \<in> set caps) \<and>
     (action = ''register_next_turn'' \<longrightarrow> availability = AvailabilityBusy \<and>
        fst (NormalizePolicy policy) \<noteq> PolicyNoWake \<and> CapabilityDurableNextTurn \<in> set caps) \<and>
     (action = ''deliver_at_idle'' \<longrightarrow> availability = AvailabilityIdle \<and>
        fst (NormalizePolicy policy) \<noteq> PolicyNoWake \<and> CapabilityDeliverWhenIdle \<in> set caps) \<and>
     (set caps \<subseteq> {CapabilityPendingNotice} \<longrightarrow> action = '''')"
  using assms unfolding claimAction_def Let_def by (auto split: if_splits)

theorem claimAction_respects_policy_witness:
  "claimAction ''wake_when_idle'' [CapabilityWakeInactive] AvailabilityInactive = (''wake_then_deliver'', '''') \<and>
   fst (NormalizePolicy ''wake_when_idle'') \<noteq> PolicyNoWake"
proof -
  have "claimAction ''wake_when_idle'' [CapabilityWakeInactive] AvailabilityInactive = (''wake_then_deliver'', '''')"
    by code_simp
  from claimAction_respects_policy [OF this] this show ?thesis by simp
qed

section \<open>Fences\<close>

text \<open>
  C23: Renewing, releasing, dispatching or failing a claim for the first time needs the adapter's live
  lease, the claim's owner and instance, its token, an unexpired claim and the state claimed; otherwise
  the operation is refused and nothing changes.
\<close>

theorem claim_transition_fenced:
  assumes "DeliveryOperation now q d = Inr (res, d')" and "\<not> do_replayed res"
    and "dq_kind q \<in> {''renew'', ''release'', ''begin_dispatch'', ''fail_claimed''}"
  shows "\<exists>v row expires. readDelivery d (dq_delivery_id q) = Some v \<and> d_state v = Claimed \<and>
     d_claim_token v = dq_claim_token q \<and> d_claim_owner_adapter_id v = dq_adapter_id q \<and>
     d_claim_expires_at v = Some expires \<and> expires > now \<and>
     leaseRow d (dq_adapter_id q) = Some row \<and> lr_lease_token row = dq_lease_token q \<and>
     lr_expires_at row > now \<and> d_claim_owner_instance_id v = lr_instance_id row"
proof -
  have fresh: "lookupReceipt (receipts d) (dq_adapter_id q) (dq_operation_id q) = None"
    using assms(1,2) by (auto simp: DeliveryOperation_def markReplayed_def split: option.splits if_splits)
  from assms(1,3) obtain dt where "claimTransition now q d = Inr (res, dt)"
    unfolding DeliveryOperation_fresh [OF fresh] runDeliveryOperation_def by auto
  then obtain v lease where "readDelivery d (dq_delivery_id q) = Some v" "d_state v = Claimed"
    "claimFence d now v q = Inr lease"
    by (auto simp: claimTransition_def bindR_Inr_iff)
  then show ?thesis
    by (auto simp: claimFence_def bindR_Inr_iff currentLease_Inr_iff split: if_splits option.splits)
qed

definition dispatch_req :: delivery_op_request where
  "dispatch_req = (claim_req ''b'' '''')\<lparr>dq_kind := ''begin_dispatch'', dq_delivery_id := ''d1'',
     dq_claim_token := ''tok'', dq_native_attempt_ref := ''n1''\<rparr>"

definition d6 :: db where "d6 = settle d5 (DeliveryOperation 6 dispatch_req d5)"

lemma ok6: "succeeds (DeliveryOperation 6 dispatch_req d5)" by code_simp

lemma step6: "DeliveryOperation 6 dispatch_req d5 = Inr (value_of (DeliveryOperation 6 dispatch_req d5), d6)"
  unfolding d6_def by (rule succeeds_settle [OF ok6])

theorem claim_transition_fenced_witness:
  "\<exists>v. readDelivery d5 ''d1'' = Some v \<and> d_state v = Claimed \<and> d_claim_token v = ''tok''"
proof -
  have "\<not> do_replayed (value_of (DeliveryOperation 6 dispatch_req d5))" by code_simp
  from claim_transition_fenced [OF step6 this] show ?thesis
    by (simp add: dispatch_req_def claim_req_def) blast
qed

text \<open>
  Once a delivery is dispatching, only the adapter that owns its claim can put it back in the queue:
  the not-inserted report needs the owner's lease, instance, claim token and attempt reference. The
  delivery then keeps its place, ahead of everything accepted after it.
\<close>

theorem not_inserted_requeues_in_place:
  assumes "reachable d" and "DeliveryOperation now q d = Inr (res, d')" and "\<not> do_replayed res"
    and "dq_kind q = ''not_inserted''"
  shows "\<exists>v v' row. readDelivery d (dq_delivery_id q) = Some v \<and> d_state v = Dispatching \<and>
     d_claim_owner_adapter_id v = dq_adapter_id q \<and> d_claim_token v = dq_claim_token q \<and>
     d_native_attempt_ref v = dq_native_attempt_ref q \<and> leaseRow d (dq_adapter_id q) = Some row \<and>
     lr_lease_token row = dq_lease_token q \<and> d_claim_owner_instance_id v = lr_instance_id row \<and>
     readDelivery d' (dq_delivery_id q) = Some v' \<and> d_state v' = Queued \<and>
     d_accepted_sequence v' = d_accepted_sequence v"
proof -
  have fresh: "lookupReceipt (receipts d) (dq_adapter_id q) (dq_operation_id q) = None"
    using assms(2,3) by (auto simp: DeliveryOperation_def markReplayed_def split: option.splits if_splits)
  from assms(2,4) obtain dt where n: "notInserted now q d = Inr (res, dt)" and d': "deliveries d' = deliveries dt"
    unfolding DeliveryOperation_fresh [OF fresh] runDeliveryOperation_def by auto
  let ?f = "\<lambda>r. (unclaim r)\<lparr>d_dispatching_at := None\<rparr>"
  from n obtain v lease where v: "readDelivery d (dq_delivery_id q) = Some v" "d_state v = Dispatching"
      "d_claim_owner_adapter_id v = dq_adapter_id q" "d_claim_token v = dq_claim_token q"
      "d_native_attempt_ref v = dq_native_attempt_ref q" "d_claim_owner_instance_id v = al_instance_id lease"
    and l: "currentLease d now (dq_adapter_id q) (dq_lease_token q) = Inr lease"
    and u: "updateDeliveries (\<lambda>r. d_delivery_id r = d_delivery_id v \<and> d_state r = Dispatching) ?f d = Inr dt"
    by (auto simp: notInserted_def bindR_Inr_iff)
  have "readDelivery d' (dq_delivery_id q) = Some (?f v)"
    using v(1,2) readDelivery_Some [OF v(1)] updateDeliveries_Inr(1) [OF u] d'
    by (simp add: readDelivery_def readDelivery_upd unclaim_def)
  with v l show ?thesis by (auto simp: currentLease_Inr_iff unclaim_def)
qed

definition reject_req :: delivery_op_request where
  "reject_req = dispatch_req\<lparr>dq_kind := ''not_inserted'', dq_operation_id := ''n'',
     dq_failure_reason := ''steer_rejected''\<rparr>"

lemma reachable6 [simp]: "reachable d6"
  using reachable_live [OF scenario_reachable(5)] live_step.delivery_op step6 by metis

theorem not_inserted_requeues_in_place_witness:
  "\<exists>v'. readDelivery (settle d6 (DeliveryOperation 7 reject_req d6)) ''d1'' = Some v' \<and> d_state v' = Queued"
proof -
  let ?m = "DeliveryOperation 7 reject_req d6"
  have "succeeds ?m" by code_simp
  from succeeds_settle [OF this] have m: "?m = Inr (value_of ?m, settle d6 ?m)" by blast
  have "\<not> do_replayed (value_of ?m)" by code_simp
  from not_inserted_requeues_in_place [OF reachable6 m this] show ?thesis
    by (simp add: reject_req_def dispatch_req_def) blast
qed

section \<open>Settlement\<close>

text \<open>Making a pending round terminal violates no constraint, so the bridge to a round never fails.\<close>

lemma terminalizeRound_total:
  assumes "status \<in> {RExpired, RCancelled, RFailed}"
  shows "terminalizeRound now rid status reason '''' d =
    Inr (d\<lparr>rounds := upd (\<lambda>r. r_round_id r = rid \<and> r_status r = RPending)
      (\<lambda>r. r\<lparr>r_status := status, r_reply_message_id := '''', r_terminal_at := Some now,
             r_terminal_reason := reason, r_revision := r_revision r + 1\<rparr>) (rounds d)\<rparr>)"
  using assms by (auto simp: terminalizeRound_def updateRounds_def list_ex_iff round_check_def)

lemma bridge_status_range: "bridge_status s = Some status \<Longrightarrow> status \<in> {RExpired, RCancelled, RFailed}"
  by (cases s) auto

lemma bridge_total: "\<exists>d'. bridgeRoundDeliveryTerminal now did state reason d = Inr d'"
  by (auto simp: bridgeRoundDeliveryTerminal_def terminalizeRound_total [OF bridge_status_range]
      split: option.splits)

lemma updateDeliveries_total:
  assumes "\<And>r. r \<in> set (deliveries d) \<Longrightarrow> P r \<Longrightarrow> \<not> terminal_state (d_state r) \<and> delivery_check (f r)"
  shows "updateDeliveries P f d = Inr (d\<lparr>deliveries := upd P f (deliveries d)\<rparr>)"
  using assms by (auto simp: updateDeliveries_def list_ex_iff)

lemma delivery_check_mem: "ledger_inv d \<Longrightarrow> r \<in> set (deliveries d) \<Longrightarrow> delivery_check r"
  by (simp add: ledger_inv_def deliveries_inv_def)

text \<open>What settlement leaves of a pending delivery: only deliveries that can still be delivered.\<close>

definition settled_ok :: "db \<Rightarrow> time \<Rightarrow> delivery \<Rightarrow> bool" where
  "settled_ok d now v = (openPending v \<longrightarrow> settlementOf d now v = Keep)"

lemma settlementOf_cong:
  "same_rest d d' \<Longrightarrow> settlementOf d' now v = settlementOf d now v"
  by (simp add: settlementOf_def same_rest_def adapterLeaseLive_def leaseRow_def undeliverableReason_def
      readSeatRow_def readBinding_def)

lemma settled_ok_cong: "same_rest d d' \<Longrightarrow> settled_ok d' = settled_ok d"
  by (simp add: settled_ok_def settlementOf_cong fun_eq_iff)

lemma settlementOf_release:
  "settlementOf d now v = ReleaseClaim \<Longrightarrow> d_state v = Claimed \<and> settlementOf d now (unclaim v) = Keep"
  by (auto simp: settlementOf_def unclaim_def Let_def split: if_splits)

lemma openPending_not_terminal: "openPending v \<Longrightarrow> \<not> terminal_state (d_state v)"
  by (auto simp: openPending_def)

lemma upd_only:
  assumes "ledger_inv d" and "v \<in> set (deliveries d)" and "Q v"
  shows "upd (\<lambda>r. d_delivery_id r = d_delivery_id v \<and> Q r) f (deliveries d) = upd (\<lambda>r. r = v) f (deliveries d)"
  using assms delivery_unique [OF assms(1) _ assms(2)] by (auto simp: upd_def)

lemma settle_release:
  assumes inv: "ledger_inv d" and v: "v \<in> set (deliveries d)" and rel: "settlementOf d now v = ReleaseClaim"
  shows "\<exists>d1. updateDeliveries (\<lambda>r. d_delivery_id r = d_delivery_id v \<and> d_state r = Claimed) unclaim d = Inr d1 \<and>
     deliveries d1 = upd (\<lambda>r. r = v) unclaim (deliveries d) \<and> ledger_inv d1 \<and> same_rest d d1"
proof -
  have st: "d_state v = Claimed" using settlementOf_release [OF rel] by simp
  have "\<not> terminal_state (d_state r) \<and> delivery_check (unclaim r)"
    if "r \<in> set (deliveries d)" "d_state r = Claimed" for r
    using delivery_check_mem [OF inv that(1)] that(2) by (simp add: delivery_check_def unclaim_def)
  then have u: "updateDeliveries (\<lambda>r. d_delivery_id r = d_delivery_id v \<and> d_state r = Claimed) unclaim d
      = Inr (d\<lparr>deliveries := upd (\<lambda>r. r = v) unclaim (deliveries d)\<rparr>)"
    using upd_only [OF inv v, of "\<lambda>r. d_state r = Claimed"] st by (subst updateDeliveries_total) auto
  have "delivery_moves settle_moves v (unclaim v)" "claim_shape (unclaim v)"
    using st by (auto simp: unclaim_def delivery_moves_def settle_moves_def claim_shape_def)
  from updateDeliveries_one_step [OF u inv v _ this] u show ?thesis by auto
qed

lemma settle_terminal:
  fixes now state reason
  defines "f \<equiv> \<lambda>r. r\<lparr>d_state := state, d_terminal_reason := reason, d_terminal_at := Some now\<rparr>"
  assumes inv: "ledger_inv d" and v: "v \<in> set (deliveries d)" "openPending v"
    and t: "settlementOf d now v = Terminal state reason"
  shows "\<exists>d1 d2. updateDeliveries (\<lambda>r. d_delivery_id r = d_delivery_id v \<and> openPending r) f d = Inr d1 \<and>
     bridgeRoundDeliveryTerminal now (d_delivery_id v) state reason d1 = Inr d2 \<and>
     deliveries d2 = upd (\<lambda>r. r = v) f (deliveries d) \<and> ledger_inv d2 \<and> same_rest d d2"
proof -
  let ?d1 = "d\<lparr>deliveries := upd (\<lambda>r. r = v) f (deliveries d)\<rparr>"
  note mv = settlementOf_moves [OF v(2) t]
  have u: "updateDeliveries (\<lambda>r. d_delivery_id r = d_delivery_id v \<and> openPending r) f d = Inr ?d1"
    using upd_only [OF inv v(1), of openPending] v(2) mv
    by (subst updateDeliveries_total) (auto simp: f_def delivery_check_def openPending_not_terminal)
  have "delivery_moves settle_moves v (f v)" "claim_shape (f v)"
    using mv openPending_not_terminal [OF v(2)] by (auto simp: f_def delivery_moves_def claim_shape_def)
  from updateDeliveries_one_step [OF u inv v(1) _ this]
  have one: "ledger_inv ?d1 \<and> same_rest d ?d1" by simp
  obtain d2 where b: "bridgeRoundDeliveryTerminal now (d_delivery_id v) state reason ?d1 = Inr d2"
    using bridge_total by blast
  have "ledger_inv d2" "same_rest d d2" "deliveries d2 = upd (\<lambda>r. r = v) f (deliveries d)"
    using bridge_inv(1,3,5) [OF b] one same_rest_trans by auto
  with u b show ?thesis by blast
qed

text \<open>Settling the rest keeps the rows already looked at, so all of them end up settled.\<close>

lemma settleRows_complete:
  assumes "ledger_inv d" and "\<And>v. v \<in> set rows \<Longrightarrow> openPending v \<and> v \<in> set (deliveries d)"
    and "distinct rows"
    and "\<And>v. v \<in> set (deliveries d) \<Longrightarrow> v \<notin> set rows \<Longrightarrow> settled_ok d now v"
  shows "\<exists>vs d'. settleRows now rows settled d = Inr (vs, d') \<and> same_rest d d' \<and>
     (\<forall>v\<in>set (deliveries d'). settled_ok d now v)"
  using assms
proof (induction now rows settled d rule: settleRows.induct)
  case (1 now settled d)
  then show ?case by simp
next
  case (2 now v rows settled d)
  have v: "openPending v" "v \<in> set (deliveries d)" "v \<notin> set rows" using "2.prems"(2,3) by auto
  have next_ok: "\<exists>vs d'. settleRows now rows acc d1 = Inr (vs, d') \<and> same_rest d1 d' \<and>
      (\<forall>w\<in>set (deliveries d'). settled_ok d1 now w) \<Longrightarrow> same_rest d d1 \<Longrightarrow>
      \<exists>vs d'. settleRows now rows acc d1 = Inr (vs, d') \<and> same_rest d d' \<and>
      (\<forall>w\<in>set (deliveries d'). settled_ok d now w)" for acc d1
    using same_rest_trans settled_ok_cong by metis
  have rest: "openPending w \<and> w \<in> set (upd (\<lambda>r. r = v) f (deliveries d))" if "w \<in> set rows" for w f
    using that v(3) "2.prems"(2) by (auto simp: set_upd image_iff)
  have old: "settled_ok d now w"
    if "w \<in> set (upd (\<lambda>r. r = v) f (deliveries d))" "w \<notin> set rows" "settled_ok d now (f v)" for w f
    using that "2.prems"(4) v(3) by (auto elim!: upd_memE split: if_splits)
  show ?case
  proof (cases "settlementOf d now v")
    case Keep
    have "settled_ok d now w" if "w \<in> set (deliveries d)" "w \<notin> set rows" for w
      using "2.prems"(4) [of w] that Keep by (cases "w = v") (auto simp: settled_ok_def)
    with "2.IH"(1) [OF Keep "2.prems"(1)] "2.prems"(2,3) Keep show ?thesis by simp
  next
    case ReleaseClaim
    from settle_release [OF "2.prems"(1) v(2) ReleaseClaim] obtain d1 where
        u: "updateDeliveries (\<lambda>r. d_delivery_id r = d_delivery_id v \<and> d_state r = Claimed) unclaim d = Inr d1"
        and d1: "deliveries d1 = upd (\<lambda>r. r = v) unclaim (deliveries d)" "ledger_inv d1" "same_rest d d1" by blast
    have "unclaim v \<in> set (deliveries d1)" using v(2) d1(1) by (auto simp: set_upd)
    then have rd: "readDelivery d1 (d_delivery_id v) = Some (unclaim v)"
      using readDelivery_mem [OF d1(2)] by (fastforce simp: unclaim_def)
    have ok: "settled_ok d now (unclaim v)" using settlementOf_release [OF ReleaseClaim] by (simp add: settled_ok_def)
    have "\<exists>vs d'. settleRows now rows (settled @ [publicDelivery (unclaim v)]) d1 = Inr (vs, d') \<and> same_rest d1 d' \<and>
        (\<forall>w\<in>set (deliveries d'). settled_ok d1 now w)"
      using "2.IH"(3) [OF ReleaseClaim u] rd "2.prems"(3) d1 rest old ok settlementOf_cong [OF d1(3)]
      by (auto simp: settled_ok_def)
    from next_ok [OF this d1(3)] ReleaseClaim u rd show ?thesis by simp
  next
    case (Terminal state reason)
    let ?f = "\<lambda>r. r\<lparr>d_state := state, d_terminal_reason := reason, d_terminal_at := Some now\<rparr>"
    from settle_terminal [OF "2.prems"(1) v(2,1) Terminal] obtain d1 d2 where
        u: "updateDeliveries (\<lambda>r. d_delivery_id r = d_delivery_id v \<and> openPending r) ?f d = Inr d1"
        and b: "bridgeRoundDeliveryTerminal now (d_delivery_id v) state reason d1 = Inr d2"
        and d2: "deliveries d2 = upd (\<lambda>r. r = v) ?f (deliveries d)" "ledger_inv d2" "same_rest d d2" by blast
    have ok: "settled_ok d now (?f v)"
      using settlementOf_moves [OF v(1) Terminal] by (auto simp: settled_ok_def openPending_def)
    have "\<exists>vs d'. settleRows now rows (settled @ [publicDelivery (?f v)]) d2 = Inr (vs, d') \<and> same_rest d2 d' \<and>
        (\<forall>w\<in>set (deliveries d'). settled_ok d2 now w)"
      using "2.IH"(2) [OF Terminal u b] "2.prems"(3) d2 rest old ok settlementOf_cong [OF d2(3)]
      by (auto simp: settled_ok_def)
    from next_ok [OF this d2(3)] Terminal u b show ?thesis by simp
  qed
qed

text \<open>
  C21: Settlement always completes, and completes its work: it never trips over a constraint, and
  afterwards every queued or claimed delivery is unexpired and still has its recipient, every claim is
  unexpired, and every dispatching delivery has an adapter with a live lease.
\<close>

theorem settle_pending_complete:
  assumes "reachable d"
  shows "\<exists>vs d'. SettlePending now d = Inr (vs, d') \<and>
     (\<forall>v\<in>set (deliveries d').
        (d_state v \<in> {Queued, Claimed} \<longrightarrow> d_expires_at v > now \<and>
           undeliverableReason d' (d_recipient_address v) (d_recipient_generation v) = '''') \<and>
        (d_state v = Claimed \<longrightarrow> (\<forall>e. d_claim_expires_at v = Some e \<longrightarrow> e > now)) \<and>
        (d_state v = Dispatching \<longrightarrow> adapterLeaseLive d' now (d_claim_owner_adapter_id v)))"
proof -
  let ?rows = "sort_key d_accepted_sequence (sel openPending (deliveries d))"
  have inv: "ledger_inv d" by (rule reachable_ledger [OF assms])
  have "distinct (deliveries d)"
    using inv by (simp add: ledger_inv_def deliveries_inv_def distinct_map)
  then have "distinct ?rows" by (simp add: sel_def)
  with settleRows_complete [OF inv, of ?rows now "[]"] obtain vs d' where
      s: "SettlePending now d = Inr (vs, d')" "same_rest d d'" "\<forall>v\<in>set (deliveries d'). settled_ok d now v"
    unfolding SettlePending_def by (auto simp: settled_ok_def)
  then have "\<forall>v\<in>set (deliveries d'). settled_ok d' now v"
    using settlementOf_cong [OF s(2)] by (simp add: settled_ok_def)
  then show ?thesis
    using s(1) by (intro exI [of _ vs] exI [of _ d'])
      (auto simp: settled_ok_def settlementOf_def openPending_def Let_def split: if_splits)
qed

theorem settle_pending_complete_witness:
  "\<exists>vs d'. SettlePending 600 d6 = Inr (vs, d')"
  using settle_pending_complete [OF reachable6] by blast

section \<open>Cancellation\<close>

lemma readRound_upd:
  assumes "\<And>r. r_round_id (f r) = r_round_id r"
  shows "sel1 (\<lambda>r. r_round_id r = i) (upd P f t)
     = map_option (\<lambda>r. if P r then f r else r) (sel1 (\<lambda>r. r_round_id r = i) t)"
  by (rule sel1_upd) (simp add: assms)

lemma readRound_mem:
  "distinct (map r_round_id (rounds d)) \<Longrightarrow> t \<in> set (rounds d) \<Longrightarrow> readRound d (r_round_id t) = Some t"
  unfolding readRound_def by (rule sel1_unique)

text \<open>The failed, expired or cancelled delivery of a pending round's root ends the round the same way.\<close>

lemma bridge_round:
  assumes b: "bridgeRoundDeliveryTerminal now did state reason d = Inr d'"
    and v: "readDelivery d did = Some v" and t: "readRoundByRoot d (d_message_id v) = Some t"
    and "r_status t = RPending" and "bridge_status state = Some status"
    and "distinct (map r_round_id (rounds d))"
  shows "\<exists>t'. readRound d' (r_round_id t) = Some t' \<and> r_status t' = status \<and> r_terminal_reason t' = reason"
proof -
  have "readRound d (r_round_id t) = Some t"
    using readRound_mem [OF assms(6)] readRoundByRoot_Some [OF t] by blast
  moreover have "terminalizeRound now (r_round_id t) status reason '''' d = Inr d'"
    using b v t assms(4,5) by (simp add: bridgeRoundDeliveryTerminal_def)
  ultimately show ?thesis
    using assms(4) terminalizeRound_total [OF bridge_status_range [OF assms(5)], of now "r_round_id t" reason d]
    by (auto simp: readRound_def readRound_upd)
qed

text \<open>
  Cancelling a delivery that is queued or claimed always succeeds, makes exactly it cancelled and
  cancels the pending round it is the root of; a second cancel returns the same; a dispatched or
  otherwise finished delivery refuses with a conflict.
\<close>

theorem cancel_delivery_outcomes:
  assumes "reachable d" and "readDelivery d did = Some v"
  shows "(d_state v \<in> {Queued, Claimed} \<longrightarrow>
       (\<exists>r d'. CancelDelivery now did d = Inr (r, d') \<and> d_state r = Cancelled \<and>
          readDelivery d' did = Some r \<and> CancelDelivery later did d' = Inr (r, d') \<and>
          (\<forall>w\<in>set (deliveries d). w \<noteq> v \<longrightarrow> w \<in> set (deliveries d')) \<and>
          (\<forall>t. readRoundByRoot d (d_message_id v) = Some t \<and> r_status t = RPending \<longrightarrow>
             (\<exists>t'. readRound d' (r_round_id t) = Some t' \<and> r_status t' = RCancelled)))) \<and>
     (d_state v \<in> {Dispatching, Delivered, Failed, Expired, OutcomeUnknown} \<longrightarrow>
       CancelDelivery now did d = Inl ErrConflict)"
proof -
  have inv: "ledger_inv d" by (rule reachable_ledger [OF assms(1)])
  have mem: "v \<in> set (deliveries d)" "d_delivery_id v = did" using readDelivery_Some [OF assms(2)] by auto
  let ?P = "\<lambda>r. d_delivery_id r = did \<and> (d_state r = Queued \<or> d_state r = Claimed)"
  let ?f = "\<lambda>r. (unclaim r)\<lparr>d_state := Cancelled, d_terminal_reason := ''cancelled_by_request'',
                            d_terminal_at := Some now\<rparr>"
  let ?d1 = "d\<lparr>deliveries := upd ?P ?f (deliveries d)\<rparr>"
  have "\<exists>r d'. CancelDelivery now did d = Inr (r, d') \<and> d_state r = Cancelled \<and>
      readDelivery d' did = Some r \<and> CancelDelivery later did d' = Inr (r, d') \<and>
      (\<forall>w\<in>set (deliveries d). w \<noteq> v \<longrightarrow> w \<in> set (deliveries d')) \<and>
      (\<forall>t. readRoundByRoot d (d_message_id v) = Some t \<and> r_status t = RPending \<longrightarrow>
         (\<exists>t'. readRound d' (r_round_id t) = Some t' \<and> r_status t' = RCancelled))"
    if st: "d_state v = Queued \<or> d_state v = Claimed"
  proof -
    have u: "updateDeliveries ?P ?f d = Inr ?d1"
      by (rule updateDeliveries_total) (auto simp: delivery_check_def unclaim_def)
    obtain d2 where b: "bridgeRoundDeliveryTerminal now did Cancelled ''cancelled_by_request'' ?d1 = Inr d2"
      using bridge_total by blast
    have rd1: "readDelivery ?d1 did = Some (?f v)"
      using assms(2) mem(2) st by (simp add: readDelivery_def readDelivery_upd unclaim_def)
    have rd: "readDelivery d2 did = Some (?f v)"
      using rd1 bridge_inv(5) [OF b] by (simp add: readDelivery_def)
    have r: "publicDelivery (?f v) = ?f v" by (simp add: publicDelivery_def unclaim_def)
    have "CancelDelivery now did d = Inr (?f v, d2)"
      using assms(2) st u b rd r by (auto simp: CancelDelivery_def)
    moreover have "CancelDelivery later did d2 = Inr (?f v, d2)"
      using rd r by (simp add: CancelDelivery_def)
    moreover have "w \<in> set (deliveries d2)" if "w \<in> set (deliveries d)" "w \<noteq> v" for w
      using that delivery_unique [OF inv that(1) mem(1)] mem(2) bridge_inv(5) [OF b]
      by (auto simp: set_upd image_iff intro!: bexI [of _ w])
    moreover have "\<exists>t'. readRound d2 (r_round_id t) = Some t' \<and> r_status t' = RCancelled"
      if "readRoundByRoot d (d_message_id v) = Some t" "r_status t = RPending" for t
      using bridge_round [OF b rd1, of t RCancelled] that inv
      by (simp add: readRoundByRoot_def unclaim_def ledger_inv_def rounds_inv_def) blast
    ultimately show ?thesis using rd by (intro exI [of _ "?f v"] exI [of _ d2]) simp
  qed
  moreover have "CancelDelivery now did d = Inl ErrConflict"
    if "d_state v \<in> {Dispatching, Delivered, Failed, Expired, OutcomeUnknown}"
    using assms(2) that by (auto simp: CancelDelivery_def)
  ultimately show ?thesis by simp
qed

theorem cancel_delivery_outcomes_witness:
  "\<exists>r d'. CancelDelivery 6 ''d1'' d5 = Inr (r, d') \<and> d_state r = Cancelled"
proof -
  have "case readDelivery d5 ''d1'' of None \<Rightarrow> False | Some v \<Rightarrow> d_state v \<in> {Queued, Claimed}" by code_simp
  then obtain v where v: "readDelivery d5 ''d1'' = Some v" "d_state v \<in> {Queued, Claimed}"
    by (auto split: option.splits)
  from cancel_delivery_outcomes [OF scenario_reachable(5) v(1), of 6 7] v(2) show ?thesis by blast
qed

end
