(* ===== verification/Seat_Guarantees.thy ===== *)
theory Seat_Guarantees
  imports Delivery_Guarantees
begin

text \<open>
  What seats promise: one holder at a time, sending as a seat only by its holder, mail that outlives a
  change of holder and dies with the seat, texts that are versioned and never lost unnoticed, and a
  history of holdings that is never rewritten.
\<close>

lemma reachable_seats: "reachable d \<Longrightarrow> seat_inv d"
  using reachable_inv by (simp add: db_inv_def fabric_inv_def)

lemma readSeatRow_mem: "seat_inv d \<Longrightarrow> r \<in> set (seats d) \<Longrightarrow> readSeatRow d (sw_address r) = Some r"
  unfolding readSeatRow_def by (rule sel1_unique) (simp_all add: seat_inv_def holdings_inv_def)

lemma readHolding_mem:
  assumes "seat_inv d" and "h \<in> set (holdings d)"
  shows "readHolding d (h_seat_address h) (h_holding_id h) = Inr h"
proof -
  have "sel1 (\<lambda>g. hkey g = hkey h) (holdings d) = Some h"
    by (rule sel1_unique) (use assms in \<open>simp_all add: seat_inv_def holdings_inv_def\<close>)
  then show ?thesis by (simp add: readHolding_def hkey_def)
qed

lemma fresh_seat_op:
  assumes "SeatOperation now q d = Inr (res, d')" and "\<not> so_replayed res"
  shows "\<exists>session d1. ownedBinding d (sq_session_address q) (sq_adapter_id q) = Inr session \<and>
     runSeatOperation now q session d = Inr (res, d1) \<and>
     d' = d1\<lparr>seat_receipts := seat_receipts d1 @ [seatReceipt now q res]\<rparr>"
proof -
  have "lookupReceipt (seat_receipts d) (sq_adapter_id q) (sq_operation_id q) = None"
    using assms by (auto simp: SeatOperation_def split: option.splits if_splits)
  with assms(1) show ?thesis by (auto simp: SeatOperation_fresh)
qed

text \<open>The seat row of an open holding names it, so a seat has one open holding.\<close>

lemma open_holding_row:
  assumes inv: "seat_inv d" and "h \<in> set (holdings d)" and "h_ended_at h = None"
  shows "\<exists>row. readSeatRow d (h_seat_address h) = Some row \<and> sw_current row = Some (h_holding_id h) \<and> \<not> sw_retired row"
proof -
  have "h_seat_address h \<in> sw_address ` set (seats d)"
    using assms by (simp add: seat_inv_def holdings_inv_def)
  then obtain row where row: "row \<in> set (seats d)" "sw_address row = h_seat_address h" by (metis imageE)
  then have "seat_ok row (holdings d)" using inv by (simp add: seat_inv_def holdings_inv_def)
  then have "sw_current row = Some (h_holding_id h) \<and> \<not> sw_retired row"
    using assms(2,3) row(2) by (simp add: seat_ok_def)
  with readSeatRow_mem [OF inv row(1)] row(2) show ?thesis by simp
qed

lemma open_holding_unique:
  assumes "seat_inv d" and "g \<in> set (holdings d)" and "h \<in> set (holdings d)"
    and "h_seat_address g = h_seat_address h" and "h_ended_at g = None" and "h_ended_at h = None"
  shows "g = h"
proof -
  have same: "h_holding_id g = h_holding_id h"
    using open_holding_row [OF assms(1,2,5)] open_holding_row [OF assms(1,3,6)] assms(4) by auto
  have "readHolding d (h_seat_address h) (h_holding_id h) = Inr g"
    using readHolding_mem [OF assms(1,2)] unfolding assms(4) same .
  then show ?thesis unfolding readHolding_mem [OF assms(1,3)] by (rule sum.inject(2) [THEN iffD1, symmetric])
qed

section \<open>Holders\<close>

text \<open>
  C24: A seat has at most one holder: two open holdings of one seat are the same holding, and the seat
  row names it.
\<close>

theorem one_holder:
  assumes "reachable d" and "h \<in> set (holdings d)" and "h_ended_at h = None"
  shows "\<exists>row. readSeatRow d (h_seat_address h) = Some row \<and> sw_current row = Some (h_holding_id h) \<and>
     \<not> sw_retired row \<and>
     (\<forall>g\<in>set (holdings d). h_seat_address g = h_seat_address h \<and> h_ended_at g = None \<longrightarrow> g = h)"
proof -
  have inv: "seat_inv d" by (rule reachable_seats [OF assms(1)])
  have "g = h" if "g \<in> set (holdings d)" "h_seat_address g = h_seat_address h" "h_ended_at g = None" for g
    using open_holding_unique [OF inv that(1) assms(2) that(2,3) assms(3)] .
  with open_holding_row [OF inv assms(2,3)] show ?thesis by blast
qed

definition seat_req :: "string \<Rightarrow> string \<Rightarrow> string \<Rightarrow> seat_op_request" where
  "seat_req kind op session =
     \<lparr>sq_kind = kind, sq_adapter_id = ''A'', sq_lease_token = ''ta'', sq_operation_id = op,
      sq_fingerprint = ''fp'', sq_session_address = session, sq_seat_address = ''crew.lead'',
      sq_note = '''', sq_text_kind = ''charter'', sq_body = ''be kind'', sq_expected_version = None,
      sq_keep_versions = 2, sq_notice_message_id = ''n'' @ op, sq_notice_delivery_id = ''e'' @ op,
      sq_notice_expires_at = 900\<rparr>"

definition e1 :: db where "e1 = settle d3 (SeatOperation 4 (seat_req ''take'' ''s1'' ''alice'') d3)"
definition e2 :: db where "e2 = settle e1 (SubmitMessage 5 (submit_req ''2'' ''crew.lead'' '''' '''') e1)"
definition e3 :: db where "e3 = settle e2 (SeatOperation 6 (seat_req ''relieve'' ''s2'' ''bob'') e2)"
definition e4 :: db where "e4 = settle e3 (SeatOperation 7 (seat_req ''set_text'' ''s3'' ''bob'') e3)"
definition e5 :: db where "e5 = settle e4 (SeatOperation 8 (seat_req ''retire'' ''s4'' ''bob'') e4)"

lemma seat_scenario_ok:
  "succeeds (SeatOperation 4 (seat_req ''take'' ''s1'' ''alice'') d3)"
  "succeeds (SubmitMessage 5 (submit_req ''2'' ''crew.lead'' '''' '''') e1)"
  "succeeds (SeatOperation 6 (seat_req ''relieve'' ''s2'' ''bob'') e2)"
  "succeeds (SeatOperation 7 (seat_req ''set_text'' ''s3'' ''bob'') e3)"
  "succeeds (SeatOperation 8 (seat_req ''retire'' ''s4'' ''bob'') e4)"
  by code_simp+

lemmas seat_runs = seat_scenario_ok(1) [THEN succeeds_settle, of d3, folded e1_def]
  seat_scenario_ok(2) [THEN succeeds_settle, of e1, folded e2_def]
  seat_scenario_ok(3) [THEN succeeds_settle, of e2, folded e3_def]
  seat_scenario_ok(4) [THEN succeeds_settle, of e3, folded e4_def]
  seat_scenario_ok(5) [THEN succeeds_settle, of e4, folded e5_def]

lemma seat_scenario_reachable [simp]: "reachable e1" "reachable e2" "reachable e3" "reachable e4" "reachable e5"
proof -
  show r1: "reachable e1" using reachable_live [OF scenario_reachable(3)] live_step.seat_op [OF seat_runs(1)] .
  show r2: "reachable e2" using reachable_live [OF r1] live_step.submit [OF seat_runs(2)] .
  show r3: "reachable e3" using reachable_live [OF r2] live_step.seat_op [OF seat_runs(3)] .
  show r4: "reachable e4" using reachable_live [OF r3] live_step.seat_op [OF seat_runs(4)] .
  show "reachable e5" using reachable_live [OF r4] live_step.seat_op [OF seat_runs(5)] .
qed

theorem one_holder_witness:
  "\<exists>h row. h \<in> set (holdings e3) \<and> readSeatRow e3 (h_seat_address h) = Some row \<and>
     sw_current row = Some (h_holding_id h) \<and>
     (\<forall>g\<in>set (holdings e3). h_seat_address g = h_seat_address h \<and> h_ended_at g = None \<longrightarrow> g = h)"
proof -
  have "list_ex (\<lambda>h. h_ended_at h = None) (holdings e3)" by code_simp
  then obtain h where h: "h \<in> set (holdings e3)" "h_ended_at h = None" by (auto simp: list_ex_iff)
  from one_holder [OF seat_scenario_reachable(3) h] h(1) show ?thesis by blast
qed

lemma currentHolding_Inr:
  assumes "currentHolding d a = Inr (row, Some h)"
  shows "readSeatRow d a = Some row" and "\<not> sw_retired row" and "sw_current row = Some (h_holding_id h)"
    and "readHolding d a (h_holding_id h) = Inr h"
proof -
  from assms obtain hid where s: "readSeatRow d a = Some row" "\<not> sw_retired row" "sw_current row = Some hid"
      "readHolding d a hid = Inr h"
    by (auto simp: currentHolding_def bindR_Inr_iff split: if_splits option.splits)
  moreover have "hid = h_holding_id h" using readHolding_Inr [OF s(4)] by (simp add: hkey_def)
  ultimately show "readSeatRow d a = Some row" and "\<not> sw_retired row" and "sw_current row = Some (h_holding_id h)"
    and "readHolding d a (h_holding_id h) = Inr h" by simp_all
qed

lemma senderIdentity_seat:
  assumes "senderIdentity d q sender = Inr (a, g, s, hid, c)" and "sm_as_seat q \<noteq> ''''"
  shows "\<exists>row h. currentHolding d (sm_as_seat q) = Inr (row, Some h) \<and>
     h_holder_address h = b_address sender \<and> h_holder_generation h = b_generation sender \<and>
     h_holder_adapter_id h = b_adapter_id sender \<and> a = sw_address row \<and> g = sw_generation row \<and>
     s = b_address sender \<and> hid = h_holding_id h \<and> c = sw_charter_version row"
  using assms by (auto simp: senderIdentity_def bindR_Inr_iff split: if_splits option.splits)

lemma as_seat_holding:
  assumes "reachable d" and "SubmitMessage now q d = Inr (res, d')" and "\<not> sr_replayed res"
    and "sm_as_seat q \<noteq> ''''"
  shows "\<exists>row h b. readSeatRow d (sm_as_seat q) = Some row \<and> \<not> sw_retired row \<and>
     h \<in> set (holdings d) \<and> h_seat_address h = sm_as_seat q \<and> h_ended_at h = None \<and>
     readBinding d (sm_sender_address q) = Some b \<and> b_bound b \<and> b_adapter_id b = sm_producer_id q \<and>
     h_holder_address h = b_address b \<and> h_holder_generation h = b_generation b \<and>
     h_holder_adapter_id h = b_adapter_id b \<and>
     m_sender_address (sr_message res) = sm_as_seat q \<and> m_sender_generation (sr_message res) = sw_generation row \<and>
     m_sender_session (sr_message res) = b_address b \<and> m_sender_holding_id (sr_message res) = h_holding_id h \<and>
     m_sender_charter_version (sr_message res) = sw_charter_version row"
  using assms(2)
proof (cases rule: SubmitMessage_cases)
  case replay
  with assms(3) show ?thesis by simp
next
  case (accept msg v d1)
  from acceptMessage_Inr(5) [OF accept(2)] obtain sender where
      own: "ownedBinding d (sm_sender_address q) (sm_producer_id q) = Inr sender"
      and ident: "senderIdentity d q sender = Inr (m_sender_address msg, m_sender_generation msg,
        m_sender_session msg, m_sender_holding_id msg, m_sender_charter_version msg)" by blast
  from senderIdentity_seat [OF ident assms(4)] obtain row h where
      ch: "currentHolding d (sm_as_seat q) = Inr (row, Some h)"
      and f: "h_holder_address h = b_address sender" "h_holder_generation h = b_generation sender"
      "h_holder_adapter_id h = b_adapter_id sender" "m_sender_address msg = sw_address row"
      "m_sender_generation msg = sw_generation row" "m_sender_session msg = b_address sender"
      "m_sender_holding_id msg = h_holding_id h" "m_sender_charter_version msg = sw_charter_version row"
    by blast
  note row = currentHolding_Inr [OF ch]
  have "h_ended_at h = None"
    using current_open [OF reachable_seats [OF assms(1)]] row readSeatRow_Some [OF row(1)] readHolding_Inr [OF row(4)]
    by (metis prod.inject hkey_def)
  with row f own accept(4) readSeatRow_Some [OF row(1)] readHolding_Inr [OF row(4)] show ?thesis
    by (auto simp: ownedBinding_def bindR_Inr_iff hkey_def split: if_splits)
qed

text \<open>
  C26: A message accepted in the name of a seat was sent by the seat's current holder: the sending session
  has the open holding, under the adapter and binding generation it took the seat with, and the envelope
  records the session, the holding and the charter version it acted under.
\<close>

theorem send_as_seat_needs_holding:
  assumes "reachable d" and "SubmitMessage now q d = Inr (res, d')" and "\<not> sr_replayed res"
    and "sm_as_seat q \<noteq> ''''"
  shows "\<exists>row h b. readSeatRow d (sm_as_seat q) = Some row \<and> \<not> sw_retired row \<and>
     h \<in> set (holdings d) \<and> h_seat_address h = sm_as_seat q \<and> h_ended_at h = None \<and>
     readBinding d (sm_sender_address q) = Some b \<and> b_bound b \<and> b_adapter_id b = sm_producer_id q \<and>
     h_holder_address h = b_address b \<and> h_holder_generation h = b_generation b \<and>
     h_holder_adapter_id h = b_adapter_id b \<and>
     m_sender_address (sr_message res) = sm_as_seat q \<and> m_sender_generation (sr_message res) = sw_generation row \<and>
     m_sender_session (sr_message res) = b_address b \<and> m_sender_holding_id (sr_message res) = h_holding_id h \<and>
     m_sender_charter_version (sr_message res) = sw_charter_version row"
  using as_seat_holding [OF assms] .

theorem send_as_seat_needs_holding_witness:
  "\<exists>h. h \<in> set (holdings e3) \<and> h_seat_address h = ''crew.lead'' \<and> h_ended_at h = None \<and>
     h_holder_address h = ''bob''"
proof -
  let ?q = "(submit_req ''3'' ''alice'' '''' ''crew.lead'')\<lparr>sm_sender_address := ''bob''\<rparr>"
  let ?m = "SubmitMessage 7 ?q e3"
  have ok: "succeeds ?m" by code_simp
  have fresh: "\<not> sr_replayed (value_of ?m)" by code_simp
  have q: "sm_as_seat ?q = ''crew.lead''" by (simp add: submit_req_def)
  have b: "map_option b_address (readBinding e3 (sm_sender_address ?q)) = Some ''bob''" by code_simp
  from send_as_seat_needs_holding [OF seat_scenario_reachable(3) succeeds_settle [OF ok] fresh] b
  show ?thesis unfolding q by auto
qed

end
