(* ===== verification/Seat_Texts.thy ===== *)
theory Seat_Texts
  imports Seat_Guarantees
begin

text \<open>
  Charter and handoff texts of a seat: what is set is what is read back, a version number is never issued
  twice, two writers that read the same version cannot both win, and a version dropped by retention is
  told apart from one that never existed.
\<close>

section \<open>Setting a text\<close>

lemma fold_max_le: "a \<le> b \<Longrightarrow> (\<And>x. x \<in> set xs \<Longrightarrow> x \<le> b) \<Longrightarrow> fold max xs a \<le> (b::int)"
  by (induction xs arbitrary: a) auto

lemma set_text_run:
  assumes "SeatOperation now q d = Inr (res, d')" and "\<not> so_replayed res" and "sq_kind q = ''set_text''"
  obtains session d1 where "setText now q session d = Inr (res, d1)" "b_address session = sq_session_address q"
    "d' = d1\<lparr>seat_receipts := seat_receipts d1 @ [seatReceipt now q res]\<rparr>"
proof -
  from fresh_seat_op [OF assms(1,2)] obtain session d1 where
      s: "ownedBinding d (sq_session_address q) (sq_adapter_id q) = Inr session"
      "runSeatOperation now q session d = Inr (res, d1)"
      "d' = d1\<lparr>seat_receipts := seat_receipts d1 @ [seatReceipt now q res]\<rparr>" by blast
  moreover have "b_address session = sq_session_address q"
    using s(1)
    by (auto simp: ownedBinding_def bindR_Inr_iff readBinding_def scanBinding_def split: if_splits dest: sel1_SomeD)
  ultimately show thesis using assms(3) by (intro that) (simp_all add: runSeatOperation_def)
qed

lemma notice_seat_tables:
  assumes "seatNotice now q recipient operationID body d = Inr (mid, d')"
  shows "texts d' = texts d \<and> seats d' = seats d \<and> holdings d' = holdings d \<and>
    (\<exists>new. deliveries d' = deliveries d @ new)"
  using assms unfolding seatNotice_def Let_def
  by (auto simp: bindR_Inr_iff split: option.splits if_splits dest!: insertMessage_Inr(1) insertDelivery_Inr(2))

text \<open>
  The tables after a text change: the new row, numbered above every stored version, is appended, the seat
  row names it, and pruning has dropped the rows \<open>keep\<close> or more versions older.
\<close>

definition text_after :: "db \<Rightarrow> seat_op_request \<Rightarrow> seat_row \<Rightarrow> seat_text_row \<Rightarrow> db \<Rightarrow> bool" where
  "text_after d q row t d' =
     (tkey t = (sq_seat_address q, sq_text_kind q, issuedVersion d (sq_seat_address q) (sq_text_kind q) + 1) \<and>
      tw_body t = sq_body q \<and> tw_set_by_address t = sq_session_address q \<and> tw_kind t \<in> text_kinds \<and>
      texts d' = filter (\<lambda>u. \<not> (sq_keep_versions q > 0 \<and> tw_seat_address u = sq_seat_address q
           \<and> tw_kind u = sq_text_kind q \<and> tw_version u \<le> tw_version t - sq_keep_versions q)) (texts d @ [t]) \<and>
      readSeatRow d' (sq_seat_address q) = Some row \<and> textVersion row (sq_text_kind q) = tw_version t \<and> \<not> sw_retired row)"

lemma recordVersion_simps [simp]:
  "sw_address (recordVersion now k v r) = sw_address r"
  "sw_retired (recordVersion now k v r) = sw_retired r"
  "k \<in> text_kinds \<Longrightarrow> textVersion (recordVersion now k v r) k = v"
  by (auto simp: recordVersion_def textVersion_def text_kinds_def)

lemma set_text_spec:
  assumes "reachable d" and "SeatOperation now q d = Inr (res, d')" and "\<not> so_replayed res"
    and "sq_kind q = ''set_text''"
  obtains row0 row t where "text_after d q row t d'" "so_text res = Some (scanSeatText t True)"
    "sq_expected_version q = None \<or> sq_expected_version q = Some (textVersion row0 (sq_text_kind q))"
    "version_ok row0 (sq_text_kind q) (texts d)" "sw_address row0 = sq_seat_address q"
proof -
  let ?a = "sq_seat_address q" and ?k = "sq_text_kind q"
  from set_text_run [OF assms(2-4)] obtain session e where run: "setText now q session d = Inr (res, e)"
    and b: "b_address session = sq_session_address q" and d': "d' = e\<lparr>seat_receipts := seat_receipts e @ [seatReceipt now q res]\<rparr>"
    by blast
  from run obtain row d1 v d2 d3 d4 tt where s: "openSeat now q d = Inr (row, d1)"
    "sq_expected_version q = None \<or> sq_expected_version q = Some (textVersion row ?k)"
    "v = issuedVersion d1 (sw_address row) ?k + 1" "insertText (textRow now q session row v d1) d1 = Inr d2"
    "updateSeats (\<lambda>r. sw_address r = sw_address row) (recordVersion now ?k v) d2 = Inr d3"
    "d4 = pruneTexts q row v d3" "readSeatText d4 (sw_address row) ?k v = Some tt" "so_text res = Some tt"
    "e = d4 \<or> (\<exists>a op body mid. seatNotice now q a op body d4 = Inr (mid, e))" by (rule setText_Inr)
  have inv: "fabric_inv d" using reachable_inv [OF assms(1)] by (simp add: db_inv_def)
  note o = openSeat_step [OF s(1) inv]
  let ?t = "textRow now q session row v d1"
  have t1: "texts d1 = texts d" using s(1) by (cases rule: openSeat_cases) simp_all
  have kind: "?k \<in> text_kinds" using insertText_Inr(2) [OF s(4)] by (simp add: textRow_def)
  have d3: "d3 = d1\<lparr>texts := texts d @ [?t], seats := upd (\<lambda>r. sw_address r = ?a) (recordVersion now ?k v) (seats d1)\<rparr>"
    using updateSeats_Inr [OF s(5)] insertText_Inr(1) [OF s(4)] o t1 by simp
  have same: "texts d' = texts d4 \<and> seats d' = seats d4" using s(9) notice_seat_tables d' by auto
  have row': "readSeatRow d' ?a = Some (recordVersion now ?k v row)"
    using o same s(6) unfolding d3 pruneTexts_def by (simp add: readSeatRow_def seat_unchanged)
  have after: "text_after d q (recordVersion now ?k v row) ?t d'"
    using o s(3) t1 b kind same row' s(6) unfolding text_after_def d3 pruneTexts_def
    by (simp add: tkey_def textRow_def issuedVersion_def)
  have "tt = scanSeatText ?t True"
  proof -
    from s(7) obtain u where u: "u \<in> set (texts d4)" "tkey u = tkey ?t" "tt = scanSeatText u True"
      by (auto simp: readSeatText_def tkey_def textRow_def dest!: sel1_SomeD)
    moreover have "u \<notin> set (texts d)"
      using u(2) issuedVersion_bounds(2) [of u d "tw_seat_address u" "tw_kind u"] s(3) t1
      by (auto simp: tkey_def textRow_def issuedVersion_def)
    moreover have "set (texts d4) \<subseteq> set (texts d @ [?t])"
      using s(6) unfolding d3 pruneTexts_def by auto
    ultimately show ?thesis by auto
  qed
  moreover have "version_ok row ?k (texts d)"
    using o kind t1 by (auto simp: fabric_inv_def seat_inv_def texts_inv_def)
  ultimately show thesis using that after s(2,8) o by blast
qed

lemma text_after_read:
  assumes "text_after d q row t d'" and "seat_inv d'"
  shows "readSeatText d' (sq_seat_address q) (sq_text_kind q) (tw_version t) = Some (scanSeatText t True)"
    and "issuedVersion d' (sq_seat_address q) (sq_text_kind q) = tw_version t"
proof -
  let ?a = "sq_seat_address q" and ?k = "sq_text_kind q"
  have t: "t \<in> set (texts d')" using assms(1) by (auto simp: text_after_def tkey_def)
  have "sel1 (\<lambda>u. tkey u = tkey t) (texts d') = Some t"
    by (rule sel1_unique) (use assms(2) t in \<open>simp_all add: seat_inv_def texts_inv_def\<close>)
  then show "readSeatText d' ?a ?k (tw_version t) = Some (scanSeatText t True)"
    using assms(1) by (simp add: readSeatText_def text_after_def tkey_def)
  show "issuedVersion d' ?a ?k = tw_version t"
  proof (rule antisym)
    show "tw_version t \<le> issuedVersion d' ?a ?k"
      using issuedVersion_bounds(2) [OF t] assms(1) by (auto simp: text_after_def tkey_def)
    show "issuedVersion d' ?a ?k \<le> tw_version t"
      unfolding issuedVersion_def
    proof (rule fold_max_le)
      show "0 \<le> tw_version t" using assms(1) issuedVersion_bounds(1) [of d ?a ?k] by (auto simp: text_after_def tkey_def)
      fix x assume "x \<in> set (map tw_version (sel (\<lambda>u. tw_seat_address u = ?a \<and> tw_kind u = ?k) (texts d')))"
      then obtain u where u: "u \<in> set (texts d')" "tw_seat_address u = ?a" "tw_kind u = ?k" "x = tw_version u" by auto
      then have "u = t \<or> u \<in> set (texts d)" using assms(1) by (auto simp: text_after_def)
      then show "x \<le> tw_version t"
        using u issuedVersion_bounds(2) [of u d ?a ?k] assms(1) by (auto simp: text_after_def tkey_def)
    qed
  qed
qed

lemma text_after_other:
  assumes "text_after d q row t d'" and "v \<noteq> tw_version t" and "sq_keep_versions q > 0"
  shows "readSeatText d' (sq_seat_address q) (sq_text_kind q) v =
    (if v \<le> tw_version t - sq_keep_versions q then None
     else readSeatText d (sq_seat_address q) (sq_text_kind q) v)"
proof -
  let ?P = "\<lambda>r. tw_seat_address r = sq_seat_address q \<and> tw_kind r = sq_text_kind q \<and> tw_version r = v"
  let ?K = "\<lambda>u. \<not> (sq_keep_versions q > 0 \<and> tw_seat_address u = sq_seat_address q
           \<and> tw_kind u = sq_text_kind q \<and> tw_version u \<le> tw_version t - sq_keep_versions q)"
  have new: "sel1 ?P (T @ [t]) = sel1 ?P T" for T
    using assms(2) by (simp add: sel1_append split: option.splits)
  have old: "sel1 ?P (filter ?K T) = (if v \<le> tw_version t - sq_keep_versions q then None else sel1 ?P T)" for T
    using assms(3) by (induction T) auto
  have all: "texts d' = filter ?K (texts d @ [t])" using assms(1) unfolding text_after_def by blast
  show ?thesis unfolding readSeatText_def all old new by simp
qed

lemma text_unissued:
  assumes "seat_inv d" and "v < 0 \<or> issuedVersion d a k < v"
  shows "readSeatText d a k v = None"
proof -
  have "tw_version u \<noteq> v" if "u \<in> set (texts d)" "tw_seat_address u = a" "tw_kind u = k" for u
    using that assms issuedVersion_bounds(2) [OF that] by (auto simp: seat_inv_def texts_inv_def)
  then show ?thesis by (auto simp: readSeatText_def sel1_None_iff)
qed

text \<open>
  A text that was set is the text that is read: after \<^verbatim>\<open>set_text\<close> the current version of the seat's
  text has the body and author of the request, is the one the operation returned, and carries a number
  above every version stored before.
\<close>

theorem set_text_roundtrip:
  assumes "reachable d" and "SeatOperation now q d = Inr (res, d')" and "\<not> so_replayed res"
    and "sq_kind q = ''set_text''"
  shows "\<exists>t. GetSeatText (sq_seat_address q) (sq_text_kind q) 0 d' = Inr t \<and> so_text res = Some t \<and>
     st_body t = sq_body q \<and> st_set_by_address t = sq_session_address q \<and>
     GetSeatText (sq_seat_address q) (sq_text_kind q) (st_version t) d' = Inr t \<and>
     (\<forall>old\<in>set (texts d). tw_seat_address old = sq_seat_address q \<and> tw_kind old = sq_text_kind q \<longrightarrow>
        tw_version old < st_version t)"
proof -
  from set_text_spec [OF assms] obtain row t where after: "text_after d q row t d'"
    and res: "so_text res = Some (scanSeatText t True)" by metis
  have inv: "seat_inv d'"
    using reachable_seats reachable_live [OF assms(1) live_step.seat_op [OF assms(2)]] by blast
  note rd = text_after_read [OF after inv]
  have pos: "tw_version t \<noteq> 0"
    using after issuedVersion_bounds(1) [of d "sq_seat_address q" "sq_text_kind q"]
    by (auto simp: text_after_def tkey_def)
  have "GetSeatText (sq_seat_address q) (sq_text_kind q) v d' = Inr (scanSeatText t True)"
    if "v = 0 \<or> v = tw_version t" for v
    using that after rd(1) pos by (auto simp: GetSeatText_def text_after_def)
  moreover have "tw_version old < tw_version t"
    if "old \<in> set (texts d)" "tw_seat_address old = sq_seat_address q" "tw_kind old = sq_text_kind q" for old
    using issuedVersion_bounds(2) [OF that] after by (auto simp: text_after_def tkey_def)
  ultimately show ?thesis
    using res after by (intro exI [of _ "scanSeatText t True"]) (simp add: scanSeatText_def text_after_def)
qed

lemma seat_fresh4:
  "\<not> so_replayed (value_of (SeatOperation 7 (seat_req ''set_text'' ''s3'' ''bob'') e3))"
  by code_simp

theorem set_text_roundtrip_witness:
  "\<exists>t. GetSeatText ''crew.lead'' ''charter'' 0 e4 = Inr t \<and> st_body t = ''be kind''"
proof -
  have f: "sq_kind (seat_req ''set_text'' ''s3'' ''bob'') = ''set_text''"
    "sq_seat_address (seat_req ''set_text'' ''s3'' ''bob'') = ''crew.lead''"
    "sq_text_kind (seat_req ''set_text'' ''s3'' ''bob'') = ''charter''"
    "sq_body (seat_req ''set_text'' ''s3'' ''bob'') = ''be kind''"
    by (simp_all add: seat_req_def)
  from set_text_roundtrip [OF seat_scenario_reachable(3) seat_runs(4) seat_fresh4 f(1)] f
  show ?thesis by auto
qed

text \<open>
  Two writers that read the same version of a text cannot both succeed: once a \<^verbatim>\<open>set_text\<close> that
  expected version \<open>v\<close> has committed, another one that expects \<open>v\<close> is refused with a version conflict
  naming the new version, and nothing is written.
\<close>

theorem second_writer_conflicts:
  assumes "reachable d" and "SeatOperation now q d = Inr (res, d')" and "\<not> so_replayed res"
    and "sq_kind q = ''set_text''" and "sq_expected_version q = Some v"
    and "sq_kind q2 = ''set_text''" and "sq_expected_version q2 = Some v"
    and "sq_seat_address q2 = sq_seat_address q" and "sq_text_kind q2 = sq_text_kind q"
    and "LookupSeatOperation (sq_adapter_id q2) (sq_operation_id q2) d' = None"
    and "currentLease d' now2 (sq_adapter_id q2) (sq_lease_token q2) = Inr lease"
    and "ownedBinding d' (sq_session_address q2) (sq_adapter_id q2) = Inr session"
  shows "\<exists>new. v < new \<and> SeatOperation now2 q2 d' = Inl (VersionConflictError new)"
proof -
  let ?k = "sq_text_kind q"
  from set_text_spec [OF assms(1-4)] obtain row0 row t where after: "text_after d q row t d'"
    and e: "sq_expected_version q = None \<or> sq_expected_version q = Some (textVersion row0 ?k)"
    and ok: "version_ok row0 ?k (texts d)" "sw_address row0 = sq_seat_address q" by metis
  have v: "v = textVersion row0 ?k" using e assms(5) by simp
  have "v \<le> issuedVersion d (sq_seat_address q) ?k"
    using ok issuedVersion_bounds(1) [of d "sq_seat_address q" ?k] issuedVersion_bounds(2) [of _ d "sq_seat_address q" ?k]
    unfolding v version_ok_def tkey_def by force
  then have less: "v < textVersion row ?k" using after by (simp add: text_after_def tkey_def)
  have "openSeat now2 q2 d' = Inr (row, d')"
    using after assms(8) by (simp add: openSeat_def text_after_def)
  then have "setText now2 q2 session d' = Inl (VersionConflictError (textVersion row ?k))"
    using assms(7,9) less by (simp add: setText_def)
  then have "SeatOperation now2 q2 d' = Inl (VersionConflictError (textVersion row ?k))"
    using assms(6,10-12) by (simp add: SeatOperation_def LookupSeatOperation_def runSeatOperation_def)
  with less show ?thesis by blast
qed

definition text_req :: "string \<Rightarrow> string \<Rightarrow> int \<Rightarrow> seat_op_request" where
  "text_req op body expected = (seat_req ''set_text'' op ''bob'')\<lparr>sq_body := body, sq_expected_version := Some expected\<rparr>"

theorem second_writer_conflicts_witness:
  "\<exists>new. 1 < new \<and> SeatOperation 9 (text_req ''s5'' ''second'' 1)
       (settle e4 (SeatOperation 8 (text_req ''s6'' ''first'' 1) e4)) = Inl (VersionConflictError new)"
proof -
  let ?q = "text_req ''s6'' ''first'' 1" and ?q2 = "text_req ''s5'' ''second'' 1"
  let ?m = "SeatOperation 8 ?q e4"
  let ?d = "settle e4 ?m"
  have ok: "succeeds ?m" by code_simp
  have fresh: "\<not> so_replayed (value_of ?m)" by code_simp
  have none: "LookupSeatOperation (sq_adapter_id ?q2) (sq_operation_id ?q2) ?d = None" by code_simp
  have "\<not> isl (currentLease ?d 9 (sq_adapter_id ?q2) (sq_lease_token ?q2))" by code_simp
  then obtain lease where l: "currentLease ?d 9 (sq_adapter_id ?q2) (sq_lease_token ?q2) = Inr lease"
    by (metis sum.collapse(2))
  have "\<not> isl (ownedBinding ?d (sq_session_address ?q2) (sq_adapter_id ?q2))" by code_simp
  then obtain b where b: "ownedBinding ?d (sq_session_address ?q2) (sq_adapter_id ?q2) = Inr b"
    by (metis sum.collapse(2))
  show ?thesis
    by (rule second_writer_conflicts [OF seat_scenario_reachable(4) succeeds_settle [OF ok] fresh _ _ _ _ _ _ none l b])
      (simp_all add: text_req_def seat_req_def)
qed

text \<open>
  What retention does to the history of a text: with \<open>keep\<close> versions kept, a version \<open>keep\<close> or more
  behind the one just set reads as pruned, a newer one that was stored reads as it did, and a number
  never issued reads as unknown.
\<close>

theorem text_retention:
  assumes "reachable d" and "SeatOperation now q d = Inr (res, d')" and "\<not> so_replayed res"
    and "sq_kind q = ''set_text''" and "so_text res = Some t" and "sq_keep_versions q > 0" and "v \<noteq> 0"
  shows "GetSeatText (sq_seat_address q) (sq_text_kind q) v d' =
     (if v < 0 \<or> st_version t < v then Inl ErrVersionNotFound
      else if v = st_version t then Inr t
      else if v \<le> st_version t - sq_keep_versions q then Inl ErrVersionPruned
      else case readSeatText d (sq_seat_address q) (sq_text_kind q) v of
             Some old \<Rightarrow> Inr old | None \<Rightarrow> Inl ErrVersionPruned)"
proof -
  let ?a = "sq_seat_address q" and ?k = "sq_text_kind q"
  from set_text_spec [OF assms(1-4)] obtain row r where after: "text_after d q row r d'"
    and res: "so_text res = Some (scanSeatText r True)" by metis
  have t: "t = scanSeatText r True" using assms(5) res by simp
  then have tv: "st_version t = tw_version r" by (simp add: scanSeatText_def)
  have inv: "seat_inv d'"
    using reachable_seats reachable_live [OF assms(1) live_step.seat_op [OF assms(2)]] by blast
  note rd = text_after_read [OF after inv]
  have get: "GetSeatText ?a ?k v d' = (case readSeatText d' ?a ?k v of Some x \<Rightarrow> Inr x
      | None \<Rightarrow> if v > 0 \<and> v \<le> tw_version r then Inl ErrVersionPruned else Inl ErrVersionNotFound)"
    using after assms(7) rd(2) by (simp add: GetSeatText_def text_after_def split: option.splits)
  have stored: "readSeatText d' ?a ?k v = (if v \<le> tw_version r - sq_keep_versions q then None
      else readSeatText d ?a ?k v)" if "v \<noteq> tw_version r"
    using text_after_other [OF after that assms(6)] .
  have none: "readSeatText d ?a ?k v = None" if "v < 0 \<or> tw_version r < v"
  proof (rule text_unissued [OF reachable_seats [OF assms(1)]])
    have "tw_version r = issuedVersion d ?a ?k + 1" using after by (simp add: text_after_def tkey_def)
    with that show "v < 0 \<or> issuedVersion d ?a ?k < v" by linarith
  qed
  show ?thesis
  proof (cases "v = tw_version r")
    case True
    have "0 < tw_version r"
      using after issuedVersion_bounds(1) [of d ?a ?k] by (simp add: text_after_def tkey_def)
    with True get rd(1) t tv show ?thesis by simp
  next
    case False
    with stored get none assms(6,7) tv show ?thesis
      by (cases "readSeatText d ?a ?k v") auto
  qed
qed

definition keep_req :: "string \<Rightarrow> string \<Rightarrow> seat_op_request" where
  "keep_req op body = (seat_req ''set_text'' op ''bob'')\<lparr>sq_body := body, sq_keep_versions := 1\<rparr>"

theorem text_retention_witness:
  "GetSeatText ''crew.lead'' ''charter'' 1 (settle e4 (SeatOperation 8 (keep_req ''s6'' ''next'') e4)) =
     Inl ErrVersionPruned"
proof -
  let ?q = "keep_req ''s6'' ''next''"
  let ?m = "SeatOperation 8 ?q e4"
  have ok: "succeeds ?m" by code_simp
  have fresh: "\<not> so_replayed (value_of ?m)" by code_simp
  have "map_option st_version (so_text (value_of ?m)) = Some 2" by code_simp
  then obtain t where t: "so_text (value_of ?m) = Some t" "st_version t = 2" by auto
  have f: "sq_kind ?q = ''set_text''" "sq_keep_versions ?q = 1" "sq_seat_address ?q = ''crew.lead''"
    "sq_text_kind ?q = ''charter''" by (simp_all add: keep_req_def seat_req_def)
  from text_retention [OF seat_scenario_reachable(4) succeeds_settle [OF ok] fresh f(1) t(1), of 1] t(2) f
  show ?thesis by simp
qed

end
