(* ===== verification/Seat_Mail.thy ===== *)
theory Seat_Mail
  imports Seat_Texts
begin

text \<open>
  Seat mail and the history of holdings: a change of holder returns claimed mail to the queue and touches
  nothing else, the relieved session can no longer act as the seat, retiring a seat fails its open mail,
  and an ended holding stays on record as it ended.
\<close>

section \<open>Changing the holder\<close>

definition released :: "string \<Rightarrow> delivery list \<Rightarrow> delivery list" where
  "released a = upd (\<lambda>v. d_recipient_address v = a \<and> d_state v = Claimed) unclaim"

lemma released_idem [simp]: "released a (released a t) = released a t"
  by (induction t) (auto simp: released_def unclaim_def)

lemma released_take: "take (length t) (released a t @ u) = released a t"
  by (simp add: released_def)

text \<open>What holds after a new holder is in place.\<close>

definition seated :: "db \<Rightarrow> seat_op_request \<Rightarrow> binding \<Rightarrow> holding option \<Rightarrow> db \<Rightarrow> bool" where
  "seated d q session hold d' =
     (\<exists>row h. hold = Some h \<and> readSeatRow d' (sq_seat_address q) = Some row \<and> \<not> sw_retired row \<and>
        sw_current row = Some (h_holding_id h) \<and> h \<in> set (holdings d') \<and>
        h_seat_address h = sq_seat_address q \<and> h_ended_at h = None \<and>
        h_holder_address h = b_address session \<and> h_holder_adapter_id h = b_adapter_id session \<and>
        h_holder_generation h = b_generation session \<and>
        (\<exists>new. deliveries d' = released (sq_seat_address q) (deliveries d) @ new))"

lemma startHolding_seated:
  assumes s: "startHolding now q session row d = Inr (h, d')" and inv: "fabric_inv d'"
    and row: "readSeatRow d (sq_seat_address q) = Some r0" "\<not> sw_retired r0" "sw_address row = sq_seat_address q"
  shows "seated d q session (Some h) d'"
proof -
  note st = startHolding_Inr [OF s]
  have "newHolding now q session row \<in> set (holdings d')" unfolding st(1) by simp
  then have "readHolding d' (sw_address row) (sw_last_holding row + 1) = Inr (newHolding now q session row)"
    using readHolding_mem [of d' "newHolding now q session row"] inv by (simp add: fabric_inv_def newHolding_def)
  with st(2) have h: "h = newHolding now q session row" by simp
  have "deliveries d' = released (sq_seat_address q) (deliveries d) @ []"
    unfolding st(1) using row(3) by (simp add: released_def)
  moreover have "readSeatRow d' (sq_seat_address q) = Some (r0\<lparr>sw_current := Some (sw_last_holding row + 1),
      sw_last_holding := sw_last_holding row + 1, sw_updated_at := now\<rparr>)"
    unfolding st(1) using row readSeatRow_Some [OF row(1)] by (simp add: readSeatRow_def seat_unchanged)
  moreover have "h \<in> set (holdings d')" unfolding st(1) h by simp
  ultimately show ?thesis
    unfolding seated_def using row h by (fastforce simp: newHolding_def)
qed

lemma readBinding_address: "readBinding d a = Some b \<Longrightarrow> b_address b = a"
  by (auto simp: readBinding_def scanBinding_def dest: sel1_SomeD)

lemma seat_run:
  assumes "SeatOperation now q d = Inr (res, d')" and "\<not> so_replayed res"
  obtains session d1 where "runSeatOperation now q session d = Inr (res, d1)"
    "readBinding d (sq_session_address q) = Some session" "b_bound session"
    "b_address session = sq_session_address q" "b_adapter_id session = sq_adapter_id q"
    "d' = d1\<lparr>seat_receipts := seat_receipts d1 @ [seatReceipt now q res]\<rparr>"
proof -
  from fresh_seat_op [OF assms] obtain session d1 where
      s: "ownedBinding d (sq_session_address q) (sq_adapter_id q) = Inr session"
      "runSeatOperation now q session d = Inr (res, d1)"
      "d' = d1\<lparr>seat_receipts := seat_receipts d1 @ [seatReceipt now q res]\<rparr>" by blast
  from s(1) have b: "readBinding d (sq_session_address q) = Some session" "b_bound session"
    "b_adapter_id session = sq_adapter_id q"
    by (auto simp: ownedBinding_def bindR_Inr_iff split: if_splits)
  moreover from b(1) have "b_address session = sq_session_address q" by (rule readBinding_address)
  ultimately show thesis using s by (intro that)
qed

lemma seatResult_holding:
  "seatResult now q hold previous d = Inr res \<Longrightarrow> so_holding res = hold \<and> so_previous_holding res = previous"
  by (auto simp: seatResult_def bindR_Inr_iff)

lemma take_seated:
  assumes "take_seat now q session d = Inr (res, d')" and inv: "fabric_inv d"
  shows "seated d q session (so_holding res) d' \<and>
     (\<forall>row. readSeatRow d (sq_seat_address q) = Some row \<longrightarrow> sw_current row = None)"
proof -
  from assms(1) obtain row d1 h previous where op: "openSeat now q d = Inr (row, d1)"
    and free: "sw_current row = None" and st: "startHolding now q session row d1 = Inr (h, d')"
    and res: "seatResult now q (Some h) previous d' = Inr res"
    unfolding take_seat_def by (auto simp: bindR_Inr_iff split: if_splits)
  note o = openSeat_step [OF op inv] and inv' = take_seat_step [OF assms]
  have same: "deliveries d1 = deliveries d" using op by (cases rule: openSeat_cases) simp_all
  have vacant: "sw_current r = None" if "readSeatRow d (sq_seat_address q) = Some r" for r
    using op that free by (cases rule: openSeat_cases) auto
  have "seated d1 q session (Some h) d'" using startHolding_seated [OF st] o inv' by blast
  with same vacant seatResult_holding [OF res] show ?thesis by (simp add: seated_def)
qed

lemma relieve_seated:
  assumes "relieve now q session d = Inr (res, d')" and inv: "fabric_inv d"
  obtains row hid old ended where "readSeatRow d (sq_seat_address q) = Some row" "sw_current row = Some hid"
    "readHolding d (sq_seat_address q) hid = Inr old" "h_holder_address old \<noteq> b_address session"
    "ended = old\<lparr>h_ended_at := Some now, h_end_reason := HoldingRelieved, h_end_note := '''',
                 h_relieved_by := sw_last_holding row + 1\<rparr>"
    "so_previous_holding res = Some ended" "ended \<in> set (holdings d')"
    "seated d q session (so_holding res) d'"
    "map_option h_holding_id (so_holding res) = Some (sw_last_holding row + 1)"
proof -
  let ?a = "sq_seat_address q"
  from assms(1) obtain row hid old ended d1 h d2 r mid op body where
      rd: "readSeatRow d ?a = Some row" and cur: "sw_current row = Some hid"
    and rh: "readHolding d (sw_address row) hid = Inr old" and other: "h_holder_address old \<noteq> b_address session"
    and e: "endHolding now row HoldingRelieved '''' (sw_last_holding row + 1) d = Inr (ended, d1)"
    and s: "startHolding now q session (row\<lparr>sw_current := None\<rparr>) d1 = Inr (h, d2)"
    and v: "seatResult now q (Some h) (Some ended) d2 = Inr r"
    and n: "seatNotice now q (h_holder_address ended) op body d2 = Inr (mid, d')"
    and res: "res = r\<lparr>so_notice_message_id := mid\<rparr>"
    unfolding relieve_def existingSeat_def by (auto simp: bindR_Inr_iff split: option.splits if_splits)
  have row: "row \<in> set (seats d)" "sw_address row = ?a" using readSeatRow_Some [OF rd] by blast+
  have live: "\<not> sw_retired row"
    using inv cur row by (auto simp: fabric_inv_def seat_inv_def holdings_inv_def seat_ok_def)
  note e1 = endHolding_step [OF e inv row(1) cur] and eq = endHolding_Inr [OF e]
  let ?past = "old\<lparr>h_ended_at := Some now, h_end_reason := HoldingRelieved, h_end_note := '''',
                 h_relieved_by := sw_last_holding row + 1\<rparr>"
  let ?r = "row\<lparr>sw_current := None, sw_updated_at := now\<rparr>"
  have old: "old \<in> set (holdings d)" "hkey old = (?a, hid)" using readHolding_Inr [OF rh] row(2) by simp_all
  have "h_ended_at old = None" using current_open [of d row hid old] inv row(1,2) cur old by (simp add: fabric_inv_def)
  then have mem: "?past \<in> set (holdings d1)"
    unfolding eq(1) using old cur row(2)
    by (auto simp: set_upd image_iff hkey_def currentID_def intro!: bexI [of _ old])
  have end_read: "readHolding d1 ?a hid = Inr ?past"
    using readHolding_mem [of d1 ?past] mem e1 old(2) by (simp add: fabric_inv_def hkey_def)
  then have ended: "ended = ?past" using eq(2) cur row(2) by (simp add: currentID_def)
  have rd1: "readSeatRow d1 ?a = Some ?r" unfolding eq(1) using rd row(2) by (simp add: readSeatRow_def seat_unchanged)
  have "?r \<in> set (seats d1)" using readSeatRow_Some [OF rd1] by blast
  then have s1: "fabric_inv d2" using e1 live startHolding_step [OF s, of ?r] by simp
  have "seated d1 q session (Some h) d2"
    using startHolding_seated [OF s s1 rd1] live row(2) by simp
  moreover have "deliveries d1 = released ?a (deliveries d)" unfolding eq(1) using row(2) by (simp add: released_def)
  ultimately have "seated d q session (Some h) d2" by (simp add: seated_def)
  then have fin: "seated d q session (so_holding res) d'"
    using notice_seat_tables [OF n] seatResult_holding [OF v] res unfolding seated_def readSeatRow_def by auto
  have "ended \<in> set (holdings d')"
    using mem ended startHolding_Inr(1) [OF s] notice_seat_tables [OF n] by simp
  moreover have "h_holding_id h = sw_last_holding row + 1"
    using readHolding_Inr [OF startHolding_Inr(2) [OF s]] by (simp add: hkey_def)
  ultimately show thesis
    using that rd cur rh other ended fin row(2) seatResult_holding [OF v] res by simp
qed

lemma leave_keeps:
  assumes "leave now q session d = Inr (res, d')"
  shows "deliveries d' = released (sq_seat_address q) (deliveries d) \<and>
     map_option sw_generation (readSeatRow d' (sq_seat_address q)) =
       map_option sw_generation (readSeatRow d (sq_seat_address q))"
proof -
  from assms obtain row reason nt ended where rd: "readSeatRow d (sq_seat_address q) = Some row"
    and e: "endHolding now row reason nt 0 d = Inr (ended, d')"
    unfolding leave_def existingSeat_def Let_def by (auto simp: bindR_Inr_iff split: option.splits if_splits)
  show ?thesis
    unfolding endHolding_Inr(1) [OF e] using readSeatRow_Some [OF rd] rd
    by (simp add: released_def readSeatRow_def seat_unchanged)
qed

text \<open>
  Mail survives a change of holder. Taking, leaving and relieving a seat change no delivery but the
  seat's claimed ones, which return to the queue in their place; the deliveries keep their order, and
  anything added is at the end.
\<close>

theorem holder_change_keeps_mail:
  assumes "reachable d" and "SeatOperation now q d = Inr (res, d')" and "\<not> so_replayed res"
    and "sq_kind q \<in> {''take'', ''leave'', ''relieve''}"
  shows "take (length (deliveries d)) (deliveries d') =
     map (\<lambda>v. if d_recipient_address v = sq_seat_address q \<and> d_state v = Claimed then unclaim v else v)
       (deliveries d)"
proof -
  have inv: "fabric_inv d" using reachable_inv [OF assms(1)] by (simp add: db_inv_def)
  from seat_run [OF assms(2,3)] obtain session d1 where run: "runSeatOperation now q session d = Inr (res, d1)"
    and "d' = d1\<lparr>seat_receipts := seat_receipts d1 @ [seatReceipt now q res]\<rparr>" by metis
  then have d': "deliveries d' = deliveries d1" by simp
  consider "take_seat now q session d = Inr (res, d1)" | "leave now q session d = Inr (res, d1)"
    | "relieve now q session d = Inr (res, d1)"
    using run assms(4) by (auto simp: runSeatOperation_def)
  then have "\<exists>new. deliveries d1 = released (sq_seat_address q) (deliveries d) @ new"
  proof cases
    case 1
    from take_seated [OF 1 inv] show ?thesis by (auto simp: seated_def)
  next
    case 2
    from leave_keeps [OF 2] show ?thesis by auto
  next
    case 3
    from relieve_seated [OF 3 inv] show ?thesis by (auto simp: seated_def)
  qed
  then show ?thesis using released_take d' by (auto simp: released_def upd_def)
qed

lemma relief_fresh: "\<not> so_replayed (value_of (SeatOperation 6 (seat_req ''relieve'' ''s2'' ''bob'') e2))"
  by code_simp

theorem holder_change_keeps_mail_witness:
  "take (length (deliveries e2)) (deliveries e3) =
     map (\<lambda>v. if d_recipient_address v = ''crew.lead'' \<and> d_state v = Claimed then unclaim v else v)
       (deliveries e2)"
proof -
  have f: "sq_kind (seat_req ''relieve'' ''s2'' ''bob'') \<in> {''take'', ''leave'', ''relieve''}"
    "sq_seat_address (seat_req ''relieve'' ''s2'' ''bob'') = ''crew.lead''"
    by (simp_all add: seat_req_def)
  from holder_change_keeps_mail [OF seat_scenario_reachable(2) seat_runs(3) relief_fresh f(1)] f(2)
  show ?thesis by simp
qed

text \<open>
  C25: Relief. The session that relieves becomes the holder under its current binding, the previous holding
  is closed as relieved by it, and in the resulting database no submission of the previous holder in
  the seat's name is accepted.
\<close>

theorem relief_replaces_holder:
  assumes "reachable d" and "SeatOperation now q d = Inr (res, d')" and "\<not> so_replayed res"
    and "sq_kind q = ''relieve''"
  shows "\<exists>old h. so_previous_holding res = Some old \<and> old \<in> set (holdings d') \<and>
     h_end_reason old = HoldingRelieved \<and> h_relieved_by old = h_holding_id h \<and> h_ended_at old = Some now \<and>
     so_holding res = Some h \<and> h \<in> set (holdings d') \<and> h_ended_at h = None \<and>
     h_holder_address h = sq_session_address q \<and> h_holder_address old \<noteq> sq_session_address q \<and>
     (\<forall>time sq sr d''. sm_as_seat sq = sq_seat_address q \<and> sq_seat_address q \<noteq> '''' \<and>
        sm_sender_address sq = h_holder_address old \<and>
        SubmitMessage time sq d' = Inr (sr, d'') \<longrightarrow> sr_replayed sr)"
proof -
  let ?a = "sq_seat_address q"
  have inv: "fabric_inv d" using reachable_inv [OF assms(1)] by (simp add: db_inv_def)
  have r': "reachable d'" using reachable_live [OF assms(1) live_step.seat_op [OF assms(2)]] .
  from seat_run [OF assms(2,3)] obtain session d1 where run: "runSeatOperation now q session d = Inr (res, d1)"
    and b: "b_address session = sq_session_address q"
    and d': "d' = d1\<lparr>seat_receipts := seat_receipts d1 @ [seatReceipt now q res]\<rparr>" by blast
  have rel: "relieve now q session d = Inr (res, d1)" using run assms(4) by (simp add: runSeatOperation_def)
  obtain row hid old ended where "readSeatRow d ?a = Some row" "sw_current row = Some hid"
    "readHolding d ?a hid = Inr old" and other: "h_holder_address old \<noteq> b_address session"
    and e: "ended = old\<lparr>h_ended_at := Some now, h_end_reason := HoldingRelieved, h_end_note := '''',
                 h_relieved_by := sw_last_holding row + 1\<rparr>"
      "so_previous_holding res = Some ended" "ended \<in> set (holdings d1)"
    and st: "seated d q session (so_holding res) d1"
    and hid: "map_option h_holding_id (so_holding res) = Some (sw_last_holding row + 1)"
    by (rule relieve_seated [OF rel inv])
  from st obtain row' h where h: "so_holding res = Some h" "h \<in> set (holdings d1)" "h_seat_address h = ?a"
      "h_ended_at h = None" "h_holder_address h = b_address session" by (auto simp: seated_def)
  have refused: "sr_replayed sr" if "sm_as_seat sq = ?a" "?a \<noteq> ''''" "sm_sender_address sq = h_holder_address old"
    "SubmitMessage time sq d' = Inr (sr, d'')" for time sq sr d''
  proof (rule ccontr)
    assume "\<not> sr_replayed sr"
    from as_seat_holding [OF r' that(4) this] that(1,2) obtain g where
        "g \<in> set (holdings d')" "h_seat_address g = ?a" "h_ended_at g = None"
        "h_holder_address g = sm_sender_address sq" using readBinding_address by metis
    moreover have "g = h" if "g \<in> set (holdings d')" "h_seat_address g = ?a" "h_ended_at g = None" for g
      using open_holding_unique [OF reachable_seats [OF r'] that(1)] that h d' by simp
    ultimately show False using h(5) other that(3) by metis
  qed
  have sent: "\<forall>time sq sr d''. sm_as_seat sq = ?a \<and> ?a \<noteq> '''' \<and> sm_sender_address sq = h_holder_address old \<and>
      SubmitMessage time sq d' = Inr (sr, d'') \<longrightarrow> sr_replayed sr"
    using refused by blast
  show ?thesis
    by (rule exI [of _ ended], rule exI [of _ h]) (use e h hid other b d' sent in simp)
qed

theorem relief_replaces_holder_witness:
  "\<exists>(old::holding) h. h_end_reason old = HoldingRelieved \<and> h_relieved_by old = h_holding_id h \<and>
     h \<in> set (holdings e3) \<and> h_holder_address h = ''bob''"
proof -
  have f: "sq_kind (seat_req ''relieve'' ''s2'' ''bob'') = ''relieve''"
    "sq_session_address (seat_req ''relieve'' ''s2'' ''bob'') = ''bob''" by (simp_all add: seat_req_def)
  from relief_replaces_holder [OF seat_scenario_reachable(2) seat_runs(3) relief_fresh f(1), unfolded f(2)]
  show ?thesis by (elim exE conjE) (intro exI conjI; assumption)
qed

section \<open>Retiring and reopening a seat\<close>

lemma terminalize_seat_tables:
  assumes "terminalize now did state reason d = Inr d'"
  shows "seats d' = seats d \<and> holdings d' = holdings d"
proof -
  from assms obtain d1 where u: "updateDeliveries (\<lambda>r. d_delivery_id r = did)
        (\<lambda>r. r\<lparr>d_state := state, d_terminal_reason := reason, d_terminal_at := Some now\<rparr>) d = Inr d1"
    and b: "bridgeRoundDeliveryTerminal now did state reason d1 = Inr d'"
    by (auto simp: terminalize_def bindR_Inr_iff)
  from bridge_inv(3) [OF b] updateDeliveries_Inr(1) [OF u] show ?thesis by (simp add: same_rest_def)
qed

lemma failMail_effect:
  assumes "failMail now ids d = Inr d'" and "distinct ids"
  shows "deliveries d' = upd (\<lambda>v. d_delivery_id v \<in> set ids)
      (\<lambda>v. v\<lparr>d_state := Failed, d_terminal_reason := ''seat_retired'', d_terminal_at := Some now\<rparr>) (deliveries d) \<and>
    seats d' = seats d \<and> holdings d' = holdings d"
  using assms
proof (induction now ids d rule: failMail.induct)
  case (1 now d)
  then show ?case by (simp add: upd_def)
next
  case (2 now did ids d)
  then obtain d1 where t: "terminalize now did Failed ''seat_retired'' d = Inr d1"
    and rest: "failMail now ids d1 = Inr d'" by (auto simp: bindR_Inr_iff)
  from "2.IH" [OF t rest] "2.prems"(2) terminalize_seat_tables [OF t] show ?case
    unfolding terminalize_deliveries [OF t] by (auto simp: upd_def)
qed

text \<open>How one delivery leaves the retirement of the seat \<open>a\<close>.\<close>

definition retired_mail :: "time \<Rightarrow> string \<Rightarrow> delivery \<Rightarrow> delivery \<Rightarrow> bool" where
  "retired_mail now a v v' =
     (if d_recipient_address v = a \<and> d_state v \<in> {Queued, Claimed}
      then d_delivery_id v' = d_delivery_id v \<and> d_message_id v' = d_message_id v \<and>
           d_recipient_address v' = a \<and> d_state v' = Failed \<and> d_terminal_reason v' = ''seat_retired'' \<and>
           d_terminal_at v' = Some now
      else v' = v)"

lemma retired_mailI:
  assumes "m = map (\<lambda>v. if d_recipient_address v = a \<and> (d_state v = Queued \<or> d_state v = Claimed)
      then v\<lparr>d_state := Failed, d_terminal_reason := ''seat_retired'', d_terminal_at := Some now\<rparr> else v) t'"
    and "t' = t \<or> t' = released a t"
  shows "list_all2 (retired_mail now a) t m"
  using assms by (auto simp: list.rel_map retired_mail_def released_def upd_def unclaim_def intro!: list.rel_refl)

lemma retire_effect:
  assumes "retire now q session d = Inr (res, d')" and inv: "fabric_inv d"
  shows "\<exists>row row'. readSeatRow d (sq_seat_address q) = Some row \<and> \<not> sw_retired row \<and>
     readSeatRow d' (sq_seat_address q) = Some row' \<and> sw_retired row' \<and> sw_current row' = None \<and>
     sw_generation row' = sw_generation row \<and>
     list_all2 (retired_mail now (sq_seat_address q)) (deliveries d) (deliveries d')"
proof -
  let ?a = "sq_seat_address q"
  let ?f = "\<lambda>r. r\<lparr>sw_retired := True, sw_current := None, sw_updated_at := now\<rparr>"
  let ?open = "\<lambda>v. d_recipient_address v = ?a \<and> (d_state v = Queued \<or> d_state v = Claimed)"
  from assms(1) obtain row d1 d2 ended where rd: "readSeatRow d ?a = Some row" and live: "\<not> sw_retired row"
    and c: "(case sw_current row of None \<Rightarrow> Inr (None, d)
            | Some _ \<Rightarrow> bindR (endHolding now row HoldingRetired (sq_note q) 0 d) (\<lambda>(h, d1). Inr (Some h, d1)))
            = Inr (ended, d1)"
    and u: "updateSeats (\<lambda>r. sw_address r = sw_address row) ?f d1 = Inr d2"
    and f: "failMail now (map d_delivery_id (sel (\<lambda>v. d_recipient_address v = sw_address row
              \<and> (d_state v = Queued \<or> d_state v = Claimed)) (deliveries d2))) d2 = Inr d'"
    unfolding retire_def existingSeat_def by (auto simp: bindR_Inr_iff)
  have row: "row \<in> set (seats d)" "sw_address row = ?a" using readSeatRow_Some [OF rd] by blast+
  have e: "\<exists>r1. readSeatRow d1 ?a = Some r1 \<and> sw_generation r1 = sw_generation row \<and> ledger_inv d1 \<and>
      (deliveries d1 = deliveries d \<or> deliveries d1 = released ?a (deliveries d))"
  proof (cases "sw_current row")
    case None
    with c rd inv show ?thesis by (simp add: fabric_inv_def)
  next
    case (Some hid)
    with c obtain h where h: "endHolding now row HoldingRetired (sq_note q) 0 d = Inr (h, d1)"
      by (auto simp: bindR_Inr_iff)
    from endHolding_step [OF h inv row(1) Some] have "ledger_inv d1" by (simp add: fabric_inv_def)
    moreover have "readSeatRow d1 ?a = Some (row\<lparr>sw_current := None, sw_updated_at := now\<rparr>)"
      unfolding endHolding_Inr(1) [OF h] using rd row(2) by (simp add: readSeatRow_def seat_unchanged)
    moreover have "deliveries d1 = released ?a (deliveries d)"
      unfolding endHolding_Inr(1) [OF h] using row(2) by (simp add: released_def)
    ultimately show ?thesis by simp
  qed
  then obtain r1 where r1: "readSeatRow d1 ?a = Some r1" "sw_generation r1 = sw_generation row" "ledger_inv d1"
    "deliveries d1 = deliveries d \<or> deliveries d1 = released ?a (deliveries d)" by blast
  have d2: "d2 = d1\<lparr>seats := upd (\<lambda>r. sw_address r = ?a) ?f (seats d1)\<rparr>" using updateSeats_Inr [OF u] row(2) by simp
  let ?ids = "map d_delivery_id (sel ?open (deliveries d1))"
  have "distinct ?ids"
    using r1(3) by (simp add: ledger_inv_def deliveries_inv_def sel_def distinct_map_filter)
  then have fm: "deliveries d' = upd (\<lambda>v. d_delivery_id v \<in> set ?ids)
      (\<lambda>v. v\<lparr>d_state := Failed, d_terminal_reason := ''seat_retired'', d_terminal_at := Some now\<rparr>) (deliveries d1)"
    "seats d' = seats d2"
    using failMail_effect [OF f] row(2) unfolding d2 by simp_all
  have "d_delivery_id v \<in> set ?ids \<longleftrightarrow> ?open v" if "v \<in> set (deliveries d1)" for v
  proof
    assume "d_delivery_id v \<in> set ?ids"
    then obtain w where w: "w \<in> set (deliveries d1)" "?open w" "d_delivery_id w = d_delivery_id v" by auto
    from delivery_unique [OF r1(3) w(1) that w(3)] w(2) show "?open v" by simp
  next
    assume "?open v"
    with that show "d_delivery_id v \<in> set ?ids" by simp
  qed
  then have mail: "deliveries d' = map (\<lambda>v. if ?open v
      then v\<lparr>d_state := Failed, d_terminal_reason := ''seat_retired'', d_terminal_at := Some now\<rparr> else v) (deliveries d1)"
    unfolding fm(1) upd_def by (intro map_cong) simp_all
  have "readSeatRow d' ?a = Some (?f r1)"
    unfolding readSeatRow_def fm(2) d2 using r1(1) readSeatRow_Some [OF r1(1)]
    by (simp add: readSeatRow_def seat_unchanged)
  with rd live r1(2) retired_mailI [OF mail r1(4)] show ?thesis by simp
qed

text \<open>
  Retiring a seat closes it and its mail: the seat is retired and vacant, every queued or claimed delivery
  of the seat fails with reason \<^verbatim>\<open>seat_retired\<close>, and every other delivery is untouched.
\<close>

theorem retire_fails_open_mail:
  assumes "reachable d" and "SeatOperation now q d = Inr (res, d')" and "\<not> so_replayed res"
    and "sq_kind q = ''retire''"
  shows "\<exists>row'. readSeatRow d' (sq_seat_address q) = Some row' \<and> sw_retired row' \<and> sw_current row' = None \<and>
     length (deliveries d') = length (deliveries d) \<and>
     (\<forall>i<length (deliveries d). retired_mail now (sq_seat_address q) (deliveries d ! i) (deliveries d' ! i)) \<and>
     (\<forall>v\<in>set (deliveries d'). d_recipient_address v = sq_seat_address q \<longrightarrow> d_state v \<notin> {Queued, Claimed})"
proof -
  let ?a = "sq_seat_address q"
  have inv: "fabric_inv d" using reachable_inv [OF assms(1)] by (simp add: db_inv_def)
  from seat_run [OF assms(2,3)] obtain session d1 where run: "runSeatOperation now q session d = Inr (res, d1)"
    and d': "d' = d1\<lparr>seat_receipts := seat_receipts d1 @ [seatReceipt now q res]\<rparr>" by metis
  have "retire now q session d = Inr (res, d1)" using run assms(4) by (simp add: runSeatOperation_def)
  from retire_effect [OF this inv] obtain row' where r: "readSeatRow d1 ?a = Some row'" "sw_retired row'"
    "sw_current row' = None" and m: "list_all2 (retired_mail now ?a) (deliveries d) (deliveries d1)" by blast
  have "d_state v' \<notin> {Queued, Claimed}" if "retired_mail now ?a v v'" "d_recipient_address v' = ?a" for v v'
    using that by (auto simp: retired_mail_def split: if_splits)
  with m have "\<forall>v\<in>set (deliveries d1). d_recipient_address v = ?a \<longrightarrow> d_state v \<notin> {Queued, Claimed}"
    by (metis in_set_conv_nth list_all2_conv_all_nth)
  with r m d' show ?thesis by (simp add: readSeatRow_def list_all2_conv_all_nth)
qed

lemma retire_fresh: "\<not> so_replayed (value_of (SeatOperation 8 (seat_req ''retire'' ''s4'' ''bob'') e4))"
  by code_simp

theorem retire_fails_open_mail_witness:
  "\<exists>row'. readSeatRow e5 ''crew.lead'' = Some row' \<and> sw_retired row' \<and>
     (\<forall>v\<in>set (deliveries e5). d_recipient_address v = ''crew.lead'' \<longrightarrow> d_state v \<notin> {Queued, Claimed})"
proof -
  have f: "sq_kind (seat_req ''retire'' ''s4'' ''bob'') = ''retire''"
    "sq_seat_address (seat_req ''retire'' ''s4'' ''bob'') = ''crew.lead''" by (simp_all add: seat_req_def)
  from retire_fails_open_mail [OF seat_scenario_reachable(4) seat_runs(5) retire_fresh f(1), unfolded f(2)]
  show ?thesis by blast
qed

text \<open>
  Taking a retired seat opens it anew: its generation is one higher, so mail addressed to the old seat is
  not mail of the new one, and it starts without a charter or a handoff.
\<close>

theorem reopened_seat_is_new:
  assumes "reachable d" and "SeatOperation now q d = Inr (res, d')" and "\<not> so_replayed res"
    and "sq_kind q = ''take''" and "readSeatRow d (sq_seat_address q) = Some old" and "sw_retired old"
  shows "\<exists>row. readSeatRow d' (sq_seat_address q) = Some row \<and> sw_generation row = sw_generation old + 1 \<and>
     \<not> sw_retired row \<and> sw_charter_version row = 0 \<and> sw_handoff_version row = 0 \<and>
     sw_last_holding row = sw_last_holding old + 1 \<and> sw_current row = Some (sw_last_holding old + 1)"
proof -
  let ?a = "sq_seat_address q"
  from seat_run [OF assms(2,3)] obtain session d1 where run: "runSeatOperation now q session d = Inr (res, d1)"
    and d': "d' = d1\<lparr>seat_receipts := seat_receipts d1 @ [seatReceipt now q res]\<rparr>" by metis
  then have "take_seat now q session d = Inr (res, d1)" using assms(4) by (simp add: runSeatOperation_def)
  then obtain row e h where op: "openSeat now q d = Inr (row, e)" and st: "startHolding now q session row e = Inr (h, d1)"
    unfolding take_seat_def by (auto simp: bindR_Inr_iff split: if_splits)
  from op have row: "row = old\<lparr>sw_generation := sw_generation old + 1, sw_retired := False, sw_charter_version := 0,
                 sw_handoff_version := 0, sw_created_at := now, sw_created_by := sq_session_address q,
                 sw_updated_at := now\<rparr>"
    by (cases rule: openSeat_cases) (use assms(5,6) in simp_all)
  have "readSeatRow e ?a = Some row" "sw_address row = ?a"
    using openSeat_step [OF op] reachable_inv [OF assms(1)] by (simp_all add: db_inv_def)
  then have "readSeatRow d1 ?a = Some (row\<lparr>sw_current := Some (sw_last_holding row + 1),
      sw_last_holding := sw_last_holding row + 1, sw_updated_at := now\<rparr>)"
    unfolding startHolding_Inr(1) [OF st] by (simp add: readSeatRow_def seat_unchanged)
  with d' row show ?thesis by (simp add: readSeatRow_def)
qed

theorem reopened_seat_is_new_witness:
  "\<exists>old row. readSeatRow e5 ''crew.lead'' = Some old \<and>
     readSeatRow (settle e5 (SeatOperation 9 (seat_req ''take'' ''s7'' ''bob'') e5)) ''crew.lead'' = Some row \<and>
     sw_generation row = sw_generation old + 1"
proof -
  let ?q = "seat_req ''take'' ''s7'' ''bob''"
  let ?m = "SeatOperation 9 ?q e5"
  have ok: "succeeds ?m" by code_simp
  have fresh: "\<not> so_replayed (value_of ?m)" by code_simp
  have f: "sq_kind ?q = ''take''" "sq_seat_address ?q = ''crew.lead''" by (simp_all add: seat_req_def)
  have "map_option sw_retired (readSeatRow e5 (sq_seat_address ?q)) = Some True" by code_simp
  then obtain old where old: "readSeatRow e5 (sq_seat_address ?q) = Some old" "sw_retired old" by auto
  from reopened_seat_is_new [OF seat_scenario_reachable(5) succeeds_settle [OF ok] fresh f(1) old] old(1) f(2)
  show ?thesis by auto
qed

section \<open>History\<close>

text \<open>
  The history of a seat is never rewritten: whatever the fabric does afterwards, a holding that has ended
  is still on record exactly as it ended, and one that is open keeps its id, holder and start.
\<close>

theorem holdings_are_history:
  assumes "reachable d" and "fabric_step\<^sup>*\<^sup>* d d'" and "h \<in> set (holdings d)"
  shows "\<exists>h'\<in>set (holdings d'). h_seat_address h' = h_seat_address h \<and> h_holding_id h' = h_holding_id h \<and>
     h_holder_address h' = h_holder_address h \<and> h_holder_generation h' = h_holder_generation h \<and>
     h_started_at h' = h_started_at h \<and> (h_ended_at h \<noteq> None \<longrightarrow> h' = h)"
proof -
  have "evolves holding_moves (holdings d) (holdings d')"
    using fm.run_within [OF assms(2) reachable_inv [OF assms(1)]] by (simp add: fabric_moves_def)
  from evolves_mem [OF this assms(3)] show ?thesis by (auto simp: holding_moves_def hkey_def)
qed

theorem holdings_are_history_witness:
  "\<exists>h. h \<in> set (holdings e3) \<and> h_ended_at h \<noteq> None \<and> h \<in> set (holdings e5)"
proof -
  have "list_ex (\<lambda>h. h_ended_at h \<noteq> None) (holdings e3)" by code_simp
  then obtain h where h: "h \<in> set (holdings e3)" "h_ended_at h \<noteq> None" by (auto simp: list_ex_iff)
  have "fabric_step e3 e4" "fabric_step e4 e5"
    using fabric_step.live live_step.seat_op [OF seat_runs(4)] live_step.seat_op [OF seat_runs(5)] by blast+
  then have "fabric_step\<^sup>*\<^sup>* e3 e5" by (meson converse_rtranclp_into_rtranclp rtranclp.rtrancl_refl)
  from holdings_are_history [OF seat_scenario_reachable(3) this h(1)] h show ?thesis by metis
qed

end
