(* ===== verification/Mailbox_Refinement.thy ===== *)
theory Mailbox_Refinement
  imports Seat_Mail
begin

text \<open>
  The abstract specification of the fabric's mail and the refinement of it by the store: seen from outside,
  the store is a list of parcels that only grows at its end, every new parcel waits, and each parcel moves
  through the phases waiting, reserved, in flight, closed. Every committed transaction, of whatever
  component, is one step of this machine.
\<close>

section \<open>The abstract machine\<close>

datatype phase = Waiting | Reserved | InFlight | Closed delivery_state

record parcel =
  p_delivery :: string
  p_message :: string
  p_address :: string
  p_generation :: int
  p_phase :: phase

fun phase_edge :: "phase \<Rightarrow> phase \<Rightarrow> bool" where
  "phase_edge Waiting p = (p \<in> {Reserved, Closed Failed, Closed Expired, Closed Cancelled})"
| "phase_edge Reserved p = (p \<in> {Waiting, InFlight, Closed Failed, Closed Expired, Closed Cancelled})"
| "phase_edge InFlight p = (p \<in> {Waiting, Closed Delivered, Closed Failed, Closed OutcomeUnknown})"
| "phase_edge (Closed s) p = False"

definition parcel_moves :: "parcel \<Rightarrow> parcel \<Rightarrow> bool" where
  "parcel_moves p p' =
     (p_delivery p' = p_delivery p \<and> p_message p' = p_message p \<and> p_address p' = p_address p \<and>
      p_generation p' = p_generation p \<and> (p_phase p' = p_phase p \<or> phase_edge (p_phase p) (p_phase p')))"

inductive post_office :: "parcel list \<Rightarrow> parcel list \<Rightarrow> bool" where
  step: "list_all2 parcel_moves ps ps' \<Longrightarrow> (\<forall>p\<in>set new. p_phase p = Waiting) \<Longrightarrow> post_office ps (ps' @ new)"

inductive_cases post_officeE: "post_office ps qs"

section \<open>The abstraction\<close>

fun phase_of :: "delivery_state \<Rightarrow> phase" where
  "phase_of Queued = Waiting"
| "phase_of Claimed = Reserved"
| "phase_of Dispatching = InFlight"
| "phase_of s = Closed s"

definition parcel_of :: "delivery \<Rightarrow> parcel" where
  "parcel_of v = \<lparr>p_delivery = d_delivery_id v, p_message = d_message_id v, p_address = d_recipient_address v,
     p_generation = d_recipient_generation v, p_phase = phase_of (d_state v)\<rparr>"

definition parcels :: "db \<Rightarrow> parcel list" where
  "parcels d = map parcel_of (deliveries d)"

lemma phase_of_edge: "delivery_edge s s' \<Longrightarrow> phase_edge (phase_of s) (phase_of s')"
  by (cases s; cases s') simp_all

lemma parcel_of_moves: "delivery_moves delivery_edge v v' \<Longrightarrow> parcel_moves (parcel_of v) (parcel_of v')"
  using phase_of_edge by (auto simp: delivery_moves_def parcel_moves_def parcel_of_def)

section \<open>What a transaction posts\<close>

text \<open>The deliveries a transaction adds are queued.\<close>

definition posts :: "db \<Rightarrow> db \<Rightarrow> bool" where
  "posts d d' = (\<forall>v\<in>set (drop (length (deliveries d)) (deliveries d')). d_state v = Queued)"

lemma posts_none: "length (deliveries d') = length (deliveries d) \<Longrightarrow> posts d d'"
  by (simp add: posts_def)

lemma posts_append: "deliveries d' = t @ new \<Longrightarrow> length t = length (deliveries d) \<Longrightarrow>
   (\<forall>v\<in>set new. d_state v = Queued) \<Longrightarrow> posts d d'"
  by (simp add: posts_def)

lemma notice_posts:
  assumes "seatNotice now q recipient operationID body d = Inr (mid, d')"
  shows "\<exists>new. deliveries d' = deliveries d @ new \<and> (\<forall>v\<in>set new. d_state v = Queued)"
proof (cases "d' = d")
  case True
  then show ?thesis by simp
next
  case False
  with assms obtain msg d1 v where i: "insertMessage msg '''' d = Inr d1"
    "insertDelivery (sq_notice_delivery_id q) (m_message_id msg) (m_recipient_address msg)
       (m_recipient_generation msg) (m_created_at msg) (m_expires_at msg) d1 = Inr (v, d')"
    unfolding seatNotice_def Let_def
    by (fastforce simp: bindR_Inr_iff split: option.splits if_splits prod.splits)
  from append_ledger(6,8) [OF i] show ?thesis by simp
qed

lemma terminalize_length: "terminalize now did s reason d = Inr d' \<Longrightarrow> length (deliveries d') = length (deliveries d)"
  by (simp add: terminalize_deliveries)

lemma updateDeliveries_length: "updateDeliveries P f d = Inr d' \<Longrightarrow> length (deliveries d') = length (deliveries d)"
  by (drule updateDeliveries_Inr(1)) simp

lemma bridge_length:
  "bridgeRoundDeliveryTerminal now did s reason d = Inr d' \<Longrightarrow> length (deliveries d') = length (deliveries d)"
  by (simp add: bridge_inv(5))

lemma terminalizeRound_length:
  "terminalizeRound now rid s reason reply d = Inr d' \<Longrightarrow> length (deliveries d') = length (deliveries d)"
  by (simp add: terminalizeRound_inv(5))

lemmas same_length = terminalize_length updateDeliveries_length bridge_length terminalizeRound_length

lemma settleRoundRows_length:
  "settleRoundRows now rows settled d = Inr (ts, d') \<Longrightarrow> length (deliveries d') = length (deliveries d)"
  by (induction now rows settled d rule: settleRoundRows.induct) (auto simp: bindR_Inr_iff dest: same_length)

lemma settleRows_length:
  "settleRows now rows settled d = Inr (ts, d') \<Longrightarrow> length (deliveries d') = length (deliveries d)"
proof (induction now rows settled d rule: settleRows.induct)
  case (1 now settled d)
  then show ?case by simp
next
  case (2 now v rows settled d)
  then show ?case
    by (cases "settlementOf d now v") (fastforce simp: bindR_Inr_iff dest: same_length)+
qed

lemma claim_length:
  assumes "claim now q d = Inr (res, d')" and "ledger_inv d"
  shows "length (deliveries d') = length (deliveries d)"
proof -
  from assms(1) obtain lease rt where rt: "claimRoute d q = Inr rt" and c: "(case rt of
         RouteBlocked reason \<Rightarrow> Inr (noClaim reason None, d)
       | RouteThrough binding holder holdingID \<Rightarrow> claimLoop now q lease binding holder holdingID d) = Inr (res, d')"
    by (auto simp: claim_def bindR_Inr_iff)
  show ?thesis
  proof (cases rt)
    case (RouteThrough binding holder hid)
    with c claimLoop_spec [OF _ assms(2)] obtain d0 where d0: "ledger_inv d0" "messages d0 = messages d"
      "claim_spec now q lease binding hid d0 res d'" by fastforce
    have "length (deliveries d') = length (deliveries d0)"
      using d0(3) by (auto simp: claim_spec_def split: if_splits dest: same_length)
    with claim_keeps_length [OF assms(2) d0(1,2)] show ?thesis by simp
  qed (use c in simp)
qed

lemma runDeliveryOperation_length:
  assumes "runDeliveryOperation now q d = Inr (res, d')" and "ledger_inv d"
  shows "length (deliveries d') = length (deliveries d)"
  using assms(1) claim_length [OF _ assms(2)] unfolding runDeliveryOperation_def
  by (auto split: if_splits simp: claimTransition_def reconcile_def notInserted_def bindR_Inr_iff dest!: same_length)

lemma DeliveryOperation_length:
  assumes "DeliveryOperation now q d = Inr (res, d')" and "ledger_inv d"
  shows "length (deliveries d') = length (deliveries d)"
proof (cases "lookupReceipt (receipts d) (dq_adapter_id q) (dq_operation_id q)")
  case None
  with assms(1) obtain d1 where "runDeliveryOperation now q d = Inr (res, d1)" "deliveries d' = deliveries d1"
    by (auto simp: DeliveryOperation_fresh)
  with runDeliveryOperation_length assms(2) show ?thesis by metis
qed (use assms(1) in \<open>auto simp: DeliveryOperation_def split: if_splits prod.splits\<close>)

lemma openSeat_deliveries: "openSeat now q d = Inr (row, d') \<Longrightarrow> deliveries d' = deliveries d"
  by (cases rule: openSeat_cases) auto

lemma startHolding_length:
  "startHolding now q session row d = Inr (h, d') \<Longrightarrow> length (deliveries d') = length (deliveries d)"
  by (drule startHolding_Inr(1)) simp

lemma endHolding_length:
  "endHolding now row reason nt by_id d = Inr (h, d') \<Longrightarrow> length (deliveries d') = length (deliveries d)"
  by (drule endHolding_Inr(1)) simp

lemma take_posts: "take_seat now q session d = Inr (res, d') \<Longrightarrow> posts d d'"
  unfolding take_seat_def
  by (rule posts_none) (auto simp: bindR_Inr_iff split: if_splits dest!: openSeat_deliveries startHolding_length)

lemma relieve_posts:
  assumes "relieve now q session d = Inr (res, d')"
  shows "posts d d'"
proof -
  from assms obtain row reason ended d1 row' h d2 a op body mid where
      e: "endHolding now row HoldingRelieved '''' reason d = Inr (ended, d1)"
    and s: "startHolding now q session row' d1 = Inr (h, d2)" and n: "seatNotice now q a op body d2 = Inr (mid, d')"
    unfolding relieve_def by (auto simp: bindR_Inr_iff split: option.splits if_splits)
  from notice_posts [OF n] endHolding_length [OF e] startHolding_length [OF s] show ?thesis
    by (metis posts_append)
qed

lemma setText_posts:
  assumes "setText now q session d = Inr (res, d')"
  shows "posts d d'"
proof -
  from assms obtain row d1 v d2 d3 d4 tt where s: "openSeat now q d = Inr (row, d1)"
    "sq_expected_version q = None \<or> sq_expected_version q = Some (textVersion row (sq_text_kind q))"
    "v = issuedVersion d1 (sw_address row) (sq_text_kind q) + 1" "insertText (textRow now q session row v d1) d1 = Inr d2"
    "updateSeats (\<lambda>r. sw_address r = sw_address row) (recordVersion now (sq_text_kind q) v) d2 = Inr d3"
    "d4 = pruneTexts q row v d3" "readSeatText d4 (sw_address row) (sq_text_kind q) v = Some tt" "so_text res = Some tt"
    "d' = d4 \<or> (\<exists>a op body mid. seatNotice now q a op body d4 = Inr (mid, d'))" by (rule setText_Inr)
  have "deliveries d4 = deliveries d"
    using openSeat_deliveries [OF s(1)] insertText_Inr(1) [OF s(4)] updateSeats_Inr [OF s(5)] s(6)
    by (simp add: pruneTexts_def)
  with s(9) notice_posts posts_append posts_none show ?thesis by metis
qed

lemma runSeat_posts:
  assumes run: "runSeatOperation now q session d = Inr (res, d')" and inv: "fabric_inv d"
  shows "posts d d'"
proof -
  consider "take_seat now q session d = Inr (res, d')" | "leave now q session d = Inr (res, d')"
    | "relieve now q session d = Inr (res, d')" | "setText now q session d = Inr (res, d')"
    | "retire now q session d = Inr (res, d')"
    using run by (auto simp: runSeatOperation_def split: if_splits)
  then show ?thesis
  proof cases
    case 2
    from leave_keeps [OF 2] show ?thesis by (intro posts_none) (simp add: released_def)
  next
    case 5
    from retire_effect [OF 5 inv] have "length (deliveries d') = length (deliveries d)"
      by (metis list_all2_lengthD)
    then show ?thesis by (rule posts_none)
  qed (use take_posts relieve_posts setText_posts in blast)+
qed

lemma SeatOperation_posts:
  assumes "SeatOperation now q d = Inr (res, d')" and "fabric_inv d"
  shows "posts d d'"
proof (cases "lookupReceipt (seat_receipts d) (sq_adapter_id q) (sq_operation_id q)")
  case None
  with assms(1) obtain session d1 where "runSeatOperation now q session d = Inr (res, d1)" "deliveries d' = deliveries d1"
    by (auto simp: SeatOperation_fresh)
  with runSeat_posts assms(2) show ?thesis by (metis posts_def)
qed (use assms(1) in \<open>auto simp: SeatOperation_def posts_def split: if_splits prod.splits\<close>)

lemma SubmitMessage_posts:
  assumes "SubmitMessage now q d = Inr (res, d')"
  shows "posts d d'"
  using assms
proof (cases rule: SubmitMessage_cases)
  case (accept msg v d1)
  from acceptMessage_step(3,5) [OF accept(2)] resolveRoundReply_step(3) [OF accept(3)] show ?thesis
    by (simp add: posts_def)
qed (simp add: posts_def)

lemma BeginRound_posts:
  assumes "BeginRound now q d = Inr (res, d')"
  shows "posts d d'"
proof (cases "d' = d")
  case False
  with assms obtain msg v d1 rd where a: "acceptMessage now (bq_submit q) d = Inr ((msg, v), d1)"
    and i: "insertRound rd d1 = Inr d'"
    by (auto simp: BeginRound_def bindR_Inr_iff Let_def split: option.splits if_splits)
  from acceptMessage_step(3,5) [OF a] insertRound_Inr(1) [OF i] show ?thesis by (simp add: posts_def)
qed (simp add: posts_def)

lemma live_step_posts:
  assumes "live_step d d'" and inv: "db_inv d"
  shows "posts d d'"
proof -
  have led: "ledger_inv d" "fabric_inv d" "directory_inv d" using inv by (simp_all add: db_inv_def fabric_inv_def)
  from assms(1) show ?thesis
  proof cases
    case (register now rg lease)
    with RegisterAdapter_step led show ?thesis by (fastforce simp: directory_step_def intro: posts_none)
  next
    case (renew now rn lease)
    with RenewAdapter_step led show ?thesis by (fastforce simp: directory_step_def intro: posts_none)
  next
    case (put now pb b)
    with PutBinding_step led show ?thesis by (fastforce simp: directory_step_def intro: posts_none)
  next
    case (unbind now ub b)
    with Unbind_step led show ?thesis by (fastforce simp: directory_step_def intro: posts_none)
  next
    case (cancel_round now rid r)
    then show ?thesis
      by (intro posts_none) (auto simp: CancelRound_def bindR_Inr_iff split: if_splits dest: same_length)
  next
    case (settle_rounds now rs)
    then show ?thesis by (intro posts_none) (auto simp: SettleRounds_def dest: settleRoundRows_length)
  next
    case (cancel_delivery now did v)
    then show ?thesis
      by (intro posts_none) (auto simp: CancelDelivery_def bindR_Inr_iff split: if_splits dest!: same_length)
  next
    case (settle_pending now vs)
    then show ?thesis by (intro posts_none) (auto simp: SettlePending_def dest: settleRows_length)
  next
    case (delivery_op now dq dr)
    then show ?thesis using DeliveryOperation_length led(1) posts_none by blast
  qed (use SubmitMessage_posts BeginRound_posts SeatOperation_posts led in blast)+
qed

section \<open>Refinement\<close>

text \<open>
  C2: The store refines the post office. Every step of the fabric, seen through the abstraction, is a step
  of the abstract machine: no parcel is lost, reordered or readdressed, new ones are posted waiting at
  the end, and each moves along the phases, so that nothing is delivered that was not in flight and
  nothing that is closed ever moves.
\<close>

theorem fabric_refines_post_office:
  assumes "reachable d" and "fabric_step d d'"
  shows "post_office (parcels d) (parcels d')"
proof -
  have inv: "db_inv d" by (rule reachable_inv [OF assms(1)])
  let ?n = "length (deliveries d)"
  have ev: "evolves (delivery_moves delivery_edge) (deliveries d) (deliveries d')"
    using prune_step [OF assms(2) inv] by (simp add: fabric_moves_def ledger_step_def)
  have "list_all2 parcel_moves (parcels d) (map parcel_of (take ?n (deliveries d')))"
    using ev unfolding evolves_def parcels_def
    by (auto simp: list.rel_map elim: list_all2_mono intro: parcel_of_moves)
  moreover have "posts d d'"
    using assms(2)
  proof cases
    case live
    with live_step_posts inv show ?thesis by blast
  qed (auto simp: PruneDeliveryOperations_def PruneSeatOperations_def posts_def split: prod.splits)
  then have "\<forall>p\<in>set (map parcel_of (drop ?n (deliveries d'))). p_phase p = Waiting"
    by (auto simp: posts_def parcel_of_def)
  ultimately have "post_office (parcels d)
      (map parcel_of (take ?n (deliveries d')) @ map parcel_of (drop ?n (deliveries d')))"
    by (rule post_office.step)
  then show ?thesis by (simp add: parcels_def flip: map_append)
qed

theorem fabric_refines_post_office_witness: "post_office (parcels d5) (parcels d6)"
  using fabric_refines_post_office [OF scenario_reachable(5) fabric_step.live [OF live_step.delivery_op [OF step6]]] .

end
