(* ===== verification/Directory_Guarantees.thy ===== *)
theory Directory_Guarantees
  imports Delivery_Guarantees
begin

text \<open>
  What the directory promises its clients: the adapter lease is a fence in front of every operation that
  carries a lease token, an instance that lost its lease can commit nothing more, bindings are updated by
  compare-and-set, and a route changes only together with its generation.
\<close>

section \<open>The lease as a fence\<close>

text \<open>
  The contract of an operation behind the fence: if it commits and its result is not the replay of an
  earlier execution, the token it carries is the adapter's current, unexpired one.
\<close>

locale lease_guarded =
  fixes run :: "time \<Rightarrow> 'q \<Rightarrow> db \<Rightarrow> store_error + 'r \<times> db"
    and adapter :: "'q \<Rightarrow> string" and token :: "'q \<Rightarrow> string" and replayed :: "'r \<Rightarrow> bool"
  assumes guarded: "run now q d = Inr (r, d') \<Longrightarrow> \<not> replayed r \<Longrightarrow>
      \<exists>lease. currentLease d now (adapter q) (token q) = Inr lease"
begin

lemma fenced:
  assumes "leaseRow d (adapter q) = Some row" and "lr_lease_token row \<noteq> token q" and "run now q d = Inr (r, d')"
  shows "replayed r"
  using guarded [OF assms(3)] assms(1,2) by (auto simp: currentLease_Inr_iff)

lemma expired:
  assumes "leaseRow d (adapter q) = Some row" and "lr_expires_at row \<le> now" and "run now q d = Inr (r, d')"
  shows "replayed r"
  using guarded [OF assms(3)] assms(1,2) by (auto simp: currentLease_Inr_iff)

end

interpretation gnew: lease_guarded RenewAdapter rn_adapter_id rn_lease_token "\<lambda>_. False"
  by unfold_locales (auto simp: RenewAdapter_def bindR_Inr_iff)

interpretation gput: lease_guarded PutBinding pb_actor_adapter_id pb_lease_token "\<lambda>_. False"
  by unfold_locales (auto simp: PutBinding_def bindR_Inr_iff)

interpretation gun: lease_guarded Unbind ub_actor_adapter_id ub_lease_token "\<lambda>_. False"
  by unfold_locales (auto simp: Unbind_def bindR_Inr_iff)

interpretation gsf: lease_guarded FenceSender sf_adapter_id sf_lease_token "\<lambda>_. False"
  by unfold_locales (auto simp: FenceSender_def bindR_Inr_iff)

interpretation gsub: lease_guarded SubmitMessage sm_producer_id sm_lease_token sr_replayed
proof
  show "\<exists>lease. currentLease d now (sm_producer_id q) (sm_lease_token q) = Inr lease"
    if "SubmitMessage now q d = Inr (r, d')" "\<not> sr_replayed r" for now q d r d'
    using that(1) by (cases rule: SubmitMessage_cases) (use that(2) acceptMessage_Inr(3) in auto)
qed

interpretation gseat: lease_guarded SeatOperation sq_adapter_id sq_lease_token so_replayed
proof
  show "\<exists>lease. currentLease d now (sq_adapter_id q) (sq_lease_token q) = Inr lease"
    if "SeatOperation now q d = Inr (r, d')" "\<not> so_replayed r" for now q d r d'
  proof -
    have "lookupReceipt (seat_receipts d) (sq_adapter_id q) (sq_operation_id q) = None"
      using that by (auto simp: SeatOperation_def split: option.splits if_splits)
    with that(1) show ?thesis by (auto simp: SeatOperation_fresh)
  qed
qed

lemma runDeliveryOperation_leased:
  assumes "runDeliveryOperation now q d = Inr (res, d')"
  shows "\<exists>lease. currentLease d now (dq_adapter_id q) (dq_lease_token q) = Inr lease"
  using assms unfolding runDeliveryOperation_def claim_def claimTransition_def claimFence_def reconcile_def
    notInserted_def by (auto simp: bindR_Inr_iff split: if_splits)

interpretation gdel: lease_guarded DeliveryOperation dq_adapter_id dq_lease_token do_replayed
proof
  show "\<exists>lease. currentLease d now (dq_adapter_id q) (dq_lease_token q) = Inr lease"
    if "DeliveryOperation now q d = Inr (r, d')" "\<not> do_replayed r" for now q d r d'
  proof -
    have "lookupReceipt (receipts d) (dq_adapter_id q) (dq_operation_id q) = None"
      using that by (auto simp: DeliveryOperation_def markReplayed_def split: option.splits if_splits)
    with that(1) runDeliveryOperation_leased show ?thesis by (metis DeliveryOperation_fresh)
  qed
qed

text \<open>When a registration is granted.\<close>

lemma RegisterAdapter_takeover:
  assumes "leaseRow d (rg_adapter_id q) = Some old" and "lr_instance_id old \<noteq> rg_instance_id q"
    and "RegisterAdapter now q d = Inr (lease, d')"
  shows "leaseRow d' (rg_adapter_id q) = Some (old\<lparr>lr_instance_id := rg_instance_id q,
           lr_lease_token := rg_lease_token q, lr_expires_at := rg_expires_at q, lr_updated_at := now\<rparr>)"
    and "lr_expires_at old \<le> now \<or> rg_previous_lease_token q = lr_lease_token old"
proof -
  have f: "\<not> (lr_expires_at old > now \<and> rg_previous_lease_token q \<noteq> lr_lease_token old)"
    and d': "d' = d\<lparr>leases := upd (\<lambda>r. lr_adapter_id r = rg_adapter_id q)
                        (\<lambda>r. r\<lparr>lr_instance_id := rg_instance_id q, lr_lease_token := rg_lease_token q,
                               lr_expires_at := rg_expires_at q, lr_updated_at := now\<rparr>) (leases d)\<rparr>"
    using assms by (auto simp: RegisterAdapter_def Let_def split: if_splits)
  show "lr_expires_at old \<le> now \<or> rg_previous_lease_token q = lr_lease_token old" using f by linarith
  show "leaseRow d' (rg_adapter_id q) = Some (old\<lparr>lr_instance_id := rg_instance_id q,
           lr_lease_token := rg_lease_token q, lr_expires_at := rg_expires_at q, lr_updated_at := now\<rparr>)"
    using assms(1) leaseRow_Some [OF assms(1)] unfolding d' by (simp add: leaseRow_def leaseRow_upd)
qed


definition takeover_req :: register_request where
  "takeover_req = reg_a\<lparr>rg_instance_id := ''i2'', rg_lease_token := ''tb'', rg_previous_lease_token := ''ta''\<rparr>"


section \<open>Registration\<close>

text \<open>
  A live lease is exclusive. Registration under an adapter id is refused exactly when another instance
  holds an unexpired lease and the caller does not present its token; the instance that already holds
  the lease keeps its token, everybody else gets the new one, and the lease returned is the stored one.
\<close>

theorem registration_is_exclusive:
  "case leaseRow d (rg_adapter_id q) of
     Some row \<Rightarrow>
       (if lr_instance_id row \<noteq> rg_instance_id q \<and> lr_expires_at row > now \<and>
           rg_previous_lease_token q \<noteq> lr_lease_token row
        then RegisterAdapter now q d = Inl ErrLeaseFenced
        else \<exists>lease d'. RegisterAdapter now q d = Inr (lease, d') \<and>
          al_lease_token lease = (if lr_instance_id row = rg_instance_id q then lr_lease_token row else rg_lease_token q) \<and>
          (now < rg_expires_at q \<longrightarrow> currentLease d' now (rg_adapter_id q) (al_lease_token lease) = Inr lease))
   | None \<Rightarrow> \<exists>lease d'. RegisterAdapter now q d = Inr (lease, d') \<and> al_lease_token lease = rg_lease_token q \<and>
          (now < rg_expires_at q \<longrightarrow> currentLease d' now (rg_adapter_id q) (al_lease_token lease) = Inr lease)"
proof (cases "leaseRow d (rg_adapter_id q)")
  case None
  then show ?thesis by (simp add: RegisterAdapter_def Let_def leaseRow_def sel1_append currentLease_def)
next
  case (Some row)
  then show ?thesis
    using leaseRow_Some [OF Some]
    by (auto simp: RegisterAdapter_def Let_def currentLease_def leaseRow_def leaseRow_upd)
qed

definition other_req :: register_request where
  "other_req = reg_a\<lparr>rg_instance_id := ''i2'', rg_lease_token := ''tb''\<rparr>"

theorem registration_is_exclusive_witness:
  "RegisterAdapter 6 other_req d5 = Inl ErrLeaseFenced"
proof -
  have "map_option (\<lambda>r. (lr_instance_id r, lr_lease_token r, lr_expires_at r)) (leaseRow d5 (rg_adapter_id other_req))
      = Some (''i1'', ''ta'', 1000)" by code_simp
  then obtain old where old: "leaseRow d5 (rg_adapter_id other_req) = Some old"
    "lr_instance_id old = ''i1''" "lr_lease_token old = ''ta''" "lr_expires_at old = 1000" by auto
  from registration_is_exclusive [where d = d5 and q = other_req and now = 6] old show ?thesis
    by (simp add: other_req_def reg_a_def)
qed

section \<open>Bindings\<close>

lemma reachable_directory: "reachable d \<Longrightarrow> directory_inv d"
  using reachable_inv by (simp add: db_inv_def)


definition rebind_req :: "string \<Rightarrow> int \<Rightarrow> put_binding_request" where
  "rebind_req target seen = (bind_req ''bob'')\<lparr>pb_target_ref := target, pb_expected_revision := Some seen\<rparr>"


text \<open>
  A route is named by its generation. However the fabric runs, the address stays known and its revision
  and generation never go back; if the revision is the same the whole binding is, and if the generation
  is the same the adapter and the target are. A delivery accepted for a generation is therefore never
  handed to another route.
\<close>

theorem generation_names_route:
  assumes "reachable d" and "fabric_step\<^sup>*\<^sup>* d d'" and "readBinding d a = Some b"
  shows "\<exists>b'. readBinding d' a = Some b' \<and> b_revision b \<le> b_revision b' \<and> b_generation b \<le> b_generation b' \<and>
     (b_revision b' = b_revision b \<longrightarrow> b' = b) \<and>
     (b_generation b' = b_generation b \<longrightarrow>
        b_bound b' = b_bound b \<and> b_adapter_id b' = b_adapter_id b \<and> b_target_ref b' = b_target_ref b)"
proof -
  have inv': "directory_inv d'"
    using fm.run_inv [OF assms(2) reachable_inv [OF assms(1)]] by (simp add: db_inv_def)
  from assms(3) obtain r where r: "r \<in> set (bindings d)" "bw_address r = a" "b = scanBinding r"
    by (rule readBinding_Some)
  have "evolves binding_moves (bindings d) (bindings d')"
    using fm.run_within [OF assms(2) reachable_inv [OF assms(1)]] by (simp add: fabric_moves_def)
  from evolves_mem [OF this r(1)] obtain r' where r': "r' \<in> set (bindings d')" "binding_moves r r'" by blast
  have "sel1 (\<lambda>x. bw_address x = bw_address r') (bindings d') = Some r'"
    by (rule sel1_unique) (use inv' r'(1) in \<open>simp_all add: directory_inv_def\<close>)
  then have "readBinding d' a = Some (scanBinding r')"
    using r'(2) r(2) by (simp add: readBinding_def binding_moves_def)
  with r'(2) r(3) show ?thesis by (auto simp: binding_moves_def scanBinding_def)
qed

theorem generation_names_route_witness:
  "\<exists>b b'. readBinding d3 ''bob'' = Some b \<and> readBinding d5 ''bob'' = Some b' \<and> b_generation b \<le> b_generation b'"
proof -
  have "map_option b_generation (readBinding d3 ''bob'') = Some 1" by code_simp
  then obtain b where b: "readBinding d3 ''bob'' = Some b" by auto
  have "fabric_step d3 d4" "fabric_step d4 d5"
    using fabric_step.live live_step.submit [OF succeeds_settle [OF ok4, of d3, folded d4_def]]
      live_step.delivery_op [OF succeeds_settle [OF ok5, of d4, folded d5_def]] by blast+
  then have "fabric_step\<^sup>*\<^sup>* d3 d5" by (meson converse_rtranclp_into_rtranclp rtranclp.rtrancl_refl)
  from generation_names_route [OF scenario_reachable(3) this b] b show ?thesis by metis
qed

end
