(* ===== verification/Round_Guarantees.thy ===== *)
theory Round_Guarantees
  imports Delivery_Guarantees
begin

text \<open>
  Reply rounds: who may answer, that the first answer settles a round for good, and what the periodic
  settlement of rounds does, including the second it may be off because it compares stored text.
\<close>

section \<open>Replies\<close>

lemma terminalizeRound_read:
  assumes t: "terminalizeRound now (r_round_id t) status reason replyID d = Inr d'"
    and "readRound d (r_round_id t) = Some t" and "r_status t = RPending"
  shows "readRound d' (r_round_id t) = Some (t\<lparr>r_status := status, r_reply_message_id := replyID,
     r_terminal_at := Some now, r_terminal_reason := reason, r_revision := r_revision t + 1\<rparr>)"
  using updateRounds_Inr(1) [OF t [unfolded terminalizeRound_def]] assms(2,3)
  by (simp add: readRound_def readRound_upd)


definition round_req :: begin_round_request where
  "round_req = \<lparr>bq_submit = submit_req ''r'' ''bob'' '''' '''', bq_round_id = ''round'',
     bq_round_expires_at = 1500000000\<rparr>"

definition reply_req :: submit_request where
  "reply_req = (submit_req ''a'' ''alice'' ''mr'' '''')\<lparr>sm_sender_address := ''bob''\<rparr>"

definition d7 :: db where "d7 = settle d3 (BeginRound 4 round_req d3)"

lemma ok7: "succeeds (BeginRound 4 round_req d3)" by code_simp

lemma reachable7 [simp]: "reachable d7"
  using reachable_live [OF scenario_reachable(3)] live_step.begin_round succeeds_settle [OF ok7]
  unfolding d7_def by metis

lemma round7: "\<exists>t. readRoundByRoot d7 ''mr'' = Some t \<and> r_status t = RPending \<and>
   r_expires_at t = 1500000000 \<and> r_round_id t = ''round'' \<and> rounds d7 = [t]"
proof -
  have "length (rounds d7) = 1" by code_simp
  then obtain t where t: "rounds d7 = [t]" by (metis One_nat_def length_0_conv length_Suc_conv)
  have "r_root_message_id (hd (rounds d7)) = ''mr'' \<and> r_status (hd (rounds d7)) = RPending \<and>
    r_expires_at (hd (rounds d7)) = 1500000000 \<and> r_round_id (hd (rounds d7)) = ''round''" by code_simp
  with t show ?thesis by (simp add: readRoundByRoot_def)
qed


section \<open>A round is decided once\<close>

text \<open>
  C16: A round that has left pending never changes again: no later reply, cancellation, expiry or
  delivery outcome touches it.
\<close>

theorem round_decided_once:
  assumes "reachable d" and "fabric_step\<^sup>*\<^sup>* d d'" and "readRound d rid = Some t" and "r_status t \<noteq> RPending"
  shows "readRound d' rid = Some t"
proof -
  have inv: "db_inv d" by (rule reachable_inv [OF assms(1)])
  have t: "t \<in> set (rounds d)" "r_round_id t = rid"
    using assms(3) by (auto simp: readRound_def dest: sel1_SomeD)
  have "evolves round_moves (rounds d) (rounds d')"
    using fm.run_within [OF assms(2) inv] by (auto simp: fabric_moves_def ledger_step_def)
  from evolves_mem [OF this t(1)] assms(4) have "t \<in> set (rounds d')" by (auto simp: round_moves_def)
  moreover have "distinct (map r_round_id (rounds d'))"
    using fm.run_inv [OF assms(2) inv] by (simp add: db_inv_def fabric_inv_def ledger_inv_def rounds_inv_def)
  ultimately show ?thesis using readRound_mem t(2) by blast
qed

definition d8 :: db where "d8 = settle d7 (CancelRound 5 ''round'' d7)"

lemma ok8: "succeeds (CancelRound 5 ''round'' d7)" by code_simp

lemma step8: "live_step d7 d8"
  unfolding d8_def using live_step.cancel_round succeeds_settle [OF ok8] by metis

theorem round_decided_once_witness:
  "\<exists>t. readRound d8 ''round'' = Some t \<and> r_status t \<noteq> RPending \<and>
     readRound (settle d8 (SubmitMessage 6 reply_req d8)) ''round'' = Some t"
proof -
  let ?m = "SubmitMessage 6 reply_req d8"
  have "succeeds ?m" by code_simp
  then have "live_step d8 (settle d8 ?m)" using live_step.submit succeeds_settle by metis
  then have run: "fabric_step\<^sup>*\<^sup>* d8 (settle d8 ?m)" by (blast intro: fabric_step.live)
  have "case readRound d8 ''round'' of None \<Rightarrow> False | Some t \<Rightarrow> r_status t \<noteq> RPending" by code_simp
  then obtain t where t: "readRound d8 ''round'' = Some t" "r_status t \<noteq> RPending" by (auto split: option.splits)
  have "reachable d8" using reachable_live [OF reachable7 step8] .
  from round_decided_once [OF this run t] t show ?thesis by blast
qed

section \<open>Settling rounds\<close>

definition expire_round :: "time \<Rightarrow> round \<Rightarrow> round" where
  "expire_round now r = r\<lparr>r_status := RExpired, r_reply_message_id := '''', r_terminal_at := Some now,
     r_terminal_reason := ''ttl_expired'', r_revision := r_revision r + 1\<rparr>"

lemma settleRoundRows_effect:
  assumes "set rows \<subseteq> set (rounds d0)" and "map r_round_id (rounds d) = map r_round_id (rounds d0)"
  shows "\<exists>ts d'. settleRoundRows now rows settled d = Inr (ts, d') \<and>
     rounds d' = upd (\<lambda>r. r_round_id r \<in> r_round_id ` set rows \<and> r_status r = RPending) (expire_round now) (rounds d)"
  using assms
proof (induction now rows settled d rule: settleRoundRows.induct)
  case (1 now settled d)
  then show ?case by (simp add: upd_idle)
next
  case (2 now round rows settled d)
  let ?P = "\<lambda>r. r_round_id r = r_round_id round \<and> r_status r = RPending"
  let ?d1 = "d\<lparr>rounds := upd ?P (expire_round now) (rounds d)\<rparr>"
  have t: "terminalizeRound now (r_round_id round) RExpired ''ttl_expired'' '''' d = Inr ?d1"
    by (simp add: terminalizeRound_total expire_round_def [abs_def])
  have ids: "map r_round_id (rounds ?d1) = map r_round_id (rounds d)"
    by (simp add: map_upd_same expire_round_def)
  have "r_round_id round \<in> set (map r_round_id (rounds ?d1))"
    unfolding ids using "2.prems" by auto
  then obtain r' where rd: "readRound ?d1 (r_round_id round) = Some r'"
    by (cases "readRound ?d1 (r_round_id round)") (auto simp: readRound_def sel1_None_iff)
  have "map r_round_id (rounds ?d1) = map r_round_id (rounds d0)" using ids "2.prems"(2) by simp
  with "2.IH" [OF t, of r'] rd "2.prems"(1) obtain ts d' where
      rest: "settleRoundRows now rows (settled @ [r']) ?d1 = Inr (ts, d')"
      "rounds d' = upd (\<lambda>r. r_round_id r \<in> r_round_id ` set rows \<and> r_status r = RPending)
        (expire_round now) (rounds ?d1)" by auto
  have "rounds d' = upd (\<lambda>r. r_round_id r \<in> r_round_id ` set (round # rows) \<and> r_status r = RPending)
      (expire_round now) (rounds d)"
    using rest(2) by (auto simp: upd_def expire_round_def)
  with rest(1) t rd show ?case by simp
qed

lemma SettleRounds_effect:
  "\<exists>ts d'. SettleRounds now d = Inr (ts, d') \<and>
     rounds d' = upd (\<lambda>r. r_round_id r \<in> r_round_id ` {r \<in> set (rounds d). r_status r = RPending \<and>
         stamp_le (timestamp (r_expires_at r)) (timestamp now)} \<and> r_status r = RPending)
       (expire_round now) (rounds d)"
  unfolding SettleRounds_def
  using settleRoundRows_effect [of "sort_key (\<lambda>r. (timestamp (r_created_at r), r_round_id r))
     (sel (\<lambda>r. r_status r = RPending \<and> stamp_le (timestamp (r_expires_at r)) (timestamp now)) (rounds d))" d d now "[]"]
  by simp

text \<open>
  Settling rounds always completes. It decides every pending round whose time has been over for a
  second, and it leaves alone every round that has at least a second left.
\<close>

theorem settle_rounds_within_a_second:
  assumes "reachable d"
  shows "\<exists>ts d'. SettleRounds now d = Inr (ts, d') \<and>
     (\<forall>t\<in>set (rounds d). t \<in> set (rounds d') \<or>
        (r_status t = RPending \<and> r_expires_at t < now + 1000000000 \<and> expire_round now t \<in> set (rounds d'))) \<and>
     (\<forall>t\<in>set (rounds d'). r_status t = RPending \<longrightarrow> now < r_expires_at t + 1000000000)"
proof -
  let ?old = "{r \<in> set (rounds d). r_status r = RPending \<and> stamp_le (timestamp (r_expires_at r)) (timestamp now)}"
  let ?P = "\<lambda>r. r_round_id r \<in> r_round_id ` ?old \<and> r_status r = RPending"
  obtain ts d' where s: "SettleRounds now d = Inr (ts, d')" "rounds d' = upd ?P (expire_round now) (rounds d)"
    using SettleRounds_effect by blast
  have "distinct (map r_round_id (rounds d))"
    using reachable_ledger [OF assms] by (simp add: ledger_inv_def rounds_inv_def)
  then have only: "?P t \<longleftrightarrow> t \<in> ?old" if "t \<in> set (rounds d)" for t
    using that distinct_key_eq [of r_round_id "rounds d"] by (auto simp: image_iff)
  have new: "rounds d' = upd (\<lambda>t. t \<in> ?old) (expire_round now) (rounds d)"
    unfolding s(2) upd_def by (rule map_cong) (simp_all add: only)
  have "t \<in> set (rounds d') \<or> (r_status t = RPending \<and> r_expires_at t < now + 1000000000 \<and>
      expire_round now t \<in> set (rounds d'))" if "t \<in> set (rounds d)" for t
    using that stamp_le_bound [of "r_expires_at t" now]
    by (cases "t \<in> ?old") (auto simp: new set_upd image_iff)
  moreover have "now < r_expires_at t + 1000000000" if "t \<in> set (rounds d')" "r_status t = RPending" for t
  proof (rule ccontr)
    assume "\<not> now < r_expires_at t + 1000000000"
    then have "stamp_le (timestamp (r_expires_at t)) (timestamp now)" by (simp add: stamp_le_complete)
    with that show False by (auto simp: new expire_round_def elim!: upd_memE split: if_splits)
  qed
  ultimately show ?thesis using s(1) by blast
qed

theorem settle_rounds_within_a_second_witness:
  "\<exists>ts d'. SettleRounds 3000000000 d7 = Inr (ts, d') \<and>
     (\<forall>t\<in>set (rounds d'). r_status t = RPending \<longrightarrow> 3000000000 < r_expires_at t + 1000000000)"
  using settle_rounds_within_a_second [OF reachable7, of 3000000000] by blast


end
