(* ===== verification/Replay_Guarantees.thy ===== *)
theory Replay_Guarantees
  imports Round_Guarantees Seat_Guarantees
begin

text \<open>
  Idempotency, written out for each kind of operation: a caller that lost an answer sends the request again
  and gets the first answer, however much the fabric has moved on, and never a second effect.
\<close>

section \<open>Messages and rounds\<close>

lemma SubmitMessage_first:
  assumes "db_inv d" and "SubmitMessage now q d = Inr (res, d')" and "\<not> sr_replayed res"
  shows "look_submission (sm_producer_id q, sm_operation_id q) d = None"
  using assms(2) by (cases rule: SubmitMessage_cases) (use assms(3) in \<open>simp_all add: look_submission_def\<close>)

text \<open>
  C12: A message is submitted at most once per operation id. Whatever the fabric does after a submission,
  receipt pruning included, the same request submitted again is answered with the accepted message and
  its delivery as it stands now and changes nothing, and a different request under the same id is
  refused as a conflict.
\<close>

theorem submit_exactly_once:
  assumes "reachable d" and "SubmitMessage now q d = Inr (res, d')" and "\<not> sr_replayed res"
    and "fabric_step\<^sup>*\<^sup>* d' d''" and "sm_producer_id q2 = sm_producer_id q"
    and "sm_operation_id q2 = sm_operation_id q"
  shows "if sm_fingerprint q2 = sm_fingerprint q
     then \<exists>res2. SubmitMessage later q2 d'' = Inr (res2, d'') \<and> sr_replayed res2 \<and>
            sr_message res2 = sr_message res \<and>
            d_delivery_id (sr_delivery res2) = d_delivery_id (sr_delivery res) \<and>
            delivery_moves delivery_path (publicDelivery (sr_delivery res)) (publicDelivery (sr_delivery res2))
     else SubmitMessage later q2 d'' = Inl ErrOperationConflict"
proof -
  have inv: "db_inv d" by (rule reachable_inv [OF assms(1)])
  have "\<exists>r'. same_submission res r' \<and> SubmitMessage later q2 d'' =
      (if sm_fingerprint q2 = sm_fingerprint q then Inr (r'\<lparr>sr_replayed := True\<rparr>, d'') else Inl ErrOperationConflict)"
    using sub.retry [OF inv, of "(now, q)" res d' d'' "(later, q2)"] assms(2-6) SubmitMessage_first [OF inv assms(2,3)]
    by simp
  then obtain r' where r': "same_submission res r'" "SubmitMessage later q2 d'' =
      (if sm_fingerprint q2 = sm_fingerprint q then Inr (r'\<lparr>sr_replayed := True\<rparr>, d'') else Inl ErrOperationConflict)"
    by blast
  have "d_delivery_id (sr_delivery r') = d_delivery_id (sr_delivery res)"
    using r'(1) by (auto simp: same_submission_def delivery_moves_def publicDelivery_def)
  with r' show ?thesis by (auto simp: same_submission_def)
qed

theorem submit_exactly_once_witness:
  "\<exists>res2. SubmitMessage 7 (submit_req ''1'' ''bob'' '''' '''') d6 = Inr (res2, d6) \<and> sr_replayed res2"
proof -
  let ?q = "submit_req ''1'' ''bob'' '''' ''''"
  have s: "SubmitMessage 4 ?q d3 = Inr (value_of (SubmitMessage 4 ?q d3), d4)"
    using succeeds_settle [OF ok4, of d3] by (simp add: d4_def)
  have fresh: "\<not> sr_replayed (value_of (SubmitMessage 4 ?q d3))" by code_simp
  have "fabric_step d4 d5" "fabric_step d5 d6"
    using fabric_step.live live_step.delivery_op [OF succeeds_settle [OF ok5, of d4, folded d5_def]]
      live_step.delivery_op [OF step6] by blast+
  then have "fabric_step\<^sup>*\<^sup>* d4 d6" by (meson converse_rtranclp_into_rtranclp rtranclp.rtrancl_refl)
  from submit_exactly_once [OF scenario_reachable(3) s fresh this refl refl, of 7] show ?thesis by auto
qed

text \<open>
  The same for rounds: a round is begun at most once per operation id, and the retry sees the round as
  it stands now, which is how a caller that lost the answer learns the outcome.
\<close>

theorem round_exactly_once:
  assumes "reachable d" and "BeginRound now q d = Inr (res, d')" and "\<not> br_replayed res"
    and "fabric_step\<^sup>*\<^sup>* d' d''" and "sm_producer_id (bq_submit q2) = sm_producer_id (bq_submit q)"
    and "sm_operation_id (bq_submit q2) = sm_operation_id (bq_submit q)"
  shows "if sm_fingerprint (bq_submit q2) = sm_fingerprint (bq_submit q)
     then \<exists>res2 t t2. BeginRound later q2 d'' = Inr (res2, d'') \<and> br_replayed res2 \<and>
            br_message res2 = br_message res \<and> br_round res = Some t \<and> br_round res2 = Some t2 \<and>
            r_round_id t2 = r_round_id t \<and> round_moves t t2
     else BeginRound later q2 d'' = Inl ErrOperationConflict"
proof -
  have inv: "db_inv d" by (rule reachable_inv [OF assms(1)])
  have none: "look_round (sm_producer_id (bq_submit q), sm_operation_id (bq_submit q)) d = None"
  proof -
    from assms(2) obtain e where e: "readSubmission d (sm_producer_id (bq_submit q)) (sm_operation_id (bq_submit q)) = Inr e"
      by (auto simp: BeginRound_def bindR_Inr_iff)
    have "e = None"
      using assms(2,3) e by (cases e) (auto simp: BeginRound_def split: if_splits option.splits)
    with e show ?thesis by (simp add: look_round_def LookupRoundOperation_def)
  qed
  have "\<exists>r'. same_round res r' \<and> BeginRound later q2 d'' =
      (if sm_fingerprint (bq_submit q2) = sm_fingerprint (bq_submit q) then Inr (r'\<lparr>br_replayed := True\<rparr>, d'')
       else Inl ErrOperationConflict)"
    using rnd.retry [OF inv, of "(now, q)" res d' d'' "(later, q2)"] assms(2-6) none by simp
  then obtain r' where r': "same_round res r'" "BeginRound later q2 d'' =
      (if sm_fingerprint (bq_submit q2) = sm_fingerprint (bq_submit q) then Inr (r'\<lparr>br_replayed := True\<rparr>, d'')
       else Inl ErrOperationConflict)" by blast
  then show ?thesis by (auto simp: same_round_def round_moves_def)
qed

theorem round_exactly_once_witness:
  "\<exists>res2. BeginRound 9 round_req (settle d7 (SubmitMessage 5 reply_req d7)) =
     Inr (res2, settle d7 (SubmitMessage 5 reply_req d7)) \<and> br_replayed res2"
proof -
  have s: "BeginRound 4 round_req d3 = Inr (value_of (BeginRound 4 round_req d3), d7)"
    using succeeds_settle [OF ok7, of d3] by (simp add: d7_def)
  have fresh: "\<not> br_replayed (value_of (BeginRound 4 round_req d3))" by code_simp
  have ok: "succeeds (SubmitMessage 5 reply_req d7)" by code_simp
  have "fabric_step\<^sup>*\<^sup>* d7 (settle d7 (SubmitMessage 5 reply_req d7))"
    using fabric_step.live [OF live_step.submit [OF succeeds_settle [OF ok, of d7]]] by (rule r_into_rtranclp)
  from round_exactly_once [OF scenario_reachable(3) s fresh this refl refl, of 9] show ?thesis by auto
qed

section \<open>Adapter operations\<close>

text \<open>
  C27: A delivery operation of an adapter takes effect at most once per operation id, until its receipt is
  pruned: after any further operations an exact retry, even by an instance whose lease or claim has
  lapsed since, returns the recorded result and changes nothing, and a different request under the id is
  refused. A claim that found no work leaves no receipt and is simply tried again.
\<close>

theorem delivery_operation_exactly_once:
  assumes "reachable d" and "DeliveryOperation now q d = Inr (res, d')" and "\<not> do_replayed res"
    and "dq_kind q = ''claim'' \<longrightarrow> cr_claimed (do_claim res)" and "live_step\<^sup>*\<^sup>* d' d''"
    and "dq_adapter_id q2 = dq_adapter_id q" and "dq_operation_id q2 = dq_operation_id q"
  shows "DeliveryOperation later q2 d'' =
     (if dq_fingerprint q2 = dq_fingerprint q then Inr (markReplayed res, d'') else Inl ErrOperationConflict)"
proof -
  have inv: "db_inv d" by (rule reachable_inv [OF assms(1)])
  have none: "lookupReceipt (receipts d) (dq_adapter_id q) (dq_operation_id q) = None"
    using assms(2,3) by (auto simp: DeliveryOperation_def markReplayed_def split: option.splits if_splits)
  show ?thesis
    using dop.retry [OF inv, of "(now, q)" res d' d'' "(later, q2)"] assms(2,4-7) none
    by (simp add: records_delivery_def)
qed

theorem delivery_operation_exactly_once_witness:
  "DeliveryOperation 2000 (claim_req ''c'' ''bob'') d6 =
     Inr (markReplayed (value_of (DeliveryOperation 5 (claim_req ''c'' ''bob'') d4)), d6)"
proof -
  let ?q = "claim_req ''c'' ''bob''"
  have s: "DeliveryOperation 5 ?q d4 = Inr (value_of (DeliveryOperation 5 ?q d4), d5)"
    using succeeds_settle [OF ok5, of d4] by (simp add: d5_def)
  have fresh: "\<not> do_replayed (value_of (DeliveryOperation 5 ?q d4))" by code_simp
  have got: "dq_kind ?q = ''claim'' \<longrightarrow> cr_claimed (do_claim (value_of (DeliveryOperation 5 ?q d4)))" by code_simp
  have "live_step\<^sup>*\<^sup>* d5 d6" using live_step.delivery_op [OF step6] by (rule r_into_rtranclp)
  from delivery_operation_exactly_once [OF scenario_reachable(4) s fresh got this refl refl, of 2000] show ?thesis by simp
qed

text \<open>
  A seat operation takes effect at most once per operation id, until its receipt is pruned: an exact
  retry returns the recorded result, even when the seat has changed hands since, and never takes or
  relieves the seat a second time.
\<close>

theorem seat_operation_exactly_once:
  assumes "reachable d" and "SeatOperation now q d = Inr (res, d')" and "\<not> so_replayed res"
    and "live_step\<^sup>*\<^sup>* d' d''" and "sq_adapter_id q2 = sq_adapter_id q" and "sq_operation_id q2 = sq_operation_id q"
  shows "SeatOperation later q2 d'' =
     (if sq_fingerprint q2 = sq_fingerprint q then Inr (res\<lparr>so_replayed := True\<rparr>, d'') else Inl ErrOperationConflict)"
proof -
  have inv: "db_inv d" by (rule reachable_inv [OF assms(1)])
  have none: "lookupReceipt (seat_receipts d) (sq_adapter_id q) (sq_operation_id q) = None"
    using assms(2,3) by (auto simp: SeatOperation_def split: option.splits if_splits)
  show ?thesis
    using sop.retry [OF inv, of "(now, q)" res d' d'' "(later, q2)"] assms(2,4-6) none by simp
qed

theorem seat_operation_exactly_once_witness:
  "SeatOperation 9 (seat_req ''take'' ''s1'' ''alice'') e3 =
     Inr ((value_of (SeatOperation 4 (seat_req ''take'' ''s1'' ''alice'') d3))\<lparr>so_replayed := True\<rparr>, e3)"
proof -
  have fresh: "\<not> so_replayed (value_of (SeatOperation 4 (seat_req ''take'' ''s1'' ''alice'') d3))" by code_simp
  have "live_step e1 e2" "live_step e2 e3"
    using live_step.submit [OF seat_runs(2)] live_step.seat_op [OF seat_runs(3)] by blast+
  then have "live_step\<^sup>*\<^sup>* e1 e3" by (meson converse_rtranclp_into_rtranclp rtranclp.rtrancl_refl)
  from seat_operation_exactly_once [OF scenario_reachable(3) seat_runs(1) fresh this refl refl, of 9] show ?thesis by simp
qed

end
