(* ===== verification/Encoding.thy ===== *)
theory Encoding
  imports Store_Types "HOL-Library.Word"
begin

unbundle bit_operations_syntax

text \<open>
  The encoders of Go's standard library that the service's fingerprints and session addresses are
  built from: \<^verbatim>\<open>json.Marshal\<close> of strings, integers and flat structs,
  \<^verbatim>\<open>hex.EncodeToString\<close>, \<^verbatim>\<open>time.Duration.String\<close> and
  \<^verbatim>\<open>sha256.Sum256\<close>.
\<close>

section \<open>Hexadecimal\<close>

definition hex_digit :: "nat \<Rightarrow> char" where
  "hex_digit n = (if n < 10 then char_of (48 + n) else char_of (87 + n))"

definition hex_byte :: "nat \<Rightarrow> string" where
  "hex_byte n = [hex_digit (n div 16), hex_digit (n mod 16)]"

definition hexString :: "string \<Rightarrow> string" where
  "hexString s = concat (map (\<lambda>c. hex_byte (of_char c)) s)"

section \<open>JSON\<close>

text \<open>
  The width of the valid UTF-8 sequence a byte string starts with, or 0. It is only asked for a first
  byte of at least 0x80.
\<close>

definition continuation :: "nat \<Rightarrow> nat \<Rightarrow> string \<Rightarrow> bool" where
  "continuation lo hi s = (case s of [] \<Rightarrow> False | c # _ \<Rightarrow> lo \<le> of_char c \<and> of_char c \<le> hi)"

definition utf8_width :: "string \<Rightarrow> nat" where
  "utf8_width s =
     (case s of
        [] \<Rightarrow> 0
      | a # r \<Rightarrow>
          (let x = of_char a :: nat;
               tail1 = continuation 0x80 0xBF (drop 1 r);
               tail2 = tail1 \<and> continuation 0x80 0xBF (drop 2 r)
           in if 0xC2 \<le> x \<and> x \<le> 0xDF then (if continuation 0x80 0xBF r then 2 else 0)
              else if x = 0xE0 then (if continuation 0xA0 0xBF r \<and> tail1 then 3 else 0)
              else if x = 0xED then (if continuation 0x80 0x9F r \<and> tail1 then 3 else 0)
              else if 0xE1 \<le> x \<and> x \<le> 0xEF then (if continuation 0x80 0xBF r \<and> tail1 then 3 else 0)
              else if x = 0xF0 then (if continuation 0x90 0xBF r \<and> tail2 then 4 else 0)
              else if x = 0xF4 then (if continuation 0x80 0x8F r \<and> tail2 then 4 else 0)
              else if 0xF1 \<le> x \<and> x \<le> 0xF3 then (if continuation 0x80 0xBF r \<and> tail2 then 4 else 0)
              else 0))"

text \<open>One ASCII byte, with the HTML escaping \<^verbatim>\<open>json.Marshal\<close> always applies.\<close>

definition json_ascii :: "char \<Rightarrow> string" where
  "json_ascii c =
     (let n = of_char c :: nat
      in if n = 0x22 then [CHR 0x5C, c]
         else if n = 0x5C then [CHR 0x5C, c]
         else if n = 8 then [CHR 0x5C, CHR ''b'']
         else if n = 12 then [CHR 0x5C, CHR ''f'']
         else if n = 10 then [CHR 0x5C, CHR ''n'']
         else if n = 13 then [CHR 0x5C, CHR ''r'']
         else if n = 9 then [CHR 0x5C, CHR ''t'']
         else if n < 0x20 \<or> n = 0x3C \<or> n = 0x3E \<or> n = 0x26 then CHR 0x5C # ''u00'' @ hex_byte n
         else [c])"

definition line_separator :: "string \<Rightarrow> bool" where
  "line_separator s =
     (case map of_char (take 3 s) :: nat list of
        [x, y, z] \<Rightarrow> x = 0xE2 \<and> y = 0x80 \<and> (z = 0xA8 \<or> z = 0xA9)
      | _ \<Rightarrow> False)"

function json_body :: "string \<Rightarrow> string" where
  "json_body [] = []"
| "json_body (c # r) =
     (if (of_char c :: nat) < 0x80 then json_ascii c @ json_body r
      else if utf8_width (c # r) = 0 then CHR 0x5C # ''ufffd'' @ json_body r
      else if line_separator (c # r)
      then CHR 0x5C # ''u202'' @ [hex_digit (of_char (r ! 1) mod 16)] @ json_body (drop 2 r)
      else take (utf8_width (c # r)) (c # r) @ json_body (drop (utf8_width (c # r)) (c # r)))"
  by pat_completeness auto
termination
  by (relation "measure length") auto

declare json_body.simps [simp del]

definition jsonString :: "string \<Rightarrow> string" where
  "jsonString s = CHR 0x22 # json_body s @ [CHR 0x22]"

datatype json = JString string | JInt int | JBool bool | JNull | JArray "json list" | JObject "(string \<times> json) list"

fun Marshal :: "json \<Rightarrow> string" and marshal_items :: "json list \<Rightarrow> string list"
  and marshal_fields :: "(string \<times> json) list \<Rightarrow> string list" where
  "Marshal (JString s) = jsonString s"
| "Marshal (JInt n) = dec n"
| "Marshal (JBool b) = (if b then ''true'' else ''false'')"
| "Marshal JNull = ''null''"
| "Marshal (JArray xs) = ''['' @ Join (marshal_items xs) '','' @ '']''"
| "Marshal (JObject fs) = ''{'' @ Join (marshal_fields fs) '','' @ ''}''"
| "marshal_items [] = []"
| "marshal_items (x # xs) = Marshal x # marshal_items xs"
| "marshal_fields [] = []"
| "marshal_fields ((k, x) # fs) = (jsonString k @ '':'' @ Marshal x) # marshal_fields fs"

section \<open>Durations\<close>

text \<open>\<open>fmtFrac v prec\<close>: the integral part of \<open>v / 10 ^ prec\<close> and the printed fraction.\<close>

definition fmtFrac :: "nat \<Rightarrow> nat \<Rightarrow> nat \<times> string" where
  "fmtFrac v prec =
     (let ds = trim_zeros (digits prec (v mod 10 ^ prec))
      in (v div 10 ^ prec, if ds = [] then '''' else ''.'' @ map digit_char ds))"

definition unit_text :: "nat \<Rightarrow> nat \<Rightarrow> string \<Rightarrow> string" where
  "unit_text v prec u = (case fmtFrac v prec of (whole, frac) \<Rightarrow> dec_nat whole @ frac @ u)"

definition durationString :: "duration \<Rightarrow> string" where
  "durationString d =
     (let u = nat \<bar>d\<bar>; sign = (if d < 0 then ''-'' else '''')
      in if u = 0 then ''0s''
         else if u < 1000 then sign @ unit_text u 0 ''ns''
         else if u < 1000000 then sign @ unit_text u 3 [CHR 0xC2, CHR 0xB5, CHR ''s'']
         else if u < 1000000000 then sign @ unit_text u 6 ''ms''
         else let (whole, frac) = fmtFrac u 9; seconds = dec_nat (whole mod 60) @ frac @ ''s'';
                  m = whole div 60; h = m div 60
              in sign @ (if h > 0 then dec_nat h @ ''h'' else '''')
                      @ (if m > 0 then dec_nat (m mod 60) @ ''m'' else '''') @ seconds)"

section \<open>SHA-256\<close>

definition sha_k :: "32 word list" where
  "sha_k = [
     1116352408, 1899447441, 3049323471, 3921009573, 961987163, 1508970993, 2453635748, 2870763221,
     3624381080, 310598401, 607225278, 1426881987, 1925078388, 2162078206, 2614888103, 3248222580,
     3835390401, 4022224774, 264347078, 604807628, 770255983, 1249150122, 1555081692, 1996064986,
     2554220882, 2821834349, 2952996808, 3210313671, 3336571891, 3584528711, 113926993, 338241895,
     666307205, 773529912, 1294757372, 1396182291, 1695183700, 1986661051, 2177026350, 2456956037,
     2730485921, 2820302411, 3259730800, 3345764771, 3516065817, 3600352804, 4094571909, 275423344,
     430227734, 506948616, 659060556, 883997877, 958139571, 1322822218, 1537002063, 1747873779,
     1955562222, 2024104815, 2227730452, 2361852424, 2428436474, 2756734187, 3204031479, 3329325298]"

definition sha_init :: "32 word list" where
  "sha_init = [1779033703, 3144134277, 1013904242, 2773480762, 1359893119, 2600822924, 528734635, 1541459225]"

definition rotr :: "nat \<Rightarrow> 32 word \<Rightarrow> 32 word" where
  "rotr n w = drop_bit n w OR push_bit (32 - n) w"

fun sha_schedule :: "nat \<Rightarrow> 32 word list \<Rightarrow> 32 word list" where
  "sha_schedule 0 w = w"
| "sha_schedule (Suc n) w =
     (let i = length w; w15 = w ! (i - 15); w2 = w ! (i - 2);
          s0 = rotr 7 w15 XOR rotr 18 w15 XOR drop_bit 3 w15;
          s1 = rotr 17 w2 XOR rotr 19 w2 XOR drop_bit 10 w2
      in sha_schedule n (w @ [w ! (i - 16) + s0 + w ! (i - 7) + s1]))"

definition sha_round :: "32 word \<times> 32 word \<Rightarrow> 32 word list \<Rightarrow> 32 word list" where
  "sha_round kw v =
     (case v of
        [a, b, c, d, e, f, g, h] \<Rightarrow>
          (let t1 = h + (rotr 6 e XOR rotr 11 e XOR rotr 25 e) + ((e AND f) XOR (NOT e AND g)) + fst kw + snd kw;
               t2 = (rotr 2 a XOR rotr 13 a XOR rotr 22 a) + ((a AND b) XOR (a AND c) XOR (b AND c))
           in [t1 + t2, a, b, c, d + t1, e, f, g])
      | _ \<Rightarrow> v)"

fun be_word :: "nat list \<Rightarrow> 32 word" where
  "be_word bs = foldl (\<lambda>acc b. push_bit 8 acc OR of_nat b) 0 bs"

fun chunks :: "nat \<Rightarrow> nat \<Rightarrow> 'a list \<Rightarrow> 'a list list" where
  "chunks k 0 xs = []"
| "chunks k (Suc n) xs = take k xs # chunks k n (drop k xs)"

definition sha_block :: "32 word list \<Rightarrow> nat list \<Rightarrow> 32 word list" where
  "sha_block h bs =
     (let w = sha_schedule 48 (map be_word (chunks 4 16 bs))
      in map2 (+) h (fold sha_round (zip sha_k w) h))"

definition sha_pad :: "nat list \<Rightarrow> nat list" where
  "sha_pad bs =
     (let l = length bs; z = (119 - l mod 64) mod 64; bits = 8 * l
      in bs @ [0x80] @ replicate z 0 @ map (\<lambda>i. bits div 256 ^ i mod 256) (rev [0..<8]))"

definition be_bytes :: "32 word \<Rightarrow> nat list" where
  "be_bytes w = map (\<lambda>i. unat w div 256 ^ i mod 256) [3, 2, 1, 0]"

definition Sum256 :: "string \<Rightarrow> string" where
  "Sum256 s =
     (let p = sha_pad (map of_char s);
          h = fold (\<lambda>b acc. sha_block acc b) (chunks 64 (length p div 64) p) sha_init
      in map char_of (concat (map be_bytes h)))"

section \<open>Facts\<close>

lemma of_hex_digit: "n < 16 \<Longrightarrow> of_char (hex_digit n) = (if n < 10 then 48 + n else 87 + n)"
  unfolding hex_digit_def by (simp only: if_distrib [of of_char] of_char_of) simp

lemma hex_digit_inject:
  assumes "a < 16" and "b < 16"
  shows "hex_digit a = hex_digit b \<longleftrightarrow> a = b"
proof
  assume "hex_digit a = hex_digit b"
  then have "(if a < 10 then 48 + a else 87 + a) = (if b < 10 then 48 + b else 87 + b)"
    using of_hex_digit [OF assms(1)] of_hex_digit [OF assms(2)] by simp
  then show "a = b" by (simp split: if_splits)
qed simp

lemma of_char_small: "of_char c < (256 :: nat)"
  by (metis of_char_mod_256 mod_less_divisor zero_less_numeral)

lemma hex_byte_inject: "a < 256 \<Longrightarrow> b < 256 \<Longrightarrow> hex_byte a = hex_byte b \<longleftrightarrow> a = b"
proof
  assume ab: "a < 256" "b < 256" and eq: "hex_byte a = hex_byte b"
  have "a div 16 < 16" and "b div 16 < 16" using ab by simp_all
  with eq have "a div 16 = b div 16" and "a mod 16 = b mod 16"
    by (simp_all add: hex_byte_def hex_digit_inject)
  then show "a = b" by (metis div_mult_mod_eq)
qed simp

lemma hexString_inject: "hexString s = hexString t \<Longrightarrow> s = t"
proof (induction s arbitrary: t)
  case Nil
  then show ?case by (cases t) (simp_all add: hexString_def hex_byte_def)
next
  case (Cons c s)
  then obtain c' t' where t: "t = c' # t'"
    by (cases t) (simp_all add: hexString_def hex_byte_def)
  from Cons.prems t have "hex_byte (of_char c) = hex_byte (of_char c')" and "hexString s = hexString t'"
    by (simp_all add: hexString_def hex_byte_def)
  then have "of_char c = (of_char c' :: nat)" and "s = t'"
    using Cons.IH by (simp_all add: hex_byte_inject of_char_small)
  with t show ?case by simp
qed

lemma length_chunks [simp]: "length (chunks k n xs) = n"
  by (induction n arbitrary: xs) simp_all

end
