(* ===== verification/Service.thy ===== *)
theory Service
  imports Fabric Encoding
begin

text \<open>
  The application layer (\<^verbatim>\<open>src/internal/service\<close>): validation and trimming of requests,
  request fingerprints, replay before current authority, error codes, session addresses, and the
  receipt pruning loops. An operation takes the service's configuration, the number \<open>k\<close> of
  generator draws made before it, and the clock reading \<open>now\<close>. Where it makes two store calls,
  \<open>between\<close> is what other requests commit to the database in between.
\<close>

section \<open>Errors\<close>

datatype cause = Text string | StoreErr store_error | BadSeatAddress string
datatype error_detail = NoDetail | DetailHolding holding | DetailCurrentVersion int
datatype svc_error = Error string cause error_detail | Plain cause | ContextDone

type_synonym 'a svc = "svc_error + 'a \<times> db"

abbreviation CodeInvalid :: string where "CodeInvalid \<equiv> ''invalid_request''"
abbreviation CodeNotFound :: string where "CodeNotFound \<equiv> ''not_found''"
abbreviation CodeConflict :: string where "CodeConflict \<equiv> ''conflict''"
abbreviation CodeStaleRevision :: string where "CodeStaleRevision \<equiv> ''stale_revision''"
abbreviation CodeAdapterMismatch :: string where "CodeAdapterMismatch \<equiv> ''adapter_mismatch''"
abbreviation CodeOperationConflict :: string where "CodeOperationConflict \<equiv> ''operation_conflict''"
abbreviation CodeInvalidSeatAddress :: string where "CodeInvalidSeatAddress \<equiv> ''invalid_seat_address''"

definition invalid :: "string \<Rightarrow> svc_error" where
  "invalid message = Error CodeInvalid (Text message) NoDetail"

fun seatErrorDetail :: "store_error \<Rightarrow> error_detail" where
  "seatErrorDetail (SeatHeldError h) = DetailHolding h"
| "seatErrorDetail (VersionConflictError v) = DetailCurrentVersion v"
| "seatErrorDetail _ = NoDetail"

fun errorCode :: "store_error \<Rightarrow> string option" where
  "errorCode (SeatHeldError _) = Some ''seat_held''"
| "errorCode ErrSeatVacant = Some ''seat_vacant''"
| "errorCode ErrNotHolder = Some ''not_holder''"
| "errorCode ErrSeatNotFound = Some ''seat_not_found''"
| "errorCode ErrSeatRetired = Some ''seat_retired''"
| "errorCode (VersionConflictError _) = Some ''version_conflict''"
| "errorCode ErrVersionPruned = Some ''version_pruned''"
| "errorCode ErrVersionNotFound = Some ''version_not_found''"
| "errorCode ErrNotFound = Some CodeNotFound"
| "errorCode ErrConflict = Some CodeConflict"
| "errorCode ErrOperationConflict = Some CodeOperationConflict"
| "errorCode ErrStaleRevision = Some CodeStaleRevision"
| "errorCode ErrLeaseExpired = Some ''lease_expired''"
| "errorCode ErrLeaseFenced = Some ''lease_fenced''"
| "errorCode ErrClaimFenced = Some ''claim_fenced''"
| "errorCode ErrNotBound = Some ''not_bound''"
| "errorCode ErrAdapterMismatch = Some CodeAdapterMismatch"
| "errorCode _ = None"

definition mapStoreError :: "store_error \<Rightarrow> svc_error" where
  "mapStoreError e =
     (case errorCode e of
        Some code \<Rightarrow> Error code (StoreErr e) (seatErrorDetail e)
      | None \<Rightarrow> Plain (StoreErr e))"

fun mapReplyError :: "store_error \<Rightarrow> svc_error" where
  "mapReplyError ErrReplyOriginalNotFound = Error ''reply_original_not_found'' (StoreErr ErrReplyOriginalNotFound) NoDetail"
| "mapReplyError ErrReplySenderMismatch = Error ''reply_sender_mismatch'' (StoreErr ErrReplySenderMismatch) NoDetail"
| "mapReplyError ErrReplyRecipientMismatch = Error ''reply_recipient_mismatch'' (StoreErr ErrReplyRecipientMismatch) NoDetail"
| "mapReplyError ErrReplyGenerationMismatch = Error ''reply_generation_mismatch'' (StoreErr ErrReplyGenerationMismatch) NoDetail"
| "mapReplyError e = mapStoreError e"

fun hasCode :: "svc_error \<Rightarrow> string \<Rightarrow> bool" where
  "hasCode (Error c _ _) code = (c = code)"
| "hasCode _ code = False"

definition operationConflict :: svc_error where
  "operationConflict = Error CodeOperationConflict (StoreErr ErrOperationConflict) NoDetail"

definition lift_store :: "store_error + 'a \<Rightarrow> svc_error + 'a" where
  "lift_store m = map_sum mapStoreError (\<lambda>x. x) m"

section \<open>The service value\<close>

text \<open>A generator's \<open>n\<close>-th draw is \<open>None\<close> when the random source fails.\<close>

type_synonym generator = "nat \<Rightarrow> string option"

record service =
  sv_max_lease_duration :: duration
  sv_max_ttl_duration :: duration
  sv_retention :: duration
  sv_tokens :: generator
  sv_ids :: generator
  sv_seat_text_versions :: int

datatype service_option =
    WithMaxLeaseDuration duration
  | WithTokenGenerator "generator option"
  | WithMaxTTLDuration duration
  | WithRetention duration
  | WithIDGenerator "generator option"
  | WithSeatTextVersions int

abbreviation Second :: duration where "Second \<equiv> 1000000000"

text \<open>\<open>entropy n\<close> is what the \<open>n\<close>-th read of 24 random bytes returns.\<close>

definition randomToken :: "(nat \<Rightarrow> string option) \<Rightarrow> generator" where
  "randomToken entropy n = map_option hexString (entropy n)"

fun apply_option :: "service_option \<Rightarrow> service \<Rightarrow> svc_error + service" where
  "apply_option (WithMaxLeaseDuration v) s =
     (if v \<le> 0 then Inl (Plain (Text ''maximum lease duration must be positive''))
      else Inr (s\<lparr>sv_max_lease_duration := v\<rparr>))"
| "apply_option (WithTokenGenerator g) s =
     (case g of None \<Rightarrow> Inl (Plain (Text ''token generator is required''))
      | Some g \<Rightarrow> Inr (s\<lparr>sv_tokens := g\<rparr>))"
| "apply_option (WithMaxTTLDuration v) s =
     (if v \<le> 0 then Inl (Plain (Text ''maximum TTL duration must be positive''))
      else Inr (s\<lparr>sv_max_ttl_duration := v\<rparr>))"
| "apply_option (WithRetention v) s =
     (if v \<le> 0 then Inl (Plain (Text ''retention must be positive''))
      else Inr (s\<lparr>sv_retention := v\<rparr>))"
| "apply_option (WithIDGenerator g) s =
     (case g of None \<Rightarrow> Inl (Plain (Text ''ID generator is required''))
      | Some g \<Rightarrow> Inr (s\<lparr>sv_ids := g\<rparr>))"
| "apply_option (WithSeatTextVersions v) s =
     (if v \<le> 0 then Inl (Plain (Text ''seat text versions must be positive''))
      else Inr (s\<lparr>sv_seat_text_versions := v\<rparr>))"

fun apply_options :: "service_option list \<Rightarrow> service \<Rightarrow> svc_error + service" where
  "apply_options [] s = Inr s"
| "apply_options (opt # opts) s = bindR (apply_option opt s) (apply_options opts)"

definition New :: "(nat \<Rightarrow> string option) \<Rightarrow> (nat \<Rightarrow> string option) \<Rightarrow> service_option list \<Rightarrow> svc_error + service" where
  "New token_entropy id_entropy opts =
     apply_options opts
       \<lparr>sv_max_lease_duration = 5 * 60 * Second, sv_max_ttl_duration = 24 * 3600 * Second,
        sv_retention = 7 * 24 * 3600 * Second, sv_tokens = randomToken token_entropy,
        sv_ids = randomToken id_entropy, sv_seat_text_versions = 50\<rparr>"

definition draw :: "string \<Rightarrow> string option \<Rightarrow> svc_error + string" where
  "draw what g = ok_or (Plain (Text what)) g"

section \<open>Validation\<close>

definition required :: "string \<Rightarrow> string \<Rightarrow> svc_error + unit" where
  "required name value =
     refuse_if (TrimSpace value = '''') (Error CodeInvalid (Text (name @ '' is required'')) NoDetail)"

fun requireAll :: "(string \<times> string) list \<Rightarrow> svc_error + unit" where
  "requireAll [] = Inr ()"
| "requireAll ((name, value) # fs) = bindR (required name value) (\<lambda>_. requireAll fs)"

definition requireFields :: "string list \<Rightarrow> svc_error + unit" where
  "requireFields values = requireAll (map (\<lambda>v. (''field'', v)) values)"

definition leaseDuration :: "service \<Rightarrow> duration \<Rightarrow> svc_error + duration" where
  "leaseDuration s value =
     (if value \<le> 0 \<or> value > sv_max_lease_duration s
      then Inl (invalid (''lease_duration must be greater than zero and at most '' @
                          durationString (sv_max_lease_duration s)))
      else Inr value)"

definition ttlBound :: "service \<Rightarrow> string \<Rightarrow> duration \<Rightarrow> svc_error + unit" where
  "ttlBound s name value =
     refuse_if (value \<le> 0 \<or> value > sv_max_ttl_duration s)
       (invalid (name @ '' must be greater than zero and at most '' @ durationString (sv_max_ttl_duration s)))"

definition seatAddress :: "string \<Rightarrow> svc_error + string" where
  "seatAddress value =
     (if IsSeatAddress (TrimSpace value) then Inr (TrimSpace value)
      else Inl (Error CodeInvalidSeatAddress (BadSeatAddress (TrimSpace value)) NoDetail))"

definition seatReadAddress :: "string \<Rightarrow> svc_error + string" where
  "seatReadAddress value =
     (if TrimSpace value = ''''
      then Inl (Error CodeInvalidSeatAddress (Text ''seat address is required'') NoDetail)
      else Inr (TrimSpace value))"

definition validTextKind :: "string \<Rightarrow> svc_error + unit" where
  "validTextKind kind =
     refuse_if (kind \<noteq> SeatTextCharter \<and> kind \<noteq> SeatTextHandoff) (invalid ''kind must be charter or handoff'')"

text \<open>
  A set of byte strings, sorted. The Go loop stops at the first bad value and collects the others in a
  map whose iteration order does not matter because the result is sorted.
\<close>

definition canonicalCapabilities :: "string list \<Rightarrow> svc_error + string list" where
  "canonicalCapabilities values =
     (if list_ex (\<lambda>v. v \<noteq> TrimSpace v \<or> v = '''') values
      then Inl (invalid ''capabilities must contain non-empty trimmed strings'')
      else Inr (sort (remdups values)))"

definition reasonChar :: "char \<Rightarrow> bool" where
  "reasonChar c =
     (let n = of_char c :: nat in (97 \<le> n \<and> n \<le> 122) \<or> (48 \<le> n \<and> n \<le> 57) \<or> c = CHR ''_'')"

definition reasonCode :: "string \<Rightarrow> bool" where
  "reasonCode v = (v \<noteq> '''' \<and> length v \<le> 64 \<and> list_all reasonChar v)"

section \<open>Adapters and bindings\<close>

record svc_register_request =
  vr_adapter_id :: string
  vr_instance_id :: string
  vr_previous_lease_token :: string
  vr_lease_duration :: duration

record svc_renew_request =
  vn_adapter_id :: string
  vn_lease_token :: string
  vn_lease_duration :: duration

definition SvcRegisterAdapter ::
  "service \<Rightarrow> nat \<Rightarrow> time \<Rightarrow> svc_register_request \<Rightarrow> db \<Rightarrow> adapter_lease svc" where
  "SvcRegisterAdapter s k now r d =
     bindR (requireAll [(''adapter_id'', vr_adapter_id r), (''instance_id'', vr_instance_id r)]) (\<lambda>_.
     bindR (refuse_if (HasPrefix (TrimSpace (vr_adapter_id r)) ''fabric/'')
              (invalid ''adapter IDs starting with fabric/ are reserved for the service'')) (\<lambda>_.
     bindR (leaseDuration s (vr_lease_duration r)) (\<lambda>duration.
     bindR (draw ''create adapter lease'' (sv_tokens s k)) (\<lambda>token.
     lift_store (RegisterAdapter now
       \<lparr>rg_adapter_id = vr_adapter_id r, rg_instance_id = vr_instance_id r, rg_lease_token = token,
        rg_previous_lease_token = vr_previous_lease_token r, rg_expires_at = now + duration\<rparr> d)))))"

definition SvcRenewAdapter :: "service \<Rightarrow> time \<Rightarrow> svc_renew_request \<Rightarrow> db \<Rightarrow> adapter_lease svc" where
  "SvcRenewAdapter s now r d =
     bindR (requireAll [(''adapter_id'', vn_adapter_id r), (''lease_token'', vn_lease_token r)]) (\<lambda>_.
     bindR (leaseDuration s (vn_lease_duration r)) (\<lambda>duration.
     lift_store (RenewAdapter now
       \<lparr>rn_adapter_id = vn_adapter_id r, rn_lease_token = vn_lease_token r,
        rn_expires_at = now + duration\<rparr> d)))"

definition SvcPutBinding :: "time \<Rightarrow> put_binding_request \<Rightarrow> db \<Rightarrow> binding svc" where
  "SvcPutBinding now r d =
     bindR (requireAll [(''address'', pb_address r), (''actor_adapter_id'', pb_actor_adapter_id r),
              (''lease_token'', pb_lease_token r), (''adapter_id'', pb_adapter_id r),
              (''target_ref'', pb_target_ref r)]) (\<lambda>_.
     bindR (refuse_if (IsSeatAddress (TrimSpace (pb_address r)))
              (invalid ''scope.name addresses are seats; take the seat instead of binding it'')) (\<lambda>_.
     bindR (canonicalCapabilities (pb_capabilities r)) (\<lambda>capabilities.
     lift_store (PutBinding now (r\<lparr>pb_capabilities := capabilities\<rparr>) d))))"

definition SvcUnbind :: "time \<Rightarrow> unbind_request \<Rightarrow> db \<Rightarrow> binding svc" where
  "SvcUnbind now r d =
     bindR (requireAll [(''address'', ub_address r), (''actor_adapter_id'', ub_actor_adapter_id r),
              (''lease_token'', ub_lease_token r)]) (\<lambda>_.
     lift_store (Unbind now r d))"

definition SvcResolve :: "string \<Rightarrow> db \<Rightarrow> svc_error + binding" where
  "SvcResolve address d =
     bindR (required ''address'' address) (\<lambda>_. lift_store (Resolve address d))"

definition SvcFenceSender :: "time \<Rightarrow> sender_fence_request \<Rightarrow> db \<Rightarrow> binding svc" where
  "SvcFenceSender now r d =
     bindR (requireAll [(''adapter_id'', sf_adapter_id r), (''lease_token'', sf_lease_token r),
              (''sender_address'', sf_sender_address r)]) (\<lambda>_.
     lift_store (FenceSender now r d))"

section \<open>Session addresses\<close>

record session_address_request =
  ra_adapter_id :: string
  ra_lease_token :: string
  ra_native_key :: string
  ra_capabilities :: "string list"

abbreviation SessionAddressPrefix :: string where "SessionAddressPrefix \<equiv> ''s/''"

definition SessionAddress :: "string \<Rightarrow> string \<Rightarrow> string" where
  "SessionAddress adapterID nativeKey =
     SessionAddressPrefix @ hexString (take 8 (Sum256 (adapterID @ [CHR 0x00] @ nativeKey)))"

definition sessionPut :: "session_address_request \<Rightarrow> string list \<Rightarrow> put_binding_request" where
  "sessionPut r capabilities =
     \<lparr>pb_address = SessionAddress (ra_adapter_id r) (ra_native_key r),
      pb_actor_adapter_id = ra_adapter_id r, pb_lease_token = ra_lease_token r,
      pb_adapter_id = ra_adapter_id r, pb_target_ref = ra_native_key r,
      pb_capabilities = capabilities, pb_expected_revision = None\<rparr>"

text \<open>
  The loop of \<^verbatim>\<open>RegisterSessionAddress\<close>; \<open>attempts\<close> counts down from 3. \<open>env i\<close> is what
  other requests commit between the read and the write of an attempt.
\<close>

fun registerLoop ::
  "(nat \<Rightarrow> db \<Rightarrow> db) \<Rightarrow> time \<Rightarrow> nat \<Rightarrow> put_binding_request \<Rightarrow> db \<Rightarrow> binding svc" where
  "registerLoop env now 0 put d =
     Inl (Error CodeConflict (Text ''session address registration kept racing'') NoDetail)"
| "registerLoop env now (Suc attempts) put d =
     (case SvcResolve (pb_address put) d of
        Inl e \<Rightarrow>
          if hasCode e CodeNotFound
          then (case SvcPutBinding now put (env attempts d) of
                  Inl e' \<Rightarrow>
                    if hasCode e' CodeConflict \<or> hasCode e' CodeStaleRevision
                    then registerLoop env now attempts put (env attempts d)
                    else Inl e'
                | Inr res \<Rightarrow> Inr res)
          else Inl e
      | Inr existing \<Rightarrow>
          if b_bound existing \<and> b_adapter_id existing \<noteq> pb_adapter_id put
          then Inl (Error CodeAdapterMismatch (Text ''session address is bound to another adapter'') NoDetail)
          else if b_bound existing \<and> b_target_ref existing = pb_target_ref put
                  \<and> b_capabilities existing = pb_capabilities put
          then Inr (existing, d)
          else
            let put' = put\<lparr>pb_expected_revision := Some (b_revision existing)\<rparr>
            in case SvcPutBinding now put' (env attempts d) of
                 Inl e' \<Rightarrow>
                   if hasCode e' CodeStaleRevision then registerLoop env now attempts put' (env attempts d)
                   else Inl e'
               | Inr res \<Rightarrow> Inr res)"

definition RegisterSessionAddress ::
  "(nat \<Rightarrow> db \<Rightarrow> db) \<Rightarrow> time \<Rightarrow> session_address_request \<Rightarrow> db \<Rightarrow> binding svc" where
  "RegisterSessionAddress env now r d =
     bindR (requireAll [(''adapter_id'', ra_adapter_id r), (''lease_token'', ra_lease_token r),
              (''native_key'', ra_native_key r)]) (\<lambda>_.
     bindR (canonicalCapabilities (ra_capabilities r)) (\<lambda>capabilities.
     registerLoop env now 3 (sessionPut r capabilities) d))"

definition PublicBinding :: "binding \<Rightarrow> binding" where
  "PublicBinding b = (if HasPrefix (b_address b) SessionAddressPrefix then b\<lparr>b_target_ref := ''''\<rparr> else b)"

definition PublicBindings :: "binding list \<Rightarrow> binding list" where
  "PublicBindings bs = map PublicBinding bs"

section \<open>Messages\<close>

record submit_message_request =
  ms_producer_id :: string
  ms_lease_token :: string
  ms_operation_id :: string
  ms_sender_address :: string
  ms_recipient_address :: string
  ms_body :: string
  ms_correlation_id :: string
  ms_reply_to_message_id :: string
  ms_activation_policy :: string
  ms_ttl :: duration
  ms_expected_sender_generation :: "int option"
  ms_expected_recipient_generation :: "int option"
  ms_as_seat :: string

definition sha256_hex :: "json \<Rightarrow> string" where
  "sha256_hex v = hexString (Sum256 (Marshal v))"

definition messageFingerprint :: "submit_message_request \<Rightarrow> string" where
  "messageFingerprint r =
     sha256_hex (JObject ([(''SenderAddress'', JString (ms_sender_address r)),
       (''RecipientAddress'', JString (ms_recipient_address r)), (''Body'', JString (ms_body r)),
       (''CorrelationID'', JString (ms_correlation_id r)),
       (''ReplyToMessageID'', JString (ms_reply_to_message_id r)),
       (''ActivationPolicy'', JString (ms_activation_policy r)), (''TTLNanoseconds'', JInt (ms_ttl r))] @
       (if ms_as_seat r = '''' then [] else [(''AsSeat'', JString (ms_as_seat r))])))"

definition legacyPolicyNames :: "string \<rightharpoonup> string" where
  "legacyPolicyNames = [PolicyNextTurn \<mapsto> ''wake_when_idle'', PolicyNoWake \<mapsto> ''never_wake'']"

definition matchesLegacyFingerprint ::
  "string \<Rightarrow> submit_message_request \<Rightarrow> (submit_message_request \<Rightarrow> string) \<Rightarrow> bool" where
  "matchesLegacyFingerprint stored r fingerprint =
     (case legacyPolicyNames (ms_activation_policy r) of
        None \<Rightarrow> False
      | Some legacy \<Rightarrow> fingerprint (r\<lparr>ms_activation_policy := legacy\<rparr>) = stored)"

definition senderFields :: "submit_message_request \<Rightarrow> (string \<times> string) list" where
  "senderFields r = [(''producer_id'', ms_producer_id r), (''lease_token'', ms_lease_token r),
     (''operation_id'', ms_operation_id r), (''sender_address'', ms_sender_address r),
     (''recipient_address'', ms_recipient_address r)]"

definition policyOf :: "string \<Rightarrow> svc_error + string" where
  "policyOf policy =
     (case NormalizePolicy policy of
        (p, ok) \<Rightarrow> if ok then Inr p
                   else Inl (invalid ''activation_policy must be next_turn, next_step or no_wake''))"

text \<open>The checks and normalization before the fingerprint.\<close>

definition normalizeSubmit :: "service \<Rightarrow> submit_message_request \<Rightarrow> svc_error + submit_message_request" where
  "normalizeSubmit s r0 =
     bindR (requireAll (senderFields r0)) (\<lambda>_.
     bindR (refuse_if (TrimSpace (ms_body r0) = '''') (invalid ''body is required'')) (\<lambda>_.
     let r = r0\<lparr>ms_producer_id := TrimSpace (ms_producer_id r0), ms_operation_id := TrimSpace (ms_operation_id r0),
               ms_sender_address := TrimSpace (ms_sender_address r0),
               ms_recipient_address := TrimSpace (ms_recipient_address r0),
               ms_correlation_id := TrimSpace (ms_correlation_id r0),
               ms_reply_to_message_id := TrimSpace (ms_reply_to_message_id r0),
               ms_as_seat := TrimSpace (ms_as_seat r0)\<rparr>
     in bindR (if ms_as_seat r = '''' then Inr '''' else seatAddress (ms_as_seat r)) (\<lambda>_.
        bindR (policyOf (ms_activation_policy r)) (\<lambda>policy.
        bindR (ttlBound s ''ttl'' (ms_ttl r)) (\<lambda>_.
        Inr (r\<lparr>ms_activation_policy := policy\<rparr>))))))"

definition storeSubmit ::
  "time \<Rightarrow> submit_message_request \<Rightarrow> string \<Rightarrow> string \<Rightarrow> string \<Rightarrow> submit_request" where
  "storeSubmit now r fingerprint messageID deliveryID =
     \<lparr>sm_producer_id = ms_producer_id r, sm_lease_token = ms_lease_token r,
      sm_operation_id = ms_operation_id r, sm_fingerprint = fingerprint, sm_message_id = messageID,
      sm_delivery_id = deliveryID, sm_sender_address = ms_sender_address r,
      sm_recipient_address = ms_recipient_address r, sm_body = ms_body r,
      sm_correlation_id = ms_correlation_id r, sm_reply_to_message_id = ms_reply_to_message_id r,
      sm_activation_policy = ms_activation_policy r, sm_expires_at = now + ms_ttl r,
      sm_expected_sender_generation = ms_expected_sender_generation r,
      sm_expected_recipient_generation = ms_expected_recipient_generation r,
      sm_as_seat = ms_as_seat r\<rparr>"

definition SvcSubmitMessage ::
  "service \<Rightarrow> nat \<Rightarrow> time \<Rightarrow> (db \<Rightarrow> db) \<Rightarrow> submit_message_request \<Rightarrow> db \<Rightarrow> submit_result svc" where
  "SvcSubmitMessage s k now between r0 d =
     bindR (normalizeSubmit s r0) (\<lambda>r.
     let fingerprint = messageFingerprint r
     in bindR (lift_store (LookupMessageOperation (ms_producer_id r) (ms_operation_id r) d)) (\<lambda>found.
        case found of
          Some e \<Rightarrow>
            if sub_fingerprint e \<noteq> fingerprint \<and> \<not> matchesLegacyFingerprint (sub_fingerprint e) r messageFingerprint
            then Inl operationConflict
            else Inr (\<lparr>sr_message = sub_message e, sr_delivery = sub_delivery e, sr_replayed = True\<rparr>, d)
        | None \<Rightarrow>
            bindR (draw ''generate message ID'' (sv_ids s k)) (\<lambda>messageID.
            bindR (draw ''generate delivery ID'' (sv_ids s (k + 1))) (\<lambda>deliveryID.
            map_sum mapReplyError (\<lambda>x. x)
              (SubmitMessage now (storeSubmit now r fingerprint messageID deliveryID) (between d))))))"

definition SvcGetMessage :: "string \<Rightarrow> db \<Rightarrow> svc_error + message" where
  "SvcGetMessage messageID d =
     bindR (required ''message_id'' messageID) (\<lambda>_. lift_store (GetMessage (TrimSpace messageID) d))"

definition SvcGetDelivery :: "string \<Rightarrow> db \<Rightarrow> svc_error + delivery" where
  "SvcGetDelivery deliveryID d =
     bindR (required ''delivery_id'' deliveryID) (\<lambda>_. lift_store (GetDelivery (TrimSpace deliveryID) d))"

definition SvcListDispatching :: "string \<Rightarrow> db \<Rightarrow> svc_error + delivery list" where
  "SvcListDispatching adapterID d =
     bindR (required ''claim_owner'' adapterID) (\<lambda>_. Inr (ListDispatching (TrimSpace adapterID) 200 d))"

definition SvcMailbox :: "string \<Rightarrow> db \<Rightarrow> svc_error + delivery list" where
  "SvcMailbox address d =
     bindR (required ''recipient_address'' address) (\<lambda>_. Inr (Mailbox (TrimSpace address) d))"

definition SvcHeadDelivery :: "string \<Rightarrow> int \<Rightarrow> db \<Rightarrow> svc_error + delivery option" where
  "SvcHeadDelivery address generation d =
     bindR (required ''recipient_address'' address) (\<lambda>_.
     bindR (refuse_if (generation \<le> 0) (invalid ''recipient_generation must be positive'')) (\<lambda>_.
     Inr (HeadDelivery (TrimSpace address) generation d)))"

definition SvcCancelDelivery :: "time \<Rightarrow> string \<Rightarrow> db \<Rightarrow> delivery svc" where
  "SvcCancelDelivery now deliveryID d =
     bindR (required ''delivery_id'' deliveryID) (\<lambda>_. lift_store (CancelDelivery now (TrimSpace deliveryID) d))"

definition SvcSettlePending :: "time \<Rightarrow> db \<Rightarrow> (delivery list) svc" where
  "SvcSettlePending now d = lift_store (SettlePending now d)"

section \<open>Rounds\<close>

definition roundFingerprint :: "duration \<Rightarrow> submit_message_request \<Rightarrow> string" where
  "roundFingerprint roundTTL root =
     sha256_hex (JObject [(''Family'', JString ''round_root''),
       (''SenderAddress'', JString (ms_sender_address root)),
       (''RecipientAddress'', JString (ms_recipient_address root)), (''Body'', JString (ms_body root)),
       (''CorrelationID'', JString (ms_correlation_id root)),
       (''ActivationPolicy'', JString (ms_activation_policy root)), (''TTL'', JInt (ms_ttl root)),
       (''RoundTTL'', JInt roundTTL)])"

definition normalizeRoot :: "service \<Rightarrow> duration \<Rightarrow> submit_message_request \<Rightarrow> svc_error + submit_message_request" where
  "normalizeRoot s roundTTL root =
     bindR (ttlBound s ''round_ttl'' roundTTL) (\<lambda>_.
     bindR (requireAll (senderFields root)) (\<lambda>_.
     bindR (refuse_if (TrimSpace (ms_body root) = '''') (invalid ''body is required'')) (\<lambda>_.
     bindR (refuse_if (ms_reply_to_message_id root \<noteq> '''') (invalid ''round root cannot be a reply'')) (\<lambda>_.
     bindR (policyOf (ms_activation_policy root)) (\<lambda>policy.
     bindR (ttlBound s ''ttl'' (ms_ttl root)) (\<lambda>_.
     Inr (root\<lparr>ms_activation_policy := policy, ms_producer_id := TrimSpace (ms_producer_id root),
               ms_operation_id := TrimSpace (ms_operation_id root),
               ms_sender_address := TrimSpace (ms_sender_address root),
               ms_recipient_address := TrimSpace (ms_recipient_address root),
               ms_correlation_id := TrimSpace (ms_correlation_id root)\<rparr>)))))))"

text \<open>The store request of a round leaves out the reply, the expected generations and the seat.\<close>

definition storeRoot ::
  "time \<Rightarrow> submit_message_request \<Rightarrow> string \<Rightarrow> string \<Rightarrow> string \<Rightarrow> submit_request" where
  "storeRoot now root fingerprint messageID deliveryID =
     (storeSubmit now root fingerprint messageID deliveryID)
       \<lparr>sm_reply_to_message_id := '''', sm_expected_sender_generation := None,
        sm_expected_recipient_generation := None, sm_as_seat := ''''\<rparr>"

definition SvcBeginRound ::
  "service \<Rightarrow> nat \<Rightarrow> time \<Rightarrow> (db \<Rightarrow> db) \<Rightarrow> submit_message_request \<Rightarrow> duration \<Rightarrow> db \<Rightarrow> begin_round_result svc" where
  "SvcBeginRound s k now between root0 roundTTL d =
     bindR (normalizeRoot s roundTTL root0) (\<lambda>root.
     let fingerprint = roundFingerprint roundTTL root
     in bindR (lift_store (LookupRoundOperation (ms_producer_id root) (ms_operation_id root) d)) (\<lambda>found.
        case found of
          Some (fp, res) \<Rightarrow>
            if fp \<noteq> fingerprint \<and> \<not> matchesLegacyFingerprint fp root (roundFingerprint roundTTL)
            then Inl operationConflict
            else Inr (res\<lparr>br_replayed := True\<rparr>, d)
        | None \<Rightarrow>
            bindR (draw ''generate round ID'' (sv_ids s k)) (\<lambda>roundID.
            bindR (draw ''generate message ID'' (sv_ids s (k + 1))) (\<lambda>messageID.
            bindR (draw ''generate delivery ID'' (sv_ids s (k + 2))) (\<lambda>deliveryID.
            lift_store (BeginRound now
              \<lparr>bq_submit = storeRoot now root fingerprint messageID deliveryID,
               bq_round_id = roundID, bq_round_expires_at = now + roundTTL\<rparr> (between d)))))))"

definition SvcGetRound :: "string \<Rightarrow> db \<Rightarrow> svc_error + round" where
  "SvcGetRound roundID d =
     bindR (required ''round_id'' roundID) (\<lambda>_. lift_store (GetRound (TrimSpace roundID) d))"

definition SvcCancelRound :: "time \<Rightarrow> string \<Rightarrow> db \<Rightarrow> round svc" where
  "SvcCancelRound now roundID d =
     bindR (required ''round_id'' roundID) (\<lambda>_. lift_store (CancelRound now (TrimSpace roundID) d))"

definition SvcSettleRounds :: "time \<Rightarrow> db \<Rightarrow> (round list) svc" where
  "SvcSettleRounds now d = lift_store (SettleRounds now d)"

text \<open>
  One turn of the waiting loop sees the database, the service clock, how much of the wall-clock
  timeout remains, and whether the request's context ends during the pause. \<open>None\<close> is a wait that has
  not returned within the given turns.
\<close>

record wait_turn =
  wt_db :: db
  wt_now :: time
  wt_remaining :: duration
  wt_done :: bool

record wait_result =
  wr_round :: round
  wr_timed_out :: bool
  wr_observed_expired :: bool

fun waitLoop :: "string \<Rightarrow> wait_turn list \<Rightarrow> (svc_error + wait_result) option" where
  "waitLoop roundID [] = None"
| "waitLoop roundID (t # ts) =
     (case SvcGetRound roundID (wt_db t) of
        Inl e \<Rightarrow> Some (Inl e)
      | Inr round \<Rightarrow>
          if r_status round \<noteq> RPending
          then Some (Inr \<lparr>wr_round = round, wr_timed_out = False, wr_observed_expired = False\<rparr>)
          else if \<not> r_expires_at round > wt_now t
          then Some (Inr \<lparr>wr_round = round, wr_timed_out = False, wr_observed_expired = True\<rparr>)
          else if wt_remaining t \<le> 0
          then Some (Inr \<lparr>wr_round = round, wr_timed_out = True, wr_observed_expired = False\<rparr>)
          else if wt_done t then Some (Inl ContextDone)
          else waitLoop roundID ts)"

text \<open>
  \<open>turns timeout\<close> are the turns a wait with that timeout makes: the loop computes its deadline from
  the timeout, with zero standing for the default of 100 ms.
\<close>

definition WaitRound ::
  "string \<Rightarrow> duration \<Rightarrow> (duration \<Rightarrow> wait_turn list) \<Rightarrow> (svc_error + wait_result) option" where
  "WaitRound roundID timeout turns =
     (case bindR (required ''round_id'' roundID) (\<lambda>_.
             refuse_if (timeout < 0 \<or> timeout > 5 * Second)
               (invalid ''round wait timeout must be between zero and 5s'')) of
        Inl e \<Rightarrow> Some (Inl e)
      | Inr _ \<Rightarrow> waitLoop roundID (turns (if timeout = 0 then 100000000 else timeout)))"

section \<open>Delivery operations\<close>

record claim_delivery_request =
  cq_adapter_id :: string
  cq_lease_token :: string
  cq_operation_id :: string
  cq_recipient_address :: string
  cq_availability :: string
  cq_recipient_generation :: int
  cq_claim_duration :: duration

text \<open>The identity every other delivery request carries.\<close>

record delivery_request =
  de_adapter_id :: string
  de_lease_token :: string
  de_operation_id :: string
  de_delivery_id :: string
  de_claim_token :: string
  de_native_attempt_ref :: string

definition deliveryFingerprint :: "string \<Rightarrow> json list \<Rightarrow> string" where
  "deliveryFingerprint kind values =
     hexString (Marshal (JObject [(''kind'', JString kind), (''values'', JArray values)]))"

definition replayDeliveryOperation ::
  "string \<Rightarrow> string \<Rightarrow> string \<Rightarrow> db \<Rightarrow> svc_error + delivery_op_result option" where
  "replayDeliveryOperation adapter operation fingerprint d =
     (case LookupDeliveryOperation adapter operation d of
        None \<Rightarrow> Inr None
      | Some (fp, res) \<Rightarrow> if fp \<noteq> fingerprint then Inl operationConflict else Inr (Some res))"

definition emptyDeliveryOperation :: delivery_op_request where
  "emptyDeliveryOperation =
     \<lparr>dq_kind = '''', dq_adapter_id = '''', dq_lease_token = '''', dq_operation_id = '''',
      dq_fingerprint = '''', dq_address = '''', dq_generation = 0, dq_availability = '''',
      dq_claim_duration = 0, dq_generated_claim_token = '''', dq_delivery_id = '''',
      dq_claim_token = '''', dq_native_attempt_ref = '''', dq_failure_reason = ''''\<rparr>"

definition SvcClaimDelivery ::
  "service \<Rightarrow> nat \<Rightarrow> time \<Rightarrow> (db \<Rightarrow> db) \<Rightarrow> claim_delivery_request \<Rightarrow> db \<Rightarrow> claim_result svc" where
  "SvcClaimDelivery s k now between r d =
     bindR (requireFields [cq_adapter_id r, cq_lease_token r, cq_operation_id r, cq_recipient_address r]) (\<lambda>_.
     bindR (refuse_if (cq_recipient_generation r \<le> 0) (invalid ''recipient_generation must be positive'')) (\<lambda>_.
     bindR (refuse_if (cq_availability r \<noteq> AvailabilityBusy \<and> cq_availability r \<noteq> AvailabilityIdle
                       \<and> cq_availability r \<noteq> AvailabilityInactive)
              (invalid ''availability must be busy, idle, or inactive'')) (\<lambda>_.
     bindR (leaseDuration s (cq_claim_duration r)) (\<lambda>duration.
     let fp = deliveryFingerprint ''claim''
                [JString (cq_recipient_address r), JInt (cq_recipient_generation r),
                 JString (cq_availability r), JString (durationString duration)]
     in bindR (replayDeliveryOperation (cq_adapter_id r) (cq_operation_id r) fp d) (\<lambda>found.
        case found of
          Some res \<Rightarrow> Inr ((do_claim res)\<lparr>cr_replayed := True\<rparr>, d)
        | None \<Rightarrow>
            bindR (draw ''create claim token'' (sv_tokens s k)) (\<lambda>token.
            bindR (lift_store (DeliveryOperation now
                    (emptyDeliveryOperation\<lparr>dq_kind := ''claim'', dq_adapter_id := cq_adapter_id r,
                       dq_lease_token := cq_lease_token r, dq_operation_id := cq_operation_id r,
                       dq_fingerprint := fp, dq_address := cq_recipient_address r,
                       dq_generation := cq_recipient_generation r, dq_availability := cq_availability r,
                       dq_claim_duration := duration, dq_generated_claim_token := token\<rparr>) (between d)))
              (\<lambda>(res, d1). Inr (do_claim res, d1))))))))"

definition storeDelivery ::
  "time \<Rightarrow> (db \<Rightarrow> db) \<Rightarrow> delivery_op_request \<Rightarrow> db \<Rightarrow> (delivery option) svc" where
  "storeDelivery now between q d =
     bindR (replayDeliveryOperation (dq_adapter_id q) (dq_operation_id q) (dq_fingerprint q) d) (\<lambda>found.
       case found of
         Some res \<Rightarrow> Inr (do_delivery res, d)
       | None \<Rightarrow>
           bindR (lift_store (DeliveryOperation now q (between d))) (\<lambda>(res, d1). Inr (do_delivery res, d1)))"

definition claimMutation ::
  "service \<Rightarrow> time \<Rightarrow> (db \<Rightarrow> db) \<Rightarrow> string \<Rightarrow> delivery_request \<Rightarrow> duration \<Rightarrow> db \<Rightarrow> (delivery option) svc" where
  "claimMutation s now between kind r duration0 d =
     bindR (requireFields [de_adapter_id r, de_lease_token r, de_operation_id r, de_delivery_id r,
              de_claim_token r]) (\<lambda>_.
     bindR (if kind = ''renew'' then leaseDuration s duration0 else Inr duration0) (\<lambda>duration.
     storeDelivery now between
       (emptyDeliveryOperation\<lparr>dq_kind := kind, dq_adapter_id := de_adapter_id r,
          dq_lease_token := de_lease_token r, dq_operation_id := de_operation_id r,
          dq_fingerprint := deliveryFingerprint kind
            [JString (de_delivery_id r), JString (de_native_attempt_ref r), JString (durationString duration)],
          dq_delivery_id := de_delivery_id r, dq_claim_token := de_claim_token r,
          dq_native_attempt_ref := de_native_attempt_ref r, dq_claim_duration := duration\<rparr>) d))"

definition SvcReconcile ::
  "time \<Rightarrow> (db \<Rightarrow> db) \<Rightarrow> string \<Rightarrow> delivery_request \<Rightarrow> db \<Rightarrow> (delivery option) svc" where
  "SvcReconcile now between kind r d =
     bindR (requireFields [de_adapter_id r, de_lease_token r, de_operation_id r, de_delivery_id r,
              de_native_attempt_ref r]) (\<lambda>_.
     storeDelivery now between
       (emptyDeliveryOperation\<lparr>dq_kind := kind, dq_adapter_id := de_adapter_id r,
          dq_lease_token := de_lease_token r, dq_operation_id := de_operation_id r,
          dq_fingerprint := deliveryFingerprint kind
            [JString (de_delivery_id r), JString (de_native_attempt_ref r)],
          dq_delivery_id := de_delivery_id r, dq_native_attempt_ref := de_native_attempt_ref r\<rparr>) d)"

definition RenewClaim ::
  "service \<Rightarrow> time \<Rightarrow> (db \<Rightarrow> db) \<Rightarrow> delivery_request \<Rightarrow> duration \<Rightarrow> db \<Rightarrow> (delivery option) svc" where
  "RenewClaim s now between r duration d =
     claimMutation s now between ''renew'' (r\<lparr>de_native_attempt_ref := ''''\<rparr>) duration d"

definition ReleaseDelivery ::
  "service \<Rightarrow> time \<Rightarrow> (db \<Rightarrow> db) \<Rightarrow> delivery_request \<Rightarrow> db \<Rightarrow> (delivery option) svc" where
  "ReleaseDelivery s now between r d =
     claimMutation s now between ''release'' (r\<lparr>de_native_attempt_ref := ''''\<rparr>) 0 d"

definition BeginDispatch ::
  "service \<Rightarrow> time \<Rightarrow> (db \<Rightarrow> db) \<Rightarrow> delivery_request \<Rightarrow> db \<Rightarrow> (delivery option) svc" where
  "BeginDispatch s now between r d =
     (if TrimSpace (de_native_attempt_ref r) = '''' then Inl (invalid ''native_attempt_ref is required'')
      else claimMutation s now between ''begin_dispatch'' r 0 d)"

definition Acknowledge :: "time \<Rightarrow> (db \<Rightarrow> db) \<Rightarrow> delivery_request \<Rightarrow> db \<Rightarrow> (delivery option) svc" where
  "Acknowledge now between r d = SvcReconcile now between ''acknowledge'' r d"

definition SvcOutcomeUnknown :: "time \<Rightarrow> (db \<Rightarrow> db) \<Rightarrow> delivery_request \<Rightarrow> db \<Rightarrow> (delivery option) svc" where
  "SvcOutcomeUnknown now between r d = SvcReconcile now between ''outcome_unknown'' r d"

definition FailDelivery ::
  "service \<Rightarrow> time \<Rightarrow> (db \<Rightarrow> db) \<Rightarrow> delivery_request \<Rightarrow> db \<Rightarrow> (delivery option) svc" where
  "FailDelivery s now between r d =
     (if TrimSpace (de_native_attempt_ref r) \<noteq> '''' then SvcReconcile now between ''fail'' r d
      else claimMutation s now between ''fail_claimed'' (r\<lparr>de_native_attempt_ref := ''''\<rparr>) 0 d)"

definition SvcNotInserted ::
  "time \<Rightarrow> (db \<Rightarrow> db) \<Rightarrow> delivery_request \<Rightarrow> string \<Rightarrow> db \<Rightarrow> (delivery option) svc" where
  "SvcNotInserted now between r reason d =
     bindR (requireFields [de_adapter_id r, de_lease_token r, de_operation_id r, de_delivery_id r,
              de_claim_token r, de_native_attempt_ref r, reason]) (\<lambda>_.
     bindR (refuse_if (\<not> reasonCode reason) (invalid ''reason must be 1-64 characters of a-z, 0-9 and _'')) (\<lambda>_.
     storeDelivery now between
       (emptyDeliveryOperation\<lparr>dq_kind := ''not_inserted'', dq_adapter_id := de_adapter_id r,
          dq_lease_token := de_lease_token r, dq_operation_id := de_operation_id r,
          dq_fingerprint := deliveryFingerprint ''not_inserted''
            [JString (de_delivery_id r), JString (de_claim_token r), JString (de_native_attempt_ref r),
             JString reason],
          dq_delivery_id := de_delivery_id r, dq_claim_token := de_claim_token r,
          dq_native_attempt_ref := de_native_attempt_ref r, dq_failure_reason := reason\<rparr>) d))"

section \<open>Seats\<close>

record seat_request =
  sr_adapter_id :: string
  sr_lease_token :: string
  sr_operation_id :: string
  sr_session_address :: string
  sr_seat_address :: string
  sr_note :: string

definition seatFingerprint :: "seat_op_request \<Rightarrow> string" where
  "seatFingerprint q =
     sha256_hex (JObject [(''Kind'', JString (sq_kind q)), (''SessionAddress'', JString (sq_session_address q)),
       (''SeatAddress'', JString (sq_seat_address q)), (''Note'', JString (sq_note q)),
       (''TextKind'', JString (sq_text_kind q)), (''Body'', JString (sq_body q)),
       (''ExpectedVersion'', case sq_expected_version q of None \<Rightarrow> JNull | Some v \<Rightarrow> JInt v)])"

definition seatBase ::
  "string \<Rightarrow> seat_request \<Rightarrow> string \<Rightarrow> string \<Rightarrow> string \<Rightarrow> int option \<Rightarrow> seat_op_request" where
  "seatBase kind r st textKind body expected =
     \<lparr>sq_kind = kind, sq_adapter_id = TrimSpace (sr_adapter_id r), sq_lease_token = sr_lease_token r,
      sq_operation_id = TrimSpace (sr_operation_id r), sq_fingerprint = '''',
      sq_session_address = TrimSpace (sr_session_address r), sq_seat_address = st,
      sq_note = TrimSpace (sr_note r), sq_text_kind = textKind, sq_body = body,
      sq_expected_version = expected, sq_keep_versions = 0, sq_notice_message_id = '''',
      sq_notice_delivery_id = '''', sq_notice_expires_at = 0\<rparr>"

definition seatOperation ::
  "service \<Rightarrow> nat \<Rightarrow> time \<Rightarrow> (db \<Rightarrow> db) \<Rightarrow> string \<Rightarrow> seat_request \<Rightarrow> string \<Rightarrow> string \<Rightarrow> int option
     \<Rightarrow> db \<Rightarrow> seat_op_result svc" where
  "seatOperation s k now between kind r textKind body expected d =
     bindR (requireAll [(''adapter_id'', sr_adapter_id r), (''lease_token'', sr_lease_token r),
              (''operation_id'', sr_operation_id r), (''session_address'', sr_session_address r)]) (\<lambda>_.
     bindR (seatAddress (sr_seat_address r)) (\<lambda>st.
     let q0 = seatBase kind r st textKind body expected; q = q0\<lparr>sq_fingerprint := seatFingerprint q0\<rparr>
     in case LookupSeatOperation (sq_adapter_id q) (sq_operation_id q) d of
          Some (fp, res) \<Rightarrow>
            if fp \<noteq> sq_fingerprint q then Inl operationConflict else Inr (res\<lparr>so_replayed := True\<rparr>, d)
        | None \<Rightarrow>
            bindR (draw ''generate notice message ID'' (sv_ids s k)) (\<lambda>messageID.
            bindR (draw ''generate notice delivery ID'' (sv_ids s (k + 1))) (\<lambda>deliveryID.
            lift_store (SeatOperation now
              (q\<lparr>sq_notice_message_id := messageID, sq_notice_delivery_id := deliveryID,
                 sq_notice_expires_at := now + min (24 * 3600 * Second) (sv_max_ttl_duration s),
                 sq_keep_versions := sv_seat_text_versions s\<rparr>) (between d))))))"

definition TakeSeat :: "service \<Rightarrow> nat \<Rightarrow> time \<Rightarrow> (db \<Rightarrow> db) \<Rightarrow> seat_request \<Rightarrow> db \<Rightarrow> seat_op_result svc" where
  "TakeSeat s k now between r d = seatOperation s k now between ''take'' r '''' '''' None d"

definition LeaveSeat :: "service \<Rightarrow> nat \<Rightarrow> time \<Rightarrow> (db \<Rightarrow> db) \<Rightarrow> seat_request \<Rightarrow> db \<Rightarrow> seat_op_result svc" where
  "LeaveSeat s k now between r d = seatOperation s k now between ''leave'' r '''' '''' None d"

definition RelieveSeat :: "service \<Rightarrow> nat \<Rightarrow> time \<Rightarrow> (db \<Rightarrow> db) \<Rightarrow> seat_request \<Rightarrow> db \<Rightarrow> seat_op_result svc" where
  "RelieveSeat s k now between r d = seatOperation s k now between ''relieve'' r '''' '''' None d"

definition RetireSeat :: "service \<Rightarrow> nat \<Rightarrow> time \<Rightarrow> (db \<Rightarrow> db) \<Rightarrow> seat_request \<Rightarrow> db \<Rightarrow> seat_op_result svc" where
  "RetireSeat s k now between r d = seatOperation s k now between ''retire'' r '''' '''' None d"

definition SetSeatText ::
  "service \<Rightarrow> nat \<Rightarrow> time \<Rightarrow> (db \<Rightarrow> db) \<Rightarrow> seat_request \<Rightarrow> string \<Rightarrow> string \<Rightarrow> int option \<Rightarrow> db
     \<Rightarrow> seat_op_result svc" where
  "SetSeatText s k now between r kind body expected d =
     bindR (validTextKind kind) (\<lambda>_.
     bindR (refuse_if (case expected of None \<Rightarrow> False | Some v \<Rightarrow> v < 0)
              (invalid ''expected_version must not be negative'')) (\<lambda>_.
     seatOperation s k now between ''set_text'' r kind body expected d))"

definition SvcListSeats :: "time \<Rightarrow> seat_filter \<Rightarrow> db \<Rightarrow> svc_error + seat list" where
  "SvcListSeats now flt0 d =
     (let flt = \<lparr>sfl_scope = TrimSpace (sfl_scope flt0), sfl_holder = TrimSpace (sfl_holder flt0),
                 sfl_state = TrimSpace (sfl_state flt0)\<rparr>
      in if sfl_state flt \<in> {'''', SeatVacant, SeatHeld, SeatStale, SeatRetired}
         then lift_store (ListSeats now flt d)
         else Inl (invalid ''state must be vacant, held, stale or retired''))"

definition SvcGetSeat :: "time \<Rightarrow> string \<Rightarrow> db \<Rightarrow> svc_error + seat" where
  "SvcGetSeat now address d = bindR (seatReadAddress address) (\<lambda>st. lift_store (GetSeat now st d))"

definition SvcGetSeatText :: "string \<Rightarrow> string \<Rightarrow> int \<Rightarrow> db \<Rightarrow> svc_error + seat_text" where
  "SvcGetSeatText address kind version d =
     bindR (seatReadAddress address) (\<lambda>st.
     bindR (validTextKind kind) (\<lambda>_.
     bindR (refuse_if (version < 0) (invalid ''version must not be negative'')) (\<lambda>_.
     lift_store (GetSeatText st kind version d))))"

definition SvcListSeatTexts :: "string \<Rightarrow> string \<Rightarrow> db \<Rightarrow> svc_error + seat_text list" where
  "SvcListSeatTexts address kind d =
     bindR (seatReadAddress address) (\<lambda>st.
     bindR (validTextKind kind) (\<lambda>_. lift_store (ListSeatTexts st kind d)))"

definition SvcListSeatHoldings :: "time \<Rightarrow> string \<Rightarrow> db \<Rightarrow> svc_error + holding list" where
  "SvcListSeatHoldings now address d =
     bindR (seatReadAddress address) (\<lambda>st. lift_store (ListSeatHoldings now st d))"

section \<open>Pruning receipts\<close>

abbreviation pruneBatch :: nat where "pruneBatch \<equiv> 5000"

text \<open>Both pruning loops run whole batches until one is not full.\<close>

function pruneLoop ::
  "('a receipt_row list \<Rightarrow> 'a receipt_row list) \<Rightarrow> time \<Rightarrow> nat \<Rightarrow> 'a receipt_row list
     \<Rightarrow> nat \<times> 'a receipt_row list" where
  "pruneLoop plan cutoff gone rows =
     (case pruneRows plan cutoff pruneBatch rows of
        (removed, rows') \<Rightarrow>
          if removed < pruneBatch then (gone + removed, rows')
          else pruneLoop plan cutoff (gone + removed) rows')"
  by pat_completeness auto
termination
  by (relation "measure (\<lambda>(plan, cutoff, gone, rows). length rows)")
    (auto simp: pruneRows_def Let_def not_less)

declare pruneLoop.simps [simp del]

definition SvcPruneDeliveryOperations ::
  "service \<Rightarrow> (delivery_op_result receipt_row list \<Rightarrow> delivery_op_result receipt_row list) \<Rightarrow> time \<Rightarrow> db
     \<Rightarrow> nat \<times> db" where
  "SvcPruneDeliveryOperations s plan now d =
     (case pruneLoop plan (now - sv_retention s) 0 (receipts d) of
        (gone, rows) \<Rightarrow> (gone, d\<lparr>receipts := rows\<rparr>))"

definition SvcPruneSeatOperations ::
  "service \<Rightarrow> (seat_op_result receipt_row list \<Rightarrow> seat_op_result receipt_row list) \<Rightarrow> time \<Rightarrow> db
     \<Rightarrow> nat \<times> db" where
  "SvcPruneSeatOperations s plan now d =
     (case pruneLoop plan (now - sv_retention s) 0 (seat_receipts d) of
        (gone, rows) \<Rightarrow> (gone, d\<lparr>seat_receipts := rows\<rparr>))"

end
