(* ===== verification/Service_Guarantees.thy ===== *)
theory Service_Guarantees
  imports Service Replay_Guarantees "HOL-Library.Multiset"
begin

text \<open>
  Guarantees of the application layer: a submission retried through the service is answered from the first
  acceptance even when the two race, the pruning loops remove exactly the receipts past retention,
  session addresses are registered idempotently under interference, and waiting for a round returns.
\<close>

section \<open>Submission through the service\<close>

lemma lift_store_Inr [simp]: "lift_store m = Inr x \<longleftrightarrow> m = Inr x"
  by (cases m) (simp_all add: lift_store_def)

lemma map_sum_Inr [simp]: "map_sum f (\<lambda>x. x) m = Inr x \<longleftrightarrow> m = Inr x"
  by (cases m) simp_all

lemma Lookup_submission:
  assumes "ledger_inv d"
  shows "look_submission (a, op) d = Some (f, x) \<longleftrightarrow>
    (\<exists>e. LookupMessageOperation a op d = Inr (Some e) \<and> f = sub_fingerprint e \<and>
       x = \<lparr>sr_message = sub_message e, sr_delivery = sub_delivery e, sr_replayed = False\<rparr>)"
  using readSubmission_total [OF assms, of a op]
  by (auto simp: look_submission_def LookupMessageOperation_def split: option.splits)

definition accepts_fingerprint :: "string \<Rightarrow> submit_message_request \<Rightarrow> bool" where
  "accepts_fingerprint f r = (f = messageFingerprint r \<or> matchesLegacyFingerprint f r messageFingerprint)"

text \<open>What a successful submission leaves behind, whichever way it was answered.\<close>

lemma SvcSubmit_recorded:
  assumes inv: "db_inv d" and mid: "fabric_step\<^sup>*\<^sup>* d (between d)"
    and ok: "SvcSubmitMessage s k now between r0 d = Inr (res, d')"
  shows "\<exists>r f x. normalizeSubmit s r0 = Inr r \<and> look_submission (ms_producer_id r, ms_operation_id r) d' = Some (f, x) \<and>
     accepts_fingerprint f r \<and> sr_message x = sr_message res \<and> db_inv d'"
proof -
  from ok obtain r found where r: "normalizeSubmit s r0 = Inr r"
    and look: "LookupMessageOperation (ms_producer_id r) (ms_operation_id r) d = Inr found"
    by (auto simp: SvcSubmitMessage_def bindR_Inr_iff Let_def)
  have led: "ledger_inv d" using inv by (simp add: db_inv_def fabric_inv_def)
  show ?thesis
  proof (cases found)
    case (Some e)
    with ok r look have "d' = d" "accepts_fingerprint (sub_fingerprint e) r"
      "res = \<lparr>sr_message = sub_message e, sr_delivery = sub_delivery e, sr_replayed = True\<rparr>"
      by (auto simp: SvcSubmitMessage_def accepts_fingerprint_def lift_store_def Let_def split: if_splits)
    with Some look r inv show ?thesis by (auto simp: Lookup_submission [OF led])
  next
    case None
    with ok r look obtain mid did where
      st: "SubmitMessage now (storeSubmit now r (messageFingerprint r) mid did) (between d) = Inr (res, d')"
      by (auto simp: SvcSubmitMessage_def lift_store_def Let_def bindR_Inr_iff)
    let ?q = "storeSubmit now r (messageFingerprint r) mid did" and ?k = "(ms_producer_id r, ms_operation_id r)"
    have binv: "db_inv (between d)" by (rule fm.run_inv [OF assms(2) inv])
    have keys: "sm_producer_id ?q = ms_producer_id r" "sm_operation_id ?q = ms_operation_id r"
      "sm_fingerprint ?q = messageFingerprint r" by (simp_all add: storeSubmit_def)
    show ?thesis
    proof (cases "look_submission ?k (between d)")
      case None
      with sub.recorded [of "between d" "(now, ?q)" res d'] binv st keys r show ?thesis
        by (auto simp: accepts_fingerprint_def)
    next
      case (Some fx)
      obtain f x where fx: "fx = (f, x)" by (cases fx)
      with sub.found [of "between d" "(now, ?q)" f x] Some binv st keys
      have "f = messageFingerprint r" "d' = between d" "res = x\<lparr>sr_replayed := True\<rparr>"
        by (auto split: if_splits)
      with Some fx r binv show ?thesis by (auto simp: accepts_fingerprint_def)
    qed
  qed
qed

lemma normalize_token:
  assumes "normalizeSubmit s r0 = Inr r" and "TrimSpace tok \<noteq> ''''"
  shows "normalizeSubmit s (r0\<lparr>ms_lease_token := tok\<rparr>) = Inr (r\<lparr>ms_lease_token := tok\<rparr>)"
  using assms by (auto simp: normalizeSubmit_def Let_def senderFields_def required_def bindR_Inr_iff)

lemma accepts_token [simp]: "accepts_fingerprint f (r\<lparr>ms_lease_token := tok\<rparr>) = accepts_fingerprint f r"
  by (simp add: accepts_fingerprint_def matchesLegacyFingerprint_def messageFingerprint_def split: option.splits)

text \<open>
  C28: A submission through the service can be retried blindly. Whatever other requests commit between its
  lookup and its store call, and whatever the fabric does afterwards, sending the request again, under the
  lease token the adapter holds by then, returns the message the first answer named and changes nothing.
\<close>

theorem service_submit_retry:
  assumes "reachable d" and "fabric_step\<^sup>*\<^sup>* d (between d)"
    and "SvcSubmitMessage s k now between r d = Inr (res, d')" and "fabric_step\<^sup>*\<^sup>* d' d''"
    and "TrimSpace tok \<noteq> ''''"
  shows "\<exists>res2. SvcSubmitMessage s k2 later between2 (r\<lparr>ms_lease_token := tok\<rparr>) d'' = Inr (res2, d'') \<and>
     sr_replayed res2 \<and> sr_message res2 = sr_message res"
proof -
  from SvcSubmit_recorded [OF reachable_inv [OF assms(1)] assms(2,3)] obtain n f x where
      n: "normalizeSubmit s r = Inr n" and x: "look_submission (ms_producer_id n, ms_operation_id n) d' = Some (f, x)"
      "accepts_fingerprint f n" "sr_message x = sr_message res" and inv: "db_inv d'" by blast
  from look_submission_kept [OF inv assms(4) x(1)] obtain y where
      y: "look_submission (ms_producer_id n, ms_operation_id n) d'' = Some (f, y)" "same_submission x y" by blast
  have led: "ledger_inv d''"
    using fm.run_inv [OF assms(4) inv] by (simp add: db_inv_def fabric_inv_def)
  from y(1) obtain e where e: "LookupMessageOperation (ms_producer_id n) (ms_operation_id n) d'' = Inr (Some e)"
      "f = sub_fingerprint e" "y = \<lparr>sr_message = sub_message e, sr_delivery = sub_delivery e, sr_replayed = False\<rparr>"
    by (auto simp: Lookup_submission [OF led])
  have acc: "accepts_fingerprint (sub_fingerprint e) (n\<lparr>ms_lease_token := tok\<rparr>)" using x(2) e(2) by simp
  have "SvcSubmitMessage s k2 later between2 (r\<lparr>ms_lease_token := tok\<rparr>) d'' =
      Inr (\<lparr>sr_message = sub_message e, sr_delivery = sub_delivery e, sr_replayed = True\<rparr>, d'')"
    using normalize_token [OF n assms(5)] e(1) acc
    by (auto simp: SvcSubmitMessage_def lift_store_def accepts_fingerprint_def)
  moreover have "sub_message e = sr_message res" using y(2) e(3) x(3) by (simp add: same_submission_def)
  ultimately show ?thesis by simp
qed

text \<open>A service with the default limits, and a submission the scenario's adapter makes through it.\<close>

definition demo_service :: service where
  "demo_service = \<lparr>sv_max_lease_duration = 5 * 60 * Second, sv_max_ttl_duration = 24 * 3600 * Second,
     sv_retention = 100, sv_tokens = (\<lambda>n. Some ''tok''), sv_ids = (\<lambda>n. Some (if n = 0 then ''m9'' else ''d9'')),
     sv_seat_text_versions = 50\<rparr>"

definition svc_submit :: submit_message_request where
  "svc_submit = \<lparr>ms_producer_id = ''A'', ms_lease_token = ''ta'', ms_operation_id = ''9'',
     ms_sender_address = ''alice'', ms_recipient_address = ''bob'', ms_body = ''hi'', ms_correlation_id = '''',
     ms_reply_to_message_id = '''', ms_activation_policy = ''next_turn'', ms_ttl = 100,
     ms_expected_sender_generation = None, ms_expected_recipient_generation = None, ms_as_seat = ''''\<rparr>"

lemma svc_submit_ok: "\<exists>res d'. SvcSubmitMessage demo_service 0 4 (\<lambda>d. d) svc_submit d3 = Inr (res, d')"
proof -
  have t: "TrimSpace ''A'' = ''A''" "TrimSpace ''ta'' = ''ta''" "TrimSpace ''9'' = ''9''" "TrimSpace ''alice'' = ''alice''"
    "TrimSpace ''bob'' = ''bob''" "TrimSpace ''hi'' = ''hi''" "TrimSpace '''' = ''''" by code_simp+
  have p: "NormalizePolicy ''next_turn'' = (''next_turn'', True)" by code_simp
  have n: "normalizeSubmit demo_service svc_submit = Inr svc_submit"
    by (simp add: normalizeSubmit_def senderFields_def required_def policyOf_def ttlBound_def svc_submit_def
        demo_service_def t p Let_def)
  have l: "LookupMessageOperation (ms_producer_id svc_submit) (ms_operation_id svc_submit) d3 = Inr None" by code_simp
  have "succeeds (SubmitMessage 4 (storeSubmit 4 svc_submit fp ''m9'' ''d9'') d3)" for fp by code_simp
  from succeeds_settle [OF this [of "messageFingerprint svc_submit"], of d3] n l show ?thesis
    by (auto simp: SvcSubmitMessage_def Let_def lift_store_def draw_def demo_service_def)
qed

theorem service_submit_retry_witness:
  "\<exists>d' res2. SvcSubmitMessage demo_service 7 8 (\<lambda>d. d) (svc_submit\<lparr>ms_lease_token := ''tb''\<rparr>) d' = Inr (res2, d') \<and>
     sr_replayed res2"
proof -
  obtain res d' where ok: "SvcSubmitMessage demo_service 0 4 (\<lambda>d. d) svc_submit d3 = Inr (res, d')"
    using svc_submit_ok by blast
  have tok: "TrimSpace ''tb'' \<noteq> ''''" by code_simp
  from service_submit_retry [OF scenario_reachable(3) rtranclp.rtrancl_refl ok rtranclp.rtrancl_refl tok]
  show ?thesis by blast
qed

section \<open>Pruning\<close>

text \<open>
  One batch: with the receipts under distinct keys, as many candidates go as fit, and nothing else.
\<close>

definition due :: "time \<Rightarrow> 'a receipt_row \<Rightarrow> bool" where
  "due cutoff r = stamp_less (timestamp (rc_created_at r)) (timestamp cutoff)"

lemma pruneRows_batch:
  assumes plan: "\<And>xs. mset (plan xs) = mset xs" and keys: "distinct (map receipt_key rows)"
    and p: "pruneRows plan cutoff limit rows = (n, rows')"
  shows "n = min limit (length (filter (due cutoff) rows))" and "length rows = n + length rows'"
    and "filter (\<lambda>r. \<not> due cutoff r) rows' = filter (\<lambda>r. \<not> due cutoff r) rows"
    and "distinct (map receipt_key rows')"
proof -
  let ?c = "filter (due cutoff) rows"
  let ?v = "take limit (plan ?c)"
  have rows': "rows' = filter (\<lambda>r. receipt_key r \<notin> receipt_key ` set ?v) rows"
    and n: "n = length rows - length rows'"
    using p by (auto simp: pruneRows_def Let_def sel_def due_def [abs_def] receipt_key_def)
  have sub: "set ?v \<subseteq> set rows"
    using plan [of ?c] by (metis filter_is_subset mset_eq_setD order_trans set_take_subset)
  have due: "due cutoff r" if "r \<in> set ?v" for r
  proof -
    have "r \<in> set (plan ?c)" using that by (rule in_set_takeD)
    then have "r \<in> set ?c" using mset_eq_setD [OF plan [of ?c]] by simp
    then show ?thesis by simp
  qed
  have dv: "distinct (map receipt_key ?v)"
  proof -
    have "mset (map receipt_key (plan ?c)) = mset (map receipt_key ?c)" using plan by simp
    moreover have "distinct (map receipt_key ?c)" using keys by (rule distinct_map_filter)
    ultimately have "distinct (map receipt_key (plan ?c))" by (metis mset_eq_imp_distinct_iff)
    then show ?thesis by (metis distinct_take take_map)
  qed
  have key: "receipt_key r \<in> receipt_key ` set ?v \<longleftrightarrow> r \<in> set ?v" if "r \<in> set rows" for r
    using that keys sub by (auto dest: distinct_key_eq)
  have rows2: "rows' = filter (\<lambda>r. r \<notin> set ?v) rows" unfolding rows' using key by (intro filter_cong) auto
  have gone: "length (filter (\<lambda>r. r \<in> set ?v) rows) = length ?v"
  proof -
    have "distinct rows" using keys by (simp add: distinct_map)
    moreover have "set (filter (\<lambda>r. r \<in> set ?v) rows) = set ?v" using sub by auto
    moreover have "distinct ?v" using dv by (simp add: distinct_map)
    ultimately show ?thesis by (metis distinct_card distinct_filter)
  qed
  have "length rows = length (filter (\<lambda>r. r \<in> set ?v) rows) + length rows'"
    unfolding rows2 by (simp add: sum_length_filter_compl)
  with gone n show "length rows = n + length rows'" by simp
  have "length (plan ?c) = length ?c" using plan by (metis size_mset)
  with gone n \<open>length rows = length (filter (\<lambda>r. r \<in> set ?v) rows) + length rows'\<close>
  show "n = min limit (length ?c)" by simp
  show "filter (\<lambda>r. \<not> due cutoff r) rows' = filter (\<lambda>r. \<not> due cutoff r) rows"
    unfolding rows2 filter_filter by (rule filter_cong [OF refl]) (use due in blast)
  show "distinct (map receipt_key rows')" unfolding rows2 using keys by (rule distinct_map_filter)
qed

lemma pruneLoop_exact:
  assumes "\<And>xs. mset (plan xs) = mset xs" and "distinct (map receipt_key rows)"
  shows "pruneLoop plan cutoff gone rows =
    (gone + length (filter (due cutoff) rows), filter (\<lambda>r. \<not> due cutoff r) rows)"
  using assms
proof (induction plan cutoff gone rows rule: pruneLoop.induct)
  case (1 plan cutoff gone rows)
  obtain n rows' where p: "pruneRows plan cutoff pruneBatch rows = (n, rows')" by fastforce
  note b = pruneRows_batch [OF "1.prems" p]
  have all: "length rows = length (filter (due cutoff) rows) + length (filter (\<lambda>r. \<not> due cutoff r) rows)" for rows
    by (simp add: sum_length_filter_compl)
  have count: "length (filter (due cutoff) rows) = n + length (filter (due cutoff) rows')"
    using all [of rows] all [of rows'] b(2,3) by simp
  show ?case
  proof (cases "n < pruneBatch")
    case True
    then have all_gone: "n = length (filter (due cutoff) rows)" using b(1) by simp
    with count have "filter (due cutoff) rows' = []" by simp
    then have "filter (\<lambda>r. \<not> due cutoff r) rows' = rows'" by (simp add: filter_empty_conv)
    with True b(3) p all_gone show ?thesis by (subst pruneLoop.simps) simp
  next
    case False
    then have "pruneLoop plan cutoff (gone + n) rows' =
        (gone + n + length (filter (due cutoff) rows'), filter (\<lambda>r. \<not> due cutoff r) rows')"
      using "1.IH" [OF p [symmetric]] "1.prems"(1) b(4) by simp
    with False p count b(3) show ?thesis by (subst pruneLoop.simps) simp
  qed
qed



section \<open>Session addresses\<close>

lemma canonical_idem:
  "canonicalCapabilities vs = Inr cs \<Longrightarrow> canonicalCapabilities cs = Inr cs"
  by (auto simp: canonicalCapabilities_def list_ex_iff distinct_remdups_id sort_key_id_if_sorted split: if_splits)

text \<open>What both ends of a successful registration agree on.\<close>

definition registered :: "put_binding_request \<Rightarrow> binding \<Rightarrow> db \<Rightarrow> bool" where
  "registered put b d =
     (SvcResolve (pb_address put) d = Inr b \<and> b_bound b \<and> b_adapter_id b = pb_adapter_id put \<and>
      b_target_ref b = pb_target_ref put \<and> b_capabilities b = pb_capabilities put)"

lemma SvcPutBinding_registered:
  assumes "SvcPutBinding now put d = Inr (b, d')" and "reachable d"
    and "canonicalCapabilities (pb_capabilities put) = Inr (pb_capabilities put)"
  shows "registered put b d'"
proof -
  from assms(1,3) have p: "PutBinding now put d = Inr (b, d')" and req: "required ''address'' (pb_address put) = Inr ()"
    by (auto simp: SvcPutBinding_def bindR_Inr_iff required_def)
  have "directory_inv d" using reachable_inv [OF assms(2)] by (simp add: db_inv_def)
  from PutBinding_step [OF p this, of "pb_address put"] have "readBinding d' (pb_address put) = Some b" by simp
  moreover have "b_bound b \<and> b_adapter_id b = pb_adapter_id put \<and> b_target_ref b = pb_target_ref put \<and>
      b_capabilities b = pb_capabilities put"
    using p by (auto simp: PutBinding_def bindR_Inr_iff Let_def split: option.splits if_splits)
  ultimately show ?thesis using req by (simp add: registered_def SvcResolve_def Resolve_def)
qed

lemma registerLoop_registered:
  assumes "registerLoop env now n put d = Inr (b, d')" and "reachable d"
    and "\<And>i e. reachable e \<Longrightarrow> reachable (env i e)"
    and "canonicalCapabilities (pb_capabilities put) = Inr (pb_capabilities put)"
  shows "registered put b d'"
  using assms(1,2,4)
proof (induction n arbitrary: put d)
  case 0
  then show ?case by simp
next
  case (Suc n)
  have e: "reachable (env n d)" using Suc.prems(2) assms(3) by blast
  show ?case
  proof (cases "SvcResolve (pb_address put) d")
    case (Inl err)
    with Suc.prems(1) have nf: "(case SvcPutBinding now put (env n d) of
                  Inl e' \<Rightarrow> if hasCode e' CodeConflict \<or> hasCode e' CodeStaleRevision
                    then registerLoop env now n put (env n d) else Inl e'
                | Inr res \<Rightarrow> Inr res) = Inr (b, d')" by (simp split: if_splits)
    show ?thesis
    proof (cases "SvcPutBinding now put (env n d)")
      case (Inl e')
      with nf Suc.IH [OF _ e Suc.prems(3)] show ?thesis by (simp split: if_splits)
    next
      case (Inr res)
      with nf SvcPutBinding_registered [OF _ e Suc.prems(3)] show ?thesis by simp
    qed
  next
    case (Inr existing)
    let ?put = "put\<lparr>pb_expected_revision := Some (b_revision existing)\<rparr>"
    have same: "registered ?put = registered put" by (auto simp: registered_def fun_eq_iff)
    have caps: "canonicalCapabilities (pb_capabilities ?put) = Inr (pb_capabilities ?put)" using Suc.prems(3) by simp
    have mine: "\<not> (b_bound existing \<and> b_adapter_id existing \<noteq> pb_adapter_id put)"
    proof
      assume "b_bound existing \<and> b_adapter_id existing \<noteq> pb_adapter_id put"
      with Suc.prems(1) Inr show False by simp
    qed
    show ?thesis
    proof (cases "b_bound existing \<and> b_target_ref existing = pb_target_ref put
                  \<and> b_capabilities existing = pb_capabilities put")
      case True
      with Suc.prems(1) Inr mine have "b = existing" "d' = d" by auto
      with True mine Inr show ?thesis by (simp add: registered_def)
    next
      case False
      with Suc.prems(1) Inr mine have put: "(case SvcPutBinding now ?put (env n d) of
                 Inl e' \<Rightarrow> if hasCode e' CodeStaleRevision then registerLoop env now n ?put (env n d) else Inl e'
               | Inr res \<Rightarrow> Inr res) = Inr (b, d')" by (simp only: registerLoop.simps sum.case if_False Let_def)
      show ?thesis
      proof (cases "SvcPutBinding now ?put (env n d)")
        case (Inl e')
        with put Suc.IH [OF _ e caps] same show ?thesis by (simp split: if_splits)
      next
        case (Inr res)
        with put SvcPutBinding_registered [OF _ e caps] same show ?thesis by simp
      qed
    qed
  qed
qed

text \<open>
  Registering a session address is idempotent and survives interference. Whatever other requests commit
  between its reads and writes, a registration that succeeds leaves the address derived from the adapter
  and the native key bound to that adapter, target and capability set; registering it again answers the
  same binding and writes nothing.
\<close>

theorem session_address_idempotent:
  assumes "reachable d" and "\<forall>i e. reachable e \<longrightarrow> reachable (env i e)"
    and "RegisterSessionAddress env now r d = Inr (b, d')"
  shows "SvcResolve (SessionAddress (ra_adapter_id r) (ra_native_key r)) d' = Inr b \<and> b_bound b \<and>
     b_adapter_id b = ra_adapter_id r \<and> b_target_ref b = ra_native_key r \<and>
     set (b_capabilities b) = set (ra_capabilities r) \<and> sorted (b_capabilities b) \<and> distinct (b_capabilities b) \<and>
     RegisterSessionAddress env2 later r d' = Inr (b, d')"
proof -
  from assms(3) obtain cs where c: "canonicalCapabilities (ra_capabilities r) = Inr cs"
    and l: "registerLoop env now 3 (sessionPut r cs) d = Inr (b, d')"
    and req: "requireAll [(''adapter_id'', ra_adapter_id r), (''lease_token'', ra_lease_token r),
              (''native_key'', ra_native_key r)] = Inr ()"
    unfolding RegisterSessionAddress_def by (auto simp: bindR_Inr_iff)
  have reg: "registered (sessionPut r cs) b d'"
    using registerLoop_registered [OF l assms(1)] assms(2) canonical_idem [OF c] by (simp add: sessionPut_def)
  have "registerLoop env2 later (Suc (Suc (Suc 0))) (sessionPut r cs) d' = Inr (b, d')"
    using reg by (simp add: registered_def)
  then have "RegisterSessionAddress env2 later r d' = Inr (b, d')"
    using c req by (simp add: RegisterSessionAddress_def numeral_3_eq_3 del: registerLoop.simps)
  moreover have "set cs = set (ra_capabilities r) \<and> sorted cs \<and> distinct cs"
    using c by (auto simp: canonicalCapabilities_def split: if_splits)
  ultimately show ?thesis using reg by (simp add: registered_def sessionPut_def)
qed

definition session_req :: session_address_request where
  "session_req = \<lparr>ra_adapter_id = ''A'', ra_lease_token = ''ta'', ra_native_key = ''k'', ra_capabilities = []\<rparr>"

text \<open>A session address is printable ASCII without blanks, and is not the address of a seat.\<close>

definition plain :: "char \<Rightarrow> bool" where
  "plain c = (32 < (of_char c :: nat) \<and> (of_char c :: nat) < 128)"

lemma plain_lead: "plain c \<Longrightarrow> lead_space (c # s) = 0"
  by (auto simp: plain_def ascii_space_def latin_space_def wide_space_def Let_def split: list.splits)

lemma plain_trail: "plain c \<Longrightarrow> trail_space (c # s) = 0"
  by (auto simp: plain_def ascii_space_def latin_space_def wide_space_def Let_def split: list.splits)

lemma TrimSpace_plain:
  assumes "list_all plain s"
  shows "TrimSpace s = s"
proof (cases s)
  case Nil
  then show ?thesis by (simp add: TrimSpace_def strip_id)
next
  case (Cons c r)
  have "strip lead_space s = s" using Cons assms by (intro strip_id) (simp add: plain_lead del: lead_space.simps)
  moreover have "strip trail_space (rev s) = rev s"
  proof (rule strip_id)
    obtain x y where "rev s = x # y" using Cons by (metis neq_Nil_conv rev_is_Nil_conv)
    moreover from this have "plain x" using assms by (metis list.set_intros(1) list_all_iff set_rev)
    ultimately show "trail_space (rev s) = 0" by (simp add: plain_trail del: trail_space.simps)
  qed
  ultimately show ?thesis by (simp add: TrimSpace_def)
qed

lemma hexString_plain: "list_all plain (hexString s)"
proof -
  have "plain (hex_digit n)" if "n < 16" for n using of_hex_digit [OF that] that by (simp add: plain_def)
  moreover have "(of_char c :: nat) div 16 < 16" for c :: char
    using of_char_small [of c] by (simp add: div_less_iff_less_mult)
  ultimately show ?thesis by (auto simp: hexString_def hex_byte_def list_all_iff)
qed

lemma SessionAddress_plain: "TrimSpace (SessionAddress a k) = SessionAddress a k"
  by (rule TrimSpace_plain) (use hexString_plain in \<open>simp add: SessionAddress_def plain_def\<close>)

lemma SessionAddress_not_seat: "\<not> IsSeatAddress (SessionAddress a k)"
proof
  assume "IsSeatAddress (SessionAddress a k)"
  then obtain x y where e: "SessionAddress a k = x @ CHR ''.'' # y" and p: "seatPart x" "seatPart y"
    by (auto simp: IsSeatAddress_iff)
  have "CHR ''/'' \<in> set (SessionAddress a k)" by (simp add: SessionAddress_def)
  then have "CHR ''/'' \<in> set x \<or> CHR ''/'' \<in> set y" unfolding e by auto
  with p show False by (auto simp: seatPart_def seatChar_def list_all_iff Let_def)
qed

lemma session_req_ok: "\<exists>b d'. RegisterSessionAddress (\<lambda>i d. d) 4 session_req d3 = Inr (b, d')"
proof -
  let ?a = "SessionAddress ''A'' ''k''"
  have t: "TrimSpace ''A'' = ''A''" "TrimSpace ''ta'' = ''ta''" "TrimSpace ''k'' = ''k''" by code_simp+
  have other: "?a \<noteq> ''alice'' \<and> ?a \<noteq> ''bob''" by (simp add: SessionAddress_def)
  have "map bw_address (bindings d3) = [''alice'', ''bob'']" by code_simp
  then have none: "readBinding d3 ?a = None"
    using other by (auto simp: readBinding_None simp flip: set_map)
  have "\<not> isl (currentLease d3 4 ''A'' ''ta'')" by code_simp
  then obtain lease where lease: "currentLease d3 4 ''A'' ''ta'' = Inr lease" by (metis sum.collapse(2))
  have a: "TrimSpace ?a = ?a" "?a \<noteq> ''''" by (simp_all add: SessionAddress_plain) (simp add: SessionAddress_def)
  have caps: "canonicalCapabilities [] = Inr []" by (simp add: canonicalCapabilities_def)
  have "SvcResolve ?a d3 = Inl (mapStoreError ErrNotFound)"
    using a none by (simp add: SvcResolve_def required_def Resolve_def lift_store_def)
  moreover have "\<exists>b d'. SvcPutBinding 4 (sessionPut session_req []) d3 = Inr (b, d')"
    using a none lease t caps SessionAddress_not_seat
    by (simp add: SvcPutBinding_def sessionPut_def session_req_def required_def PutBinding_def lift_store_def)
  ultimately show ?thesis
    using t caps by (auto simp: RegisterSessionAddress_def session_req_def sessionPut_def required_def
        numeral_3_eq_3 mapStoreError_def)
qed

theorem session_address_idempotent_witness:
  "\<exists>b d'. RegisterSessionAddress (\<lambda>i d. d) 9 session_req d' = Inr (b, d') \<and> b_target_ref b = ''k''"
proof -
  obtain b d' where ok: "RegisterSessionAddress (\<lambda>i d. d) 4 session_req d3 = Inr (b, d')" using session_req_ok by blast
  have env: "\<forall>(i::nat) e. reachable e \<longrightarrow> reachable ((\<lambda>i d. d) i e)" by simp
  have "ra_native_key session_req = ''k''" by (simp add: session_req_def)
  with session_address_idempotent [OF scenario_reachable(3) env ok, of "\<lambda>i d. d" 9] show ?thesis by auto
qed

section \<open>Waiting for a round\<close>

text \<open>What an answer of a wait over the turns \<open>ts\<close> may be.\<close>

definition wait_answer :: "string \<Rightarrow> wait_turn list \<Rightarrow> svc_error + wait_result \<Rightarrow> bool" where
  "wait_answer roundID ts res =
     (case res of
        Inl e \<Rightarrow> e = ContextDone \<or> (\<exists>t\<in>set ts. SvcGetRound roundID (wt_db t) = Inl e)
      | Inr w \<Rightarrow> \<exists>t\<in>set ts. SvcGetRound roundID (wt_db t) = Inr (wr_round w) \<and>
          (if wr_timed_out w then r_status (wr_round w) = RPending \<and> wt_remaining t \<le> 0 \<and> \<not> wr_observed_expired w
           else if wr_observed_expired w
           then r_status (wr_round w) = RPending \<and> r_expires_at (wr_round w) \<le> wt_now t
           else r_status (wr_round w) \<noteq> RPending))"

lemma wait_answer_Cons: "wait_answer roundID ts res \<Longrightarrow> wait_answer roundID (t # ts) res"
  by (cases res) (auto simp: wait_answer_def)

lemma waitLoop_answers:
  "\<exists>t\<in>set ts. wt_remaining t \<le> 0 \<Longrightarrow> \<exists>res. waitLoop roundID ts = Some res \<and> wait_answer roundID ts res"
proof (induction ts)
  case Nil
  then show ?case by simp
next
  case (Cons t ts)
  show ?case
  proof (cases "SvcGetRound roundID (wt_db t)")
    case (Inl e)
    then show ?thesis by (simp add: wait_answer_def)
  next
    case (Inr r)
    consider "r_status r \<noteq> RPending" | "r_status r = RPending" "\<not> r_expires_at r > wt_now t"
      | "r_status r = RPending" "r_expires_at r > wt_now t" "wt_remaining t \<le> 0"
      | "r_status r = RPending" "r_expires_at r > wt_now t" "\<not> wt_remaining t \<le> 0" "wt_done t"
      | (again) "r_status r = RPending" "r_expires_at r > wt_now t" "\<not> wt_remaining t \<le> 0" "\<not> wt_done t" by blast
    then show ?thesis
    proof cases
      case again
      with Cons obtain res where "waitLoop roundID ts = Some res" "wait_answer roundID ts res" by auto
      with again Inr wait_answer_Cons show ?thesis by auto
    qed (use Inr in \<open>simp_all add: wait_answer_def\<close>)
  qed
qed


definition wait_turns :: "duration \<Rightarrow> wait_turn list" where
  "wait_turns timeout = [\<lparr>wt_db = d7, wt_now = 5, wt_remaining = timeout, wt_done = False\<rparr>,
     \<lparr>wt_db = d7, wt_now = 6, wt_remaining = 0, wt_done = False\<rparr>]"


end
