(* ===== verification/Board_Types.thy ===== *)
theory Board_Types
  imports Encoding
begin

text \<open>
  The records of crew-board (\<^verbatim>\<open>src/internal/board/board.go\<close> and the request and change
  types of \<^verbatim>\<open>service.go\<close>, \<^verbatim>\<open>notices.go\<close>, \<^verbatim>\<open>shared.go\<close>,
  \<^verbatim>\<open>mentions.go\<close> and \<^verbatim>\<open>media.go\<close>), and the JSON text of what a write
  answers, which a purge searches.

  Instants are nanoseconds as in \<open>Timestamps\<close>. The board store writes them with a fixed-width
  layout (\<^verbatim>\<open>stamp\<close>), so that the text orders and parses as the instant does; its columns
  are kept as instants. A Go zero time is \<open>None\<close> where the code asks
  \<^verbatim>\<open>IsZero\<close>, and \<open>zero_time\<close>, the first instant of year 1, in a record that is
  only copied. A
  column that holds JSON is kept as the value it encodes, except where a statement matches its text.
  Messages of errors are for people and are not kept; their reason codes are.
\<close>

definition zero_time :: time where
  "zero_time = - 62135596800000000000"

section \<open>Who\<close>

abbreviation AuthorSeat :: string where "AuthorSeat \<equiv> ''seat''"
abbreviation AuthorSession :: string where "AuthorSession \<equiv> ''session''"
abbreviation AuthorPerson :: string where "AuthorPerson \<equiv> ''person''"

record author =
  au_kind :: string
  au_address :: string
  au_session :: string
  au_adapter :: string
  au_model :: string
  au_label :: string
  au_working_for :: string
  au_site :: string

definition no_author :: author where
  "no_author = \<lparr>au_kind = '''', au_address = '''', au_session = '''', au_adapter = '''', au_model = '''',
     au_label = '''', au_working_for = '''', au_site = ''''\<rparr>"

record participant =
  pa_kind :: string
  pa_address :: string
  pa_site :: string

definition authorParticipant :: "author \<Rightarrow> participant" where
  "authorParticipant a = \<lparr>pa_kind = au_kind a, pa_address = au_address a, pa_site = au_site a\<rparr>"

record actor =
  ac_session_address :: string
  ac_as_seat :: string
  ac_person :: string
  ac_model :: string
  ac_label :: string
  ac_working_for :: string

record mention =
  mn_text :: string
  mn_kind :: string
  mn_address :: string
  mn_site :: string

definition mentionParticipant :: "mention \<Rightarrow> participant" where
  "mentionParticipant m = \<lparr>pa_kind = mn_kind m, pa_address = mn_address m, pa_site = mn_site m\<rparr>"

type_synonym mention_warning = "string \<times> string"

section \<open>Boards, threads, posts\<close>

record board =
  bd_name :: string
  bd_site :: string
  bd_description :: string
  bd_created_at :: time
  bd_created_by :: author
  bd_threads :: nat
  bd_network :: string

datatype thread_state = ThreadOpen | ThreadSettled | ThreadClosed

fun thread_state_text :: "thread_state \<Rightarrow> string" where
  "thread_state_text ThreadOpen = ''open''"
| "thread_state_text ThreadSettled = ''settled''"
| "thread_state_text ThreadClosed = ''closed''"

record link =
  lk_ref :: string
  lk_note :: string
  lk_by :: author
  lk_at :: time

record thread =
  th_id :: string
  th_board :: string
  th_title :: string
  th_state :: thread_state
  th_opening_post_id :: string
  th_created_at :: time
  th_created_by :: author
  th_last_activity_at :: time
  th_posts :: int
  th_ref :: string
  th_links :: "link list"
  th_aliases :: "string list"
  th_redirect_to :: string

datatype post_state = PostVisible | PostRetracted | PostHidden | PostPurged

fun post_state_text :: "post_state \<Rightarrow> string" where
  "post_state_text PostVisible = ''visible''"
| "post_state_text PostRetracted = ''retracted''"
| "post_state_text PostHidden = ''hidden''"
| "post_state_text PostPurged = ''purged''"

abbreviation KindQuestion :: string where "KindQuestion \<equiv> ''question''"
abbreviation KindAnswer :: string where "KindAnswer \<equiv> ''answer''"
abbreviation KindDecision :: string where "KindDecision \<equiv> ''decision''"
abbreviation KindWarning :: string where "KindWarning \<equiv> ''warning''"

datatype attachment_state = AttachmentReady | AttachmentHeld | AttachmentDropped

record attachment =
  at_ref :: string
  at_original_hash :: string
  at_output_hash :: string
  at_name :: string
  at_state :: attachment_state
  at_reason :: string
  at_kind :: string
  at_type :: string
  at_width :: int
  at_height :: int
  at_duration_ms :: int
  at_bytes :: int
  at_checks :: "string list"
  at_created_at :: time

record post =
  po_id :: string
  po_thread_id :: string
  po_parent_id :: string
  po_author :: author
  po_site :: string
  po_state :: post_state
  po_revision :: int
  po_body :: string
  po_mentions :: "mention list"
  po_note :: string
  po_kind :: string
  po_urgent :: bool
  po_sync :: string
  po_remote :: bool
  po_attachments :: "attachment list"
  po_created_at :: time
  po_edited_at :: "time option"

record revision =
  rv_post_id :: string
  rv_revision :: int
  rv_body :: string
  rv_mentions :: "mention list"
  rv_model :: string
  rv_created_at :: time

record event =
  ev_id :: string
  ev_thread_id :: string
  ev_post_id :: string
  ev_type :: string
  ev_note :: string
  ev_actor :: author
  ev_created_at :: time
  ev_data :: "(string \<times> json) list"

section \<open>Notices, subscriptions, receipts\<close>

abbreviation ReasonMention :: string where "ReasonMention \<equiv> ''mention''"
abbreviation ReasonReply :: string where "ReasonReply \<equiv> ''reply''"
abbreviation ReasonSubscription :: string where "ReasonSubscription \<equiv> ''subscription''"

datatype notice_state = NoticePending | NoticeSent | NoticeDelivered | NoticeExpired | NoticeFailed | NoticeNoRoute

fun notice_state_text :: "notice_state \<Rightarrow> string" where
  "notice_state_text NoticePending = ''pending''"
| "notice_state_text NoticeSent = ''sent''"
| "notice_state_text NoticeDelivered = ''delivered''"
| "notice_state_text NoticeExpired = ''expired''"
| "notice_state_text NoticeFailed = ''failed''"
| "notice_state_text NoticeNoRoute = ''no_route''"

record notice =
  no_id :: string
  no_post_id :: string
  no_thread_id :: string
  no_recipient :: participant
  no_reason :: string
  no_policy :: string
  no_urgent :: bool
  no_state :: notice_state
  no_attempts :: int
  no_next_attempt_at :: time
  no_last_error :: string
  no_message_id :: string
  no_created_at :: time
  no_give_up_at :: time
  no_sent_at :: "time option"
  no_body :: string

record subscription =
  su_participant :: participant
  su_thread :: string
  su_board :: string
  su_created_at :: time

record unread =
  un_thread :: thread
  un_posts :: nat
  un_mentions :: nat
  un_newest_id :: string
  un_newest_at :: time

record post_result =
  pr_thread :: "thread option"
  pr_post :: post
  pr_warnings :: "mention_warning list"

text \<open>
  What a write answers (no thread stands for Go's zero \<^verbatim>\<open>Thread\<close>), and the receipt
  that replays it.
\<close>

datatype op_result = RBoard board | RPost post_result | RThread thread

record receipt =
  rc_operation_id :: string
  rc_request_hash :: string
  rc_result :: op_result
  rc_created_at :: time
  rc_purged :: bool

section \<open>Changes\<close>

record outbox_file =
  of_network :: string
  of_path :: string
  of_content :: string
  of_post_id :: string

record thread_update =
  tu_id :: string
  tu_state :: thread_state
  tu_title :: string
  tu_redirect_to :: string
  tu_links :: "link list"
  tu_aliases :: "string list"

record ack_change =
  ak_post_id :: string
  ak_for :: participant
  ak_by :: author
  ak_at :: time

record post_state_change =
  ps_post_id :: string
  ps_state :: post_state
  ps_revision :: int
  ps_note :: string
  ps_edited_at :: "time option"

datatype change =
    COutbox outbox_file
  | CThreadUpdate thread_update
  | CAck ack_change
  | CNotice notice
  | CSubscribe subscription
  | CBoard board
  | CThread thread
  | CPost post
  | CRevision revision
  | CEvent event
  | CTouch string time
  | CPostState post_state_change
  | CScrubPost string
  | CScrubThread string

section \<open>Errors\<close>

datatype board_code =
    CodeInvalid | CodeBoardNotFound | CodeBoardExists | CodeThreadNotFound | CodePostNotFound
  | CodeInvalidBoardName | CodeParentNotInThread | CodeSessionUnbound | CodeNotHolder
  | CodeUnknownPerson | CodeNotAuthor | CodePersonOnly | CodePostNotVisible
  | CodeOperationConflict | CodeDirectoryUnreached
  | CodeMediaTypeRefused | CodeMediaTypeMismatch | CodeMediaTooLarge | CodeAttachmentUnknown | CodeAttachmentHeld

text \<open>Why a pull leaves a file of the shared repository alone.\<close>

datatype ignore_reason =
    IgnoreNetwork | IgnoreNotABoardFile | IgnoreUnreadable | IgnoreNotSigners | IgnoreBoardClash
  | IgnoreNotShared | IgnoreNoThread | IgnoreNoPost | IgnoreNotFollowing | IgnoreSettle
  | IgnoreRename | IgnoreAck | IgnoreEventType | IgnoreNoMedia | IgnoreBlobName | IgnoreMedia

text \<open>
  A refusal with its reason code, a statement the database rejected, an unreadable attachment file,
  and a remote file that is ignored.
\<close>

datatype board_error = Refused board_code | StoreFailed | FileFailed | Ignored ignore_reason

end
