(* ===== verification/Board_Text.thy ===== *)
theory Board_Text
  imports Board_Types
begin

text \<open>
  The text work of crew-board: the name patterns of \<^verbatim>\<open>service.go\<close>, the references of
  \<^verbatim>\<open>mentions.go\<close> and \<^verbatim>\<open>attachments.go\<close>, the identifiers of
  \<^verbatim>\<open>ids.go\<close>, SQLite's \<^verbatim>\<open>LIKE\<close>, and the JSON text of a write's result.
\<close>

section \<open>Characters and patterns\<close>

definition byte :: "char \<Rightarrow> nat" where
  "byte c = of_char c"

definition lower_alpha :: "char \<Rightarrow> bool" where
  "lower_alpha c = (97 \<le> byte c \<and> byte c \<le> 122)"

definition upper_alpha :: "char \<Rightarrow> bool" where
  "upper_alpha c = (65 \<le> byte c \<and> byte c \<le> 90)"

definition decimal :: "char \<Rightarrow> bool" where
  "decimal c = (48 \<le> byte c \<and> byte c \<le> 57)"

definition lower_hex :: "char \<Rightarrow> bool" where
  "lower_hex c = (decimal c \<or> 97 \<le> byte c \<and> byte c \<le> 102)"

definition name_start :: "char \<Rightarrow> bool" where
  "name_start c = (lower_alpha c \<or> decimal c)"

definition name_char :: "char \<Rightarrow> bool" where
  "name_char c = (name_start c \<or> c = CHR ''-'')"

definition lower_char :: "char \<Rightarrow> char" where
  "lower_char c = (if upper_alpha c then char_of (byte c + 32) else c)"

text \<open>\<^verbatim>\<open>[first][rest]{0,n}\<close> over the whole text.\<close>

definition first_rest :: "(char \<Rightarrow> bool) \<Rightarrow> (char \<Rightarrow> bool) \<Rightarrow> nat \<Rightarrow> string \<Rightarrow> bool" where
  "first_rest first rest n s =
     (case s of [] \<Rightarrow> False | c # r \<Rightarrow> first c \<and> list_all rest r \<and> length r \<le> n)"

definition siteName :: "string \<Rightarrow> bool" where
  "siteName s = first_rest name_start name_char 31 s"

definition personName :: "string \<Rightarrow> bool" where
  "personName s = first_rest name_start name_char 31 s"

definition boardName :: "string \<Rightarrow> bool" where
  "boardName s = first_rest name_start (\<lambda>c. name_char c \<or> c = CHR ''.'') 63 s"

definition seatForm :: "string \<Rightarrow> bool" where
  "seatForm s =
     (case Cut CHR ''.'' s of
        (a, b, found) \<Rightarrow> found \<and> a \<noteq> [] \<and> b \<noteq> [] \<and> list_all name_char a \<and> list_all name_char b)"

text \<open>
  What a thread can settle into: \<^verbatim>\<open>wiki:SLUG\<close>, \<^verbatim>\<open>den:PROJECT/TASK\<close> or
  \<^verbatim>\<open>url:URL\<close>.
\<close>

definition slug_rest :: "char \<Rightarrow> bool" where
  "slug_rest c = (name_char c \<or> c = CHR ''.'' \<or> c = CHR ''_'')"

definition re_space :: "char \<Rightarrow> bool" where
  "re_space c = (c = CHR '' '' \<or> byte c = 9 \<or> byte c = 10 \<or> byte c = 12 \<or> byte c = 13)"

definition after_prefix :: "string \<Rightarrow> string \<Rightarrow> string option" where
  "after_prefix p s = (if prefix p s then Some (drop (length p) s) else None)"

definition linkRef :: "string \<Rightarrow> bool" where
  "linkRef s =
     ((case after_prefix ''wiki:'' s of
         Some (c # r) \<Rightarrow> name_start c \<and> list_all (\<lambda>x. slug_rest x \<or> x = CHR ''/'') r
       | _ \<Rightarrow> False) \<or>
      (case after_prefix ''den:'' s of
         Some t \<Rightarrow>
           (case Cut CHR ''/'' t of
              (p, n, found) \<Rightarrow>
                found \<and> (case p of [] \<Rightarrow> False | c # r \<Rightarrow> name_start c \<and> list_all slug_rest r)
                \<and> n \<noteq> [] \<and> list_all decimal n)
       | None \<Rightarrow> False) \<or>
      (case after_prefix ''url:http://'' s of Some t \<Rightarrow> t \<noteq> [] \<and> list_all (\<lambda>c. \<not> re_space c) t | None \<Rightarrow> False) \<or>
      (case after_prefix ''url:https://'' s of Some t \<Rightarrow> t \<noteq> [] \<and> list_all (\<lambda>c. \<not> re_space c) t | None \<Rightarrow> False))"

text \<open>Display names a driver reports: kept when they look like one, dropped otherwise.\<close>

definition cleanModel :: "string \<Rightarrow> string" where
  "cleanModel m =
     (let m = TrimSpace m
      in if m = '''' \<or> length m > 80
            \<or> \<not> list_all (\<lambda>c. lower_alpha c \<or> upper_alpha c \<or> decimal c \<or> c \<in> set ''._:/@+-'') m
         then '''' else m)"

definition cleanLabel :: "string \<Rightarrow> string" where
  "cleanLabel l =
     (let l = TrimSpace l
      in if l = '''' \<or> length l > 40
            \<or> \<not> list_all (\<lambda>c. lower_alpha c \<or> decimal c \<or> c \<in> set ''._-'') l
         then '''' else l)"

text \<open>
  \<^verbatim>\<open>normalKind\<close>: the kinds the program knows are ASCII; letters beyond ASCII are left as
  written here.
\<close>

definition normalKind :: "string \<Rightarrow> string" where
  "normalKind k = (let k = map lower_char (TrimSpace k) in if k = ''note'' then '''' else k)"

section \<open>Mentions\<close>

text \<open>
  \<open>code_span\<close> is the length of the code a text starts with: a fenced block up to the first closing
  fence, else an inline span with no back quote or line break inside. \<open>mask\<close> replaces all code by
  spaces, from left to right.
\<close>

abbreviation tick :: char where "tick \<equiv> CHR 0x60"

fun find_text :: "string \<Rightarrow> string \<Rightarrow> nat option" where
  "find_text p [] = (if p = [] then Some 0 else None)"
| "find_text p (c # r) = (if prefix p (c # r) then Some 0 else map_option Suc (find_text p r))"

definition code_span :: "string \<Rightarrow> nat" where
  "code_span s =
     (case (if prefix [tick, tick, tick] s then find_text [tick, tick, tick] (drop 3 s) else None) of
        Some n \<Rightarrow> n + 6
      | None \<Rightarrow>
          (case s of
             [] \<Rightarrow> 0
           | c # r \<Rightarrow>
               (let inner = takeWhile (\<lambda>x. x \<noteq> tick \<and> byte x \<noteq> 10) r
                in if c = tick \<and> length inner < length r \<and> r ! length inner = tick
                   then length inner + 2 else 0)))"

function mask :: "string \<Rightarrow> string" where
  "mask [] = []"
| "mask (c # r) =
     (if code_span (c # r) = 0 then c # mask r
      else replicate (code_span (c # r)) CHR '' '' @ mask (drop (code_span (c # r)) (c # r)))"
  by pat_completeness auto
termination
  by (relation "measure length") auto

declare mask.simps [simp del]

record mention_candidate =
  mc_text :: string
  mc_name :: string
  mc_site :: string

text \<open>
  What follows an \<^verbatim>\<open>@\<close>: \<^verbatim>\<open>s/<hash>\<close>, or a name with an optional dotted
  part; the name and the number of bytes it takes.
\<close>

definition plain_name :: "string \<Rightarrow> string" where
  "plain_name s = (case s of [] \<Rightarrow> [] | c # r \<Rightarrow> if name_start c then c # takeWhile name_char r else [])"

definition mention_name :: "string \<Rightarrow> string" where
  "mention_name s =
     (let hex = takeWhile lower_hex (drop 2 s)
      in if prefix ''s/'' s \<and> hex \<noteq> [] then ''s/'' @ hex
         else let a = plain_name s; rest = drop (length a) s
              in if a = [] then []
                 else case rest of
                        [] \<Rightarrow> a
                      | c # r \<Rightarrow> if c = CHR ''.'' \<and> plain_name r \<noteq> [] then a @ ''.'' @ plain_name r else a)"

definition mention_site :: "string \<Rightarrow> string" where
  "mention_site s = (case s of [] \<Rightarrow> [] | c # r \<Rightarrow> if c = CHR ''@'' then plain_name r else [])"

definition mention_breaks :: "char \<Rightarrow> bool" where
  "mention_breaks c = (\<not> (lower_alpha c \<or> upper_alpha c \<or> decimal c \<or> c \<in> set ''_@./-''))"

text \<open>
  All matches from left to right: \<open>at\<close> says whether the character before may introduce a
  mention (the start of the text, or one of the breaking characters not used by the last match).
\<close>

function mention_matches :: "bool \<Rightarrow> string \<Rightarrow> (string \<times> string) list" where
  "mention_matches ok [] = []"
| "mention_matches ok (c # r) =
     (let name = mention_name r; rest = drop (length name) r; site = mention_site rest
      in if ok \<and> c = CHR ''@'' \<and> name \<noteq> []
         then (name, site) # mention_matches False (if site = [] then rest else drop (Suc (length site)) rest)
         else mention_matches (mention_breaks c) r)"
  by pat_completeness auto
termination
  by (relation "measure (\<lambda>(ok, s). length s)") auto

declare mention_matches.simps [simp del]

definition trim_dot :: "string \<Rightarrow> string" where
  "trim_dot s = (if s \<noteq> [] \<and> last s = CHR ''.'' then butlast s else s)"

fun distinct_by :: "('a \<Rightarrow> 'k) \<Rightarrow> 'k list \<Rightarrow> 'a list \<Rightarrow> 'a list" where
  "distinct_by k seen [] = []"
| "distinct_by k seen (x # xs) =
     (if k x \<in> set seen then distinct_by k seen xs else x # distinct_by k (k x # seen) xs)"

definition candidate :: "string \<times> string \<Rightarrow> mention_candidate" where
  "candidate m =
     (let name = trim_dot (fst m); site = snd m
      in \<lparr>mc_text = ''@'' @ name @ (if site = '''' then '''' else ''@'' @ site), mc_name = name, mc_site = site\<rparr>)"

definition mentionCandidates :: "string \<Rightarrow> mention_candidate list" where
  "mentionCandidates body = distinct_by mc_text [] (map candidate (mention_matches True (mask body)))"

definition participantKind :: "string \<Rightarrow> string" where
  "participantKind name =
     (if prefix ''s/'' name then AuthorSession
      else if CHR ''.'' \<in> set name then AuthorSeat else AuthorPerson)"

section \<open>Attachment references\<close>

function blob_matches :: "string \<Rightarrow> string list" where
  "blob_matches [] = []"
| "blob_matches (c # r) =
     (let h = take 64 (drop 12 (c # r))
      in if prefix ''blob:sha256-'' (c # r) \<and> length h = 64 \<and> list_all lower_hex h
         then h # blob_matches (drop 76 (c # r)) else blob_matches r)"
  by pat_completeness auto
termination
  by (relation "measure length") auto

declare blob_matches.simps [simp del]

definition attachmentRefs :: "string \<Rightarrow> string list" where
  "attachmentRefs body = distinct_by id [] (blob_matches body)"

section \<open>Identifiers\<close>

definition crockford :: string where
  "crockford = ''0123456789ABCDEFGHJKMNPQRSTVWXYZ''"

text \<open>
  \<open>NewID site now random\<close>: \<open>random\<close> are the ten bytes \<^verbatim>\<open>rand.Read\<close> fills in. The
  accumulator is a 64-bit word, as in the code.
\<close>

definition id_bytes :: "time \<Rightarrow> string \<Rightarrow> 64 word list" where
  "id_bytes now random =
     (let ms = word_of_int (now div 1000000) :: 64 word
      in map (\<lambda>i. drop_bit (8 * i) ms AND 255) [5, 4, 3, 2, 1, 0] @ map (\<lambda>c. of_nat (byte c)) random)"

function emit :: "64 word \<Rightarrow> nat \<Rightarrow> string \<times> nat" where
  "emit acc bits =
     (if bits < 5 then ([], bits)
      else let b = bits - 5; (out, rest) = emit acc b
           in (crockford ! unat (drop_bit b acc AND 31) # out, rest))"
  by pat_completeness auto
termination
  by (relation "measure snd") auto

declare emit.simps [simp del]

fun base32 :: "64 word \<Rightarrow> nat \<Rightarrow> 64 word list \<Rightarrow> string" where
  "base32 acc bits [] = []"
| "base32 acc bits (b # bs) =
     (let acc' = push_bit 8 acc OR b; (out, rest) = emit acc' (bits + 8)
      in out @ base32 acc' rest bs)"

definition NewID :: "string \<Rightarrow> time \<Rightarrow> string \<Rightarrow> string" where
  "NewID site now random = site @ ''-'' @ base32 0 2 (id_bytes now random)"

section \<open>LIKE\<close>

text \<open>
  SQLite's \<^verbatim>\<open>text LIKE pattern\<close>, with an optional escape character: \<^verbatim>\<open>%\<close>
  matches any text, \<^verbatim>\<open>_\<close> one character, and ASCII letters match in either case.
\<close>

function (sequential) like :: "char option \<Rightarrow> string \<Rightarrow> string \<Rightarrow> bool" where
  "like esc [] s = (s = [])"
| "like esc (p # ps) s =
     (if esc = Some p
      then (case ps of
              [] \<Rightarrow> False
            | q # qs \<Rightarrow> (case s of [] \<Rightarrow> False | c # r \<Rightarrow> lower_char q = lower_char c \<and> like esc qs r))
      else if p = CHR ''%''
      then like esc ps s \<or> (case s of [] \<Rightarrow> False | c # r \<Rightarrow> like esc (p # ps) r)
      else if p = CHR ''_'' then (case s of [] \<Rightarrow> False | c # r \<Rightarrow> like esc ps r)
      else (case s of [] \<Rightarrow> False | c # r \<Rightarrow> lower_char p = lower_char c \<and> like esc ps r))"
  by pat_completeness auto
termination
  by (relation "measure (\<lambda>(esc, p, s). length p + length s)") auto

declare like.simps [simp del]

definition like_escape :: "string \<Rightarrow> string" where
  "like_escape q =
     concat (map (\<lambda>c. if c = CHR 0x5C \<or> c = CHR ''%'' \<or> c = CHR ''_'' then [CHR 0x5C, c] else [c]) q)"

section \<open>JSON of results\<close>

text \<open>RFC3339 text of an instant in UTC, by the proleptic Gregorian calendar.\<close>

definition civil :: "int \<Rightarrow> int \<times> int \<times> int" where
  "civil days =
     (let z = days + 719468; era = z div 146097; doe = z mod 146097;
          yoe = (doe - doe div 1460 + doe div 36524 - doe div 146096) div 365;
          doy = doe - (365 * yoe + yoe div 4 - yoe div 100); mp = (5 * doy + 2) div 153;
          d = doy - (153 * mp + 2) div 5 + 1; m = (if mp < 10 then mp + 3 else mp - 9)
      in (yoe + era * 400 + (if m \<le> 2 then 1 else 0), m, d))"

definition pad :: "nat \<Rightarrow> int \<Rightarrow> string" where
  "pad w n = map digit_char (digits w (nat n))"

definition rfc3339 :: "time \<Rightarrow> string" where
  "rfc3339 t =
     (let seconds = t div 1000000000; (y, m, d) = civil (seconds div 86400); s = seconds mod 86400
      in pad 4 y @ ''-'' @ pad 2 m @ ''-'' @ pad 2 d @ ''T'' @ pad 2 (s div 3600) @ '':''
         @ pad 2 (s div 60 mod 60) @ '':'' @ pad 2 (s mod 60) @ frac_text (nat (t mod 1000000000)))"

definition timeJSON :: "time option \<Rightarrow> json" where
  "timeJSON t = JString (case t of None \<Rightarrow> ''0001-01-01T00:00:00Z'' | Some t \<Rightarrow> rfc3339 t)"

text \<open>\<open>text_field\<close> is a string field with \<^verbatim>\<open>omitempty\<close>, \<open>list_field\<close> a slice.\<close>

definition text_field :: "string \<Rightarrow> string \<Rightarrow> (string \<times> json) list" where
  "text_field k v = (if v = '''' then [] else [(k, JString v)])"

definition list_field :: "string \<Rightarrow> json list \<Rightarrow> (string \<times> json) list" where
  "list_field k v = (if v = [] then [] else [(k, JArray v)])"

definition int_field :: "string \<Rightarrow> int \<Rightarrow> (string \<times> json) list" where
  "int_field k v = (if v = 0 then [] else [(k, JInt v)])"

definition bool_field :: "string \<Rightarrow> bool \<Rightarrow> (string \<times> json) list" where
  "bool_field k v = (if v then [(k, JBool True)] else [])"

definition authorJSON :: "author \<Rightarrow> json" where
  "authorJSON a = JObject ([(''kind'', JString (au_kind a)), (''address'', JString (au_address a))]
     @ text_field ''session'' (au_session a) @ text_field ''adapter'' (au_adapter a)
     @ text_field ''model'' (au_model a) @ text_field ''label'' (au_label a)
     @ text_field ''working_for'' (au_working_for a) @ [(''site'', JString (au_site a))])"

definition mentionJSON :: "mention \<Rightarrow> json" where
  "mentionJSON m = JObject [(''text'', JString (mn_text m)), (''kind'', JString (mn_kind m)),
     (''address'', JString (mn_address m)), (''site'', JString (mn_site m))]"

definition linkJSON :: "link \<Rightarrow> json" where
  "linkJSON l = JObject ([(''ref'', JString (lk_ref l))] @ text_field ''note'' (lk_note l)
     @ [(''by'', authorJSON (lk_by l)), (''at'', timeJSON (Some (lk_at l)))])"

definition boardJSON :: "board \<Rightarrow> json" where
  "boardJSON b = JObject ([(''name'', JString (bd_name b)), (''site'', JString (bd_site b))]
     @ text_field ''description'' (bd_description b)
     @ [(''created_at'', timeJSON (Some (bd_created_at b))), (''created_by'', authorJSON (bd_created_by b)),
        (''threads'', JInt (int (bd_threads b)))] @ text_field ''network'' (bd_network b))"

definition threadJSON :: "thread option \<Rightarrow> json" where
  "threadJSON t =
     (case t of
        None \<Rightarrow> JObject [(''id'', JString ''''), (''board'', JString ''''), (''title'', JString ''''),
          (''state'', JString ''''), (''opening_post_id'', JString ''''), (''created_at'', timeJSON None),
          (''created_by'', authorJSON no_author), (''last_activity_at'', timeJSON None),
          (''posts'', JInt 0), (''ref'', JString '''')]
      | Some t \<Rightarrow> JObject ([(''id'', JString (th_id t)), (''board'', JString (th_board t)),
          (''title'', JString (th_title t)), (''state'', JString (thread_state_text (th_state t))),
          (''opening_post_id'', JString (th_opening_post_id t)),
          (''created_at'', timeJSON (Some (th_created_at t))), (''created_by'', authorJSON (th_created_by t)),
          (''last_activity_at'', timeJSON (Some (th_last_activity_at t))),
          (''posts'', JInt (th_posts t)), (''ref'', JString (th_ref t))]
          @ list_field ''links'' (map linkJSON (th_links t))
          @ list_field ''aliases'' (map JString (th_aliases t))
          @ text_field ''redirect_to'' (th_redirect_to t)))"

fun attachment_state_text :: "attachment_state \<Rightarrow> string" where
  "attachment_state_text AttachmentReady = ''ready''"
| "attachment_state_text AttachmentHeld = ''held''"
| "attachment_state_text AttachmentDropped = ''dropped''"

definition attachmentJSON :: "attachment \<Rightarrow> json" where
  "attachmentJSON a = JObject ([(''ref'', JString (at_ref a)), (''original_hash'', JString (at_original_hash a))]
     @ text_field ''output_hash'' (at_output_hash a) @ text_field ''name'' (at_name a)
     @ [(''state'', JString (attachment_state_text (at_state a)))] @ text_field ''reason'' (at_reason a)
     @ text_field ''kind'' (at_kind a) @ text_field ''type'' (at_type a)
     @ int_field ''width'' (at_width a) @ int_field ''height'' (at_height a)
     @ int_field ''duration_ms'' (at_duration_ms a) @ int_field ''bytes'' (at_bytes a)
     @ list_field ''checks'' (map JString (at_checks a)) @ [(''created_at'', timeJSON (Some (at_created_at a)))])"

definition postJSON :: "post \<Rightarrow> json" where
  "postJSON p = JObject ([(''id'', JString (po_id p)), (''thread_id'', JString (po_thread_id p))]
     @ text_field ''parent_id'' (po_parent_id p)
     @ [(''author'', authorJSON (po_author p)), (''site'', JString (po_site p)),
        (''state'', JString (post_state_text (po_state p))), (''revision'', JInt (po_revision p))]
     @ text_field ''body'' (po_body p) @ list_field ''mentions'' (map mentionJSON (po_mentions p))
     @ text_field ''note'' (po_note p) @ text_field ''kind'' (po_kind p)
     @ bool_field ''urgent'' (po_urgent p) @ text_field ''sync'' (po_sync p)
     @ bool_field ''remote'' (po_remote p)
     @ list_field ''attachments'' (map attachmentJSON (po_attachments p))
     @ [(''created_at'', timeJSON (Some (po_created_at p))), (''edited_at'', timeJSON (po_edited_at p))])"

definition warningJSON :: "mention_warning \<Rightarrow> json" where
  "warningJSON w = JObject [(''text'', JString (fst w)), (''reason'', JString (snd w))]"

fun resultJSON :: "op_result \<Rightarrow> json" where
  "resultJSON (RBoard b) = boardJSON b"
| "resultJSON (RThread t) = threadJSON (Some t)"
| "resultJSON (RPost r) = JObject ([(''thread'', threadJSON (pr_thread r)), (''post'', postJSON (pr_post r))]
     @ list_field ''warnings'' (map warningJSON (pr_warnings r)))"

end
