(* ===== verification/Board_Store.thy ===== *)
theory Board_Store
  imports Board_Text
begin

text \<open>
  The store of crew-board (\<^verbatim>\<open>src/internal/board/boardsqlite/store.go\<close> over the tables of
  its migrations). Every table is a list of rows in rowid order. A statement that violates a primary
  key or a foreign key fails and takes its transaction with it (\<open>StoreFailed\<close>).

  Rows of threads and posts hold the record without what a read computes: the post count, the
  reference, and the text, which is the row of \<open>bt_revisions\<close> the post's revision names.
  \<^verbatim>\<open>ORDER BY\<close> is a stable sort on the key, so that rows with equal keys keep rowid order.
\<close>

section \<open>Tables\<close>

record thread_row =
  tw_thread :: thread
  tw_purged :: bool

record post_row =
  pw_post :: post

record event_row =
  ew_event :: event

record operation_row =
  ow_operation_id :: string
  ow_request_hash :: string
  ow_result :: "op_result option"
  ow_created_at :: time
  ow_purged :: bool

record notice_row =
  nw_notice :: notice
  nw_purged :: bool

record subscription_row =
  sw_participant :: participant
  sw_target_kind :: string
  sw_target :: string
  sw_created_at :: time

record cursor_row =
  cw_participant :: participant
  cw_thread_id :: string
  cw_post_id :: string
  cw_updated_at :: time

record ack_row =
  kw_post_id :: string
  kw_participant :: participant
  kw_acked_by :: author
  kw_created_at :: time

record outbox_row =
  xw_id :: nat
  xw_file :: outbox_file
  xw_pending :: bool
  xw_commit :: string

record sync_state =
  ss_network :: string
  ss_last_commit :: string
  ss_status :: string
  ss_checked_at :: "time option"
  ss_repo_bytes :: int
  ss_pending :: nat
  ss_joined_at :: "time option"

record sync_flag =
  sf_network :: string
  sf_commit :: string
  sf_path :: string
  sf_reason :: ignore_reason
  sf_created_at :: time

record bdb =
  bt_boards :: "board list"
  bt_threads :: "thread_row list"
  bt_posts :: "post_row list"
  bt_revisions :: "revision list"
  bt_events :: "event_row list"
  bt_operations :: "operation_row list"
  bt_notices :: "notice_row list"
  bt_subscriptions :: "subscription_row list"
  bt_cursors :: "cursor_row list"
  bt_attachments :: "attachment list"
  bt_acks :: "ack_row list"
  bt_outbox :: "outbox_row list"
  bt_outbox_seq :: nat
  bt_sync :: "sync_state list"
  bt_flags :: "sync_flag list"
  bt_purged_blobs :: "string list"

definition empty_bdb :: bdb where
  "empty_bdb = \<lparr>bt_boards = [], bt_threads = [], bt_posts = [], bt_revisions = [], bt_events = [],
     bt_operations = [], bt_notices = [], bt_subscriptions = [], bt_cursors = [], bt_attachments = [],
     bt_acks = [], bt_outbox = [], bt_outbox_seq = 0, bt_sync = [], bt_flags = [], bt_purged_blobs = []\<rparr>"

section \<open>Keys\<close>

abbreviation thread_id :: "thread_row \<Rightarrow> string" where
  "thread_id r \<equiv> th_id (tw_thread r)"

abbreviation post_id :: "post_row \<Rightarrow> string" where
  "post_id r \<equiv> po_id (pw_post r)"

definition has_board :: "string \<Rightarrow> bdb \<Rightarrow> bool" where
  "has_board n d = list_ex (\<lambda>b. bd_name b = n) (bt_boards d)"

definition has_thread :: "string \<Rightarrow> bdb \<Rightarrow> bool" where
  "has_thread i d = list_ex (\<lambda>r. thread_id r = i) (bt_threads d)"

definition has_post :: "string \<Rightarrow> bdb \<Rightarrow> bool" where
  "has_post i d = list_ex (\<lambda>r. post_id r = i) (bt_posts d)"

section \<open>Scrubbing\<close>

definition result_text :: "op_result option \<Rightarrow> string" where
  "result_text r = (case r of None \<Rightarrow> ''{}'' | Some v \<Rightarrow> Marshal (resultJSON v))"

definition carries :: "string \<Rightarrow> op_result option \<Rightarrow> bool" where
  "carries i r = like None (''%'' @ [CHR 0x22] @ i @ [CHR 0x22] @ ''%'') (result_text r)"

definition scrubReceipt :: "string \<Rightarrow> operation_row list \<Rightarrow> operation_row list" where
  "scrubReceipt i ops = upd (\<lambda>w. carries i (ow_result w)) (\<lambda>w. w\<lparr>ow_result := None, ow_purged := True\<rparr>) ops"

definition scrubReceipts :: "string list \<Rightarrow> bdb \<Rightarrow> bdb" where
  "scrubReceipts ids d = d\<lparr>bt_operations := fold scrubReceipt ids (bt_operations d)\<rparr>"

definition scrubOutbox :: "(outbox_row \<Rightarrow> bool) \<Rightarrow> bdb \<Rightarrow> bdb" where
  "scrubOutbox P d =
     d\<lparr>bt_outbox := upd P (\<lambda>x. x\<lparr>xw_file := (xw_file x)\<lparr>of_content := ''''\<rparr>\<rparr>)
                      (filter (\<lambda>x. \<not> (xw_pending x \<and> P x)) (bt_outbox d))\<rparr>"

definition scrub_post :: "post_row \<Rightarrow> post_row" where
  "scrub_post r = r\<lparr>pw_post := (pw_post r)\<lparr>po_state := PostPurged, po_author := no_author, po_note := ''''\<rparr>\<rparr>"

definition scrub_event :: "event_row \<Rightarrow> event_row" where
  "scrub_event r = r\<lparr>ew_event := (ew_event r)\<lparr>ev_note := '''', ev_data := [], ev_actor := no_author\<rparr>\<rparr>"

text \<open>9999-01-01T00:00:00Z, the attempt that never comes.\<close>

definition never :: time where
  "never = 253370764800000000000"

definition scrub_notice :: "notice_row \<Rightarrow> notice_row" where
  "scrub_notice r =
     (let n = nw_notice r
      in r\<lparr>nw_purged := True,
           nw_notice := n\<lparr>no_body := '''', no_next_attempt_at := never,
             no_state := (if no_state n = NoticePending then NoticeFailed else no_state n),
             no_last_error := (if no_state n = NoticePending
                               then ''post purged before the notice went out'' else no_last_error n)\<rparr>\<rparr>)"

text \<open>
  \<open>scrub P Q d\<close>: \<open>P\<close> selects by post id in the tables that name a post, \<open>Q\<close> selects the posts
  themselves. An event without a post is selected by neither.
\<close>

definition scrub :: "(string \<Rightarrow> bool) \<Rightarrow> (post_row \<Rightarrow> bool) \<Rightarrow> bdb \<Rightarrow> bdb" where
  "scrub P Q d =
     d\<lparr>bt_revisions := upd (\<lambda>r. P (rv_post_id r)) (\<lambda>r. r\<lparr>rv_body := '''', rv_mentions := []\<rparr>) (bt_revisions d),
       bt_posts := upd Q scrub_post (bt_posts d),
       bt_events := upd (\<lambda>r. ev_type (ew_event r) \<noteq> ''purge'' \<and> ev_post_id (ew_event r) \<noteq> ''''
                             \<and> P (ev_post_id (ew_event r))) scrub_event (bt_events d),
       bt_notices := upd (\<lambda>r. P (no_post_id (nw_notice r))) scrub_notice (bt_notices d)\<rparr>"

definition posts_path :: "outbox_row \<Rightarrow> bool" where
  "posts_path x = like None ''%/posts/%'' (of_path (xw_file x))"

definition scrub_thread_event :: "event_row \<Rightarrow> event_row" where
  "scrub_thread_event r =
     r\<lparr>ew_event := (ew_event r)\<lparr>ev_note := '''', ev_data := [],
         ev_actor := (if ev_type (ew_event r) = ''purge'' then ev_actor (ew_event r) else no_author)\<rparr>\<rparr>"

definition scrub_thread_row :: "thread_row \<Rightarrow> thread_row" where
  "scrub_thread_row r =
     r\<lparr>tw_purged := True,
       tw_thread := (tw_thread r)\<lparr>th_title := '''', th_created_by := no_author, th_links := [],
                                   th_aliases := [], th_redirect_to := ''''\<rparr>\<rparr>"

definition thread_posts :: "string \<Rightarrow> bdb \<Rightarrow> string list" where
  "thread_posts t d = map post_id (sel (\<lambda>r. po_thread_id (pw_post r) = t) (bt_posts d))"

definition scrubPost :: "string \<Rightarrow> bdb \<Rightarrow> bdb" where
  "scrubPost i d =
     scrubOutbox (\<lambda>x. of_post_id (xw_file x) = i \<and> posts_path x)
       (scrub (\<lambda>p. p = i) (\<lambda>r. post_id r = i) (scrubReceipts [i] d))"

definition scrubThread :: "string \<Rightarrow> bdb \<Rightarrow> bdb" where
  "scrubThread t d =
     (let ids = thread_posts t d;
          d1 = scrub (\<lambda>p. p \<in> set ids) (\<lambda>r. po_thread_id (pw_post r) = t) (scrubReceipts (ids @ [t]) d);
          d2 = d1\<lparr>bt_events := upd (\<lambda>r. ev_thread_id (ew_event r) = t) scrub_thread_event (bt_events d1)\<rparr>;
          d3 = d2\<lparr>bt_threads := upd (\<lambda>r. thread_id r = t) scrub_thread_row (bt_threads d2)\<rparr>
      in scrubOutbox (\<lambda>x. like None (''%/threads/'' @ t @ ''/%'') (of_path (xw_file x))) d3)"

section \<open>Apply\<close>

definition subscriptionTarget :: "subscription \<Rightarrow> string \<times> string" where
  "subscriptionTarget s = (if su_thread s \<noteq> '''' then (''thread'', su_thread s) else (''board'', su_board s))"

definition insert_if :: "bool \<Rightarrow> bdb \<Rightarrow> board_error + bdb" where
  "insert_if ok d = (if ok then Inr d else Inl StoreFailed)"

definition stored_post :: "post \<Rightarrow> post_row" where
  "stored_post p = \<lparr>pw_post = p\<lparr>po_body := '''', po_mentions := [], po_remote := False,
                                 po_attachments := [], po_edited_at := None\<rparr>\<rparr>"

definition stored_thread :: "thread \<Rightarrow> thread_row" where
  "stored_thread t = \<lparr>tw_thread = t\<lparr>th_posts := 0, th_ref := '''', th_links := [], th_aliases := [],
                                     th_redirect_to := ''''\<rparr>, tw_purged = False\<rparr>"

definition stored_notice :: "notice \<Rightarrow> notice_row" where
  "stored_notice n = \<lparr>nw_notice = n\<lparr>no_attempts := 0, no_message_id := '''', no_sent_at := None, no_body := ''''\<rparr>,
                      nw_purged = False\<rparr>"

definition set_post :: "string \<Rightarrow> (post \<Rightarrow> post) \<Rightarrow> bdb \<Rightarrow> bdb" where
  "set_post i f d = d\<lparr>bt_posts := upd (\<lambda>r. post_id r = i) (\<lambda>r. r\<lparr>pw_post := f (pw_post r)\<rparr>) (bt_posts d)\<rparr>"

definition set_thread :: "string \<Rightarrow> (thread \<Rightarrow> thread) \<Rightarrow> bdb \<Rightarrow> bdb" where
  "set_thread i f d = d\<lparr>bt_threads := upd (\<lambda>r. thread_id r = i) (\<lambda>r. r\<lparr>tw_thread := f (tw_thread r)\<rparr>) (bt_threads d)\<rparr>"

fun apply_change :: "change \<Rightarrow> bdb \<Rightarrow> board_error + bdb" where
  "apply_change (CBoard b) d =
     insert_if (\<not> has_board (bd_name b) d) (d\<lparr>bt_boards := bt_boards d @ [b\<lparr>bd_threads := 0\<rparr>]\<rparr>)"
| "apply_change (COutbox f) d =
     (let row = \<lparr>xw_id = Suc (bt_outbox_seq d), xw_file = f, xw_pending = True, xw_commit = ''''\<rparr>;
          d' = d\<lparr>bt_outbox := bt_outbox d @ [row], bt_outbox_seq := Suc (bt_outbox_seq d)\<rparr>
      in Inr (if of_post_id f \<noteq> '''' \<and> find_text ''/posts/'' (of_path f) \<noteq> None
              then set_post (of_post_id f) (\<lambda>p. p\<lparr>po_sync := ''pending_push''\<rparr>) d' else d'))"
| "apply_change (CThread t) d =
     insert_if (\<not> has_thread (th_id t) d \<and> has_board (th_board t) d)
       (d\<lparr>bt_threads := bt_threads d @ [stored_thread t]\<rparr>)"
| "apply_change (CPost p) d =
     insert_if (\<not> has_post (po_id p) d \<and> has_thread (po_thread_id p) d)
       (d\<lparr>bt_posts := bt_posts d @ [stored_post p]\<rparr>)"
| "apply_change (CThreadUpdate u) d =
     Inr (set_thread (tu_id u)
       (\<lambda>t. t\<lparr>th_state := tu_state u, th_title := tu_title u, th_links := tu_links u,
              th_aliases := tu_aliases u, th_redirect_to := tu_redirect_to u\<rparr>) d)"
| "apply_change (CAck a) d =
     (if list_ex (\<lambda>k. kw_post_id k = ak_post_id a \<and> kw_participant k = ak_for a) (bt_acks d) then Inr d
      else insert_if (has_post (ak_post_id a) d)
        (d\<lparr>bt_acks := bt_acks d @ [\<lparr>kw_post_id = ak_post_id a, kw_participant = ak_for a,
                                    kw_acked_by = ak_by a, kw_created_at = ak_at a\<rparr>]\<rparr>))"
| "apply_change (CNotice n) d =
     (if list_ex (\<lambda>r. no_id (nw_notice r) = no_id n
                      \<or> no_post_id (nw_notice r) = no_post_id n \<and> no_recipient (nw_notice r) = no_recipient n)
           (bt_notices d)
      then Inr d
      else insert_if (has_post (no_post_id n) d \<and> has_thread (no_thread_id n) d)
        (d\<lparr>bt_notices := bt_notices d @ [stored_notice n]\<rparr>))"
| "apply_change (CSubscribe s) d =
     (case subscriptionTarget s of
        (kind, target) \<Rightarrow>
          Inr (if list_ex (\<lambda>r. sw_participant r = su_participant s \<and> sw_target_kind r = kind \<and> sw_target r = target)
                    (bt_subscriptions d)
               then d
               else d\<lparr>bt_subscriptions := bt_subscriptions d @ [\<lparr>sw_participant = su_participant s,
                       sw_target_kind = kind, sw_target = target, sw_created_at = su_created_at s\<rparr>]\<rparr>))"
| "apply_change (CRevision r) d =
     insert_if (\<not> list_ex (\<lambda>x. rv_post_id x = rv_post_id r \<and> rv_revision x = rv_revision r) (bt_revisions d)
                \<and> has_post (rv_post_id r) d)
       (d\<lparr>bt_revisions := bt_revisions d @ [r]\<rparr>)"
| "apply_change (CEvent e) d =
     insert_if (\<not> list_ex (\<lambda>r. ev_id (ew_event r) = ev_id e) (bt_events d) \<and> has_thread (ev_thread_id e) d)
       (d\<lparr>bt_events := bt_events d @ [\<lparr>ew_event = e\<rparr>]\<rparr>)"
| "apply_change (CTouch t at) d = Inr (set_thread t (\<lambda>x. x\<lparr>th_last_activity_at := at\<rparr>) d)"
| "apply_change (CPostState s) d =
     Inr (set_post (ps_post_id s) (\<lambda>p. p\<lparr>po_state := ps_state s, po_revision := ps_revision s,
                                          po_note := ps_note s, po_edited_at := ps_edited_at s\<rparr>) d)"
| "apply_change (CScrubPost i) d = (if i = '''' then Inl StoreFailed else Inr (scrubPost i d))"
| "apply_change (CScrubThread t) d = (if t = '''' then Inl StoreFailed else Inr (scrubThread t d))"

fun apply_changes :: "change list \<Rightarrow> bdb \<Rightarrow> board_error + bdb" where
  "apply_changes [] d = Inr d"
| "apply_changes (c # cs) d = bindR (apply_change c d) (apply_changes cs)"

definition has_operation :: "string \<Rightarrow> bdb \<Rightarrow> bool" where
  "has_operation i d = list_ex (\<lambda>w. ow_operation_id w = i) (bt_operations d)"

definition insert_receipt :: "receipt \<Rightarrow> bdb \<Rightarrow> board_error + bdb" where
  "insert_receipt r d =
     insert_if (\<not> has_operation (rc_operation_id r) d)
       (d\<lparr>bt_operations := bt_operations d @ [\<lparr>ow_operation_id = rc_operation_id r,
            ow_request_hash = rc_request_hash r, ow_result = Some (rc_result r),
            ow_created_at = rc_created_at r, ow_purged = False\<rparr>]\<rparr>)"

text \<open>\<open>None\<close> is the empty receipt of a write that is not an operation.\<close>

definition Apply :: "receipt option \<Rightarrow> change list \<Rightarrow> bdb \<Rightarrow> board_error + bdb" where
  "Apply r cs d =
     bindR (apply_changes cs d) (\<lambda>d'. case r of None \<Rightarrow> Inr d' | Some r \<Rightarrow> insert_receipt r d')"

definition Receipt :: "string \<Rightarrow> bdb \<Rightarrow> operation_row option" where
  "Receipt i d = sel1 (\<lambda>w. ow_operation_id w = i) (bt_operations d)"

end
