(* ===== verification/Board_Reads.thy ===== *)
theory Board_Reads
  imports Board_Store
begin

text \<open>
  The reads of the board store, and its writes that are not operations: subscriptions, read cursors,
  notices, attachments, the outbox and the sync state
  (\<^verbatim>\<open>src/internal/board/boardsqlite/store.go\<close>).
\<close>

section \<open>Boards and threads\<close>

definition scanBoard :: "bdb \<Rightarrow> board \<Rightarrow> board" where
  "scanBoard d b =
     b\<lparr>bd_threads := length (sel (\<lambda>r. th_board (tw_thread r) = bd_name b \<and> \<not> tw_purged r) (bt_threads d))\<rparr>"

definition GetBoard :: "string \<Rightarrow> bdb \<Rightarrow> board option" where
  "GetBoard n d = map_option (scanBoard d) (sel1 (\<lambda>b. bd_name b = n) (bt_boards d))"

definition ListBoards :: "bdb \<Rightarrow> board list" where
  "ListBoards d = map (scanBoard d) (sort_key bd_name (bt_boards d))"

text \<open>The site in a thread's reference is what stands before the first hyphen of its id.\<close>

definition scanThread :: "bdb \<Rightarrow> thread_row \<Rightarrow> thread" where
  "scanThread d r =
     (let t = tw_thread r
      in t\<lparr>th_posts := int (length (sel (\<lambda>p. po_thread_id (pw_post p) = th_id t
                                             \<and> po_state (pw_post p) \<noteq> PostPurged) (bt_posts d))),
           th_ref := ''board:'' @ fst (Cut CHR ''-'' (th_id t)) @ ''/'' @ th_id t\<rparr>)"

definition GetThread :: "string \<Rightarrow> bdb \<Rightarrow> thread option" where
  "GetThread i d = map_option (scanThread d) (sel1 (\<lambda>r. thread_id r = i \<and> \<not> tw_purged r) (bt_threads d))"

definition ThreadPurged :: "string \<Rightarrow> bdb \<Rightarrow> bool" where
  "ThreadPurged i d = list_ex (\<lambda>r. thread_id r = i \<and> tw_purged r) (bt_threads d)"

record thread_cursor =
  tc_last_activity_at :: time
  tc_id :: string

record thread_filter =
  tf_states :: "string list"
  tf_active_since :: "time option"

definition thread_matches :: "string \<Rightarrow> thread_cursor \<Rightarrow> thread_filter \<Rightarrow> thread_row \<Rightarrow> bool" where
  "thread_matches name after f r =
     (let t = tw_thread r
      in th_board t = name \<and> \<not> tw_purged r
         \<and> (tf_states f = [] \<or> thread_state_text (th_state t) \<in> set (tf_states f))
         \<and> (case tf_active_since f of None \<Rightarrow> True | Some s \<Rightarrow> s \<le> th_last_activity_at t)
         \<and> (tc_id after = '''' \<or> th_last_activity_at t < tc_last_activity_at after
            \<or> th_last_activity_at t = tc_last_activity_at after \<and> th_id t < tc_id after))"

definition thread_key :: "thread_row \<Rightarrow> time \<times> string" where
  "thread_key r = (th_last_activity_at (tw_thread r), thread_id r)"

definition StoreListThreads :: "string \<Rightarrow> thread_cursor \<Rightarrow> nat \<Rightarrow> thread_filter \<Rightarrow> bdb \<Rightarrow> thread list" where
  "StoreListThreads name after limit f d =
     map (scanThread d) (take limit (rev (sort_key thread_key (sel (thread_matches name after f) (bt_threads d)))))"

section \<open>Posts\<close>

text \<open>
  \<^verbatim>\<open>postKey\<close>: posts are ordered by the instant they were written, then by id. A post row
  is read with the revision it names; one without that revision is not read at all.
\<close>

definition postKey :: "post \<Rightarrow> time \<times> string" where
  "postKey p = (po_created_at p, po_id p)"

definition keyOf :: "string \<Rightarrow> bdb \<Rightarrow> (time \<times> string) option" where
  "keyOf i d = map_option (\<lambda>r. postKey (pw_post r)) (sel1 (\<lambda>r. post_id r = i) (bt_posts d))"

definition scanPost :: "bdb \<Rightarrow> post_row \<Rightarrow> post option" where
  "scanPost d r =
     (let p = pw_post r
      in map_option (\<lambda>v. p\<lparr>po_body := rv_body v, po_mentions := rv_mentions v\<rparr>)
           (sel1 (\<lambda>v. rv_post_id v = po_id p \<and> rv_revision v = po_revision p) (bt_revisions d)))"

definition joined :: "bdb \<Rightarrow> post list" where
  "joined d = List.map_filter (scanPost d) (bt_posts d)"

definition live_thread :: "bdb \<Rightarrow> post \<Rightarrow> bool" where
  "live_thread d p = list_ex (\<lambda>r. thread_id r = po_thread_id p \<and> \<not> tw_purged r) (bt_threads d)"

definition GetPost :: "string \<Rightarrow> bdb \<Rightarrow> post option" where
  "GetPost i d = sel1 (\<lambda>p. po_id p = i \<and> live_thread d p) (joined d)"

definition beyond :: "string \<Rightarrow> bdb \<Rightarrow> post \<Rightarrow> bool" where
  "beyond after d p = (after = '''' \<or> (case keyOf after d of None \<Rightarrow> False | Some k \<Rightarrow> k < postKey p))"

definition ListPosts :: "string \<Rightarrow> string \<Rightarrow> nat \<Rightarrow> bdb \<Rightarrow> post list" where
  "ListPosts t after limit d =
     take limit (sort_key postKey (filter (\<lambda>p. po_thread_id p = t \<and> beyond after d p) (joined d)))"

definition ListRevisions :: "string \<Rightarrow> bdb \<Rightarrow> revision list" where
  "ListRevisions i d = sort_key rv_revision (sel (\<lambda>r. rv_post_id r = i) (bt_revisions d))"

definition on_board :: "string \<Rightarrow> bdb \<Rightarrow> post \<Rightarrow> thread_row option" where
  "on_board name d p =
     sel1 (\<lambda>r. thread_id r = po_thread_id p \<and> \<not> tw_purged r \<and> th_board (tw_thread r) = name) (bt_threads d)"

definition search_matches :: "string \<Rightarrow> post \<Rightarrow> thread \<Rightarrow> bool" where
  "search_matches q p t =
     (let pattern = ''%'' @ like_escape q @ ''%''; hit = like (Some CHR 0x5C) pattern
      in hit (po_body p) \<or> hit (th_title t) \<or> hit (Marshal (JArray (map JString (th_aliases t)))))"

definition StoreSearch :: "string \<Rightarrow> string \<Rightarrow> nat \<Rightarrow> bdb \<Rightarrow> post list" where
  "StoreSearch name q limit d =
     take limit (rev (sort_key postKey (filter (\<lambda>p. po_state p = PostVisible
        \<and> (case on_board name d p of None \<Rightarrow> False | Some r \<Rightarrow> search_matches q p (tw_thread r))) (joined d))))"

definition before :: "string \<Rightarrow> bdb \<Rightarrow> post \<Rightarrow> bool" where
  "before i d p = (i = '''' \<or> (case keyOf i d of None \<Rightarrow> False | Some k \<Rightarrow> postKey p < k))"

definition KindPosts :: "string \<Rightarrow> string \<Rightarrow> string \<Rightarrow> nat \<Rightarrow> bdb \<Rightarrow> post list" where
  "KindPosts name kind i limit d =
     take limit (rev (sort_key postKey (filter (\<lambda>p. po_state p = PostVisible \<and> po_kind p = kind \<and> before i d p
        \<and> (if name = '''' then live_thread d p else on_board name d p \<noteq> None)) (joined d))))"

definition answered :: "bdb \<Rightarrow> post \<Rightarrow> bool" where
  "answered d p = list_ex (\<lambda>r. po_parent_id (pw_post r) = po_id p \<and> po_kind (pw_post r) = KindAnswer
                               \<and> po_state (pw_post r) = PostVisible) (bt_posts d)"

definition OpenQuestions :: "string \<Rightarrow> nat \<Rightarrow> bdb \<Rightarrow> post list" where
  "OpenQuestions name limit d =
     take limit (rev (sort_key postKey (filter (\<lambda>p. po_state p = PostVisible \<and> po_kind p = KindQuestion
        \<and> on_board name d p \<noteq> None \<and> \<not> answered d p) (joined d))))"

definition Acks :: "string \<Rightarrow> bdb \<Rightarrow> participant list" where
  "Acks i d = map kw_participant (sort_key kw_created_at (sel (\<lambda>k. kw_post_id k = i) (bt_acks d)))"

definition HasEvent :: "string \<Rightarrow> bdb \<Rightarrow> bool" where
  "HasEvent i d = list_ex (\<lambda>r. ev_id (ew_event r) = i) (bt_events d)"

section \<open>Following and reading\<close>

definition participant_key :: "participant \<Rightarrow> string \<times> string \<times> string" where
  "participant_key p = (pa_kind p, pa_address p, pa_site p)"

definition Subscribers :: "string \<Rightarrow> string \<Rightarrow> bdb \<Rightarrow> participant list" where
  "Subscribers t b d =
     sort_key participant_key (remdups (map sw_participant (sel (\<lambda>r.
       sw_target_kind r = ''thread'' \<and> sw_target r = t \<or> sw_target_kind r = ''board'' \<and> sw_target r = b)
       (bt_subscriptions d))))"

definition StoreUnsubscribe :: "subscription \<Rightarrow> bdb \<Rightarrow> bdb" where
  "StoreUnsubscribe s d =
     (case subscriptionTarget s of
        (kind, target) \<Rightarrow>
          d\<lparr>bt_subscriptions := filter (\<lambda>r. \<not> (sw_participant r = su_participant s \<and> sw_target_kind r = kind
                                                 \<and> sw_target r = target)) (bt_subscriptions d)\<rparr>)"

definition StoreSubscriptions :: "participant \<Rightarrow> bdb \<Rightarrow> subscription list" where
  "StoreSubscriptions p d =
     map (\<lambda>r. \<lparr>su_participant = p, su_thread = (if sw_target_kind r = ''thread'' then sw_target r else ''''),
               su_board = (if sw_target_kind r = ''thread'' then '''' else sw_target r),
               su_created_at = sw_created_at r\<rparr>)
       (sort_key sw_created_at (sel (\<lambda>r. sw_participant r = p) (bt_subscriptions d)))"

definition key_after :: "string \<Rightarrow> string \<Rightarrow> bdb \<Rightarrow> bool" where
  "key_after i j d =
     (case (keyOf i d, keyOf j d) of (Some a, Some b) \<Rightarrow> b < a | _ \<Rightarrow> False)"

definition StoreMarkRead :: "participant \<Rightarrow> string \<Rightarrow> string \<Rightarrow> time \<Rightarrow> bdb \<Rightarrow> board_error + bdb" where
  "StoreMarkRead p t i at d =
     (if list_ex (\<lambda>c. cw_participant c = p \<and> cw_thread_id c = t) (bt_cursors d)
      then Inr (d\<lparr>bt_cursors := upd (\<lambda>c. cw_participant c = p \<and> cw_thread_id c = t \<and> key_after i (cw_post_id c) d)
                                   (\<lambda>c. c\<lparr>cw_post_id := i, cw_updated_at := at\<rparr>) (bt_cursors d)\<rparr>)
      else insert_if (has_thread t d)
        (d\<lparr>bt_cursors := bt_cursors d @ [\<lparr>cw_participant = p, cw_thread_id = t, cw_post_id = i, cw_updated_at = at\<rparr>]\<rparr>))"

definition Cursor :: "participant \<Rightarrow> string \<Rightarrow> bdb \<Rightarrow> string" where
  "Cursor p t d =
     (case sel1 (\<lambda>c. cw_participant c = p \<and> cw_thread_id c = t) (bt_cursors d) of
        None \<Rightarrow> '''' | Some c \<Rightarrow> cw_post_id c)"

text \<open>
  \<open>unread_posts p t d\<close>: the notices of \<open>p\<close> in thread \<open>t\<close> about visible posts beyond its cursor,
  each with its post.
\<close>

definition unread_posts :: "participant \<Rightarrow> string \<Rightarrow> bdb \<Rightarrow> (notice \<times> post) list" where
  "unread_posts p t d =
     List.map_filter (\<lambda>r.
       let n = nw_notice r
       in if no_recipient n = p \<and> no_thread_id n = t
          then (case sel1 (\<lambda>w. post_id w = no_post_id n \<and> po_state (pw_post w) = PostVisible) (bt_posts d) of
                  None \<Rightarrow> None
                | Some w \<Rightarrow>
                    (case sel1 (\<lambda>c. cw_participant c = p \<and> cw_thread_id c = t) (bt_cursors d) of
                       None \<Rightarrow> Some (n, pw_post w)
                     | Some c \<Rightarrow>
                         (case keyOf (cw_post_id c) d of
                            None \<Rightarrow> None
                          | Some k \<Rightarrow> if k < postKey (pw_post w) then Some (n, pw_post w) else None)))
          else None) (bt_notices d)"

definition unread_of :: "participant \<Rightarrow> bdb \<Rightarrow> thread \<Rightarrow> unread option" where
  "unread_of p d t =
     (let xs = unread_posts p (th_id t) d
      in if xs = [] then None
         else let newest = last (sort_key (\<lambda>x. postKey (snd x)) xs)
              in Some \<lparr>un_thread = t, un_posts = length (remdups (map (\<lambda>x. no_post_id (fst x)) xs)),
                       un_mentions = length (filter (\<lambda>x. no_reason (fst x) = ReasonMention) xs),
                       un_newest_id = po_id (snd newest), un_newest_at = po_created_at (snd newest)\<rparr>)"

definition unread_key :: "unread \<Rightarrow> bool \<times> time \<times> string" where
  "unread_key u = (0 < un_mentions u, un_newest_at u, un_newest_id u)"

definition StoreUnread :: "participant \<Rightarrow> nat \<Rightarrow> bdb \<Rightarrow> unread list" where
  "StoreUnread p limit d =
     take limit (rev (sort_key unread_key
       (List.map_filter (\<lambda>r. unread_of p d (scanThread d r)) (sel (\<lambda>r. \<not> tw_purged r) (bt_threads d)))))"

section \<open>Notices\<close>

definition DueNotices :: "time \<Rightarrow> nat \<Rightarrow> bdb \<Rightarrow> notice list" where
  "DueNotices now limit d =
     take limit (sort_key (\<lambda>n. (no_next_attempt_at n, no_id n)) (map nw_notice (sel (\<lambda>r.
       no_state (nw_notice r) \<in> {NoticePending, NoticeSent} \<and> \<not> nw_purged r
       \<and> no_next_attempt_at (nw_notice r) \<le> now) (bt_notices d))))"

definition ListNotices :: "string \<Rightarrow> nat \<Rightarrow> bdb \<Rightarrow> notice list" where
  "ListNotices state limit d =
     take limit (rev (sort_key (\<lambda>n. (no_created_at n, no_id n)) (map nw_notice (sel (\<lambda>r.
       state = '''' \<or> notice_state_text (no_state (nw_notice r)) = state) (bt_notices d)))))"

definition record_attempt :: "notice \<Rightarrow> notice_row \<Rightarrow> notice_row" where
  "record_attempt n r =
     r\<lparr>nw_notice := (nw_notice r)\<lparr>no_state := no_state n, no_attempts := no_attempts n,
         no_next_attempt_at := no_next_attempt_at n, no_last_error := no_last_error n,
         no_message_id := no_message_id n, no_sent_at := no_sent_at n, no_body := no_body n,
         no_give_up_at := no_give_up_at n\<rparr>\<rparr>"

definition UpdateNotice :: "notice \<Rightarrow> bdb \<Rightarrow> bdb" where
  "UpdateNotice n d =
     d\<lparr>bt_notices := upd (\<lambda>r. no_id (nw_notice r) = no_id n \<and> \<not> nw_purged r) (record_attempt n) (bt_notices d)\<rparr>"

section \<open>Attachments\<close>

definition PutAttachment :: "attachment \<Rightarrow> bdb \<Rightarrow> bdb" where
  "PutAttachment a d = d\<lparr>bt_attachments := filter (\<lambda>x. at_ref x \<noteq> at_ref a) (bt_attachments d) @ [a]\<rparr>"

definition GetAttachment :: "string \<Rightarrow> bdb \<Rightarrow> attachment option" where
  "GetAttachment ref d = sel1 (\<lambda>a. at_ref a = ref) (bt_attachments d)"

definition AttachmentByOriginal :: "string \<Rightarrow> bdb \<Rightarrow> attachment option" where
  "AttachmentByOriginal h d =
     sel1 (\<lambda>a. True) (sort_key at_created_at
       (sel (\<lambda>a. at_original_hash a = h \<and> at_state a \<noteq> AttachmentDropped) (bt_attachments d)))"

definition AttachmentByOutput :: "string \<Rightarrow> bdb \<Rightarrow> attachment option" where
  "AttachmentByOutput h d = sel1 (\<lambda>a. at_output_hash a = h \<and> at_state a \<noteq> AttachmentDropped) (bt_attachments d)"

definition ListAttachments :: "attachment_state \<Rightarrow> bdb \<Rightarrow> attachment list" where
  "ListAttachments s d = sort_key at_created_at (sel (\<lambda>a. at_state a = s) (bt_attachments d))"

definition AttachmentReferenced :: "string \<Rightarrow> bdb \<Rightarrow> bool" where
  "AttachmentReferenced ref d =
     list_ex (\<lambda>r. like None (''%blob:sha256-'' @ ref @ ''%'') (rv_body r)
       \<and> list_ex (\<lambda>p. post_id p = rv_post_id r \<and> po_state (pw_post p) \<noteq> PostPurged) (bt_posts d)) (bt_revisions d)"

definition purge_blob :: "string \<Rightarrow> bdb \<Rightarrow> bdb" where
  "purge_blob h d =
     (if h = '''' then d
      else scrubOutbox (\<lambda>x. like None (''blobs/sha256/'' @ take 2 h @ ''/'' @ h @ ''%'') (of_path (xw_file x)))
             (d\<lparr>bt_purged_blobs := (if h \<in> set (bt_purged_blobs d) then bt_purged_blobs d
                                     else bt_purged_blobs d @ [h])\<rparr>))"

definition DeleteAttachment :: "attachment \<Rightarrow> bdb \<Rightarrow> bdb" where
  "DeleteAttachment a d =
     purge_blob (at_output_hash a) (purge_blob (at_ref a)
       (d\<lparr>bt_attachments := filter (\<lambda>x. at_ref x \<noteq> at_ref a) (bt_attachments d)\<rparr>))"

definition BlobPurged :: "string \<Rightarrow> bdb \<Rightarrow> bool" where
  "BlobPurged h d = (h \<in> set (bt_purged_blobs d))"

section \<open>Outbox and sync state\<close>

definition PendingOutbox :: "string \<Rightarrow> nat \<Rightarrow> bdb \<Rightarrow> outbox_row list" where
  "PendingOutbox network limit d =
     take limit (sort_key xw_id (sel (\<lambda>x. of_network (xw_file x) = network \<and> xw_pending x) (bt_outbox d)))"

definition OutboxDone :: "nat list \<Rightarrow> string \<Rightarrow> bdb \<Rightarrow> bdb" where
  "OutboxDone ids commit d =
     (let d1 = d\<lparr>bt_outbox := upd (\<lambda>x. xw_id x \<in> set ids) (\<lambda>x. x\<lparr>xw_pending := False, xw_commit := commit\<rparr>) (bt_outbox d)\<rparr>
      in d1\<lparr>bt_posts := upd (\<lambda>r. po_sync (pw_post r) = ''pending_push''
                   \<and> \<not> list_ex (\<lambda>x. of_post_id (xw_file x) = post_id r \<and> xw_pending x) (bt_outbox d1))
                 (\<lambda>r. r\<lparr>pw_post := (pw_post r)\<lparr>po_sync := ''synced''\<rparr>\<rparr>) (bt_posts d1)\<rparr>)"

definition GetSyncState :: "string \<Rightarrow> bdb \<Rightarrow> sync_state option" where
  "GetSyncState network d =
     map_option (\<lambda>s. s\<lparr>ss_pending := length (sel (\<lambda>x. of_network (xw_file x) = network \<and> xw_pending x) (bt_outbox d))\<rparr>)
       (sel1 (\<lambda>s. ss_network s = network) (bt_sync d))"

definition PutSyncState :: "sync_state \<Rightarrow> bdb \<Rightarrow> bdb" where
  "PutSyncState s d =
     (if list_ex (\<lambda>x. ss_network x = ss_network s) (bt_sync d)
      then d\<lparr>bt_sync := upd (\<lambda>x. ss_network x = ss_network s)
              (\<lambda>x. s\<lparr>ss_pending := 0, ss_joined_at := (if ss_joined_at x = None then ss_joined_at s else ss_joined_at x)\<rparr>)
              (bt_sync d)\<rparr>
      else d\<lparr>bt_sync := bt_sync d @ [s\<lparr>ss_pending := 0\<rparr>]\<rparr>)"

definition AddFlag :: "sync_flag \<Rightarrow> bdb \<Rightarrow> bdb" where
  "AddFlag f d = d\<lparr>bt_flags := bt_flags d @ [f]\<rparr>"

definition ListFlags :: "string \<Rightarrow> nat \<Rightarrow> bdb \<Rightarrow> sync_flag list" where
  "ListFlags network limit d = take limit (rev (sel (\<lambda>f. sf_network f = network) (bt_flags d)))"

end
