(* ===== verification/Board_Format.thy ===== *)
theory Board_Format
  imports Board_Reads
begin

text \<open>
  The layout of a shared board's repository (\<^verbatim>\<open>src/internal/board/format.go\<close>): where each
  record's file is, and what it holds. A Markdown file is a JSON head between lines of three hyphens,
  then the text.

  Writing a head is modelled down to its bytes (\<^verbatim>\<open>json.MarshalIndent\<close>). Reading one back is
  \<^verbatim>\<open>json.Unmarshal\<close> into the head's type; it is a function \<open>decode\<close> that the definitions
  which read a file are given.
\<close>

section \<open>Paths\<close>

definition slash :: "string list \<Rightarrow> string" where
  "slash parts = Join parts ''/''"

definition BoardFilePath :: "string \<Rightarrow> string" where
  "BoardFilePath b = slash [''boards'', b, ''board.md'']"

definition ThreadFilePath :: "string \<Rightarrow> string \<Rightarrow> string" where
  "ThreadFilePath b t = slash [''boards'', b, ''threads'', t, ''thread.md'']"

definition PostFilePath :: "string \<Rightarrow> string \<Rightarrow> string \<Rightarrow> int \<Rightarrow> string" where
  "PostFilePath b t p n =
     slash [''boards'', b, ''threads'', t, ''posts'',
            if n > 1 then p @ ''.r'' @ dec n @ ''.md'' else p @ ''.md'']"

definition EventFilePath :: "string \<Rightarrow> string \<Rightarrow> string \<Rightarrow> string" where
  "EventFilePath b t e = slash [''boards'', b, ''threads'', t, ''events'', e @ ''.yml'']"

definition BlobFilePath :: "string \<Rightarrow> string \<Rightarrow> string" where
  "BlobFilePath ref ext = slash [''blobs'', ''sha256'', take 2 ref, ref @ ext]"

section \<open>Heads\<close>

record board_file =
  bf_name :: string
  bf_site :: string
  bf_created_by :: author
  bf_created_at :: time

record thread_file =
  tl_id :: string
  tl_board :: string
  tl_title :: string
  tl_opening_post :: string
  tl_site :: string
  tl_created_by :: author
  tl_created_at :: time

record post_file =
  pf_id :: string
  pf_thread :: string
  pf_board :: string
  pf_parent :: string
  pf_site :: string
  pf_author :: author
  pf_kind :: string
  pf_urgent :: bool
  pf_revision :: int
  pf_mentions :: "mention list"
  pf_model :: string
  pf_created_at :: time

record event_file =
  ef_id :: string
  ef_board :: string
  ef_thread :: string
  ef_post :: string
  ef_type :: string
  ef_note :: string
  ef_actor :: author
  ef_data :: "(string \<times> json) list"
  ef_site :: string
  ef_created_at :: time

definition boardFileJSON :: "board_file \<Rightarrow> json" where
  "boardFileJSON h = JObject [(''name'', JString (bf_name h)), (''site'', JString (bf_site h)),
     (''created_by'', authorJSON (bf_created_by h)), (''created_at'', timeJSON (Some (bf_created_at h)))]"

definition threadFileJSON :: "thread_file \<Rightarrow> json" where
  "threadFileJSON h = JObject [(''id'', JString (tl_id h)), (''board'', JString (tl_board h)),
     (''title'', JString (tl_title h)), (''opening_post'', JString (tl_opening_post h)),
     (''site'', JString (tl_site h)), (''created_by'', authorJSON (tl_created_by h)),
     (''created_at'', timeJSON (Some (tl_created_at h)))]"

definition postFileJSON :: "post_file \<Rightarrow> json" where
  "postFileJSON h = JObject ([(''id'', JString (pf_id h)), (''thread'', JString (pf_thread h)),
     (''board'', JString (pf_board h))] @ text_field ''parent'' (pf_parent h)
     @ [(''site'', JString (pf_site h)), (''author'', authorJSON (pf_author h))]
     @ text_field ''kind'' (pf_kind h) @ bool_field ''urgent'' (pf_urgent h)
     @ [(''revision'', JInt (pf_revision h))] @ list_field ''mentions'' (map mentionJSON (pf_mentions h))
     @ text_field ''model'' (pf_model h) @ [(''created_at'', timeJSON (Some (pf_created_at h)))])"

definition eventFileJSON :: "event_file \<Rightarrow> json" where
  "eventFileJSON h = JObject ([(''id'', JString (ef_id h)), (''board'', JString (ef_board h)),
     (''thread'', JString (ef_thread h))] @ text_field ''post'' (ef_post h)
     @ [(''type'', JString (ef_type h))] @ text_field ''note'' (ef_note h)
     @ [(''actor'', authorJSON (ef_actor h))]
     @ (if ef_data h = [] then [] else [(''data'', JObject (sort_key fst (ef_data h)))])
     @ [(''site'', JString (ef_site h)), (''created_at'', timeJSON (Some (ef_created_at h)))])"

section \<open>Files\<close>

text \<open>\<^verbatim>\<open>json.MarshalIndent\<close> with an indent of two spaces; empty objects and arrays stay on one line.\<close>

definition newline :: "nat \<Rightarrow> string" where
  "newline n = CHR 0x0A # replicate (2 * n) CHR '' ''"

fun marshal_indent :: "nat \<Rightarrow> json \<Rightarrow> string" and indent_items :: "nat \<Rightarrow> json list \<Rightarrow> string list"
  and indent_fields :: "nat \<Rightarrow> (string \<times> json) list \<Rightarrow> string list" where
  "marshal_indent n (JArray (x # xs)) =
     ''['' @ newline (Suc n) @ Join (indent_items (Suc n) (x # xs)) ('','' @ newline (Suc n)) @ newline n @ '']''"
| "marshal_indent n (JObject (f # fs)) =
     ''{'' @ newline (Suc n) @ Join (indent_fields (Suc n) (f # fs)) ('','' @ newline (Suc n)) @ newline n @ ''}''"
| "marshal_indent n (JArray []) = ''[]''"
| "marshal_indent n (JObject []) = ''{}''"
| "marshal_indent n (JString s) = Marshal (JString s)"
| "marshal_indent n (JInt i) = Marshal (JInt i)"
| "marshal_indent n (JBool b) = Marshal (JBool b)"
| "marshal_indent n JNull = Marshal JNull"
| "indent_items n [] = []"
| "indent_items n (x # xs) = marshal_indent n x # indent_items n xs"
| "indent_fields n [] = []"
| "indent_fields n ((k, x) # fs) = (jsonString k @ '': '' @ marshal_indent n x) # indent_fields n fs"

abbreviation nl :: string where "nl \<equiv> [CHR 0x0A]"

definition frontmatter :: "json \<Rightarrow> string \<Rightarrow> string" where
  "frontmatter head body =
     ''---'' @ nl @ marshal_indent 0 head @ nl @ ''---'' @ nl @ body
     @ (if body \<noteq> '''' \<and> last body \<noteq> CHR 0x0A then nl else '''')"

definition trim_newline :: "string \<Rightarrow> string" where
  "trim_newline s = (if s \<noteq> [] \<and> last s = CHR 0x0A then butlast s else s)"

definition ParseFrontmatter :: "(string \<Rightarrow> 'h option) \<Rightarrow> string \<Rightarrow> ('h \<times> string) option" where
  "ParseFrontmatter decode data =
     (case after_prefix (''---'' @ nl) data of
        None \<Rightarrow> None
      | Some rest \<Rightarrow>
          (case find_text (nl @ ''---'' @ nl) rest of
             None \<Rightarrow> None
           | Some k \<Rightarrow> map_option (\<lambda>h. (h, trim_newline (drop (k + 5) rest))) (decode (take k rest))))"

definition EncodeBoard :: "board \<Rightarrow> string" where
  "EncodeBoard b =
     frontmatter (boardFileJSON \<lparr>bf_name = bd_name b, bf_site = bd_site b, bf_created_by = bd_created_by b,
                                 bf_created_at = bd_created_at b\<rparr>) (bd_description b)"

definition EncodeThread :: "thread \<Rightarrow> string" where
  "EncodeThread t =
     frontmatter (threadFileJSON \<lparr>tl_id = th_id t, tl_board = th_board t, tl_title = th_title t,
       tl_opening_post = th_opening_post_id t, tl_site = au_site (th_created_by t),
       tl_created_by = th_created_by t, tl_created_at = th_created_at t\<rparr>) ''''"

definition postHead :: "string \<Rightarrow> post \<Rightarrow> revision \<Rightarrow> post_file" where
  "postHead b p r = \<lparr>pf_id = po_id p, pf_thread = po_thread_id p, pf_board = b, pf_parent = po_parent_id p,
     pf_site = po_site p, pf_author = po_author p, pf_kind = po_kind p, pf_urgent = po_urgent p,
     pf_revision = rv_revision r, pf_mentions = rv_mentions r, pf_model = rv_model r, pf_created_at = rv_created_at r\<rparr>"

definition EncodePost :: "string \<Rightarrow> post \<Rightarrow> revision \<Rightarrow> string" where
  "EncodePost b p r = frontmatter (postFileJSON (postHead b p r)) (rv_body r)"

definition eventHead :: "string \<Rightarrow> event \<Rightarrow> string \<Rightarrow> event_file" where
  "eventHead b e site = \<lparr>ef_id = ev_id e, ef_board = b, ef_thread = ev_thread_id e, ef_post = ev_post_id e,
     ef_type = ev_type e, ef_note = ev_note e, ef_actor = ev_actor e, ef_data = ev_data e, ef_site = site,
     ef_created_at = ev_created_at e\<rparr>"

definition EncodeEvent :: "string \<Rightarrow> event \<Rightarrow> string \<Rightarrow> string" where
  "EncodeEvent b e site = marshal_indent 0 (eventFileJSON (eventHead b e site)) @ nl"

section \<open>Classifying paths\<close>

datatype repo_file =
    BoardPath string
  | ThreadPath string string
  | PostPath string string string int
  | EventPath string string string
  | BlobPath string string

text \<open>
  \<^verbatim>\<open>idPart\<close>: a site name, a hyphen and 26 digits or capitals.
\<close>

definition idForm :: "string \<Rightarrow> bool" where
  "idForm s =
     (let n = length s - 27
      in 27 < length s \<and> first_rest name_start name_char 31 (take n s) \<and> s ! n = CHR ''-''
         \<and> list_all (\<lambda>c. decimal c \<or> upper_alpha c) (drop (Suc n) s))"

definition before_suffix :: "string \<Rightarrow> string \<Rightarrow> string option" where
  "before_suffix x s = (if suffix x s then Some (take (length s - length x) s) else None)"

fun split_slash :: "string \<Rightarrow> string list" where
  "split_slash [] = [[]]"
| "split_slash (c # r) =
     (if c = CHR ''/'' then [] # split_slash r
      else (case split_slash r of p # ps \<Rightarrow> (c # p) # ps | [] \<Rightarrow> [[c]]))"

text \<open>\<^verbatim>\<open>strconv.Atoi\<close> of digits, with its largest value when they overflow.\<close>

definition number :: "string \<Rightarrow> int" where
  "number s = min (int (undigits (map char_digit s))) 9223372036854775807"

text \<open>
  A post file's name: the id, then nothing or \<^verbatim>\<open>.r\<close> and digits. An id holds no dot, so the first
  dot ends it.
\<close>

definition post_name :: "string \<Rightarrow> (string \<times> int) option" where
  "post_name s =
     (case Cut CHR ''.'' s of
        (i, r, found) \<Rightarrow>
          if \<not> idForm i then None
          else if \<not> found then Some (i, 1)
          else (case r of
                  c # n \<Rightarrow> if c = CHR ''r'' \<and> n \<noteq> [] \<and> list_all decimal n then Some (i, number n) else None
                | [] \<Rightarrow> None))"

definition classify_thread_file :: "string \<Rightarrow> string \<Rightarrow> string list \<Rightarrow> repo_file option" where
  "classify_thread_file b t rest =
     (case rest of
        [f] \<Rightarrow> if f = ''thread.md'' then Some (ThreadPath b t) else None
      | [dir, f] \<Rightarrow>
          if dir = ''posts''
          then (case before_suffix ''.md'' f of
                  None \<Rightarrow> None
                | Some s \<Rightarrow> map_option (\<lambda>(i, n). PostPath b t i n) (post_name s))
          else if dir = ''events''
          then (case before_suffix ''.yml'' f of
                  None \<Rightarrow> None
                | Some i \<Rightarrow> if idForm i then Some (EventPath b t i) else None)
          else None
      | _ \<Rightarrow> None)"

definition blob_name :: "string \<Rightarrow> (string \<times> string) option" where
  "blob_name f =
     (let ref = take 64 f; ext = drop 64 f
      in if length ref = 64 \<and> list_all lower_hex ref \<and> (ext = ''.webp'' \<or> ext = ''.mp4'')
         then Some (ref, ext) else None)"

definition ClassifyPath :: "string \<Rightarrow> repo_file option" where
  "ClassifyPath p =
     (case split_slash p of
        [x, y, z] \<Rightarrow> if x = ''boards'' \<and> boardName y \<and> z = ''board.md'' then Some (BoardPath y) else None
      | x # y # z # t # rest \<Rightarrow>
          if x = ''boards'' \<and> boardName y \<and> z = ''threads'' \<and> idForm t then classify_thread_file y t rest
          else if x = ''blobs'' \<and> y = ''sha256'' \<and> rest = []
          then (case blob_name t of
                  None \<Rightarrow> None
                | Some (ref, ext) \<Rightarrow> if take 2 ref = z then Some (BlobPath ref ext) else None)
          else None
      | _ \<Rightarrow> None)"

end
