(* ===== verification/Board_Service.thy ===== *)
theory Board_Service
  imports Board_Format
begin

text \<open>
  The rules of crew-board (\<^verbatim>\<open>src/internal/board/service.go\<close>, the notices and the sharing a
  write causes from \<^verbatim>\<open>notices.go\<close> and \<^verbatim>\<open>shared.go\<close>, and the attachment checks of
  \<^verbatim>\<open>attachments.go\<close>).

  A write takes the \<open>board_config\<close> of the site and the \<open>world\<close> it finds: the instant, what the
  fabric answers about sessions and seats, the bytes \<^verbatim>\<open>rand.Read\<close> returns (the n-th call of one
  operation reads \<open>w_random n\<close>), and the bytes of attachment files. Writes hold the service's lock,
  so each is one step on the store. The pokes that follow a write wake other goroutines and change no
  state.
\<close>

section \<open>Configuration and surroundings\<close>

record network_info =
  nt_name :: string
  nt_partners :: "(string \<times> string) list"

text \<open>\<open>cg_media\<close> is the cap on a post's attachments when attachments are set up.\<close>

record board_config =
  cg_site :: string
  cg_people :: "string list"
  cg_people_routed :: bool
  cg_notice_retry :: duration
  cg_archive_after :: duration
  cg_networks :: "network_info list"
  cg_media :: "int option"

text \<open>
  \<open>w_session a\<close> is the adapter of a session address and whether it is bound, \<open>w_seat s\<close> the
  holder of a seat and whether the seat exists; \<open>Inl\<close> is the text of an error.
  \<open>w_blob a\<close> is the extension and the content of a ready attachment's file.
\<close>

record world =
  w_now :: time
  w_session :: "string \<Rightarrow> string + string \<times> bool"
  w_seat :: "string \<Rightarrow> string + string \<times> bool"
  w_random :: "nat \<Rightarrow> string"
  w_blob :: "attachment \<Rightarrow> (string \<times> string) option"

definition fresh_id :: "board_config \<Rightarrow> world \<Rightarrow> nat \<Rightarrow> string" where
  "fresh_id cfg w k = NewID (cg_site cfg) (w_now w) (w_random w k)"

definition boardDefaults :: "board_config \<Rightarrow> board_config" where
  "boardDefaults cfg =
     cfg\<lparr>cg_notice_retry := (if cg_notice_retry cfg \<le> 0 then 3600000000000 else cg_notice_retry cfg),
         cg_archive_after := (if cg_archive_after cfg \<le> 0 then 2592000000000000 else cg_archive_after cfg)\<rparr>"

definition NewBoard :: "board_config \<Rightarrow> board_config option" where
  "NewBoard cfg =
     (if siteName (cg_site cfg) \<and> list_all personName (cg_people cfg) then Some (boardDefaults cfg) else None)"

section \<open>Authors\<close>

definition workingFor :: "board_config \<Rightarrow> string \<Rightarrow> string" where
  "workingFor cfg p = (if p \<in> set (cg_people cfg) then p else '''')"

definition editorModel :: "actor \<Rightarrow> string" where
  "editorModel a = (if ac_session_address a = '''' then '''' else cleanModel (ac_model a))"

definition session_author :: "board_config \<Rightarrow> actor \<Rightarrow> string \<Rightarrow> string \<Rightarrow> author" where
  "session_author cfg a session adapter =
     \<lparr>au_kind = AuthorSession, au_address = session, au_session = '''', au_adapter = adapter,
      au_model = cleanModel (ac_model a), au_label = cleanLabel (ac_label a),
      au_working_for = workingFor cfg (ac_working_for a), au_site = cg_site cfg\<rparr>"

definition author_of :: "board_config \<Rightarrow> world \<Rightarrow> actor \<Rightarrow> board_error + author" where
  "author_of cfg w a =
     (let session = TrimSpace (ac_session_address a); seat = TrimSpace (ac_as_seat a);
          person = TrimSpace (ac_person a)
      in if person \<noteq> ''''
         then (if session \<noteq> '''' \<or> seat \<noteq> '''' then Inl (Refused CodeInvalid)
               else if person \<notin> set (cg_people cfg) then Inl (Refused CodeUnknownPerson)
               else Inr (no_author\<lparr>au_kind := AuthorPerson, au_address := person, au_site := cg_site cfg\<rparr>))
         else if \<not> prefix ''s/'' session then Inl (Refused CodeInvalid)
         else (case w_session w session of
                 Inl e \<Rightarrow> Inl (Refused CodeDirectoryUnreached)
               | Inr (adapter, bound) \<Rightarrow>
                   if \<not> bound then Inl (Refused CodeSessionUnbound)
                   else if seat = '''' then Inr (session_author cfg a session adapter)
                   else if \<not> seatForm seat then Inl (Refused CodeInvalid)
                   else (case w_seat w seat of
                           Inl e \<Rightarrow> Inl (Refused CodeDirectoryUnreached)
                         | Inr (holder, exists) \<Rightarrow>
                             if \<not> exists \<or> holder \<noteq> session then Inl (Refused CodeNotHolder)
                             else Inr ((session_author cfg a session adapter)
                                       \<lparr>au_kind := AuthorSeat, au_address := seat, au_session := session\<rparr>))))"

definition sameParticipant :: "author \<Rightarrow> author \<Rightarrow> bool" where
  "sameParticipant caller a =
     (au_kind caller = au_kind a \<and> au_address caller = au_address a \<and> au_site caller = au_site a)"

section \<open>Mentions\<close>

definition network_of :: "board_config \<Rightarrow> string \<Rightarrow> network_info option" where
  "network_of cfg n = sel1 (\<lambda>x. nt_name x = n) (cg_networks cfg)"

definition partnerSite :: "board_config \<Rightarrow> string \<Rightarrow> bool" where
  "partnerSite cfg site = list_ex (\<lambda>n. map_of (nt_partners n) site \<noteq> None) (cg_networks cfg)"

text \<open>Why a reference on this site stays plain text; the empty text when it resolves.\<close>

definition unresolved :: "board_config \<Rightarrow> world \<Rightarrow> string \<Rightarrow> string" where
  "unresolved cfg w name =
     (if participantKind name = AuthorSession
      then (case w_session w name of
              Inl e \<Rightarrow> ''could not check it: '' @ e
            | Inr (_, bound) \<Rightarrow> if bound then '''' else ''no bound session has that address'')
      else if participantKind name = AuthorSeat
      then (case w_seat w name of
              Inl e \<Rightarrow> ''could not check it: '' @ e
            | Inr (_, exists) \<Rightarrow> if exists then '''' else ''no seat by that name (or it is retired)'')
      else if name \<in> set (cg_people cfg) then ''''
      else ''names no seat, session or person on this site; to reach an agent, mention its seat or session'')"

definition resolve_candidate :: "board_config \<Rightarrow> world \<Rightarrow> mention_candidate \<Rightarrow> mention_warning + mention" where
  "resolve_candidate cfg w c =
     (let kind = participantKind (mc_name c);
          at = (\<lambda>site. \<lparr>mn_text = mc_text c, mn_kind = kind, mn_address = mc_name c, mn_site = site\<rparr>)
      in if mc_site c \<noteq> '''' \<and> mc_site c \<noteq> cg_site cfg
         then (if partnerSite cfg (mc_site c) then Inr (at (mc_site c))
               else Inl (mc_text c, ''this site shares no board with '' @ mc_site c))
         else let reason = unresolved cfg w (mc_name c)
              in if reason \<noteq> '''' then Inl (mc_text c, reason) else Inr (at (cg_site cfg)))"

definition resolveMentions :: "board_config \<Rightarrow> world \<Rightarrow> string \<Rightarrow> mention list \<times> mention_warning list" where
  "resolveMentions cfg w body =
     (let rs = map (resolve_candidate cfg w) (mentionCandidates body)
      in (List.map_filter (\<lambda>r. case r of Inr m \<Rightarrow> Some m | Inl _ \<Rightarrow> None) rs,
          List.map_filter (\<lambda>r. case r of Inl x \<Rightarrow> Some x | Inr _ \<Rightarrow> None) rs))"

section \<open>Notices of a write\<close>

definition activation :: "string \<Rightarrow> string" where
  "activation reason = (if reason = ReasonSubscription then ''no_wake'' else ''next_turn'')"

definition strength :: "string \<Rightarrow> nat" where
  "strength reason = (if reason = ReasonMention then 0 else if reason = ReasonReply then 1 else 2)"

definition isSelf :: "author \<Rightarrow> participant \<Rightarrow> bool" where
  "isSelf a p =
     (authorParticipant a = p
      \<or> au_session a \<noteq> '''' \<and> p = \<lparr>pa_kind = AuthorSession, pa_address = au_session a, pa_site = au_site a\<rparr>)"

definition notice_for :: "board_config \<Rightarrow> world \<Rightarrow> nat \<Rightarrow> thread \<Rightarrow> post \<Rightarrow> participant \<Rightarrow> string \<Rightarrow> notice" where
  "notice_for cfg w k t p who reason =
     (let routed = (pa_kind who \<noteq> AuthorPerson \<or> cg_people_routed cfg)
      in \<lparr>no_id = fresh_id cfg w k, no_post_id = po_id p, no_thread_id = th_id t, no_recipient = who,
          no_reason = reason, no_policy = activation reason, no_urgent = po_urgent p,
          no_state = (if routed then NoticePending else NoticeNoRoute), no_attempts = 0,
          no_next_attempt_at = w_now w,
          no_last_error = (if routed then '''' else ''no route to people (crew-humans is not configured)''),
          no_message_id = '''', no_created_at = w_now w, no_give_up_at = w_now w + cg_notice_retry cfg,
          no_sent_at = None, no_body = ''''\<rparr>)"

text \<open>
  \<open>add_reason\<close> is the closure \<^verbatim>\<open>add\<close>: the recipients in the order they were first
  added, each with its strongest reason so far.
\<close>

definition add_reason :: "participant \<times> string \<Rightarrow> (participant \<times> string) list \<Rightarrow> (participant \<times> string) list" where
  "add_reason x xs =
     (case map_of xs (fst x) of
        None \<Rightarrow> xs @ [x]
      | Some current \<Rightarrow>
          if strength (snd x) < strength current
          then map (\<lambda>y. if fst y = fst x then x else y) xs else xs)"

definition audience :: "post \<Rightarrow> string \<Rightarrow> participant list \<Rightarrow> participant list \<Rightarrow> (participant \<times> string) list" where
  "audience p reason replyTo subscribers =
     fold add_reason (map (\<lambda>m. (mentionParticipant m, ReasonMention)) (po_mentions p)
                      @ map (\<lambda>x. (x, reason)) replyTo @ map (\<lambda>x. (x, ReasonSubscription)) subscribers) []"

fun number_notices :: "board_config \<Rightarrow> world \<Rightarrow> nat \<Rightarrow> thread \<Rightarrow> post \<Rightarrow> (participant \<times> string) list \<Rightarrow> change list" where
  "number_notices cfg w k t p [] = []"
| "number_notices cfg w k t p (x # xs) =
     CNotice (notice_for cfg w k t p (fst x) (snd x)) # number_notices cfg w (Suc k) t p xs"

definition told :: "board_config \<Rightarrow> post \<Rightarrow> participant \<Rightarrow> bool" where
  "told cfg p who = (\<not> isSelf (po_author p) who \<and> pa_site who = cg_site cfg)"

definition noticesFor :: "board_config \<Rightarrow> world \<Rightarrow> nat \<Rightarrow> thread \<Rightarrow> post \<Rightarrow> string \<Rightarrow> participant list \<Rightarrow> bdb \<Rightarrow> change list" where
  "noticesFor cfg w k t p reason replyTo d =
     number_notices cfg w k t p
       (filter (\<lambda>x. told cfg p (fst x)) (audience p reason replyTo (Subscribers (th_id t) (th_board t) d)))"

definition mentionNotices :: "board_config \<Rightarrow> world \<Rightarrow> nat \<Rightarrow> thread \<Rightarrow> post \<Rightarrow> mention list \<Rightarrow> change list" where
  "mentionNotices cfg w k t p ms =
     number_notices cfg w k t p
       (filter (\<lambda>x. told cfg p (fst x)) (map (\<lambda>m. (mentionParticipant m, ReasonMention)) ms))"

section \<open>Attachments of a write\<close>

fun attachment_total :: "string list \<Rightarrow> bdb \<Rightarrow> board_error + int" where
  "attachment_total [] d = Inr 0"
| "attachment_total (ref # refs) d =
     (case GetAttachment ref d of
        None \<Rightarrow> Inl (Refused CodeAttachmentUnknown)
      | Some a \<Rightarrow>
          if at_state a = AttachmentDropped then Inl (Refused CodeAttachmentUnknown)
          else bindR (attachment_total refs d) (\<lambda>n. Inr (at_bytes a + n)))"

definition checkAttachments :: "board_config \<Rightarrow> string \<Rightarrow> bdb \<Rightarrow> board_error + unit" where
  "checkAttachments cfg body d =
     (if attachmentRefs body = [] then Inr ()
      else case cg_media cfg of
             None \<Rightarrow> Inl (Refused CodeAttachmentUnknown)
           | Some limit \<Rightarrow>
               bindR (attachment_total (attachmentRefs body) d)
                 (\<lambda>total. refuse_if (limit > 0 \<and> total > limit) (Refused CodeMediaTooLarge)))"

definition withAttachments :: "board_config \<Rightarrow> bdb \<Rightarrow> post \<Rightarrow> post" where
  "withAttachments cfg d p =
     (if cg_media cfg = None \<or> po_state p \<noteq> PostVisible then p
      else p\<lparr>po_attachments := po_attachments p @ List.map_filter (\<lambda>r. GetAttachment r d) (attachmentRefs (po_body p))\<rparr>)"

section \<open>Sharing a write\<close>

text \<open>
  \<open>blob_files\<close> lists what a body's attachments add to the repository, as path and content, and the
  references to rename in the shared text. The code keeps both in maps, whose order of iteration Go
  leaves open; they are taken in the order of the references here.
\<close>

fun blob_files :: "board_config \<Rightarrow> world \<Rightarrow> bdb \<Rightarrow> string list
    \<Rightarrow> board_error + (string \<times> string) list \<times> (string \<times> string) list" where
  "blob_files cfg w d [] = Inr ([], [])"
| "blob_files cfg w d (ref # refs) =
     (case (if cg_media cfg = None then None else GetAttachment ref d) of
        None \<Rightarrow> Inl (Refused CodeAttachmentUnknown)
      | Some a \<Rightarrow>
          if at_state a \<noteq> AttachmentReady then Inl (Refused CodeAttachmentHeld)
          else (case w_blob w a of
                  None \<Rightarrow> Inl FileFailed
                | Some (ext, content) \<Rightarrow>
                    bindR (blob_files cfg w d refs) (\<lambda>(files, renames).
                      Inr ((BlobFilePath (at_output_hash a) ext, content) # files,
                           (if at_output_hash a \<noteq> ref then (ref, at_output_hash a) # renames else renames)))))"

definition blobFiles :: "board_config \<Rightarrow> world \<Rightarrow> string \<Rightarrow> bdb
    \<Rightarrow> board_error + (string \<times> string) list \<times> (string \<times> string) list" where
  "blobFiles cfg w body d =
     bindR (blob_files cfg w d (attachmentRefs body)) (\<lambda>(files, renames). Inr (distinct_by fst [] files, renames))"

function replace_all :: "string \<Rightarrow> string \<Rightarrow> string \<Rightarrow> string" where
  "replace_all from to [] = []"
| "replace_all from to (c # r) =
     (if from \<noteq> [] \<and> prefix from (c # r) then to @ replace_all from to (drop (length from) (c # r))
      else c # replace_all from to r)"
  by pat_completeness auto
termination
  by (relation "measure (\<lambda>(from, to, s). length s)") auto

declare replace_all.simps [simp del]

definition rename_refs :: "(string \<times> string) list \<Rightarrow> string \<Rightarrow> string" where
  "rename_refs rs body = fold (\<lambda>(a, b). replace_all (''blob:sha256-'' @ a) (''blob:sha256-'' @ b)) rs body"

fun change_board :: "string \<Rightarrow> change list \<Rightarrow> board option" where
  "change_board n [] = None"
| "change_board n (CBoard b # cs) = (if bd_name b = n then Some b else change_board n cs)"
| "change_board n (_ # cs) = change_board n cs"

fun change_thread :: "string \<Rightarrow> change list \<Rightarrow> thread option" where
  "change_thread i [] = None"
| "change_thread i (CThread t # cs) =
     (case change_thread i cs of Some x \<Rightarrow> Some x | None \<Rightarrow> if th_id t = i then Some t else None)"
| "change_thread i (_ # cs) = change_thread i cs"

fun change_post :: "string \<Rightarrow> change list \<Rightarrow> post option" where
  "change_post i [] = None"
| "change_post i (CPost p # cs) =
     (case change_post i cs of Some x \<Rightarrow> Some x | None \<Rightarrow> if po_id p = i then Some p else None)"
| "change_post i (_ # cs) = change_post i cs"

definition boardNetwork :: "string \<Rightarrow> change list \<Rightarrow> bdb \<Rightarrow> string" where
  "boardNetwork n cs d =
     (case change_board n cs of
        Some b \<Rightarrow> bd_network b
      | None \<Rightarrow> (case GetBoard n d of None \<Rightarrow> '''' | Some b \<Rightarrow> bd_network b))"

definition threadOf :: "string \<Rightarrow> change list \<Rightarrow> bdb \<Rightarrow> thread option" where
  "threadOf i cs d = (case change_thread i cs of Some t \<Rightarrow> Some t | None \<Rightarrow> GetThread i d)"

definition postOf :: "string \<Rightarrow> change list \<Rightarrow> bdb \<Rightarrow> post option" where
  "postOf i cs d = (case change_post i cs of Some p \<Rightarrow> Some p | None \<Rightarrow> GetPost i d)"

definition outbox :: "string \<Rightarrow> string \<Rightarrow> string \<Rightarrow> string \<Rightarrow> change" where
  "outbox network path content post =
     COutbox \<lparr>of_network = network, of_path = path, of_content = content, of_post_id = post\<rparr>"

definition share_revision :: "board_config \<Rightarrow> world \<Rightarrow> change list \<Rightarrow> bdb \<Rightarrow> revision \<Rightarrow> board_error + change list" where
  "share_revision cfg w cs d r =
     (case postOf (rv_post_id r) cs d of
        None \<Rightarrow> Inr []
      | Some p \<Rightarrow>
          (case threadOf (po_thread_id p) cs d of
             None \<Rightarrow> Inr []
           | Some t \<Rightarrow>
               (let network = boardNetwork (th_board t) cs d
                in if network = '''' then Inr []
                   else bindR (blobFiles cfg w (rv_body r) d) (\<lambda>(files, renames).
                     Inr (map (\<lambda>(path, content). outbox network path content '''') files
                          @ [outbox network (PostFilePath (th_board t) (th_id t) (po_id p) (rv_revision r))
                               (EncodePost (th_board t) p (r\<lparr>rv_body := rename_refs renames (rv_body r)\<rparr>)) (po_id p)])))))"

definition share_event :: "board_config \<Rightarrow> change list \<Rightarrow> bdb \<Rightarrow> event \<Rightarrow> change list" where
  "share_event cfg cs d e =
     (case threadOf (ev_thread_id e) cs d of
        None \<Rightarrow> []
      | Some t \<Rightarrow>
          (let network = boardNetwork (th_board t) cs d
           in if network = '''' then []
              else [outbox network (EventFilePath (th_board t) (th_id t) (ev_id e))
                      (EncodeEvent (th_board t) e (cg_site cfg)) (ev_post_id e)]))"

fun share_change :: "board_config \<Rightarrow> world \<Rightarrow> change list \<Rightarrow> bdb \<Rightarrow> change \<Rightarrow> board_error + change list" where
  "share_change cfg w cs d (CBoard b) =
     Inr (if bd_network b = '''' then []
          else [outbox (bd_network b) (BoardFilePath (bd_name b)) (EncodeBoard b) ''''])"
| "share_change cfg w cs d (CThread t) =
     (let network = boardNetwork (th_board t) cs d
      in Inr (if network = '''' then []
              else [outbox network (ThreadFilePath (th_board t) (th_id t)) (EncodeThread t) '''']))"
| "share_change cfg w cs d (CRevision r) = share_revision cfg w cs d r"
| "share_change cfg w cs d (CEvent e) = Inr (if ev_type e = ''hide'' then [] else share_event cfg cs d e)"
| "share_change cfg w cs d _ = Inr []"

fun share_all :: "board_config \<Rightarrow> world \<Rightarrow> change list \<Rightarrow> bdb \<Rightarrow> change list \<Rightarrow> board_error + change list" where
  "share_all cfg w cs d [] = Inr []"
| "share_all cfg w cs d (c # rest) =
     bindR (share_change cfg w cs d c) (\<lambda>a. bindR (share_all cfg w cs d rest) (\<lambda>b. Inr (a @ b)))"

definition share :: "board_config \<Rightarrow> world \<Rightarrow> change list \<Rightarrow> bdb \<Rightarrow> board_error + change list" where
  "share cfg w cs d = bindR (share_all cfg w cs d cs) (\<lambda>out. Inr (cs @ out))"

section \<open>One write under its receipt\<close>

definition requestHash :: "json \<Rightarrow> string" where
  "requestHash request = hexString (Sum256 (Marshal request))"

type_synonym write_outcome = "board_error + (op_result \<times> bool) \<times> bdb"

definition do_write :: "board_config \<Rightarrow> world \<Rightarrow> string \<Rightarrow> string
    \<Rightarrow> (bdb \<Rightarrow> board_error + op_result \<times> change list) \<Rightarrow> bdb \<Rightarrow> write_outcome" where
  "do_write cfg w operation hash run d =
     (let i = TrimSpace operation
      in if i = '''' then Inl (Refused CodeInvalid)
         else (case Receipt i d of
                 Some row \<Rightarrow>
                   if ow_request_hash row \<noteq> hash then Inl (Refused CodeOperationConflict)
                   else if ow_purged row then Inl (Refused CodePostNotFound)
                   else (case ow_result row of None \<Rightarrow> Inl StoreFailed | Some r \<Rightarrow> Inr ((r, True), d))
               | None \<Rightarrow>
                   bindR (run d) (\<lambda>(result, changes).
                     bindR (share cfg w changes d) (\<lambda>changes'.
                       bindR (Apply (Some \<lparr>rc_operation_id = i, rc_request_hash = hash, rc_result = result,
                                           rc_created_at = w_now w, rc_purged = False\<rparr>) changes' d)
                         (\<lambda>d'. Inr ((result, False), d'))))))"

definition actor_fields :: "actor \<Rightarrow> (string \<times> json) list" where
  "actor_fields a = text_field ''session_address'' (ac_session_address a) @ text_field ''as_seat'' (ac_as_seat a)
     @ text_field ''person'' (ac_person a) @ text_field ''model'' (ac_model a)
     @ text_field ''label'' (ac_label a) @ text_field ''working_for'' (ac_working_for a)"

definition maxTitle :: nat where "maxTitle = 200"
definition maxBody :: nat where "maxBody = 1048576"

definition checkBody :: "string \<Rightarrow> board_error + unit" where
  "checkBody body =
     (if TrimSpace body = '''' then Inl (Refused CodeInvalid)
      else refuse_if (length body > maxBody) (Refused CodeInvalid))"

definition checkTitle :: "string \<Rightarrow> board_error + string" where
  "checkTitle title =
     (let t = TrimSpace title
      in if t = '''' \<or> length t > maxTitle then Inl (Refused CodeInvalid) else Inr t)"

definition thread_of :: "string \<Rightarrow> bdb \<Rightarrow> board_error + thread" where
  "thread_of i d = ok_or (Refused CodeThreadNotFound) (GetThread i d)"

definition post_of :: "string \<Rightarrow> bdb \<Rightarrow> board_error + post" where
  "post_of i d =
     (case GetPost i d of
        None \<Rightarrow> Inl (Refused CodePostNotFound)
      | Some p \<Rightarrow> if po_state p = PostPurged then Inl (Refused CodePostNotFound) else Inr p)"

definition authorsPost :: "board_config \<Rightarrow> world \<Rightarrow> actor \<Rightarrow> string \<Rightarrow> bdb \<Rightarrow> board_error + post \<times> thread" where
  "authorsPost cfg w a i d =
     bindR (post_of i d) (\<lambda>p.
       bindR (author_of cfg w a) (\<lambda>caller.
         if \<not> sameParticipant caller (po_author p) then Inl (Refused CodeNotAuthor)
         else bindR (thread_of (po_thread_id p) d) (\<lambda>t. Inr (p, t))))"

section \<open>Writes\<close>

record create_board_request =
  cb_actor :: actor
  cb_operation_id :: string
  cb_name :: string
  cb_description :: string
  cb_network :: string

definition createBoardJSON :: "create_board_request \<Rightarrow> json" where
  "createBoardJSON q = JObject (actor_fields (cb_actor q)
     @ [(''operation_id'', JString (cb_operation_id q)), (''name'', JString (cb_name q))]
     @ text_field ''description'' (cb_description q) @ text_field ''network'' (cb_network q))"

definition runCreateBoard :: "board_config \<Rightarrow> world \<Rightarrow> create_board_request \<Rightarrow> bdb \<Rightarrow> board_error + op_result \<times> change list" where
  "runCreateBoard cfg w q d =
     (let name = TrimSpace (cb_name q)
      in if \<not> boardName name then Inl (Refused CodeInvalidBoardName)
         else bindR (author_of cfg w (cb_actor q)) (\<lambda>a.
           if GetBoard name d \<noteq> None then Inl (Refused CodeBoardExists)
           else if cb_network q \<noteq> '''' \<and> network_of cfg (cb_network q) = None then Inl (Refused CodeInvalid)
           else let b = \<lparr>bd_name = name, bd_site = cg_site cfg, bd_description = TrimSpace (cb_description q),
                         bd_created_at = w_now w, bd_created_by = a, bd_threads = 0, bd_network = cb_network q\<rparr>
                in Inr (RBoard b, [CBoard b])))"

definition CreateBoard :: "board_config \<Rightarrow> world \<Rightarrow> create_board_request \<Rightarrow> bdb \<Rightarrow> write_outcome" where
  "CreateBoard cfg w q d =
     do_write cfg w (cb_operation_id q) (requestHash (createBoardJSON q)) (runCreateBoard cfg w q) d"

record open_thread_request =
  ot_actor :: actor
  ot_operation_id :: string
  ot_board :: string
  ot_title :: string
  ot_body :: string
  ot_urgent :: bool
  ot_kind :: string
  ot_no_subscribe :: bool

definition openThreadJSON :: "open_thread_request \<Rightarrow> json" where
  "openThreadJSON q = JObject (actor_fields (ot_actor q)
     @ [(''operation_id'', JString (ot_operation_id q)), (''board'', JString (ot_board q)),
        (''title'', JString (ot_title q)), (''body'', JString (ot_body q))]
     @ bool_field ''urgent'' (ot_urgent q) @ text_field ''kind'' (ot_kind q)
     @ bool_field ''no_subscribe'' (ot_no_subscribe q))"

definition new_post :: "board_config \<Rightarrow> world \<Rightarrow> string \<Rightarrow> string \<Rightarrow> string \<Rightarrow> author \<Rightarrow> string \<Rightarrow> mention list
    \<Rightarrow> bool \<Rightarrow> string \<Rightarrow> post" where
  "new_post cfg w i t parent a body ms urgent kind =
     \<lparr>po_id = i, po_thread_id = t, po_parent_id = parent, po_author = a, po_site = cg_site cfg,
      po_state = PostVisible, po_revision = 1, po_body = body, po_mentions = ms, po_note = '''',
      po_kind = normalKind kind, po_urgent = urgent, po_sync = '''', po_remote = False,
      po_attachments = [], po_created_at = w_now w, po_edited_at = None\<rparr>"

definition first_revision :: "post \<Rightarrow> revision" where
  "first_revision p = \<lparr>rv_post_id = po_id p, rv_revision = 1, rv_body = po_body p, rv_mentions = po_mentions p,
     rv_model = au_model (po_author p), rv_created_at = po_created_at p\<rparr>"

definition new_thread :: "board_config \<Rightarrow> world \<Rightarrow> open_thread_request \<Rightarrow> string \<Rightarrow> author \<Rightarrow> thread" where
  "new_thread cfg w q title a =
     \<lparr>th_id = fresh_id cfg w 0, th_board = ot_board q, th_title = title, th_state = ThreadOpen,
      th_opening_post_id = fresh_id cfg w 1, th_created_at = w_now w, th_created_by = a,
      th_last_activity_at = w_now w, th_posts = 1, th_ref = '''', th_links = [], th_aliases = [],
      th_redirect_to = ''''\<rparr>"

definition runOpenThread :: "board_config \<Rightarrow> world \<Rightarrow> open_thread_request \<Rightarrow> bdb \<Rightarrow> board_error + op_result \<times> change list" where
  "runOpenThread cfg w q d =
     bindR (checkTitle (ot_title q)) (\<lambda>title.
       bindR (checkBody (ot_body q)) (\<lambda>_.
         bindR (checkAttachments cfg (ot_body q) d) (\<lambda>_.
           if GetBoard (ot_board q) d = None then Inl (Refused CodeBoardNotFound)
           else bindR (author_of cfg w (ot_actor q)) (\<lambda>a.
             let (ms, warnings) = resolveMentions cfg w (ot_body q);
                 t = new_thread cfg w q title a;
                 p = new_post cfg w (fresh_id cfg w 1) (th_id t) '''' a (ot_body q) ms (ot_urgent q) (ot_kind q);
                 sub = \<lparr>su_participant = authorParticipant a, su_thread = th_id t, su_board = '''',
                        su_created_at = w_now w\<rparr>
             in Inr (RPost \<lparr>pr_thread = Some t, pr_post = p, pr_warnings = warnings\<rparr>,
                     [CThread t, CPost p, CRevision (first_revision p)]
                     @ noticesFor cfg w 2 t p '''' [] d
                     @ (if ot_no_subscribe q then [] else [CSubscribe sub]))))))"

definition OpenThread :: "board_config \<Rightarrow> world \<Rightarrow> open_thread_request \<Rightarrow> bdb \<Rightarrow> write_outcome" where
  "OpenThread cfg w q d =
     do_write cfg w (ot_operation_id q) (requestHash (openThreadJSON q)) (runOpenThread cfg w q) d"

record reply_request =
  rp_actor :: actor
  rp_operation_id :: string
  rp_thread :: string
  rp_parent :: string
  rp_body :: string
  rp_urgent :: bool
  rp_kind :: string

definition replyJSON :: "reply_request \<Rightarrow> json" where
  "replyJSON q = JObject (actor_fields (rp_actor q)
     @ [(''operation_id'', JString (rp_operation_id q)), (''thread'', JString (rp_thread q))]
     @ text_field ''parent'' (rp_parent q) @ [(''body'', JString (rp_body q))]
     @ bool_field ''urgent'' (rp_urgent q) @ text_field ''kind'' (rp_kind q))"

text \<open>The post a reply answers, and its author when that post is visible.\<close>

definition reply_parent :: "thread \<Rightarrow> string \<Rightarrow> bdb \<Rightarrow> board_error + string \<times> author option" where
  "reply_parent t parent d =
     (if parent \<noteq> ''''
      then (case GetPost parent d of
              None \<Rightarrow> Inl (Refused CodePostNotFound)
            | Some p \<Rightarrow>
                if po_thread_id p \<noteq> th_id t then Inl (Refused CodeParentNotInThread)
                else Inr (po_id p, if po_state p = PostVisible then Some (po_author p) else None))
      else Inr (th_opening_post_id t,
                case GetPost (th_opening_post_id t) d of
                  None \<Rightarrow> None
                | Some p \<Rightarrow> if po_state p = PostVisible then Some (po_author p) else None))"

definition runReply :: "board_config \<Rightarrow> world \<Rightarrow> reply_request \<Rightarrow> bdb \<Rightarrow> board_error + op_result \<times> change list" where
  "runReply cfg w q d =
     bindR (checkBody (rp_body q)) (\<lambda>_.
       bindR (checkAttachments cfg (rp_body q) d) (\<lambda>_.
         bindR (thread_of (rp_thread q) d) (\<lambda>t0.
           bindR (reply_parent t0 (rp_parent q) d) (\<lambda>(parent, parentAuthor).
             bindR (author_of cfg w (rp_actor q)) (\<lambda>a.
               let (ms, warnings) = resolveMentions cfg w (rp_body q);
                   p = new_post cfg w (fresh_id cfg w 0) (th_id t0) parent a (rp_body q) ms (rp_urgent q) (rp_kind q);
                   t = t0\<lparr>th_last_activity_at := w_now w, th_posts := th_posts t0 + 1\<rparr>;
                   replyTo = (case parentAuthor of None \<Rightarrow> [] | Some x \<Rightarrow> [authorParticipant x])
               in Inr (RPost \<lparr>pr_thread = Some t, pr_post = p, pr_warnings = warnings\<rparr>,
                       [CPost p, CRevision (first_revision p), CTouch (th_id t) (w_now w)]
                       @ noticesFor cfg w 1 t p ReasonReply replyTo d))))))"

definition Reply :: "board_config \<Rightarrow> world \<Rightarrow> reply_request \<Rightarrow> bdb \<Rightarrow> write_outcome" where
  "Reply cfg w q d = do_write cfg w (rp_operation_id q) (requestHash (replyJSON q)) (runReply cfg w q) d"

record edit_request =
  ed_actor :: actor
  ed_operation_id :: string
  ed_post :: string
  ed_body :: string

definition editJSON :: "edit_request \<Rightarrow> json" where
  "editJSON q = JObject (actor_fields (ed_actor q)
     @ [(''operation_id'', JString (ed_operation_id q)), (''post'', JString (ed_post q)), (''body'', JString (ed_body q))])"

definition newly_mentioned :: "mention list \<Rightarrow> mention list \<Rightarrow> mention list" where
  "newly_mentioned earlier ms =
     filter (\<lambda>m. mentionParticipant m \<notin> set (map mentionParticipant earlier)) ms"

definition runEdit :: "board_config \<Rightarrow> world \<Rightarrow> edit_request \<Rightarrow> bdb \<Rightarrow> board_error + op_result \<times> change list" where
  "runEdit cfg w q d =
     bindR (checkBody (ed_body q)) (\<lambda>_.
       bindR (checkAttachments cfg (ed_body q) d) (\<lambda>_.
         bindR (authorsPost cfg w (ed_actor q) (ed_post q) d) (\<lambda>(p0, t0).
           if po_state p0 \<noteq> PostVisible then Inl (Refused CodePostNotVisible)
           else let (ms, warnings) = resolveMentions cfg w (ed_body q);
                    r = \<lparr>rv_post_id = po_id p0, rv_revision = po_revision p0 + 1, rv_body = ed_body q,
                         rv_mentions = ms, rv_model = editorModel (ed_actor q), rv_created_at = w_now w\<rparr>;
                    p = p0\<lparr>po_revision := rv_revision r, po_body := ed_body q, po_mentions := ms,
                           po_edited_at := Some (w_now w)\<rparr>;
                    t = t0\<lparr>th_last_activity_at := w_now w\<rparr>
                in Inr (RPost \<lparr>pr_thread = Some t, pr_post = p, pr_warnings = warnings\<rparr>,
                        [CRevision r,
                         CPostState \<lparr>ps_post_id = po_id p0, ps_state = PostVisible, ps_revision = rv_revision r,
                                     ps_note = '''', ps_edited_at = Some (w_now w)\<rparr>,
                         CTouch (th_id t) (w_now w)]
                        @ mentionNotices cfg w 0 t p (newly_mentioned (po_mentions p0) ms)))))"

definition Edit :: "board_config \<Rightarrow> world \<Rightarrow> edit_request \<Rightarrow> bdb \<Rightarrow> write_outcome" where
  "Edit cfg w q d = do_write cfg w (ed_operation_id q) (requestHash (editJSON q)) (runEdit cfg w q) d"

section \<open>Moderation\<close>

record moderate_request =
  mo_actor :: actor
  mo_operation_id :: string
  mo_post :: string
  mo_note :: string

definition moderateJSON :: "string \<Rightarrow> moderate_request \<Rightarrow> json" where
  "moderateJSON verb q = JObject ([(''Op'', JString verb)] @ actor_fields (mo_actor q)
     @ [(''operation_id'', JString (mo_operation_id q)), (''post'', JString (mo_post q))]
     @ text_field ''note'' (mo_note q))"

definition public :: "post \<Rightarrow> post" where
  "public p =
     (case po_state p of
        PostVisible \<Rightarrow> p
      | PostRetracted \<Rightarrow> p\<lparr>po_body := '''', po_mentions := []\<rparr>
      | PostHidden \<Rightarrow> p\<lparr>po_body := '''', po_mentions := [], po_note := ''''\<rparr>
      | PostPurged \<Rightarrow>
          \<lparr>po_id = po_id p, po_thread_id = po_thread_id p, po_parent_id = po_parent_id p, po_author = no_author,
           po_site = '''', po_state = PostPurged, po_revision = 0, po_body = '''', po_mentions = [], po_note = '''',
           po_kind = '''', po_urgent = False, po_sync = '''', po_remote = False, po_attachments = [],
           po_created_at = po_created_at p, po_edited_at = None\<rparr>)"

definition moderation_event :: "board_config \<Rightarrow> world \<Rightarrow> thread \<Rightarrow> post \<Rightarrow> string \<Rightarrow> string \<Rightarrow> author \<Rightarrow> event" where
  "moderation_event cfg w t p verb note who =
     \<lparr>ev_id = fresh_id cfg w 0, ev_thread_id = th_id t, ev_post_id = po_id p, ev_type = verb, ev_note = note,
      ev_actor = who, ev_created_at = w_now w, ev_data = []\<rparr>"

definition runRetract :: "board_config \<Rightarrow> world \<Rightarrow> moderate_request \<Rightarrow> bdb \<Rightarrow> board_error + op_result \<times> change list" where
  "runRetract cfg w q d =
     bindR (authorsPost cfg w (mo_actor q) (mo_post q) d) (\<lambda>(p, t).
       if po_state p \<noteq> PostVisible then Inl (Refused CodePostNotVisible)
       else let note = TrimSpace (mo_note q); p' = p\<lparr>po_state := PostRetracted, po_note := note\<rparr>
            in Inr (RPost \<lparr>pr_thread = Some t, pr_post = public p', pr_warnings = []\<rparr>,
                    [CPostState \<lparr>ps_post_id = po_id p, ps_state = PostRetracted, ps_revision = po_revision p,
                                 ps_note = note, ps_edited_at = po_edited_at p\<rparr>,
                     CEvent (moderation_event cfg w t p ''retract'' note (po_author p))]))"

definition Retract :: "board_config \<Rightarrow> world \<Rightarrow> moderate_request \<Rightarrow> bdb \<Rightarrow> write_outcome" where
  "Retract cfg w q d =
     do_write cfg w (mo_operation_id q) (requestHash (moderateJSON ''retract'' q)) (runRetract cfg w q) d"

definition moderated :: "board_config \<Rightarrow> world \<Rightarrow> moderate_request \<Rightarrow> bdb \<Rightarrow> board_error + author \<times> post \<times> thread" where
  "moderated cfg w q d =
     (if TrimSpace (ac_person (mo_actor q)) = '''' then Inl (Refused CodePersonOnly)
      else bindR (author_of cfg w (mo_actor q)) (\<lambda>person.
        bindR (post_of (mo_post q) d) (\<lambda>p.
          bindR (thread_of (po_thread_id p) d) (\<lambda>t. Inr (person, p, t)))))"

definition runHide :: "board_config \<Rightarrow> world \<Rightarrow> moderate_request \<Rightarrow> bdb \<Rightarrow> board_error + op_result \<times> change list" where
  "runHide cfg w q d =
     bindR (moderated cfg w q d) (\<lambda>(person, p, t).
       if po_state p \<noteq> PostVisible then Inl (Refused CodePostNotVisible)
       else Inr (RPost \<lparr>pr_thread = Some t, pr_post = public (p\<lparr>po_state := PostHidden\<rparr>), pr_warnings = []\<rparr>,
                 [CPostState \<lparr>ps_post_id = po_id p, ps_state = PostHidden, ps_revision = po_revision p,
                              ps_note = po_note p, ps_edited_at = po_edited_at p\<rparr>,
                  CEvent (moderation_event cfg w t p ''hide'' (TrimSpace (mo_note q)) person)]))"

definition Hide :: "board_config \<Rightarrow> world \<Rightarrow> moderate_request \<Rightarrow> bdb \<Rightarrow> write_outcome" where
  "Hide cfg w q d =
     do_write cfg w (mo_operation_id q) (requestHash (moderateJSON ''hide'' q)) (runHide cfg w q) d"

definition tombstone :: "string \<Rightarrow> string \<Rightarrow> string \<Rightarrow> post" where
  "tombstone i t parent =
     \<lparr>po_id = i, po_thread_id = t, po_parent_id = parent, po_author = no_author, po_site = '''',
      po_state = PostPurged, po_revision = 0, po_body = '''', po_mentions = [], po_note = '''', po_kind = '''',
      po_urgent = False, po_sync = '''', po_remote = False, po_attachments = [], po_created_at = zero_time,
      po_edited_at = None\<rparr>"

definition runPurge :: "board_config \<Rightarrow> world \<Rightarrow> moderate_request \<Rightarrow> bdb \<Rightarrow> board_error + op_result \<times> change list" where
  "runPurge cfg w q d =
     bindR (moderated cfg w q d) (\<lambda>(person, p, t).
       let e = moderation_event cfg w t p ''purge'' (TrimSpace (mo_note q)) person
       in if po_id p = th_opening_post_id t
          then Inr (RPost \<lparr>pr_thread = None, pr_post = tombstone (po_id p) (th_id t) '''', pr_warnings = []\<rparr>,
                    [CScrubThread (th_id t), CEvent e])
          else Inr (RPost \<lparr>pr_thread = Some t, pr_post = tombstone (po_id p) (th_id t) (po_parent_id p),
                           pr_warnings = []\<rparr>,
                    [CScrubPost (po_id p), CEvent e]))"

text \<open>
  \<^verbatim>\<open>refsOf\<close>: the attachments of the posts a purge removes, and
  \<^verbatim>\<open>dropUnreferenced\<close>, which removes those no other post shows. The bytes on disk go with
  the record.
\<close>

definition refsOf :: "string \<Rightarrow> string \<Rightarrow> bdb \<Rightarrow> string list" where
  "refsOf t p d =
     (let ids = (if p = '''' then map po_id (ListPosts t '''' 10000 d) else [p])
      in distinct_by id [] (concat (map (\<lambda>i. concat (map (\<lambda>r. attachmentRefs (rv_body r)) (ListRevisions i d))) ids)))"

definition drop_ref :: "string \<Rightarrow> bdb \<Rightarrow> bdb" where
  "drop_ref ref d =
     (if AttachmentReferenced ref d then d
      else case GetAttachment ref d of None \<Rightarrow> d | Some a \<Rightarrow> DeleteAttachment a d)"

definition dropUnreferenced :: "board_config \<Rightarrow> string list \<Rightarrow> bdb \<Rightarrow> bdb" where
  "dropUnreferenced cfg refs d = (if cg_media cfg = None then d else fold drop_ref refs d)"

definition purge_refs :: "board_config \<Rightarrow> world \<Rightarrow> moderate_request \<Rightarrow> bdb \<Rightarrow> string list" where
  "purge_refs cfg w q d =
     (case moderated cfg w q d of
        Inl e \<Rightarrow> []
      | Inr (person, p, t) \<Rightarrow>
          if po_id p = th_opening_post_id t then refsOf (th_id t) '''' d else refsOf (th_id t) (po_id p) d)"

definition Purge :: "board_config \<Rightarrow> world \<Rightarrow> moderate_request \<Rightarrow> bdb \<Rightarrow> write_outcome" where
  "Purge cfg w q d =
     bindR (do_write cfg w (mo_operation_id q) (requestHash (moderateJSON ''purge'' q)) (runPurge cfg w q) d)
       (\<lambda>((result, replayed), d').
          Inr ((result, replayed), if replayed then d' else dropUnreferenced cfg (purge_refs cfg w q d) d'))"

section \<open>Reads\<close>

definition pageSize :: "int \<Rightarrow> nat" where
  "pageSize limit = (if limit \<le> 0 then 50 else nat (min limit 200))"

definition SvcGetBoard :: "string \<Rightarrow> bdb \<Rightarrow> board_error + board" where
  "SvcGetBoard n d = ok_or (Refused CodeBoardNotFound) (GetBoard n d)"

text \<open>
  A page of threads and where the next one starts. The position is handed out as base64 text, which is
  not modelled: a listing is given the position itself.
\<close>

definition SvcListThreads :: "board_config \<Rightarrow> world \<Rightarrow> string \<Rightarrow> thread_cursor \<Rightarrow> int \<Rightarrow> string list \<Rightarrow> bool \<Rightarrow> bdb
    \<Rightarrow> board_error + thread list \<times> thread_cursor option" where
  "SvcListThreads cfg w b after limit states archived d =
     bindR (SvcGetBoard b d) (\<lambda>_.
       let n = pageSize limit;
           f = \<lparr>tf_states = states, tf_active_since = (if archived then None else Some (w_now w - cg_archive_after cfg))\<rparr>;
           ts = StoreListThreads b after (Suc n) f d
       in Inr (if length ts > n
               then (take n ts, Some \<lparr>tc_last_activity_at = th_last_activity_at (ts ! (n - 1)), tc_id = th_id (ts ! (n - 1))\<rparr>)
               else (ts, None)))"

definition shown_post :: "board_config \<Rightarrow> bdb \<Rightarrow> post \<Rightarrow> post" where
  "shown_post cfg d p = withAttachments cfg d (public (p\<lparr>po_remote := (po_site p \<noteq> cg_site cfg)\<rparr>))"

definition ReadThread :: "board_config \<Rightarrow> string \<Rightarrow> string \<Rightarrow> int \<Rightarrow> bdb \<Rightarrow> board_error + thread \<times> post list \<times> string" where
  "ReadThread cfg i after limit d =
     bindR (thread_of i d) (\<lambda>t.
       let n = pageSize limit; ps = ListPosts i after (Suc n) d
       in Inr (if length ps > n then (t, map (shown_post cfg d) (take n ps), po_id (ps ! (n - 1)))
               else (t, map (shown_post cfg d) ps, '''')))"

definition SvcGetPost :: "board_config \<Rightarrow> string \<Rightarrow> bdb \<Rightarrow> board_error + post" where
  "SvcGetPost cfg i d =
     (case GetPost i d of
        None \<Rightarrow> Inl (Refused CodePostNotFound)
      | Some p \<Rightarrow> Inr (withAttachments cfg d
          (public (p\<lparr>po_remote := (po_site p \<noteq> '''' \<and> po_site p \<noteq> cg_site cfg)\<rparr>))))"

definition Revisions :: "string \<Rightarrow> bdb \<Rightarrow> board_error + revision list" where
  "Revisions i d =
     bindR (post_of i d) (\<lambda>p.
       if po_state p \<noteq> PostVisible then Inl (Refused CodePostNotVisible) else Inr (ListRevisions i d))"

definition SvcSearch :: "string \<Rightarrow> string \<Rightarrow> int \<Rightarrow> bdb \<Rightarrow> board_error + post list" where
  "SvcSearch b q limit d =
     bindR (SvcGetBoard b d) (\<lambda>_.
       if TrimSpace q = '''' then Inl (Refused CodeInvalid)
       else Inr (StoreSearch b (TrimSpace q) (pageSize limit) d))"

end
