(* ===== verification/Board_Curation.thy ===== *)
theory Board_Curation
  imports Board_Service
begin

text \<open>
  Settling, renaming and closing threads, acknowledging decisions and the digest
  (\<^verbatim>\<open>src/internal/board/curation.go\<close>), and following and reading threads
  (the service operations of \<^verbatim>\<open>notices.go\<close>).
\<close>

section \<open>Threads\<close>

record thread_request =
  tq_actor :: actor
  tq_operation_id :: string
  tq_thread :: string
  tq_into :: string
  tq_title :: string
  tq_redirect :: string
  tq_note :: string

definition threadRequestJSON :: "string \<Rightarrow> thread_request \<Rightarrow> json" where
  "threadRequestJSON verb q = JObject ([(''Op'', JString verb)] @ actor_fields (tq_actor q)
     @ [(''operation_id'', JString (tq_operation_id q)), (''thread'', JString (tq_thread q))]
     @ text_field ''into'' (tq_into q) @ text_field ''title'' (tq_title q)
     @ text_field ''redirect'' (tq_redirect q) @ text_field ''note'' (tq_note q))"

definition update_of :: "thread \<Rightarrow> thread_update" where
  "update_of t = \<lparr>tu_id = th_id t, tu_state = th_state t, tu_title = th_title t, tu_redirect_to = th_redirect_to t,
     tu_links = th_links t, tu_aliases = th_aliases t\<rparr>"

definition runThreadChange :: "board_config \<Rightarrow> world \<Rightarrow> string \<Rightarrow> thread_request
    \<Rightarrow> (author \<Rightarrow> thread \<Rightarrow> bdb \<Rightarrow> board_error + thread) \<Rightarrow> bdb \<Rightarrow> board_error + op_result \<times> change list" where
  "runThreadChange cfg w verb q change d =
     bindR (thread_of (tq_thread q) d) (\<lambda>t0.
       bindR (author_of cfg w (tq_actor q)) (\<lambda>who.
         bindR (change who t0 d) (\<lambda>t.
           let e = \<lparr>ev_id = fresh_id cfg w 0, ev_thread_id = th_id t, ev_post_id = '''', ev_type = verb,
                    ev_note = TrimSpace (tq_note q), ev_actor = who, ev_created_at = w_now w,
                    ev_data = [(''into'', JString (tq_into q)), (''title'', JString (tq_title q)),
                               (''redirect'', JString (tq_redirect q))]\<rparr>
           in Inr (RThread t, [CThreadUpdate (update_of t), CEvent e]))))"

definition threadChange :: "board_config \<Rightarrow> world \<Rightarrow> string \<Rightarrow> thread_request
    \<Rightarrow> (author \<Rightarrow> thread \<Rightarrow> bdb \<Rightarrow> board_error + thread) \<Rightarrow> bdb \<Rightarrow> write_outcome" where
  "threadChange cfg w verb q change d =
     do_write cfg w (tq_operation_id q) (requestHash (threadRequestJSON verb q))
       (runThreadChange cfg w verb q change) d"

definition add_link :: "link \<Rightarrow> link list \<Rightarrow> link list" where
  "add_link l ls = (if list_ex (\<lambda>x. lk_ref x = lk_ref l) ls then ls else ls @ [l])"

definition settle_thread :: "world \<Rightarrow> thread_request \<Rightarrow> author \<Rightarrow> thread \<Rightarrow> bdb \<Rightarrow> board_error + thread" where
  "settle_thread w q who t d =
     (let into = TrimSpace (tq_into q)
      in if \<not> linkRef into then Inl (Refused CodeInvalid)
         else Inr (t\<lparr>th_links := add_link \<lparr>lk_ref = into, lk_note = TrimSpace (tq_note q), lk_by = who, lk_at = w_now w\<rparr>
                                   (th_links t), th_state := ThreadSettled\<rparr>))"

definition Settle :: "board_config \<Rightarrow> world \<Rightarrow> thread_request \<Rightarrow> bdb \<Rightarrow> write_outcome" where
  "Settle cfg w q d = threadChange cfg w ''settle'' q (settle_thread w q) d"

definition retitle :: "string \<Rightarrow> thread \<Rightarrow> thread" where
  "retitle title t =
     (if title = th_title t then t
      else t\<lparr>th_aliases := (if th_title t \<in> set (th_aliases t) then th_aliases t else th_aliases t @ [th_title t]),
             th_title := title\<rparr>)"

definition rename_thread :: "thread_request \<Rightarrow> author \<Rightarrow> thread \<Rightarrow> bdb \<Rightarrow> board_error + thread" where
  "rename_thread q who t d = bindR (checkTitle (tq_title q)) (\<lambda>title. Inr (retitle title t))"

definition Rename :: "board_config \<Rightarrow> world \<Rightarrow> thread_request \<Rightarrow> bdb \<Rightarrow> write_outcome" where
  "Rename cfg w q d = threadChange cfg w ''rename'' q (rename_thread q) d"

definition close_thread :: "thread_request \<Rightarrow> author \<Rightarrow> thread \<Rightarrow> bdb \<Rightarrow> board_error + thread" where
  "close_thread q who t d =
     bindR (if tq_redirect q = '''' then Inr ()
            else bindR (thread_of (tq_redirect q) d)
                   (\<lambda>target. refuse_if (th_id target = th_id t) (Refused CodeInvalid)))
       (\<lambda>_. Inr (t\<lparr>th_state := ThreadClosed, th_redirect_to := tq_redirect q\<rparr>))"

definition Close :: "board_config \<Rightarrow> world \<Rightarrow> thread_request \<Rightarrow> bdb \<Rightarrow> write_outcome" where
  "Close cfg w q d = threadChange cfg w ''close'' q (close_thread q) d"

section \<open>Decisions\<close>

record decision =
  dc_post :: post
  dc_thread :: thread
  dc_addressees :: "participant list"
  dc_acked :: "participant list"
  dc_waiting :: "participant list"

definition decision_of :: "post \<Rightarrow> thread \<Rightarrow> bdb \<Rightarrow> decision" where
  "decision_of p t d =
     (let acked = Acks (po_id p) d; addressees = map mentionParticipant (po_mentions p)
      in \<lparr>dc_post = p, dc_thread = t, dc_addressees = addressees, dc_acked = acked,
          dc_waiting = filter (\<lambda>x. x \<notin> set acked) addressees\<rparr>)"

definition shareAck :: "board_config \<Rightarrow> world \<Rightarrow> post \<Rightarrow> thread \<Rightarrow> author \<Rightarrow> bdb \<Rightarrow> change list" where
  "shareAck cfg w p t who d =
     (let network = boardNetwork (th_board t) [] d; me = authorParticipant who;
          e = \<lparr>ev_id = fresh_id cfg w 0, ev_thread_id = th_id t, ev_post_id = po_id p, ev_type = ''ack'',
               ev_note = '''', ev_actor = who, ev_created_at = w_now w,
               ev_data = [(''for'', JObject [(''kind'', JString (pa_kind me)), (''address'', JString (pa_address me)),
                                             (''site'', JString (pa_site me))])]\<rparr>
      in if network = '''' then []
         else [CEvent e, outbox network (EventFilePath (th_board t) (th_id t) (ev_id e))
                           (EncodeEvent (th_board t) e (cg_site cfg)) ''''])"

definition Ack :: "board_config \<Rightarrow> world \<Rightarrow> actor \<Rightarrow> string \<Rightarrow> bdb \<Rightarrow> board_error + decision \<times> bdb" where
  "Ack cfg w a i d =
     bindR (author_of cfg w a) (\<lambda>who.
       bindR (post_of i d) (\<lambda>p.
         let me = authorParticipant who
         in if po_kind p \<noteq> KindDecision \<or> po_state p \<noteq> PostVisible then Inl (Refused CodeInvalid)
            else if me \<notin> set (map mentionParticipant (po_mentions p)) then Inl (Refused CodeNotAuthor)
            else bindR (thread_of (po_thread_id p) d) (\<lambda>t.
              bindR (if me \<in> set (Acks (po_id p) d) then Inr d
                     else Apply None (CAck \<lparr>ak_post_id = po_id p, ak_for = me, ak_by = who, ak_at = w_now w\<rparr>
                                      # shareAck cfg w p t who d) d)
                (\<lambda>d'. Inr (decision_of p t d', d')))))"

text \<open>
  One page of decisions: those still waiting are added until \<open>want\<close> are found, which ends the
  listing (\<open>Inl\<close>).
\<close>

fun scan_decisions :: "bdb \<Rightarrow> nat \<Rightarrow> decision list \<Rightarrow> post list \<Rightarrow> decision list + decision list" where
  "scan_decisions d want out [] = Inr out"
| "scan_decisions d want out (p # ps) =
     (case thread_of (po_thread_id p) d of
        Inl e \<Rightarrow> scan_decisions d want out ps
      | Inr t \<Rightarrow>
          (let x = decision_of p t d
           in if dc_waiting x = [] then scan_decisions d want out ps
              else if Suc (length out) = want then Inl (out @ [x])
              else scan_decisions d want (out @ [x]) ps))"

definition maxPage :: nat where "maxPage = 200"

text \<open>The loop of \<^verbatim>\<open>OpenAcks\<close>; it has no bound in the code.\<close>

partial_function (option) open_acks_loop ::
  "bdb \<Rightarrow> string \<Rightarrow> nat \<Rightarrow> string \<Rightarrow> decision list \<Rightarrow> decision list option" where
  "open_acks_loop d b want i out =
     (let ps = KindPosts b KindDecision i maxPage d
      in case scan_decisions d want out ps of
           Inl found \<Rightarrow> Some found
         | Inr out' \<Rightarrow>
             if length ps < maxPage then Some out'
             else open_acks_loop d b want (po_id (last ps)) out')"

definition OpenAcks :: "string \<Rightarrow> int \<Rightarrow> bdb \<Rightarrow> board_error + decision list option" where
  "OpenAcks b limit d =
     bindR (if b = '''' then Inr () else bindR (SvcGetBoard b d) (\<lambda>_. Inr ()))
       (\<lambda>_. Inr (open_acks_loop d b (pageSize limit) '''' []))"

record digest =
  dg_board :: string
  dg_open_questions :: "post list"
  dg_decisions :: "decision list"
  dg_warnings :: "post list"
  dg_settled :: "thread list"

definition digestEach :: nat where "digestEach = 10"

definition Digest :: "string \<Rightarrow> bdb \<Rightarrow> board_error + digest" where
  "Digest b d =
     bindR (SvcGetBoard b d) (\<lambda>_.
       Inr \<lparr>dg_board = b, dg_open_questions = OpenQuestions b digestEach d,
            dg_decisions = List.map_filter
              (\<lambda>p. case thread_of (po_thread_id p) d of Inl e \<Rightarrow> None | Inr t \<Rightarrow> Some (decision_of p t d))
              (KindPosts b KindDecision '''' digestEach d),
            dg_warnings = KindPosts b KindWarning '''' digestEach d,
            dg_settled = StoreListThreads b \<lparr>tc_last_activity_at = zero_time, tc_id = ''''\<rparr> digestEach
              \<lparr>tf_states = [''settled''], tf_active_since = None\<rparr> d\<rparr>)"

section \<open>Following and reading\<close>

record subscribe_request =
  sr_actor :: actor
  sr_thread :: string
  sr_board :: string

definition subscription_of :: "board_config \<Rightarrow> world \<Rightarrow> subscribe_request \<Rightarrow> bdb \<Rightarrow> board_error + subscription" where
  "subscription_of cfg w q d =
     bindR (if (sr_thread q = '''') = (sr_board q = '''') then Inl (Refused CodeInvalid)
            else if sr_thread q \<noteq> '''' then bindR (thread_of (sr_thread q) d) (\<lambda>_. Inr ())
            else bindR (SvcGetBoard (sr_board q) d) (\<lambda>_. Inr ()))
       (\<lambda>_. bindR (author_of cfg w (sr_actor q)) (\<lambda>who.
          Inr \<lparr>su_participant = authorParticipant who, su_thread = sr_thread q, su_board = sr_board q,
               su_created_at = w_now w\<rparr>))"

definition Subscribe :: "board_config \<Rightarrow> world \<Rightarrow> subscribe_request \<Rightarrow> bdb \<Rightarrow> board_error + subscription \<times> bdb" where
  "Subscribe cfg w q d =
     bindR (subscription_of cfg w q d) (\<lambda>s. bindR (Apply None [CSubscribe s] d) (\<lambda>d'. Inr (s, d')))"

definition Unsubscribe :: "board_config \<Rightarrow> world \<Rightarrow> subscribe_request \<Rightarrow> bdb \<Rightarrow> board_error + subscription \<times> bdb" where
  "Unsubscribe cfg w q d = bindR (subscription_of cfg w q d) (\<lambda>s. Inr (s, StoreUnsubscribe s d))"

definition Subscriptions :: "board_config \<Rightarrow> world \<Rightarrow> actor \<Rightarrow> bdb \<Rightarrow> board_error + subscription list" where
  "Subscriptions cfg w a d =
     bindR (author_of cfg w a) (\<lambda>who. Inr (StoreSubscriptions (authorParticipant who) d))"

definition MarkRead :: "board_config \<Rightarrow> world \<Rightarrow> actor \<Rightarrow> string \<Rightarrow> string \<Rightarrow> bdb \<Rightarrow> board_error + bdb" where
  "MarkRead cfg w a t i d =
     bindR (author_of cfg w a) (\<lambda>who.
       case GetPost i d of
         None \<Rightarrow> Inl (Refused CodePostNotFound)
       | Some p \<Rightarrow>
           if po_thread_id p \<noteq> t then Inl (Refused CodePostNotFound)
           else StoreMarkRead (authorParticipant who) t i (w_now w) d)"

definition SvcCursor :: "board_config \<Rightarrow> world \<Rightarrow> actor \<Rightarrow> string \<Rightarrow> bdb \<Rightarrow> board_error + string" where
  "SvcCursor cfg w a t d = bindR (author_of cfg w a) (\<lambda>who. Inr (Cursor (authorParticipant who) t d))"

definition SvcUnread :: "board_config \<Rightarrow> world \<Rightarrow> actor \<Rightarrow> int \<Rightarrow> bdb \<Rightarrow> board_error + unread list" where
  "SvcUnread cfg w a limit d =
     bindR (author_of cfg w a) (\<lambda>who. Inr (StoreUnread (authorParticipant who) (pageSize limit) d))"

definition Notices :: "string \<Rightarrow> int \<Rightarrow> bdb \<Rightarrow> board_error + notice list" where
  "Notices state limit d =
     (if state = '''' \<or> state \<in> set (map notice_state_text
           [NoticePending, NoticeSent, NoticeDelivered, NoticeExpired, NoticeFailed, NoticeNoRoute])
      then Inr (ListNotices state (pageSize limit) d) else Inl (Refused CodeInvalid))"

end
