(* ===== verification/Board_Search.thy ===== *)
theory Board_Search
  imports Board_Curation "HOL-Library.Multiset"
begin

text \<open>
  What a search finds. SQLite's \<^verbatim>\<open>LIKE\<close> with the escaped query between two
  \<^verbatim>\<open>%\<close> is containment up to the case of ASCII letters, so a search returns the newest
  visible posts of the board whose text, title or earlier titles contain the query.
\<close>

section \<open>LIKE\<close>

lemma like_percent:
  assumes "esc \<noteq> Some CHR ''%''"
  shows "like esc (CHR ''%'' # ps) s \<longleftrightarrow> (\<exists>a b. s = a @ b \<and> like esc ps b)"
proof (induction s)
  case Nil
  then show ?case using assms by (simp add: like.simps(2))
next
  case (Cons c s)
  have "like esc (CHR ''%'' # ps) (c # s) \<longleftrightarrow> like esc ps (c # s) \<or> like esc (CHR ''%'' # ps) s"
    using assms by (simp add: like.simps(2))
  also have "\<dots> \<longleftrightarrow> (\<exists>a b. c # s = a @ b \<and> like esc ps b)"
    unfolding Cons.IH by (auto simp: Cons_eq_append_conv)
  finally show ?case .
qed

lemma like_everything: "esc \<noteq> Some CHR ''%'' \<Longrightarrow> like esc ''%'' s"
  by (subst like_percent) (auto simp: like.simps(1))

lemma like_literal:
  assumes "esc \<noteq> Some p" and "p \<noteq> CHR ''%''" and "p \<noteq> CHR ''_''"
  shows "like esc (p # ps) s \<longleftrightarrow> (\<exists>c r. s = c # r \<and> lower_char c = lower_char p \<and> like esc ps r)"
  using assms by (cases s) (auto simp: like.simps(2))

lemma like_escaped: "like (Some x) (x # p # ps) s \<longleftrightarrow> (\<exists>c r. s = c # r \<and> lower_char c = lower_char p \<and> like (Some x) ps r)"
  by (cases s) (auto simp: like.simps(2))

lemma like_escape_Cons:
  "like (Some CHR 0x5C) (like_escape (c # q) @ ps) s
   \<longleftrightarrow> (\<exists>x r. s = x # r \<and> lower_char x = lower_char c \<and> like (Some CHR 0x5C) (like_escape q @ ps) r)"
proof (cases "c = CHR 0x5C \<or> c = CHR ''%'' \<or> c = CHR ''_''")
  case True
  then have "like_escape (c # q) @ ps = CHR 0x5C # c # like_escape q @ ps"
    by (simp add: like_escape_def)
  then show ?thesis by (simp only: like_escaped)
next
  case False
  then have "like_escape (c # q) @ ps = c # like_escape q @ ps"
    by (simp add: like_escape_def)
  moreover have "Some CHR 0x5C \<noteq> Some c" using False by blast
  ultimately show ?thesis using False like_literal [of "Some CHR 0x5C" c "like_escape q @ ps" s] by simp
qed

lemma like_escape_prefix:
  "like (Some CHR 0x5C) (like_escape q @ ps) s
   \<longleftrightarrow> (\<exists>a b. s = a @ b \<and> map lower_char a = map lower_char q \<and> like (Some CHR 0x5C) ps b)"
proof (induction q arbitrary: s)
  case Nil
  then show ?case by (simp add: like_escape_def)
next
  case (Cons c q)
  show ?case unfolding like_escape_Cons Cons.IH
  proof safe
    fix x a b
    assume "lower_char x = lower_char c" "map lower_char a = map lower_char q" "like (Some CHR 0x5C) ps b"
    then show "\<exists>u v. x # a @ b = u @ v \<and> map lower_char u = map lower_char (c # q) \<and> like (Some CHR 0x5C) ps v"
      by (intro exI [of _ "x # a"] exI [of _ b]) simp
  next
    fix a b
    assume "map lower_char a = map lower_char (c # q)" "like (Some CHR 0x5C) ps b"
    then show "\<exists>x r. a @ b = x # r \<and> lower_char x = lower_char c
        \<and> (\<exists>u v. r = u @ v \<and> map lower_char u = map lower_char q \<and> like (Some CHR 0x5C) ps v)"
      by (cases a) auto
  qed
qed

definition contains :: "string \<Rightarrow> string \<Rightarrow> bool" where
  "contains q s = sublist (map lower_char q) (map lower_char s)"

lemma sublist_map_iff:
  "sublist (map f q) (map f s) \<longleftrightarrow> (\<exists>a m b. s = a @ m @ b \<and> map f m = map f q)"
proof
  assume "sublist (map f q) (map f s)"
  then obtain x y where "map f s = x @ map f q @ y" by (auto simp: sublist_def)
  then obtain a r where s: "s = a @ r" and r: "map f r = map f q @ y"
    by (metis map_eq_append_conv)
  from r obtain m b where "r = m @ b" "map f m = map f q"
    by (metis map_eq_append_conv)
  with s show "\<exists>a m b. s = a @ m @ b \<and> map f m = map f q" by blast
next
  assume "\<exists>a m b. s = a @ m @ b \<and> map f m = map f q"
  then show "sublist (map f q) (map f s)"
    by (fastforce simp: sublist_def)
qed

theorem like_contains:
  "like (Some CHR 0x5C) (''%'' @ like_escape q @ ''%'') s \<longleftrightarrow> contains q s"
proof -
  have "like (Some CHR 0x5C) (''%'' @ like_escape q @ ''%'') s
      \<longleftrightarrow> (\<exists>a b. s = a @ b \<and> like (Some CHR 0x5C) (like_escape q @ ''%'') b)"
    using like_percent [of "Some CHR 0x5C" "like_escape q @ ''%''" s] by simp
  also have "\<dots> \<longleftrightarrow> (\<exists>a m b. s = a @ m @ b \<and> map lower_char m = map lower_char q)"
    unfolding like_escape_prefix by (auto simp: like_everything)
  finally show ?thesis
    by (simp add: contains_def sublist_map_iff)
qed

section \<open>Search\<close>

definition found :: "string \<Rightarrow> string \<Rightarrow> bdb \<Rightarrow> post \<Rightarrow> bool" where
  "found name q d p =
     (po_state p = PostVisible
      \<and> (case on_board name d p of
           None \<Rightarrow> False
         | Some r \<Rightarrow> contains q (po_body p) \<or> contains q (th_title (tw_thread r))
                      \<or> contains q (Marshal (JArray (map JString (th_aliases (tw_thread r)))))))"

lemma search_matches_contains:
  "search_matches q p t \<longleftrightarrow> contains q (po_body p) \<or> contains q (th_title t)
     \<or> contains q (Marshal (JArray (map JString (th_aliases t))))"
  unfolding search_matches_def Let_def like_contains ..

lemma StoreSearch_found:
  "StoreSearch name q limit d = take limit (rev (sort_key postKey (filter (found name q d) (joined d))))"
  unfolding StoreSearch_def found_def search_matches_contains by (simp cong: option.case_cong)


end
