(* ===== verification/Board_Carries.thy ===== *)
theory Board_Carries
  imports Board_Search
begin

text \<open>
  When a purge finds a receipt: the statement matches the quoted id in the JSON text of the stored
  result, and that text holds the quoted id of the post and of the thread the result is about.
\<close>

section \<open>Plain ids\<close>

text \<open>Ids are letters, digits and hyphens: nothing JSON escapes and nothing \<^verbatim>\<open>LIKE\<close> reads as a wildcard.\<close>

definition plain_id :: "string \<Rightarrow> bool" where
  "plain_id i = (i \<noteq> '''' \<and> list_all (\<lambda>c. name_char c \<or> upper_alpha c) i)"

lemma plain_char_cases:
  assumes "name_char c \<or> upper_alpha c"
  shows "byte c < 0x80 \<and> 0x20 \<le> byte c \<and> c \<noteq> CHR ''%'' \<and> c \<noteq> CHR ''_'' \<and> byte c \<noteq> 0x22 \<and> byte c \<noteq> 0x5C
     \<and> byte c \<noteq> 0x3C \<and> byte c \<noteq> 0x3E \<and> byte c \<noteq> 0x26"
  using assms by (auto simp: name_char_def name_start_def lower_alpha_def decimal_def upper_alpha_def byte_def)

lemma json_body_plain_id: "list_all (\<lambda>c. name_char c \<or> upper_alpha c) s \<Longrightarrow> json_body s = s"
proof (induction s)
  case Nil
  then show ?case by (simp add: json_body.simps)
next
  case (Cons c s)
  have "byte c < 0x80" and "json_ascii c = [c]"
    using plain_char_cases [of c] Cons.prems by (auto simp: json_ascii_def Let_def byte_def)
  then show ?case using Cons by (simp add: json_body.simps(2) byte_def)
qed

lemma jsonString_plain_id: "plain_id i \<Longrightarrow> jsonString i = [CHR 0x22] @ i @ [CHR 0x22]"
  by (simp add: jsonString_def plain_id_def json_body_plain_id)

section \<open>Finding an id\<close>

definition literal_char :: "char \<Rightarrow> bool" where
  "literal_char c = (c \<noteq> CHR ''%'' \<and> c \<noteq> CHR ''_'')"

lemma like_literals:
  "list_all literal_char q \<Longrightarrow> like None (q @ ps) (q @ s) \<longleftrightarrow> like None ps s"
  by (induction q) (auto simp: literal_char_def like_literal)

lemma like_finds:
  assumes "list_all literal_char q"
  shows "like None (''%'' @ q @ ''%'') (a @ q @ b)"
proof -
  have "like None (q @ ''%'') (q @ b)"
    using like_literals [OF assms, of "''%''" b] like_everything [of None b] by simp
  then show ?thesis using like_percent [of None "q @ ''%''" "a @ q @ b"] by auto
qed

lemma carries_quoted:
  assumes "plain_id i" and "sublist (jsonString i) (Marshal (resultJSON r))"
  shows "carries i (Some r)"
proof -
  obtain a b where js: "Marshal (resultJSON r) = a @ ([CHR 0x22] @ i @ [CHR 0x22]) @ b"
    using assms by (auto simp: sublist_def jsonString_plain_id)
  have "list_all literal_char ([CHR 0x22] @ i @ [CHR 0x22])"
    using assms(1) plain_char_cases by (auto simp: plain_id_def list_all_iff literal_char_def)
  from like_finds [OF this, of a b] show ?thesis
    by (simp add: carries_def result_text_def js)
qed

section \<open>Parts of a JSON text\<close>

lemma sublist_inside: "sublist s t \<Longrightarrow> sublist s (a @ t @ b)"
  by (metis sublist_appendI sublist_order.order_trans)

lemma sublist_Join: "x \<in> set xs \<Longrightarrow> sublist x (Join xs sep)"
proof (induction xs sep rule: Join.induct)
  case (3 y z r sep)
  show ?case
  proof (cases "x = y")
    case True
    then show ?thesis by simp
  next
    case False
    then have "sublist x (Join (z # r) sep)" using 3 by simp
    from sublist_inside [OF this, of "y @ sep" "[]"] show ?thesis by simp
  qed
qed auto

lemma marshal_fields_mem: "(k, v) \<in> set fs \<Longrightarrow> (jsonString k @ '':'' @ Marshal v) \<in> set (marshal_fields fs)"
  by (induction fs) auto

lemma sublist_field:
  assumes "(k, v) \<in> set fs" and "sublist s (Marshal v)"
  shows "sublist s (Marshal (JObject fs))"
proof -
  have "sublist s (jsonString k @ '':'' @ Marshal v)"
    using sublist_inside [OF assms(2), of "jsonString k @ '':''" "[]"] by simp
  also have "sublist \<dots> (Join (marshal_fields fs) '','')"
    using assms(1) by (intro sublist_Join marshal_fields_mem)
  also have "sublist \<dots> (Marshal (JObject fs))"
    using sublist_inside [OF sublist_order.order_refl, of "Join (marshal_fields fs) '',''" "''{''" "''}''"] by simp
  finally show ?thesis .
qed

lemma carries_post: "plain_id (po_id (pr_post r)) \<Longrightarrow> carries (po_id (pr_post r)) (Some (RPost r))"
proof (rule carries_quoted)
  have "sublist (jsonString (po_id (pr_post r))) (Marshal (postJSON (pr_post r)))"
    unfolding postJSON_def by (rule sublist_field [of "''id''" "JString (po_id (pr_post r))"]) simp_all
  then show "sublist (jsonString (po_id (pr_post r))) (Marshal (resultJSON (RPost r)))"
    unfolding resultJSON.simps by (rule sublist_field [of "''post''", rotated]) simp
qed

lemma sublist_threadJSON: "sublist (jsonString (th_id t)) (Marshal (threadJSON (Some t)))"
  unfolding threadJSON_def option.case
  by (rule sublist_field [of "''id''" "JString (th_id t)"]) simp_all

lemma carries_post_thread:
  assumes "pr_thread r = Some t" and "plain_id (th_id t)"
  shows "carries (th_id t) (Some (RPost r))"
proof (rule carries_quoted [OF assms(2)])
  show "sublist (jsonString (th_id t)) (Marshal (resultJSON (RPost r)))"
    unfolding resultJSON.simps assms(1)
    by (rule sublist_field [of "''thread''" "threadJSON (Some t)"]) (simp_all add: sublist_threadJSON)
qed

lemma carries_thread: "plain_id (th_id t) \<Longrightarrow> carries (th_id t) (Some (RThread t))"
  by (rule carries_quoted) (simp_all add: sublist_threadJSON)

end
