(* ===== verification/Board_Units.thy ===== *)
theory Board_Units
  imports Board_Carries
begin

text \<open>
  The few ways a transaction of crew-board moves its tables, and the invariant they keep. Every
  operation of the service, every file of another site and every write of the notifier and the syncer
  is a sequence of such units (\<open>Board_Runs\<close>); the invariant is shown once per unit here.
\<close>

section \<open>What a unit may not touch\<close>

definition post_core :: "post_row \<Rightarrow> post" where
  "post_core r = (pw_post r)\<lparr>po_sync := ''''\<rparr>"

definition thread_core :: "thread_row \<Rightarrow> string \<times> bool \<times> thread option" where
  "thread_core r = (thread_id r, tw_purged r, if tw_purged r then Some (tw_thread r) else None)"

definition notice_core :: "notice_row \<Rightarrow> string \<times> bool \<times> string" where
  "notice_core r = (no_post_id (nw_notice r), nw_purged r, if nw_purged r then no_body (nw_notice r) else '''')"

definition shown :: "string \<Rightarrow> bdb \<Rightarrow> bool" where
  "shown i d = (\<exists>r\<in>set (bt_posts d). post_id r = i \<and> po_state (pw_post r) \<noteq> PostPurged)"

text \<open>
  A calm step keeps the text, the posts but for their sync mark, the receipts, the identity of every
  thread and all of a purged one; it may add notices about posts that are not purged.
\<close>

definition calm :: "bdb \<Rightarrow> bdb \<Rightarrow> bool" where
  "calm d d' =
     (bt_revisions d' = bt_revisions d \<and> bt_operations d' = bt_operations d
      \<and> map post_core (bt_posts d') = map post_core (bt_posts d)
      \<and> map thread_core (bt_threads d') = map thread_core (bt_threads d)
      \<and> (\<exists>ns. map notice_core (bt_notices d') = map notice_core (bt_notices d) @ map notice_core ns
            \<and> (\<forall>n\<in>set ns. \<not> nw_purged n \<and> shown (no_post_id (nw_notice n)) d)))"

lemma post_core_fields:
  "post_core r = post_core r' \<Longrightarrow> post_id r = post_id r' \<and> po_state (pw_post r) = po_state (pw_post r')
     \<and> po_author (pw_post r) = po_author (pw_post r') \<and> po_note (pw_post r) = po_note (pw_post r')
     \<and> po_revision (pw_post r) = po_revision (pw_post r') \<and> po_thread_id (pw_post r) = po_thread_id (pw_post r')
     \<and> po_created_at (pw_post r) = po_created_at (pw_post r')"
  by (cases "pw_post r"; cases "pw_post r'") (simp add: post_core_def)

lemma map_eq_mem: "map f xs = map f ys \<Longrightarrow> x \<in> set xs \<Longrightarrow> \<exists>y\<in>set ys. f y = f x"
  by (metis imageE imageI list.set_map)

lemma calm_posts_ids: "calm d d' \<Longrightarrow> map post_id (bt_posts d') = map post_id (bt_posts d)"
proof -
  assume "calm d d'"
  then have "map po_id (map post_core (bt_posts d')) = map po_id (map post_core (bt_posts d))"
    by (simp only: calm_def)
  then show ?thesis by (simp add: post_core_def comp_def)
qed

lemma calm_threads_ids: "calm d d' \<Longrightarrow> map thread_id (bt_threads d') = map thread_id (bt_threads d)"
proof -
  assume "calm d d'"
  then have "map fst (map thread_core (bt_threads d')) = map fst (map thread_core (bt_threads d))"
    by (simp only: calm_def)
  then show ?thesis by (simp add: thread_core_def comp_def)
qed

lemma calm_shown: "calm d d' \<Longrightarrow> shown i d' \<longleftrightarrow> shown i d"
proof -
  assume c: "calm d d'"
  have eq: "map post_core (bt_posts d') = map post_core (bt_posts d)" using c by (simp add: calm_def)
  show ?thesis unfolding shown_def
    using map_eq_mem [OF eq] map_eq_mem [OF eq [symmetric]] post_core_fields by metis
qed

lemma calm_refl: "calm d d"
  by (auto simp: calm_def intro: exI [of _ "[]"])

lemma calm_trans:
  assumes "calm a b" and "calm b c"
  shows "calm a c"
proof -
  obtain ns where ns: "map notice_core (bt_notices b) = map notice_core (bt_notices a) @ map notice_core ns"
    "\<forall>n\<in>set ns. \<not> nw_purged n \<and> shown (no_post_id (nw_notice n)) a"
    using assms(1) by (auto simp: calm_def)
  obtain ms where ms: "map notice_core (bt_notices c) = map notice_core (bt_notices b) @ map notice_core ms"
    "\<forall>n\<in>set ms. \<not> nw_purged n \<and> shown (no_post_id (nw_notice n)) b"
    using assms(2) by (auto simp: calm_def)
  have "\<forall>n\<in>set (ns @ ms). \<not> nw_purged n \<and> shown (no_post_id (nw_notice n)) a"
    using ns(2) ms(2) calm_shown [OF assms(1)] by auto
  then show ?thesis using assms ns(1) ms(1)
    unfolding calm_def by (intro conjI exI [of _ "ns @ ms"]) simp_all
qed

section \<open>The invariant\<close>

definition purged_post :: "string \<Rightarrow> bdb \<Rightarrow> bool" where
  "purged_post i d = (\<exists>r\<in>set (bt_posts d). post_id r = i \<and> po_state (pw_post r) = PostPurged)"

definition revisions_of :: "string \<Rightarrow> bdb \<Rightarrow> revision list" where
  "revisions_of i d = filter (\<lambda>v. rv_post_id v = i) (bt_revisions d)"

definition ids_ok :: "bdb \<Rightarrow> bool" where
  "ids_ok d = (distinct (map post_id (bt_posts d)) \<and> list_all plain_id (map post_id (bt_posts d))
               \<and> distinct (map thread_id (bt_threads d)) \<and> list_all plain_id (map thread_id (bt_threads d)))"

text \<open>The revisions of a post are numbered from 1 to its current one, in the order they were added.\<close>

definition history_ok :: "bdb \<Rightarrow> bool" where
  "history_ok d =
     ((\<forall>v\<in>set (bt_revisions d). \<exists>r\<in>set (bt_posts d). post_id r = rv_post_id v)
      \<and> (\<forall>r\<in>set (bt_posts d). 1 \<le> po_revision (pw_post r)
           \<and> map rv_revision (revisions_of (post_id r) d) = [1..po_revision (pw_post r)]))"

text \<open>Nothing a purge removed is left, or comes back.\<close>

definition blank_revision :: "revision \<Rightarrow> bool" where
  "blank_revision v = (rv_body v = '''' \<and> rv_mentions v = [])"

definition scrubbed_ok :: "bdb \<Rightarrow> bool" where
  "scrubbed_ok d =
     ((\<forall>r\<in>set (bt_posts d). po_state (pw_post r) = PostPurged \<longrightarrow>
          po_author (pw_post r) = no_author \<and> po_note (pw_post r) = ''''
          \<and> list_all blank_revision (revisions_of (post_id r) d))
      \<and> (\<forall>n\<in>set (bt_notices d). purged_post (no_post_id (nw_notice n)) d \<longrightarrow>
           nw_purged n \<and> no_body (nw_notice n) = ''''))"

definition blank_thread :: "thread \<Rightarrow> bool" where
  "blank_thread t = (th_title t = '''' \<and> th_created_by t = no_author \<and> th_links t = [] \<and> th_aliases t = []
                     \<and> th_redirect_to t = '''')"

definition threads_ok :: "bdb \<Rightarrow> bool" where
  "threads_ok d =
     (\<forall>t\<in>set (bt_threads d). tw_purged t \<longrightarrow> blank_thread (tw_thread t)
        \<and> (\<forall>r\<in>set (bt_posts d). po_thread_id (pw_post r) = thread_id t \<longrightarrow> po_state (pw_post r) = PostPurged))"

text \<open>A receipt that is kept tells nothing of a purged post or thread.\<close>

definition silent :: "post \<Rightarrow> bool" where
  "silent p = (po_body p = '''' \<and> po_mentions p = [] \<and> po_author p = no_author \<and> po_note p = '''')"

fun result_ok :: "bdb \<Rightarrow> op_result \<Rightarrow> bool" where
  "result_ok d (RBoard b) = True"
| "result_ok d (RThread t) = (\<not> ThreadPurged (th_id t) d)"
| "result_ok d (RPost r) =
     ((case pr_thread r of None \<Rightarrow> True | Some t \<Rightarrow> \<not> ThreadPurged (th_id t) d)
      \<and> (purged_post (po_id (pr_post r)) d \<longrightarrow> silent (pr_post r)))"

definition receipts_ok :: "bdb \<Rightarrow> bool" where
  "receipts_ok d = (\<forall>w\<in>set (bt_operations d).
     case ow_result w of None \<Rightarrow> ow_purged w | Some r \<Rightarrow> \<not> ow_purged w \<and> result_ok d r)"

definition board_inv :: "bdb \<Rightarrow> bool" where
  "board_inv d = (ids_ok d \<and> history_ok d \<and> scrubbed_ok d \<and> threads_ok d \<and> receipts_ok d)"

lemma board_inv_empty: "board_inv empty_bdb"
  by (simp add: board_inv_def ids_ok_def history_ok_def scrubbed_ok_def threads_ok_def receipts_ok_def
      empty_bdb_def)

section \<open>Calm steps keep it\<close>

lemma calm_purged_post: "calm d d' \<Longrightarrow> purged_post i d' \<longleftrightarrow> purged_post i d"
proof -
  assume c: "calm d d'"
  have eq: "map post_core (bt_posts d') = map post_core (bt_posts d)" using c by (simp add: calm_def)
  show ?thesis unfolding purged_post_def
    using map_eq_mem [OF eq] map_eq_mem [OF eq [symmetric]] post_core_fields by metis
qed

lemma calm_ThreadPurged: "calm d d' \<Longrightarrow> ThreadPurged i d' \<longleftrightarrow> ThreadPurged i d"
proof -
  assume c: "calm d d'"
  have eq: "map thread_core (bt_threads d') = map thread_core (bt_threads d)" using c by (simp add: calm_def)
  have core: "thread_core r = thread_core r' \<Longrightarrow> thread_id r = thread_id r' \<and> tw_purged r = tw_purged r'" for r r'
    by (simp add: thread_core_def)
  show ?thesis unfolding ThreadPurged_def list_ex_iff
    using map_eq_mem [OF eq] map_eq_mem [OF eq [symmetric]] core by metis
qed

lemma result_ok_cong:
  assumes "\<And>i. ThreadPurged i d' = ThreadPurged i d" and "\<And>i. purged_post i d' = purged_post i d"
  shows "result_ok d' r = result_ok d r"
  using assms by (cases r) (simp_all split: option.split)

lemma receipts_ok_cong:
  assumes "\<And>i. ThreadPurged i d' = ThreadPurged i d" and "\<And>i. purged_post i d' = purged_post i d"
    and "bt_operations d' = bt_operations d"
  shows "receipts_ok d' = receipts_ok d"
  unfolding receipts_ok_def assms(3) by (simp add: result_ok_cong [OF assms(1,2)] cong: option.case_cong)

lemma calm_ids_ok: "calm d d' \<Longrightarrow> ids_ok d \<Longrightarrow> ids_ok d'"
  by (simp add: ids_ok_def calm_posts_ids calm_threads_ids)

lemma calm_history_ok:
  assumes c: "calm d d'" and h: "history_ok d"
  shows "history_ok d'"
proof -
  have eq: "map post_core (bt_posts d') = map post_core (bt_posts d)" and rv: "bt_revisions d' = bt_revisions d"
    using c by (simp_all add: calm_def)
  have same: "\<exists>y\<in>set (bt_posts d). post_id y = post_id r \<and> po_revision (pw_post y) = po_revision (pw_post r)"
    if "r \<in> set (bt_posts d')" for r
    using map_eq_mem [OF eq that] post_core_fields by metis
  have "set (map post_id (bt_posts d')) = set (map post_id (bt_posts d))" using calm_posts_ids [OF c] by simp
  then have "\<forall>v\<in>set (bt_revisions d'). \<exists>r\<in>set (bt_posts d'). post_id r = rv_post_id v"
    using h rv by (auto simp: history_ok_def image_iff) (metis image_iff)
  moreover have "1 \<le> po_revision (pw_post r)
      \<and> map rv_revision (revisions_of (post_id r) d') = [1..po_revision (pw_post r)]"
    if "r \<in> set (bt_posts d')" for r
    using same [OF that] h rv unfolding history_ok_def revisions_of_def by metis
  ultimately show ?thesis by (simp add: history_ok_def)
qed

lemma calm_scrubbed_ok:
  assumes c: "calm d d'" and s: "scrubbed_ok d" and ids: "ids_ok d"
  shows "scrubbed_ok d'"
proof -
  have eq: "map post_core (bt_posts d') = map post_core (bt_posts d)" and rv: "bt_revisions d' = bt_revisions d"
    using c by (simp_all add: calm_def)
  obtain ns where ns: "map notice_core (bt_notices d') = map notice_core (bt_notices d) @ map notice_core ns"
    "\<forall>n\<in>set ns. \<not> nw_purged n \<and> shown (no_post_id (nw_notice n)) d"
    using c by (auto simp: calm_def)
  have post: "po_author (pw_post r) = no_author \<and> po_note (pw_post r) = ''''
      \<and> list_all blank_revision (revisions_of (post_id r) d')"
    if r: "r \<in> set (bt_posts d')" "po_state (pw_post r) = PostPurged" for r
  proof -
    obtain y where "y \<in> set (bt_posts d)" "post_core y = post_core r" using map_eq_mem [OF eq r(1)] by blast
    with post_core_fields [of y r] r(2) s rv show ?thesis
      unfolding scrubbed_ok_def revisions_of_def by metis
  qed
  have notice: "nw_purged n \<and> no_body (nw_notice n) = ''''"
    if n: "n \<in> set (bt_notices d')" "purged_post (no_post_id (nw_notice n)) d'" for n
  proof -
    have "notice_core n \<in> set (map notice_core (bt_notices d) @ map notice_core ns)"
      using n(1) ns(1) by (metis image_eqI list.set_map)
    then consider y where "y \<in> set (bt_notices d)" "notice_core n = notice_core y"
      | y where "y \<in> set ns" "notice_core n = notice_core y" by auto
    then show ?thesis
    proof cases
      case 1
      then have "nw_purged y \<and> no_body (nw_notice y) = ''''"
        using s n(2) calm_purged_post [OF c] by (simp add: scrubbed_ok_def notice_core_def)
      then show ?thesis using 1(2) by (simp add: notice_core_def split: if_splits)
    next
      case 2
      then have "shown (no_post_id (nw_notice n)) d" using ns(2) by (simp add: notice_core_def)
      moreover have "purged_post (no_post_id (nw_notice n)) d" using n(2) calm_purged_post [OF c] by simp
      ultimately have False
        using ids unfolding shown_def purged_post_def ids_ok_def by (metis distinct_key_eq)
      then show ?thesis ..
    qed
  qed
  show ?thesis using post notice by (simp add: scrubbed_ok_def)
qed

lemma calm_threads_ok:
  assumes c: "calm d d'" and t: "threads_ok d"
  shows "threads_ok d'"
proof -
  have eq: "map post_core (bt_posts d') = map post_core (bt_posts d)"
    and teq: "map thread_core (bt_threads d') = map thread_core (bt_threads d)"
    using c by (simp_all add: calm_def)
  have "blank_thread (tw_thread x) \<and> (\<forall>r\<in>set (bt_posts d'). po_thread_id (pw_post r) = thread_id x
      \<longrightarrow> po_state (pw_post r) = PostPurged)"
    if x: "x \<in> set (bt_threads d')" "tw_purged x" for x
  proof -
    obtain y where y: "y \<in> set (bt_threads d)" "thread_core y = thread_core x" using map_eq_mem [OF teq x(1)] by blast
    then have "tw_purged y" "tw_thread y = tw_thread x" using x(2) by (auto simp: thread_core_def split: if_splits)
    moreover have "po_state (pw_post r) = PostPurged"
      if "r \<in> set (bt_posts d')" "po_thread_id (pw_post r) = thread_id x" for r
      using map_eq_mem [OF eq that(1)] post_core_fields t y(1) calculation that(2) unfolding threads_ok_def by metis
    ultimately show ?thesis using t y(1) by (auto simp: threads_ok_def)
  qed
  then show ?thesis by (simp add: threads_ok_def)
qed

lemma calm_receipts_ok:
  assumes c: "calm d d'" and r: "receipts_ok d"
  shows "receipts_ok d'"
proof -
  have "bt_operations d' = bt_operations d" using c by (simp add: calm_def)
  then show ?thesis
    using receipts_ok_cong [OF calm_ThreadPurged [OF c] calm_purged_post [OF c]] r by blast
qed

lemma calm_inv: "calm d d' \<Longrightarrow> board_inv d \<Longrightarrow> board_inv d'"
  by (simp add: board_inv_def calm_ids_ok calm_history_ok calm_scrubbed_ok calm_threads_ok calm_receipts_ok)

section \<open>Units\<close>

definition open_row :: "thread \<Rightarrow> bdb \<Rightarrow> bdb" where
  "open_row t d = d\<lparr>bt_threads := bt_threads d @ [stored_thread t]\<rparr>"

definition post_rows :: "post \<Rightarrow> revision \<Rightarrow> bdb \<Rightarrow> bdb" where
  "post_rows p v d = d\<lparr>bt_posts := bt_posts d @ [stored_post p], bt_revisions := bt_revisions d @ [v]\<rparr>"

definition revise_rows :: "string \<Rightarrow> revision \<Rightarrow> time option \<Rightarrow> bdb \<Rightarrow> bdb" where
  "revise_rows i v e d =
     set_post i (\<lambda>p. p\<lparr>po_state := PostVisible, po_revision := rv_revision v, po_note := '''', po_edited_at := e\<rparr>)
       (d\<lparr>bt_revisions := bt_revisions d @ [v]\<rparr>)"

definition withdraw_row :: "string \<Rightarrow> post_state \<Rightarrow> int \<Rightarrow> string \<Rightarrow> time option \<Rightarrow> bdb \<Rightarrow> bdb" where
  "withdraw_row i s n note e d =
     set_post i (\<lambda>p. p\<lparr>po_state := s, po_revision := n, po_note := note, po_edited_at := e\<rparr>) d"

definition receipt_row :: "operation_row \<Rightarrow> bdb \<Rightarrow> bdb" where
  "receipt_row w d = d\<lparr>bt_operations := bt_operations d @ [w]\<rparr>"

inductive unit_step :: "bdb \<Rightarrow> bdb \<Rightarrow> bool" where
  calmly: "calm d d' \<Longrightarrow> unit_step d d'"
| opened: "\<not> has_thread (th_id t) d \<Longrightarrow> plain_id (th_id t) \<Longrightarrow> unit_step d (open_row t d)"
| posted: "\<not> has_post (po_id p) d \<Longrightarrow> plain_id (po_id p) \<Longrightarrow> \<not> ThreadPurged (po_thread_id p) d
    \<Longrightarrow> po_state p = PostVisible \<Longrightarrow> po_revision p = 1 \<Longrightarrow> rv_post_id v = po_id p \<Longrightarrow> rv_revision v = 1
    \<Longrightarrow> unit_step d (post_rows p v d)"
| revised: "r \<in> set (bt_posts d) \<Longrightarrow> po_state (pw_post r) = PostVisible \<Longrightarrow> rv_post_id v = post_id r
    \<Longrightarrow> rv_revision v = po_revision (pw_post r) + 1 \<Longrightarrow> unit_step d (revise_rows (post_id r) v e d)"
| withdrawn: "r \<in> set (bt_posts d) \<Longrightarrow> po_state (pw_post r) = PostVisible \<Longrightarrow> s \<in> {PostRetracted, PostHidden}
    \<Longrightarrow> unit_step d (withdraw_row (post_id r) s (po_revision (pw_post r)) note e d)"
| purged: "unit_step d (scrubPost i d)"
| purged_whole: "unit_step d (scrubThread t d)"
| receipted: "ow_result w = Some x \<Longrightarrow> \<not> ow_purged w \<Longrightarrow> result_ok d x \<Longrightarrow> unit_step d (receipt_row w d)"

abbreviation units :: "bdb \<Rightarrow> bdb \<Rightarrow> bool" where
  "units \<equiv> unit_step\<^sup>*\<^sup>*"

section \<open>Units keep the invariant\<close>

lemma opened_inv:
  assumes "board_inv d" and "\<not> has_thread (th_id t) d" and "plain_id (th_id t)"
  shows "board_inv (open_row t d)"
proof -
  let ?d = "open_row t d"
  have purged: "ThreadPurged i ?d = ThreadPurged i d" "purged_post i ?d = purged_post i d" for i
    by (simp_all add: open_row_def ThreadPurged_def purged_post_def stored_thread_def)
  have "ids_ok ?d"
    using assms by (auto simp: board_inv_def ids_ok_def open_row_def has_thread_def list_ex_iff stored_thread_def)
  moreover have "history_ok ?d" "scrubbed_ok ?d"
    using assms(1) by (simp_all add: board_inv_def history_ok_def scrubbed_ok_def open_row_def revisions_of_def purged_post_def)
  moreover have "threads_ok ?d"
    using assms(1) by (auto simp: board_inv_def threads_ok_def open_row_def stored_thread_def)
  moreover have "receipts_ok ?d"
    using receipts_ok_cong [of ?d d, OF purged] assms(1) by (simp add: board_inv_def open_row_def)
  ultimately show ?thesis by (simp add: board_inv_def)
qed

lemma posted_inv:
  assumes inv: "board_inv d" and fresh: "\<not> has_post (po_id p) d" and "plain_id (po_id p)"
    and live: "\<not> ThreadPurged (po_thread_id p) d" and new: "po_state p = PostVisible" "po_revision p = 1"
    and v: "rv_post_id v = po_id p" "rv_revision v = 1"
  shows "board_inv (post_rows p v d)"
proof -
  let ?d = "post_rows p v d"
  have no_post: "\<not> (\<exists>r\<in>set (bt_posts d). post_id r = po_id p)"
    using fresh by (auto simp: has_post_def list_ex_iff)
  have no_rev: "revisions_of (po_id p) d = []"
    using inv no_post by (auto simp: board_inv_def history_ok_def revisions_of_def filter_empty_conv)
  have revs: "revisions_of i ?d = revisions_of i d @ (if i = po_id p then [v] else [])" for i
    using v by (simp add: revisions_of_def post_rows_def)
  have purged: "ThreadPurged i ?d = ThreadPurged i d" "purged_post i ?d = purged_post i d" for i
    using new by (simp_all add: post_rows_def ThreadPurged_def purged_post_def stored_post_def)
  have row: "post_id (stored_post p) = po_id p" "po_state (pw_post (stored_post p)) = PostVisible"
    "po_revision (pw_post (stored_post p)) = 1" "po_thread_id (pw_post (stored_post p)) = po_thread_id p"
    using new by (simp_all add: stored_post_def)
  have "ids_ok ?d"
    using inv no_post assms(3) by (auto simp: board_inv_def ids_ok_def post_rows_def row)
  moreover have "history_ok ?d"
    unfolding history_ok_def
  proof (intro conjI ballI)
    fix u assume "u \<in> set (bt_revisions ?d)"
    then show "\<exists>r\<in>set (bt_posts ?d). post_id r = rv_post_id u"
      using inv v row by (auto simp: board_inv_def history_ok_def post_rows_def)
  next
    fix r assume r: "r \<in> set (bt_posts ?d)"
    have "(1 \<le> po_revision (pw_post r)) \<and> map rv_revision (revisions_of (post_id r) ?d) = [1..po_revision (pw_post r)]"
    proof (cases "r \<in> set (bt_posts d)")
      case True
      then have "post_id r \<noteq> po_id p" using no_post by blast
      then show ?thesis using inv True by (simp add: board_inv_def history_ok_def revs)
    next
      case False
      then have "r = stored_post p" using r by (auto simp: post_rows_def)
      then show ?thesis using no_rev v by (simp add: revs row)
    qed
    then show "1 \<le> po_revision (pw_post r)"
      and "map rv_revision (revisions_of (post_id r) ?d) = [1..po_revision (pw_post r)]" by simp_all
  qed
  moreover have "scrubbed_ok ?d"
    unfolding scrubbed_ok_def purged(2)
  proof (intro conjI ballI impI)
    fix r assume r: "r \<in> set (bt_posts ?d)" "po_state (pw_post r) = PostPurged"
    then have old: "r \<in> set (bt_posts d)" using row(2) by (auto simp: post_rows_def)
    then have "post_id r \<noteq> po_id p" using no_post by blast
    then show "po_author (pw_post r) = no_author" "po_note (pw_post r) = ''''"
      "list_all blank_revision (revisions_of (post_id r) ?d)"
      using inv old r(2) by (simp_all add: board_inv_def scrubbed_ok_def revs)
  next
    fix n assume "n \<in> set (bt_notices ?d)" "purged_post (no_post_id (nw_notice n)) d"
    then show "nw_purged n" "no_body (nw_notice n) = ''''"
      using inv by (simp_all add: board_inv_def scrubbed_ok_def post_rows_def)
  qed
  moreover have "threads_ok ?d"
    using inv live by (auto simp: board_inv_def threads_ok_def post_rows_def row ThreadPurged_def list_ex_iff)
  moreover have "receipts_ok ?d"
    using receipts_ok_cong [of ?d d, OF purged] inv by (simp add: board_inv_def post_rows_def)
  ultimately show ?thesis by (simp add: board_inv_def)
qed

text \<open>A visible post is changed in place, with the revisions that lead to its new one.\<close>

lemma set_post_posts:
  "bt_posts (set_post i f d) = upd (\<lambda>r. post_id r = i) (\<lambda>r. r\<lparr>pw_post := f (pw_post r)\<rparr>) (bt_posts d)"
  "bt_threads (set_post i f d) = bt_threads d" "bt_revisions (set_post i f d) = bt_revisions d"
  "bt_operations (set_post i f d) = bt_operations d" "bt_notices (set_post i f d) = bt_notices d"
  by (simp_all add: set_post_def)

lemma touched_inv:
  assumes inv: "board_inv d" and r: "r \<in> set (bt_posts d)" "po_state (pw_post r) = PostVisible"
    and keeps: "\<And>p. po_id (f p) = po_id p" "\<And>p. po_thread_id (f p) = po_thread_id p"
    and stays: "\<And>p. po_state (f p) \<noteq> PostPurged"
    and vs: "list_all (\<lambda>v. rv_post_id v = post_id r) vs" "po_revision (pw_post r) \<le> po_revision (f (pw_post r))"
      "map rv_revision vs = [po_revision (pw_post r) + 1..po_revision (f (pw_post r))]"
  shows "board_inv (set_post (post_id r) f (d\<lparr>bt_revisions := bt_revisions d @ vs\<rparr>))"
proof -
  let ?d = "set_post (post_id r) f (d\<lparr>bt_revisions := bt_revisions d @ vs\<rparr>)"
  note tables = set_post_posts
  have unique: "r' = r" if "r' \<in> set (bt_posts d)" "post_id r' = post_id r" for r'
    using inv r(1) that distinct_key_eq [of post_id] by (auto simp: board_inv_def ids_ok_def)
  have ids: "map post_id (bt_posts ?d) = map post_id (bt_posts d)"
    unfolding tables by (simp add: map_upd_same keeps)
  have old: "\<exists>y\<in>set (bt_posts d). r' = (if post_id y = post_id r then y\<lparr>pw_post := f (pw_post y)\<rparr> else y)"
    if "r' \<in> set (bt_posts ?d)" for r'
    using that unfolding tables set_upd by auto
  have revs: "revisions_of i ?d = revisions_of i d @ (if i = post_id r then vs else [])" for i
    using vs(1) by (auto simp: revisions_of_def tables list_all_iff filter_id_conv filter_empty_conv)
  have purged: "ThreadPurged i ?d = ThreadPurged i d" "purged_post i ?d = purged_post i d" for i
  proof -
    show "ThreadPurged i ?d = ThreadPurged i d" by (simp add: ThreadPurged_def tables)
    show "purged_post i ?d = purged_post i d"
    proof
      assume "purged_post i d"
      then obtain y where y: "y \<in> set (bt_posts d)" "post_id y = i" "po_state (pw_post y) = PostPurged"
        by (auto simp: purged_post_def)
      then have "post_id y \<noteq> post_id r" using unique r(2) by force
      then have "y \<in> set (bt_posts ?d)" using y(1) unfolding tables set_upd by force
      then show "purged_post i ?d" using y by (auto simp: purged_post_def)
    next
      assume "purged_post i ?d"
      then show "purged_post i d"
        unfolding purged_post_def tables set_upd using stays by (auto split: if_splits)
    qed
  qed
  have same: "bt_threads ?d = bt_threads d" "bt_notices ?d = bt_notices d" "bt_operations ?d = bt_operations d"
    by (simp_all add: tables)
  have "ids_ok ?d" using inv unfolding board_inv_def ids_ok_def ids same by simp
  moreover have "history_ok ?d" unfolding history_ok_def
  proof (intro conjI ballI)
    fix u assume "u \<in> set (bt_revisions ?d)"
    then have "rv_post_id u \<in> set (map post_id (bt_posts d))"
      using inv vs(1) r(1) by (auto simp: board_inv_def history_ok_def tables list_all_iff image_iff) (metis)
    then show "\<exists>y\<in>set (bt_posts ?d). post_id y = rv_post_id u" unfolding ids [symmetric] by auto
  next
    fix r' assume "r' \<in> set (bt_posts ?d)"
    then obtain y where y: "y \<in> set (bt_posts d)" "r' = (if post_id y = post_id r then y\<lparr>pw_post := f (pw_post y)\<rparr> else y)"
      using old by blast
    have h: "1 \<le> po_revision (pw_post y) \<and> map rv_revision (revisions_of (post_id y) d) = [1..po_revision (pw_post y)]"
      using inv y(1) by (simp add: board_inv_def history_ok_def)
    have "1 \<le> po_revision (pw_post r') \<and> map rv_revision (revisions_of (post_id r') ?d) = [1..po_revision (pw_post r')]"
    proof (cases "post_id y = post_id r")
      case True
      then have "y = r" using unique y(1) by blast
      then show ?thesis using y(2) h vs keeps upto_split2 [of 1 "po_revision (pw_post r)" "po_revision (f (pw_post r))"]
        by (simp add: revs)
    next
      case False
      then show ?thesis using y(2) h by (simp add: revs)
    qed
    then show "1 \<le> po_revision (pw_post r')"
      "map rv_revision (revisions_of (post_id r') ?d) = [1..po_revision (pw_post r')]" by simp_all
  qed
  moreover have "scrubbed_ok ?d" unfolding scrubbed_ok_def purged(2) same
  proof (intro conjI ballI impI)
    fix r' assume r': "r' \<in> set (bt_posts ?d)" "po_state (pw_post r') = PostPurged"
    then have "r' \<in> set (bt_posts d) \<and> post_id r' \<noteq> post_id r" using old stays by (fastforce split: if_splits)
    then show "po_author (pw_post r') = no_author" "po_note (pw_post r') = ''''"
      "list_all blank_revision (revisions_of (post_id r') ?d)"
      using inv r'(2) by (simp_all add: board_inv_def scrubbed_ok_def revs)
  next
    fix n assume "n \<in> set (bt_notices d)" "purged_post (no_post_id (nw_notice n)) d"
    then show "nw_purged n" "no_body (nw_notice n) = ''''"
      using inv by (simp_all add: board_inv_def scrubbed_ok_def)
  qed
  moreover have "threads_ok ?d" unfolding threads_ok_def same
  proof (intro ballI impI conjI)
    fix t assume t: "t \<in> set (bt_threads d)" "tw_purged t"
    then have gone: "po_thread_id (pw_post y) = thread_id t \<Longrightarrow> po_state (pw_post y) = PostPurged" if "y \<in> set (bt_posts d)" for y
      using inv that by (simp add: board_inv_def threads_ok_def)
    show "blank_thread (tw_thread t)" using inv t by (simp add: board_inv_def threads_ok_def)
    fix r' assume r': "r' \<in> set (bt_posts ?d)" "po_thread_id (pw_post r') = thread_id t"
    then obtain y where y: "y \<in> set (bt_posts d)" "r' = (if post_id y = post_id r then y\<lparr>pw_post := f (pw_post y)\<rparr> else y)"
      using old by blast
    then have "po_state (pw_post y) = PostPurged" using gone r'(2) keeps by (auto split: if_splits)
    moreover have "y \<noteq> r" using calculation r(2) by force
    ultimately show "po_state (pw_post r') = PostPurged" using y unique by (auto split: if_splits)
  qed
  moreover have "receipts_ok ?d" using receipts_ok_cong [of ?d d, OF purged same(3)] inv by (simp add: board_inv_def)
  ultimately show ?thesis by (simp add: board_inv_def)
qed

lemma revised_inv:
  assumes "board_inv d" and "r \<in> set (bt_posts d)" and "po_state (pw_post r) = PostVisible"
    and "rv_post_id v = post_id r" and "rv_revision v = po_revision (pw_post r) + 1"
  shows "board_inv (revise_rows (post_id r) v e d)"
  unfolding revise_rows_def by (rule touched_inv) (use assms in simp_all)

lemma withdrawn_inv:
  assumes "board_inv d" and "r \<in> set (bt_posts d)" and "po_state (pw_post r) = PostVisible"
    and "s \<in> {PostRetracted, PostHidden}"
  shows "board_inv (withdraw_row (post_id r) s (po_revision (pw_post r)) note e d)"
proof -
  have "board_inv (set_post (post_id r) (\<lambda>p. p\<lparr>po_state := s, po_revision := po_revision (pw_post r),
          po_note := note, po_edited_at := e\<rparr>) (d\<lparr>bt_revisions := bt_revisions d @ []\<rparr>))"
    by (rule touched_inv) (use assms in auto)
  then show ?thesis by (simp add: withdraw_row_def)
qed

lemma receipted_inv:
  "board_inv d \<Longrightarrow> ow_result w = Some x \<Longrightarrow> \<not> ow_purged w \<Longrightarrow> result_ok d x \<Longrightarrow> board_inv (receipt_row w d)"
proof -
  assume a: "board_inv d" "ow_result w = Some x" "\<not> ow_purged w" "result_ok d x"
  let ?d = "receipt_row w d"
  have purged: "ThreadPurged i ?d = ThreadPurged i d" "purged_post i ?d = purged_post i d" for i
    by (simp_all add: receipt_row_def ThreadPurged_def purged_post_def)
  have "bt_operations ?d = bt_operations d @ [w]" by (simp add: receipt_row_def)
  then have "receipts_ok ?d"
    using a unfolding receipts_ok_def board_inv_def
    by (simp add: result_ok_cong [OF purged] cong: option.case_cong)
  moreover have "ids_ok ?d" "history_ok ?d" "scrubbed_ok ?d" "threads_ok ?d"
    using a(1) by (simp_all add: board_inv_def ids_ok_def history_ok_def scrubbed_ok_def threads_ok_def
        receipt_row_def revisions_of_def purged_post_def)
  ultimately show ?thesis by (simp add: board_inv_def)
qed

section \<open>Purges keep it\<close>

lemma scrubReceipts_row:
  "w \<in> set (fold scrubReceipt ids ops) \<Longrightarrow>
     ow_result w = None \<and> ow_purged w \<or> w \<in> set ops \<and> (\<forall>i\<in>set ids. \<not> carries i (ow_result w))"
proof (induction ids arbitrary: ops)
  case (Cons i ids)
  then consider "ow_result w = None \<and> ow_purged w"
    | "w \<in> set (scrubReceipt i ops)" "\<forall>j\<in>set ids. \<not> carries j (ow_result w)" by force
  then show ?case
  proof cases
    case 2
    then obtain w0 where "w0 \<in> set ops"
      "w = (if carries i (ow_result w0) then w0\<lparr>ow_result := None, ow_purged := True\<rparr> else w0)"
      by (auto simp: scrubReceipt_def set_upd)
    then show ?thesis using 2(2) by (cases "carries i (ow_result w0)") auto
  qed simp
qed simp

lemma scrubbed_fields [simp]:
  "post_id (scrub_post r) = post_id r" "po_state (pw_post (scrub_post r)) = PostPurged"
  "po_author (pw_post (scrub_post r)) = no_author" "po_note (pw_post (scrub_post r)) = ''''"
  "po_revision (pw_post (scrub_post r)) = po_revision (pw_post r)"
  "po_thread_id (pw_post (scrub_post r)) = po_thread_id (pw_post r)"
  "no_post_id (nw_notice (scrub_notice n)) = no_post_id (nw_notice n)" "nw_purged (scrub_notice n)"
  "no_body (nw_notice (scrub_notice n)) = ''''"
  by (simp_all add: scrub_post_def scrub_notice_def Let_def)

text \<open>
  What both purges have in common: the posts \<open>P\<close> names are scrubbed with their text and notices, and
  the receipts that name one of \<open>ids\<close>.
\<close>

definition wipes :: "(string \<Rightarrow> bool) \<Rightarrow> string list \<Rightarrow> bdb \<Rightarrow> bdb \<Rightarrow> bool" where
  "wipes P ids d d' =
     (bt_posts d' = upd (\<lambda>r. P (post_id r)) scrub_post (bt_posts d)
      \<and> bt_revisions d' = upd (\<lambda>r. P (rv_post_id r)) (\<lambda>r. r\<lparr>rv_body := '''', rv_mentions := []\<rparr>) (bt_revisions d)
      \<and> bt_notices d' = upd (\<lambda>r. P (no_post_id (nw_notice r))) scrub_notice (bt_notices d)
      \<and> bt_operations d' = fold scrubReceipt ids (bt_operations d)
      \<and> (\<forall>i. P i \<longrightarrow> i \<in> set ids)
      \<and> map thread_id (bt_threads d') = map thread_id (bt_threads d)
      \<and> (\<forall>x\<in>set (bt_threads d'). tw_purged x \<longrightarrow>
           x \<in> set (bt_threads d)
           \<or> blank_thread (tw_thread x) \<and> thread_id x \<in> set ids
             \<and> (\<forall>r\<in>set (bt_posts d). po_thread_id (pw_post r) = thread_id x \<longrightarrow> P (post_id r))))"

lemma wipes_tables:
  assumes "wipes P ids d d'"
  shows "bt_posts d' = upd (\<lambda>r. P (post_id r)) scrub_post (bt_posts d)"
    and "bt_revisions d' = upd (\<lambda>r. P (rv_post_id r)) (\<lambda>r. r\<lparr>rv_body := '''', rv_mentions := []\<rparr>) (bt_revisions d)"
    and "bt_notices d' = upd (\<lambda>r. P (no_post_id (nw_notice r))) scrub_notice (bt_notices d)"
    and "bt_operations d' = fold scrubReceipt ids (bt_operations d)"
    and "map thread_id (bt_threads d') = map thread_id (bt_threads d)"
    and "P i \<Longrightarrow> i \<in> set ids"
  using assms unfolding wipes_def by blast+

lemma wipes_row:
  assumes "wipes P ids d d'" and "r' \<in> set (bt_posts d')"
  obtains r where "r \<in> set (bt_posts d)" and "r' = (if P (post_id r) then scrub_post r else r)"
  using assms(2) unfolding wipes_tables(1) [OF assms(1)] set_upd by blast

lemma wipes_revisions:
  assumes "wipes P ids d d'"
  shows "revisions_of i d' = (if P i then map (\<lambda>r. r\<lparr>rv_body := '''', rv_mentions := []\<rparr>) (revisions_of i d)
                              else revisions_of i d)"
proof -
  have "filter (\<lambda>v. rv_post_id v = i) (upd (\<lambda>r. P (rv_post_id r)) (\<lambda>r. r\<lparr>rv_body := '''', rv_mentions := []\<rparr>) vs)
      = (if P i then map (\<lambda>r. r\<lparr>rv_body := '''', rv_mentions := []\<rparr>) (filter (\<lambda>v. rv_post_id v = i) vs)
         else filter (\<lambda>v. rv_post_id v = i) vs)" for vs
    by (induction vs) auto
  then show ?thesis unfolding revisions_of_def wipes_tables(2) [OF assms] .
qed

lemma wipes_purged_post:
  assumes "wipes P ids d d'"
  shows "purged_post i d' \<longleftrightarrow> purged_post i d \<or> P i \<and> has_post i d"
proof
  assume "purged_post i d'"
  then obtain r' where r': "r' \<in> set (bt_posts d')" "post_id r' = i" "po_state (pw_post r') = PostPurged"
    by (auto simp: purged_post_def)
  then obtain r where "r \<in> set (bt_posts d)" "r' = (if P (post_id r) then scrub_post r else r)"
    using wipes_row [OF assms] by blast
  then show "purged_post i d \<or> P i \<and> has_post i d"
    using r' by (auto simp: purged_post_def has_post_def list_ex_iff split: if_splits)
next
  assume "purged_post i d \<or> P i \<and> has_post i d"
  then obtain r where r: "r \<in> set (bt_posts d)" "post_id r = i" "po_state (pw_post r) = PostPurged \<or> P i"
    by (auto simp: purged_post_def has_post_def list_ex_iff)
  let ?r = "if P (post_id r) then scrub_post r else r"
  have "?r \<in> set (bt_posts d')" using r(1) unfolding wipes_tables(1) [OF assms] set_upd by blast
  moreover have "post_id ?r = i \<and> po_state (pw_post ?r) = PostPurged" using r by auto
  ultimately show "purged_post i d'" unfolding purged_post_def by blast
qed

lemma wipes_ThreadPurged:
  assumes "wipes P ids d d'" and "ThreadPurged i d'"
  shows "ThreadPurged i d \<or> i \<in> set ids \<and> has_thread i d"
proof -
  obtain x where x: "x \<in> set (bt_threads d')" "thread_id x = i" "tw_purged x"
    using assms(2) by (auto simp: ThreadPurged_def list_ex_iff)
  have "set (map thread_id (bt_threads d')) = set (map thread_id (bt_threads d))"
    using wipes_tables(5) [OF assms(1)] by simp
  moreover have "i \<in> set (map thread_id (bt_threads d'))" using x by auto
  ultimately have "has_thread i d" by (auto simp: has_thread_def list_ex_iff)
  moreover have "x \<in> set (bt_threads d) \<or> thread_id x \<in> set ids" using assms(1) x unfolding wipes_def by blast
  ultimately show ?thesis using x by (auto simp: ThreadPurged_def list_ex_iff)
qed


lemma wipes_ids_ok:
  assumes w: "wipes P ids d d'" and "ids_ok d"
  shows "ids_ok d'"
proof -
  have "map post_id (bt_posts d') = map post_id (bt_posts d)"
    unfolding wipes_tables(1) [OF w] by (simp add: map_upd_same)
  then show ?thesis using assms(2) unfolding ids_ok_def wipes_tables(5) [OF w] by simp
qed

lemma wipes_history_ok:
  assumes w: "wipes P ids d d'" and h: "history_ok d"
  shows "history_ok d'"
  unfolding history_ok_def
proof (intro conjI ballI)
  have ids: "map post_id (bt_posts d') = map post_id (bt_posts d)"
    unfolding wipes_tables(1) [OF w] by (simp add: map_upd_same)
  have "map rv_post_id (bt_revisions d') = map rv_post_id (bt_revisions d)"
    unfolding wipes_tables(2) [OF w] by (simp add: map_upd_same)
  fix v assume "v \<in> set (bt_revisions d')"
  then have "rv_post_id v \<in> set (map rv_post_id (bt_revisions d'))" by simp
  then have "rv_post_id v \<in> set (map post_id (bt_posts d))"
    unfolding \<open>map rv_post_id (bt_revisions d') = _\<close> using h by (auto simp: history_ok_def) (metis image_eqI)
  then show "\<exists>r\<in>set (bt_posts d'). post_id r = rv_post_id v" unfolding ids [symmetric] by auto
next
  fix r' assume "r' \<in> set (bt_posts d')"
  then obtain r where r: "r \<in> set (bt_posts d)" "r' = (if P (post_id r) then scrub_post r else r)"
    using wipes_row [OF w] by blast
  then have "1 \<le> po_revision (pw_post r)" "map rv_revision (revisions_of (post_id r) d) = [1..po_revision (pw_post r)]"
    using h by (simp_all add: history_ok_def)
  moreover have "post_id r' = post_id r" "po_revision (pw_post r') = po_revision (pw_post r)" using r(2) by simp_all
  moreover have "map rv_revision (revisions_of i d') = map rv_revision (revisions_of i d)" for i
    unfolding wipes_revisions [OF w] by simp
  ultimately show "1 \<le> po_revision (pw_post r')"
    "map rv_revision (revisions_of (post_id r') d') = [1..po_revision (pw_post r')]" by simp_all
qed

lemma wipes_scrubbed_ok:
  assumes w: "wipes P ids d d'" and s: "scrubbed_ok d"
  shows "scrubbed_ok d'"
  unfolding scrubbed_ok_def
proof (intro conjI ballI impI)
  fix r' assume r': "r' \<in> set (bt_posts d')" "po_state (pw_post r') = PostPurged"
  then obtain r where r: "r \<in> set (bt_posts d)" "r' = (if P (post_id r) then scrub_post r else r)"
    using wipes_row [OF w] by blast
  show "po_author (pw_post r') = no_author" "po_note (pw_post r') = ''''"
    using r r'(2) s by (auto simp: scrubbed_ok_def split: if_splits)
  have "post_id r' = post_id r" using r(2) by simp
  then show "list_all blank_revision (revisions_of (post_id r') d')"
    using r r'(2) s unfolding wipes_revisions [OF w]
    by (auto simp: scrubbed_ok_def list_all_iff blank_revision_def split: if_splits)
next
  fix n' assume n': "n' \<in> set (bt_notices d')" "purged_post (no_post_id (nw_notice n')) d'"
  then obtain n where n: "n \<in> set (bt_notices d)" "n' = (if P (no_post_id (nw_notice n)) then scrub_notice n else n)"
    unfolding wipes_tables(3) [OF w] set_upd by blast
  show "nw_purged n'" "no_body (nw_notice n') = ''''"
    using n n'(2) s unfolding wipes_purged_post [OF w] by (auto simp: scrubbed_ok_def split: if_splits)
qed

lemma wipes_threads_ok:
  assumes w: "wipes P ids d d'" and t: "threads_ok d"
  shows "threads_ok d'"
  unfolding threads_ok_def
proof (intro ballI impI)
  fix x assume x: "x \<in> set (bt_threads d')" "tw_purged x"
  then consider "x \<in> set (bt_threads d)"
    | "blank_thread (tw_thread x)" "\<forall>r\<in>set (bt_posts d). po_thread_id (pw_post r) = thread_id x \<longrightarrow> P (post_id r)"
    using w unfolding wipes_def by blast
  then have "blank_thread (tw_thread x)
      \<and> (\<forall>r\<in>set (bt_posts d). po_thread_id (pw_post r) = thread_id x \<longrightarrow> P (post_id r) \<or> po_state (pw_post r) = PostPurged)"
    using t x(2) by cases (auto simp: threads_ok_def)
  moreover have "\<exists>r\<in>set (bt_posts d). r' = (if P (post_id r) then scrub_post r else r)" if "r' \<in> set (bt_posts d')" for r'
    using wipes_row [OF w that] by blast
  ultimately show "blank_thread (tw_thread x)
      \<and> (\<forall>r\<in>set (bt_posts d'). po_thread_id (pw_post r) = thread_id x \<longrightarrow> po_state (pw_post r) = PostPurged)"
    by fastforce
qed

lemma wipes_receipts_ok:
  assumes w: "wipes P ids d d'" and r: "receipts_ok d" and ids: "ids_ok d"
  shows "receipts_ok d'"
  unfolding receipts_ok_def
proof
  have plain: "has_post i d \<Longrightarrow> plain_id i" "has_thread i d \<Longrightarrow> plain_id i" for i
    using ids by (auto simp: ids_ok_def has_post_def has_thread_def list_ex_iff list_all_iff)
  fix x assume "x \<in> set (bt_operations d')"
  then consider "ow_result x = None" "ow_purged x"
    | "x \<in> set (bt_operations d)" "\<forall>i\<in>set ids. \<not> carries i (ow_result x)"
    using scrubReceipts_row [of x ids "bt_operations d"] unfolding wipes_tables(4) [OF w] by metis
  then show "case ow_result x of None \<Rightarrow> ow_purged x | Some r \<Rightarrow> \<not> ow_purged x \<and> result_ok d' r"
  proof cases
    case 2
    have ok: "case ow_result x of None \<Rightarrow> ow_purged x | Some r \<Rightarrow> \<not> ow_purged x \<and> result_ok d r"
      using r 2(1) by (simp add: receipts_ok_def)
    have thread: "\<not> ThreadPurged i d'" if "\<not> ThreadPurged i d" "plain_id i \<Longrightarrow> carries i (ow_result x)" for i
      using wipes_ThreadPurged [OF w] that 2(2) plain(2) by blast
    have post: "purged_post i d" if "purged_post i d'" "plain_id i \<Longrightarrow> carries i (ow_result x)" for i
      using wipes_purged_post [OF w] that 2(2) plain(1) wipes_tables(6) [OF w] by blast
    have "result_ok d' y" if y: "ow_result x = Some y" "result_ok d y" for y
    proof (cases y)
      case (RThread t)
      then show ?thesis using thread [of "th_id t"] carries_thread y by simp
    next
      case (RPost p)
      have "purged_post (po_id (pr_post p)) d' \<Longrightarrow> silent (pr_post p)"
        using post carries_post y RPost by simp
      moreover have "\<not> ThreadPurged (th_id t) d'" if "pr_thread p = Some t" for t
        using thread [of "th_id t"] carries_post_thread that y RPost by simp
      ultimately show ?thesis using RPost by (simp split: option.split)
    qed simp
    then show ?thesis using ok by (cases "ow_result x") simp_all
  qed simp
qed

lemma wipes_inv: "wipes P ids d d' \<Longrightarrow> board_inv d \<Longrightarrow> board_inv d'"
  unfolding board_inv_def
  using wipes_ids_ok wipes_history_ok wipes_scrubbed_ok wipes_threads_ok wipes_receipts_ok by blast

lemma scrubPost_wipes: "wipes (\<lambda>p. p = i) [i] d (scrubPost i d)"
  unfolding wipes_def by (auto simp: scrubPost_def scrubOutbox_def scrub_def scrubReceipts_def)

lemma scrubThread_wipes:
  assumes "distinct (map post_id (bt_posts d))"
  shows "wipes (\<lambda>p. p \<in> set (thread_posts t d)) (thread_posts t d @ [t]) d (scrubThread t d)"
proof -
  have "po_thread_id (pw_post r) = t \<longleftrightarrow> post_id r \<in> set (thread_posts t d)" if "r \<in> set (bt_posts d)" for r
    using assms that distinct_key_eq [of post_id "bt_posts d"]
    by (auto simp: thread_posts_def sel_def)
  then have posts: "upd (\<lambda>r. po_thread_id (pw_post r) = t) scrub_post (bt_posts d)
      = upd (\<lambda>r. post_id r \<in> set (thread_posts t d)) scrub_post (bt_posts d)"
    by (simp add: upd_def)
  have tables: "bt_posts (scrubThread t d) = upd (\<lambda>r. po_thread_id (pw_post r) = t) scrub_post (bt_posts d)"
    "bt_threads (scrubThread t d) = upd (\<lambda>r. thread_id r = t) scrub_thread_row (bt_threads d)"
    by (simp_all add: scrubThread_def Let_def scrubOutbox_def scrub_def scrubReceipts_def)
  have row: "thread_id (scrub_thread_row x) = thread_id x" "blank_thread (tw_thread (scrub_thread_row x))" for x
    by (simp_all add: scrub_thread_row_def blank_thread_def)
  have thread: "x \<in> set (bt_threads d)
      \<or> blank_thread (tw_thread x) \<and> thread_id x \<in> set (thread_posts t d @ [t])
        \<and> (\<forall>r\<in>set (bt_posts d). po_thread_id (pw_post r) = thread_id x \<longrightarrow> post_id r \<in> set (thread_posts t d))"
    if "x \<in> set (bt_threads (scrubThread t d))" for x
    using that unfolding tables set_upd by (auto simp: row thread_posts_def sel_def)
  show ?thesis
    unfolding wipes_def
    by (intro conjI ballI impI thread)
      (simp_all add: tables posts row map_upd_same, simp_all add: scrubThread_def Let_def scrubOutbox_def scrub_def scrubReceipts_def)
qed

section \<open>Every unit\<close>

lemma unit_step_inv: "unit_step d d' \<Longrightarrow> board_inv d \<Longrightarrow> board_inv d'"
proof (induction rule: unit_step.induct)
  case (purged d i)
  then show ?case using wipes_inv scrubPost_wipes by blast
next
  case (purged_whole d t)
  then show ?case using wipes_inv scrubThread_wipes unfolding board_inv_def ids_ok_def by blast
qed (simp_all add: calm_inv opened_inv posted_inv revised_inv withdrawn_inv receipted_inv)

lemma units_inv: "units d d' \<Longrightarrow> board_inv d \<Longrightarrow> board_inv d'"
  by (induction rule: rtranclp_induct) (simp_all add: unit_step_inv)

end
