(* ===== verification/Board_Paging.thy ===== *)
theory Board_Paging
  imports Board_Curation
begin

text \<open>
  Listings that continue after the last item of the page before. The contract of such a listing is the
  locale \<open>paged\<close>; the posts of a thread (\<^verbatim>\<open>ListPosts\<close>) and the posts of one kind
  (\<^verbatim>\<open>KindPosts\<close>) meet it, so that reading a thread page by page misses nothing and
  repeats nothing, and the loop of \<^verbatim>\<open>OpenAcks\<close> ends with the newest open decisions.
\<close>

section \<open>The contract\<close>

locale paged =
  fixes ok :: "'d \<Rightarrow> bool"
    and items :: "'d \<Rightarrow> 'a list"
    and ident :: "'a \<Rightarrow> string"
    and fetch :: "'d \<Rightarrow> string \<Rightarrow> nat \<Rightarrow> 'a list"
  assumes fetch_first: "ok d \<Longrightarrow> fetch d '''' n = take n (items d)"
    and fetch_next: "ok d \<Longrightarrow> j < length (items d) \<Longrightarrow> fetch d (ident (items d ! j)) n = take n (drop (Suc j) (items d))"
    and ident_given: "ok d \<Longrightarrow> x \<in> set (items d) \<Longrightarrow> ident x \<noteq> ''''"
begin

text \<open>\<open>c\<close> is the position after the first \<open>k\<close> items.\<close>

definition at :: "'d \<Rightarrow> nat \<Rightarrow> string \<Rightarrow> bool" where
  "at d k c = (k \<le> length (items d) \<and> c = (if k = 0 then '''' else ident (items d ! (k - 1))))"

lemma at_start: "at d 0 ''''"
  by (simp add: at_def)

lemma fetch_at: "ok d \<Longrightarrow> at d k c \<Longrightarrow> fetch d c n = take n (drop k (items d))"
  using fetch_first [of d n] fetch_next [of d "k - 1" n] by (cases k) (auto simp: at_def)

lemma at_advance:
  assumes "ok d" and "at d k c" and "0 < n" and "n \<le> length (fetch d c n)"
  shows "at d (k + n) (ident (last (fetch d c n)))"
proof -
  have page: "fetch d c n = take n (drop k (items d))" using assms fetch_at by blast
  then have len: "k + n \<le> length (items d)" using assms by (simp add: at_def)
  have "last (fetch d c n) = items d ! (k + n - 1)"
    using page len assms(3) by (simp add: last_conv_nth)
  then show ?thesis using len assms(3) by (simp add: at_def)
qed

lemma page_short: "ok d \<Longrightarrow> at d k c \<Longrightarrow> length (fetch d c n) < n \<Longrightarrow> fetch d c n = drop k (items d)"
  by (simp add: fetch_at)

lemma page_split:
  "ok d \<Longrightarrow> at d k c \<Longrightarrow> drop k (items d) = fetch d c n @ drop (k + n) (items d)"
  by (simp add: fetch_at add.commute [of k n] flip: drop_drop)

end

section \<open>Keyset listings\<close>

definition post_ids_ok :: "bdb \<Rightarrow> bool" where
  "post_ids_ok d = (distinct (map post_id (bt_posts d)) \<and> '''' \<notin> set (map post_id (bt_posts d)))"

lemma scanPost_Some:
  "scanPost d r = Some p \<Longrightarrow> po_id p = post_id r \<and> postKey p = postKey (pw_post r)
     \<and> po_thread_id p = po_thread_id (pw_post r) \<and> po_state p = po_state (pw_post r)
     \<and> po_author p = po_author (pw_post r) \<and> po_revision p = po_revision (pw_post r)"
  by (auto simp: scanPost_def postKey_def Let_def)

lemma joined_mem: "p \<in> set (joined d) \<longleftrightarrow> (\<exists>r\<in>set (bt_posts d). scanPost d r = Some p)"
  by (auto simp: joined_def List.map_filter_def image_iff)

lemma joined_ids:
  assumes "distinct (map post_id (bt_posts d))"
  shows "distinct (map po_id (joined d))"
proof -
  have "distinct (map po_id (List.map_filter (scanPost d) rs))
        \<and> set (map po_id (List.map_filter (scanPost d) rs)) \<subseteq> set (map post_id rs)"
    if "distinct (map post_id rs)" for rs
    using that
  proof (induction rs)
    case Nil
    then show ?case by (simp add: List.map_filter_def)
  next
    case (Cons r rs)
    show ?case
    proof (cases "scanPost d r")
      case None
      then show ?thesis using Cons by (auto simp: List.map_filter_simps)
    next
      case (Some p)
      then show ?thesis using Cons scanPost_Some [OF Some] by (auto simp: List.map_filter_simps)
    qed
  qed
  then show ?thesis using assms by (simp add: joined_def)
qed

lemma keyOf_joined:
  assumes "post_ids_ok d" and "p \<in> set (joined d)"
  shows "keyOf (po_id p) d = Some (postKey p)" and "po_id p \<noteq> ''''"
proof -
  from assms(2) obtain r where r: "r \<in> set (bt_posts d)" "scanPost d r = Some p"
    by (auto simp: joined_mem)
  have "sel1 (\<lambda>x. post_id x = post_id r) (bt_posts d) = Some r"
    using assms(1) r(1) by (auto simp: post_ids_ok_def intro: sel1_unique)
  then show "keyOf (po_id p) d = Some (postKey p)"
    using scanPost_Some [OF r(2)] by (simp add: keyOf_def)
  show "po_id p \<noteq> ''''"
  proof
    assume "po_id p = ''''"
    then have "post_id r = ''''" using scanPost_Some [OF r(2)] by simp
    moreover have "post_id r \<in> set (map post_id (bt_posts d))" using r(1) by simp
    ultimately show False using assms(1) unfolding post_ids_ok_def by argo
  qed
qed

lemma sort_postKey_strict:
  assumes "post_ids_ok d"
  shows "sorted_wrt (\<lambda>x y. postKey x < postKey y) (sort_key postKey (filter P (joined d)))" (is "sorted_wrt _ ?l")
proof -
  have "inj_on po_id (set (joined d))" and "distinct (joined d)"
    using joined_ids assms by (auto simp: post_ids_ok_def distinct_map)
  then have "distinct (map postKey ?l)"
    by (auto simp: distinct_map inj_on_def postKey_def)
  moreover have "sorted (map postKey ?l)" by simp
  ultimately have "sorted_wrt (<) (map postKey ?l)" by (simp add: strict_sorted_iff)
  then show ?thesis by (simp only: sorted_wrt_map)
qed

text \<open>What is beyond an item of a strictly ordered list is what follows it.\<close>

lemma filter_beyond:
  assumes "sorted_wrt R l" and "\<And>x. \<not> R x x" and "\<And>x y. R x y \<Longrightarrow> \<not> R y x" and "j < length l"
  shows "filter (R (l ! j)) l = drop (Suc j) l"
proof -
  have split: "l = take j l @ l ! j # drop (Suc j) l"
    using assms(4) by (rule id_take_nth_drop)
  have ordered: "sorted_wrt R (take j l @ l ! j # drop (Suc j) l)"
    using assms(1) split by simp
  have before: "filter (R (l ! j)) (take j l) = []"
    using ordered assms(3) by (auto simp: sorted_wrt_append filter_empty_conv)
  have after: "filter (R (l ! j)) (drop (Suc j) l) = drop (Suc j) l"
    using ordered by (auto simp: sorted_wrt_append intro: filter_True)
  have "filter (R (l ! j)) l = filter (R (l ! j)) (take j l @ l ! j # drop (Suc j) l)"
    using split by simp
  also have "\<dots> = drop (Suc j) l"
    using before after assms(2) by simp
  finally show ?thesis .
qed

section \<open>Posts of a thread\<close>

definition thread_items :: "string \<times> bdb \<Rightarrow> post list" where
  "thread_items x = sort_key postKey (filter (\<lambda>p. po_thread_id p = fst x) (joined (snd x)))"

interpretation thread_posts: paged "\<lambda>x. post_ids_ok (snd x)" thread_items po_id
  "\<lambda>x c n. ListPosts (fst x) c n (snd x)"
proof
  fix x :: "string \<times> bdb" and n :: nat
  show "ListPosts (fst x) '''' n (snd x) = take n (thread_items x)"
    by (simp add: ListPosts_def thread_items_def beyond_def)
next
  fix x :: "string \<times> bdb" and j n :: nat
  assume ok: "post_ids_ok (snd x)" and j: "j < length (thread_items x)"
  let ?p = "thread_items x ! j"
  have mem: "?p \<in> set (joined (snd x))"
    using nth_mem [OF j] by (simp add: thread_items_def)
  have "ListPosts (fst x) (po_id ?p) n (snd x)
      = take n (sort_key postKey (filter (\<lambda>p. po_thread_id p = fst x \<and> postKey ?p < postKey p) (joined (snd x))))"
    using keyOf_joined [OF ok mem] by (simp add: ListPosts_def beyond_def)
  also have "\<dots> = take n (filter (\<lambda>p. postKey ?p < postKey p) (thread_items x))"
    by (simp add: thread_items_def filter_sort conj_commute)
  also have "\<dots> = take n (drop (Suc j) (thread_items x))"
    using filter_beyond [OF sort_postKey_strict [OF ok, of "\<lambda>p. po_thread_id p = fst x"], of j] j
    by (simp add: thread_items_def)
  finally show "ListPosts (fst x) (po_id ?p) n (snd x) = take n (drop (Suc j) (thread_items x))" .
next
  fix x :: "string \<times> bdb" and p
  assume "post_ids_ok (snd x)" and "p \<in> set (thread_items x)"
  then show "po_id p \<noteq> ''''" by (auto simp: thread_items_def dest: keyOf_joined(2))
qed

text \<open>
  A reader that follows \<^verbatim>\<open>Next\<close> from the position \<open>after\<close> until there is none: the pages it
  sees.
\<close>

inductive reads :: "board_config \<Rightarrow> string \<Rightarrow> int \<Rightarrow> bdb \<Rightarrow> string \<Rightarrow> post list list \<Rightarrow> bool"
  for cfg i limit d where
  reads_last: "ReadThread cfg i after limit d = Inr (t, ps, '''') \<Longrightarrow> reads cfg i limit d after [ps]"
| reads_more: "ReadThread cfg i after limit d = Inr (t, ps, c) \<Longrightarrow> c \<noteq> '''' \<Longrightarrow> reads cfg i limit d c pages
    \<Longrightarrow> reads cfg i limit d after (ps # pages)"

inductive_cases readsE: "reads cfg i limit d after pages"

lemma pageSize_bounds: "1 \<le> pageSize limit \<and> pageSize limit \<le> 200"
  by (auto simp: pageSize_def)

lemma ReadThread_page:
  fixes limit :: int
  assumes ok: "post_ids_ok d" and t: "thread_of i d = Inr t" and at: "thread_posts.at (i, d) k c"
  defines "n \<equiv> pageSize limit" and "l \<equiv> thread_items (i, d)"
  shows "ReadThread cfg i c limit d =
     Inr (t, map (shown_post cfg d) (take n (drop k l)), if k + n < length l then po_id (l ! (k + n - 1)) else '''')"
proof -
  have n: "1 \<le> n" using pageSize_bounds by (simp add: n_def)
  have page: "ListPosts i c (Suc n) d = take (Suc n) (drop k l)"
    using thread_posts.fetch_at [of "(i, d)" k c "Suc n"] ok at by (simp add: l_def)
  have len: "k \<le> length l" using at by (simp add: thread_posts.at_def l_def)
  show ?thesis
  proof (cases "k + n < length l")
    case True
    then have "length (ListPosts i c (Suc n) d) = Suc n" by (simp add: page)
    moreover have "take n (ListPosts i c (Suc n) d) = take n (drop k l)" by (simp add: page min_def)
    moreover have "ListPosts i c (Suc n) d ! (n - 1) = l ! (k + n - 1)"
      using True n len by (simp add: page)
    ultimately show ?thesis using True
      by (simp add: ReadThread_def t n_def [symmetric] Let_def)
  next
    case False
    then have "ListPosts i c (Suc n) d = drop k l" "take n (drop k l) = drop k l" by (simp_all add: page)
    then show ?thesis using False
      by (simp add: ReadThread_def t n_def [symmetric] Let_def)
  qed
qed

lemma reads_from:
  assumes "post_ids_ok d" and "thread_of i d = Inr t" and "thread_posts.at (i, d) k c"
  shows "\<exists>pages. reads cfg i limit d c pages \<and> concat pages = map (shown_post cfg d) (drop k (thread_items (i, d)))"
  using assms(3)
proof (induction "length (thread_items (i, d)) - k" arbitrary: k c rule: less_induct)
  case less
  let ?l = "thread_items (i, d)" and ?n = "pageSize limit"
  note page = ReadThread_page [OF assms(1,2) less.prems, of cfg limit]
  show ?case
  proof (cases "k + ?n < length ?l")
    case True
    let ?c = "po_id (?l ! (k + ?n - 1))"
    have at: "thread_posts.at (i, d) (k + ?n) ?c"
      using True pageSize_bounds [of limit] by (simp add: thread_posts.at_def)
    have given: "?c \<noteq> ''''"
      using thread_posts.ident_given [of "(i, d)" "?l ! (k + ?n - 1)"] assms(1) True by simp
    have smaller: "length ?l - (k + ?n) < length ?l - k"
      using True pageSize_bounds [of limit] by linarith
    obtain pages where pages: "reads cfg i limit d ?c pages"
      "concat pages = map (shown_post cfg d) (drop (k + ?n) ?l)"
      using less.hyps [OF smaller at] by blast
    have first: "ReadThread cfg i c limit d = Inr (t, map (shown_post cfg d) (take ?n (drop k ?l)), ?c)"
      using page True by simp
    have "drop k ?l = take ?n (drop k ?l) @ drop (k + ?n) ?l"
      by (simp add: add.commute [of k] flip: drop_drop)
    then have "concat (map (shown_post cfg d) (take ?n (drop k ?l)) # pages) = map (shown_post cfg d) (drop k ?l)"
      by (metis concat.simps(2) map_append pages(2))
    then show ?thesis using reads_more [OF first given pages(1)] by blast
  next
    case False
    then have "ReadThread cfg i c limit d = Inr (t, map (shown_post cfg d) (drop k ?l), '''')"
      using page by simp
    then show ?thesis by (intro exI [of _ "[map (shown_post cfg d) (drop k ?l)]"]) (simp add: reads_last)
  qed
qed

lemma reads_unique: "reads cfg i limit d c pages \<Longrightarrow> reads cfg i limit d c pages' \<Longrightarrow> pages = pages'"
proof (induction arbitrary: pages' rule: reads.induct)
  case (reads_last after t ps)
  from reads_last.prems show ?case
    by (rule readsE) (simp_all add: reads_last.hyps)
next
  case (reads_more after t ps c pages)
  from reads_more.prems show ?case
    by (rule readsE) (simp_all add: reads_more.hyps reads_more.IH)
qed

text \<open>
  C35: Reading a thread page by page, following \<^verbatim>\<open>Next\<close> from the beginning, ends and shows
  every post of the thread exactly once, in the order written; there is only one such sequence of
  pages. It holds for any page size a caller asks for.
\<close>

theorem reading_pages_complete:
  assumes "post_ids_ok d" and "thread_of i d = Inr t"
  shows "\<exists>!pages. reads cfg i limit d '''' pages
     \<and> concat pages = map (shown_post cfg d) (sort_key postKey (filter (\<lambda>p. po_thread_id p = i) (joined d)))"
proof -
  obtain pages where "reads cfg i limit d '''' pages"
    "concat pages = map (shown_post cfg d) (drop 0 (thread_items (i, d)))"
    using reads_from [OF assms thread_posts.at_start] by blast
  then show ?thesis by (auto simp: thread_items_def intro: reads_unique)
qed

section \<open>Posts of one kind\<close>

definition kind_items :: "(string \<times> string) \<times> bdb \<Rightarrow> post list" where
  "kind_items x =
     (case x of ((b, kind), d) \<Rightarrow>
        rev (sort_key postKey (filter (\<lambda>p. po_state p = PostVisible \<and> po_kind p = kind
          \<and> (if b = '''' then live_thread d p else on_board b d p \<noteq> None)) (joined d))))"

interpretation kind_posts: paged "\<lambda>x. post_ids_ok (snd x)" kind_items po_id
  "\<lambda>x c n. KindPosts (fst (fst x)) (snd (fst x)) c n (snd x)"
proof
  fix x :: "(string \<times> string) \<times> bdb" and n :: nat
  show "KindPosts (fst (fst x)) (snd (fst x)) '''' n (snd x) = take n (kind_items x)"
    by (simp add: KindPosts_def kind_items_def before_def split: prod.split)
next
  fix x :: "(string \<times> string) \<times> bdb" and j n :: nat
  assume ok: "post_ids_ok (snd x)" and j: "j < length (kind_items x)"
  obtain b kind d where x: "x = ((b, kind), d)" by (metis surj_pair)
  let ?P = "\<lambda>p. po_state p = PostVisible \<and> po_kind p = kind
          \<and> (if b = '''' then live_thread d p else on_board b d p \<noteq> None)"
  let ?p = "kind_items x ! j"
  have mem: "?p \<in> set (joined d)"
    using nth_mem [OF j] by (simp add: kind_items_def x)
  have "KindPosts b kind (po_id ?p) n d
      = take n (rev (sort_key postKey (filter (\<lambda>p. ?P p \<and> postKey p < postKey ?p) (joined d))))"
    using keyOf_joined [of d, OF _ mem] ok
    by (simp add: KindPosts_def before_def x conj_assoc conj_left_commute conj_commute)
  also have "\<dots> = take n (filter (\<lambda>p. postKey p < postKey ?p) (kind_items x))"
    by (simp add: kind_items_def x rev_filter [symmetric] filter_sort conj_commute)
  also have "filter (\<lambda>p. postKey p < postKey ?p) (kind_items x) = drop (Suc j) (kind_items x)"
  proof (rule filter_beyond [where R = "\<lambda>x y. postKey y < postKey x"])
    show "sorted_wrt (\<lambda>x y. postKey y < postKey x) (kind_items x)"
      using sort_postKey_strict [of d ?P] ok by (simp add: kind_items_def x sorted_wrt_rev)
  qed (use j in auto)
  finally show "KindPosts (fst (fst x)) (snd (fst x)) (po_id ?p) n (snd x) = take n (drop (Suc j) (kind_items x))"
    by (simp add: x)
next
  fix x :: "(string \<times> string) \<times> bdb" and p
  assume "post_ids_ok (snd x)" and "p \<in> set (kind_items x)"
  then show "po_id p \<noteq> ''''" by (auto simp: kind_items_def split: prod.splits dest: keyOf_joined(2))
qed

section \<open>Open decisions\<close>

definition waiting_of :: "bdb \<Rightarrow> post \<Rightarrow> decision option" where
  "waiting_of d p =
     (case thread_of (po_thread_id p) d of
        Inl e \<Rightarrow> None
      | Inr t \<Rightarrow> if dc_waiting (decision_of p t d) = [] then None else Some (decision_of p t d))"

definition open_decisions :: "bdb \<Rightarrow> post list \<Rightarrow> decision list" where
  "open_decisions d ps = List.map_filter (waiting_of d) ps"

lemma open_decisions_append: "open_decisions d (ps @ qs) = open_decisions d ps @ open_decisions d qs"
  by (simp add: open_decisions_def List.map_filter_def)

lemma open_decisions_Cons:
  "open_decisions d (p # ps) = (case waiting_of d p of None \<Rightarrow> [] | Some x \<Rightarrow> [x]) @ open_decisions d ps"
  by (simp add: open_decisions_def List.map_filter_simps split: option.split)

lemma scan_decisions_eq:
  "length out < want \<Longrightarrow> scan_decisions d want out ps =
     (let xs = out @ open_decisions d ps in if want \<le> length xs then Inl (take want xs) else Inr xs)"
proof (induction ps arbitrary: out)
  case Nil
  then show ?case by (simp add: open_decisions_def List.map_filter_simps)
next
  case (Cons p ps)
  show ?case
  proof (cases "waiting_of d p")
    case None
    then have "scan_decisions d want out (p # ps) = scan_decisions d want out ps"
      by (auto simp: waiting_of_def Let_def split: sum.splits if_splits)
    then show ?thesis using Cons None by (simp add: open_decisions_Cons)
  next
    case (Some x)
    then have step: "scan_decisions d want out (p # ps) =
        (if Suc (length out) = want then Inl (out @ [x]) else scan_decisions d want (out @ [x]) ps)"
      by (auto simp: waiting_of_def Let_def split: sum.splits if_splits)
    show ?thesis
    proof (cases "Suc (length out) = want")
      case True
      then have "take (want - length out) (x # open_decisions d ps) = [x]" by auto
      then show ?thesis using step Some True by (simp add: open_decisions_Cons Let_def)
    next
      case False
      then have "length (out @ [x]) < want" using Cons.prems by simp
      from Cons.IH [OF this] show ?thesis using step Some False by (simp add: open_decisions_Cons)
    qed
  qed
qed

lemma open_acks_loop_eq:
  assumes ok: "post_ids_ok d" and "kind_posts.at ((b, KindDecision), d) k c" and "length out < want"
  shows "open_acks_loop d b want c out
     = Some (take want (out @ open_decisions d (drop k (kind_items ((b, KindDecision), d)))))"
  using assms(2,3)
proof (induction "length (kind_items ((b, KindDecision), d)) - k" arbitrary: k c out rule: less_induct)
  case less
  let ?x = "((b, KindDecision), d)"
  let ?l = "kind_items ?x" and ?ps = "KindPosts b KindDecision c maxPage d"
  let ?found = "out @ open_decisions d ?ps"
  have fetch: "?ps = take maxPage (drop k ?l)"
    using kind_posts.fetch_at [of ?x k c maxPage] ok less.prems(1) by simp
  have split: "drop k ?l = ?ps @ drop (k + maxPage) ?l"
    using kind_posts.page_split [of ?x k c maxPage] ok less.prems(1) by simp
  have all: "out @ open_decisions d (drop k ?l) = ?found @ open_decisions d (drop (k + maxPage) ?l)"
    by (subst split) (simp add: open_decisions_append)
  note loop = open_acks_loop.simps [of d b want c out, unfolded Let_def scan_decisions_eq [OF less.prems(2), unfolded Let_def]]
  show ?case
  proof (cases "want \<le> length ?found")
    case True
    then show ?thesis by (simp add: loop all)
  next
    case few: False
    show ?thesis
    proof (cases "length ?ps < maxPage")
      case True
      then have "open_decisions d (drop (k + maxPage) ?l) = []"
        by (simp add: fetch open_decisions_def List.map_filter_simps)
      then have "out @ open_decisions d (drop k ?l) = ?found" using all by simp
      moreover have "open_acks_loop d b want c out = Some ?found" using few True by (simp add: loop)
      ultimately show ?thesis using few by simp
    next
      case False
      have at: "kind_posts.at ?x (k + maxPage) (po_id (last ?ps))"
        using kind_posts.at_advance [of ?x k c maxPage] ok less.prems(1) False by (simp add: maxPage_def)
      have "k + maxPage \<le> length ?l" using at by (simp add: kind_posts.at_def)
      then have smaller: "length ?l - (k + maxPage) < length ?l - k" by (simp add: maxPage_def)
      from less.hyps [OF smaller at] few show ?thesis using False by (simp add: loop all)
    qed
  qed
qed

text \<open>
  C36: Listing the decisions that still wait for an acknowledgement always ends, although its loop has
  no bound, and returns the newest ones up to the limit, however many settled decisions were made
  after them: the answer is the beginning of the list of all open decisions of the board.
\<close>

theorem open_acks_complete:
  assumes "post_ids_ok d" and "b = '''' \<or> GetBoard b d \<noteq> None"
  shows "OpenAcks b limit d = Inr (Some (take (pageSize limit) (open_decisions d
     (rev (sort_key postKey (filter (\<lambda>p. po_state p = PostVisible \<and> po_kind p = KindDecision
        \<and> (if b = '''' then live_thread d p else on_board b d p \<noteq> None)) (joined d)))))))"
proof -
  have "open_acks_loop d b (pageSize limit) '''' []
      = Some (take (pageSize limit) (open_decisions d (kind_items ((b, KindDecision), d))))"
    using open_acks_loop_eq [OF assms(1) kind_posts.at_start, of "[]" "pageSize limit" b] pageSize_bounds [of limit]
    by simp
  moreover have "bindR (if b = '''' then Inr () else bindR (SvcGetBoard b d) (\<lambda>_. Inr ())) k = k ()"
    for k :: "unit \<Rightarrow> board_error + decision list option"
    using assms(2) by (auto simp: SvcGetBoard_def)
  ultimately show ?thesis by (simp add: OpenAcks_def kind_items_def)
qed


end
