(* ===== verification/Board_Audience.thy ===== *)
theory Board_Audience
  imports Board_Curation
begin

text \<open>
  Who hears about a post: the recipients \<^verbatim>\<open>noticesFor\<close> works out, once each and for the
  strongest reason, and what the store keeps of them.
\<close>

section \<open>Reasons\<close>

lemma map_fst_replace: "map fst (map (\<lambda>y. if fst y = fst x then x else y) xs) = map fst xs"
  by (induction xs) auto

lemma map_of_replace:
  "map_of (map (\<lambda>y. if fst y = a then (a, b) else y) xs) z
     = (if z = a \<and> map_of xs a \<noteq> None then Some b else map_of xs z)"
  by (induction xs) auto

lemma add_reason_keys:
  "map fst (add_reason x xs) = (if fst x \<in> set (map fst xs) then map fst xs else map fst xs @ [fst x])"
proof (cases "map_of xs (fst x)")
  case None
  then have "fst x \<notin> set (map fst xs)" by (simp add: map_of_eq_None_iff)
  then show ?thesis using None by (simp add: add_reason_def)
next
  case (Some c)
  then have "fst x \<in> set (map fst xs)" by (metis map_of_eq_None_iff option.distinct(1) list.set_map)
  then show ?thesis using Some by (simp add: add_reason_def map_fst_replace)
qed

lemma add_reason_distinct: "distinct (map fst xs) \<Longrightarrow> distinct (map fst (add_reason x xs))"
  by (simp add: add_reason_keys)

text \<open>A reason replaces a weaker one.\<close>

definition stronger :: "string \<Rightarrow> string option \<Rightarrow> string" where
  "stronger r c = (case c of None \<Rightarrow> r | Some c \<Rightarrow> if strength r < strength c then r else c)"

lemma map_of_add_reason:
  "map_of (add_reason (a, r) xs) z = (if z = a then Some (stronger r (map_of xs a)) else map_of xs z)"
proof (cases "map_of xs a")
  case None
  then show ?thesis by (auto simp: add_reason_def stronger_def map_add_def split: option.split)
next
  case (Some c)
  then show ?thesis using map_of_replace [of a r xs z] map_of_replace [of a r xs a]
    by (simp add: add_reason_def stronger_def)
qed

lemma stronger_idem: "stronger r (Some (stronger r c)) = stronger r c"
  by (auto simp: stronger_def split: option.split)

lemma fold_add_reason:
  assumes "distinct (map fst acc)"
  shows "distinct (map fst (fold add_reason (map (\<lambda>x. (f x, r)) xs) acc))
     \<and> (\<forall>z. map_of (fold add_reason (map (\<lambda>x. (f x, r)) xs) acc) z
            = (if z \<in> set (map f xs) then Some (stronger r (map_of acc z)) else map_of acc z))"
  using assms
proof (induction xs arbitrary: acc)
  case Nil
  then show ?case by simp
next
  case (Cons x xs)
  from Cons.IH [OF add_reason_distinct [OF Cons.prems, of "(f x, r)"]] show ?case
    by (auto simp: map_of_add_reason stronger_idem)
qed

definition strongest :: "post \<Rightarrow> string \<Rightarrow> participant list \<Rightarrow> participant \<Rightarrow> string" where
  "strongest p reason replyTo who =
     (if who \<in> set (map mentionParticipant (po_mentions p)) then ReasonMention
      else if who \<in> set replyTo then reason else ReasonSubscription)"

definition hearers :: "post \<Rightarrow> participant list \<Rightarrow> participant list \<Rightarrow> participant set" where
  "hearers p replyTo subscribers =
     set (map mentionParticipant (po_mentions p)) \<union> set replyTo \<union> set subscribers"

lemma strength_bounds: "strength r \<le> 2" "strength ReasonMention = 0" "strength ReasonSubscription = 2"
  by (simp_all add: strength_def)

lemma audience_eq:
  "distinct (map fst (audience p reason replyTo subs))
   \<and> (\<forall>z. map_of (audience p reason replyTo subs) z
          = (if z \<in> hearers p replyTo subs then Some (strongest p reason replyTo z) else None))"
proof -
  define a where "a = fold add_reason (map (\<lambda>m. (mentionParticipant m, ReasonMention)) (po_mentions p)) []"
  define b where "b = fold add_reason (map (\<lambda>x. (x, reason)) replyTo) a"
  have c: "audience p reason replyTo subs = fold add_reason (map (\<lambda>x. (x, ReasonSubscription)) subs) b"
    by (simp add: audience_def a_def b_def)
  have A: "distinct (map fst a) \<and> (\<forall>z. map_of a z = (if z \<in> set (map mentionParticipant (po_mentions p))
      then Some ReasonMention else None))"
    using fold_add_reason [of "[]" mentionParticipant ReasonMention "po_mentions p"]
    by (simp add: a_def stronger_def)
  have B: "distinct (map fst b) \<and> (\<forall>z. map_of b z = (if z \<in> set replyTo then Some (stronger reason (map_of a z)) else map_of a z))"
    using fold_add_reason [of a "\<lambda>x. x" reason replyTo] A by (simp add: b_def)
  have C: "distinct (map fst (audience p reason replyTo subs))
      \<and> (\<forall>z. map_of (audience p reason replyTo subs) z
             = (if z \<in> set subs then Some (stronger ReasonSubscription (map_of b z)) else map_of b z))"
    using fold_add_reason [of b "\<lambda>x. x" ReasonSubscription subs] B by (simp add: c)
  have keep: "stronger ReasonSubscription (Some r) = r" "stronger r (Some ReasonMention) = ReasonMention"
    "stronger r None = r" for r
    using leD [OF strength_bounds(1) [of r]] by (simp_all add: stronger_def strength_bounds(2,3))
  show ?thesis
    using A B C by (auto simp: hearers_def strongest_def keep)
qed

lemma number_notices_eq:
  "\<exists>ns. number_notices cfg w k t p xs = map CNotice ns \<and> map no_recipient ns = map fst xs
     \<and> (\<forall>n\<in>set ns. (no_recipient n, no_reason n) \<in> set xs \<and> no_policy n = activation (no_reason n)
          \<and> no_post_id n = po_id p \<and> no_thread_id n = th_id t)"
proof (induction xs arbitrary: k)
  case Nil
  then show ?case by simp
next
  case (Cons x xs)
  obtain ns where "number_notices cfg w (Suc k) t p xs = map CNotice ns" "map no_recipient ns = map fst xs"
    "\<forall>n\<in>set ns. (no_recipient n, no_reason n) \<in> set xs \<and> no_policy n = activation (no_reason n)
          \<and> no_post_id n = po_id p \<and> no_thread_id n = th_id t"
    using Cons.IH by blast
  then show ?case
    by (intro exI [of _ "notice_for cfg w k t p (fst x) (snd x) # ns"]) (simp add: notice_for_def Let_def)
qed

text \<open>
  C37: Every participant a new post concerns hears about it once: the notices of a post go to distinct
  recipients, and these are exactly the participants it mentions, the author of the post it answers
  and those who follow its thread or board, less the author, the session behind a seat that wrote it,
  and other sites' participants. Each notice gives the strongest reason its recipient has, and the
  activation policy of that reason.
\<close>

theorem each_hears_once:
  "\<exists>ns. noticesFor cfg w k t p reason replyTo d = map CNotice ns
     \<and> distinct (map no_recipient ns)
     \<and> set (map no_recipient ns)
         = {who \<in> hearers p replyTo (Subscribers (th_id t) (th_board t) d).
              \<not> isSelf (po_author p) who \<and> pa_site who = cg_site cfg}
     \<and> list_all (\<lambda>n. no_post_id n = po_id p \<and> no_reason n = strongest p reason replyTo (no_recipient n)
                     \<and> no_policy n = activation (no_reason n)) ns"
proof -
  let ?a = "audience p reason replyTo (Subscribers (th_id t) (th_board t) d)"
  let ?h = "hearers p replyTo (Subscribers (th_id t) (th_board t) d)"
  let ?xs = "filter (\<lambda>x. told cfg p (fst x)) ?a"
  obtain ns where ns: "noticesFor cfg w k t p reason replyTo d = map CNotice ns" "map no_recipient ns = map fst ?xs"
    "\<forall>n\<in>set ns. (no_recipient n, no_reason n) \<in> set ?xs \<and> no_policy n = activation (no_reason n)
          \<and> no_post_id n = po_id p \<and> no_thread_id n = th_id t"
    using number_notices_eq [of cfg w k t p ?xs] by (auto simp: noticesFor_def)
  have dist: "distinct (map fst ?a)"
    and lookup: "map_of ?a z = (if z \<in> ?h then Some (strongest p reason replyTo z) else None)" for z
    using audience_eq by blast+
  have keys: "set (map fst ?a) = ?h"
  proof (rule set_eqI)
    fix z
    have "z \<in> set (map fst ?a) \<longleftrightarrow> map_of ?a z \<noteq> None" by (simp add: map_of_eq_None_iff)
    then show "z \<in> set (map fst ?a) \<longleftrightarrow> z \<in> ?h" unfolding lookup by simp
  qed
  have "distinct (map fst ?xs)" using dist by (simp add: distinct_map_filter)
  moreover have "set (map fst ?xs) = {who \<in> ?h. told cfg p who}"
    using keys by auto
  moreover have "no_reason n = strongest p reason replyTo (no_recipient n)" if "n \<in> set ns" for n
  proof -
    have "(no_recipient n, no_reason n) \<in> set ?a" using ns(3) that by auto
    then have "map_of ?a (no_recipient n) = Some (no_reason n)" using dist by simp
    then show ?thesis using lookup by (simp split: if_splits)
  qed
  ultimately show ?thesis
    using ns by (intro exI [of _ ns]) (simp add: told_def list_all_iff)
qed

end
