(* ===== verification/Board_Files.thy ===== *)
theory Board_Files
  imports Board_Format
begin

text \<open>
  What one site writes into the shared repository, another reads back: paths are classified as what
  they were made for, and a file's head and text are separated where they were joined.
\<close>

section \<open>Finding the end of a head\<close>

text \<open>Every line break is followed by a character other than a hyphen.\<close>

fun head_safe :: "string \<Rightarrow> bool" where
  "head_safe [] = True"
| "head_safe (c # r) = ((c = CHR 0x0A \<longrightarrow> r \<noteq> [] \<and> hd r \<noteq> CHR ''-'') \<and> head_safe r)"

lemma head_safe_append: "head_safe a \<Longrightarrow> head_safe b \<Longrightarrow> head_safe (a @ b)"
  by (induction a) auto

lemma head_safe_plain: "CHR 0x0A \<notin> set s \<Longrightarrow> head_safe s"
  by (induction s) auto

lemma head_safe_Join:
  "(\<And>x. x \<in> set xs \<Longrightarrow> head_safe x) \<Longrightarrow> head_safe sep \<Longrightarrow> head_safe (Join xs sep)"
  by (induction xs sep rule: Join.induct) (auto intro: head_safe_append)

lemma find_text_after:
  "head_safe s \<Longrightarrow> find_text (nl @ ''---'' @ nl) (s @ nl @ ''---'' @ nl @ r) = Some (length s)"
proof (induction s)
  case Nil
  then show ?case by simp
next
  case (Cons c s)
  have "\<not> prefix (nl @ ''---'' @ nl) (c # s @ nl @ ''---'' @ nl @ r)"
    using Cons.prems by (cases s) auto
  then show ?case using Cons by simp
qed

section \<open>JSON on one line\<close>

lemma hex_digit_plain: "n < 16 \<Longrightarrow> hex_digit n \<noteq> CHR 0x0A"
proof
  assume "n < 16" "hex_digit n = CHR 0x0A"
  then have "of_char (hex_digit n) = (10::nat)" by simp
  then show False using of_hex_digit [OF \<open>n < 16\<close>] by (simp split: if_splits)
qed

lemma hex_byte_plain: "n < 256 \<Longrightarrow> CHR 0x0A \<notin> set (hex_byte n)"
  using hex_digit_plain [of "n div 16"] hex_digit_plain [of "n mod 16"]
  by (auto simp: hex_byte_def less_mult_imp_div_less)

lemma json_ascii_plain: "CHR 0x0A \<notin> set (json_ascii c)"
  using hex_byte_plain [OF of_char_small, of c] by (auto simp: json_ascii_def Let_def)

definition starts_high :: "string \<Rightarrow> bool" where
  "starts_high s = (s \<noteq> [] \<and> 0x80 \<le> (of_char (hd s) :: nat))"

lemma continuation_high: "continuation lo hi s \<Longrightarrow> 0x80 \<le> lo \<Longrightarrow> starts_high s"
  by (auto simp: continuation_def starts_high_def split: list.splits)

lemma utf8_width_high:
  "utf8_width (c # r) \<in> {0, 2, 3, 4}
   \<and> (2 \<le> utf8_width (c # r) \<longrightarrow> starts_high r) \<and> (3 \<le> utf8_width (c # r) \<longrightarrow> starts_high (drop 1 r))
   \<and> (4 \<le> utf8_width (c # r) \<longrightarrow> starts_high (drop 2 r))"
  unfolding utf8_width_def Let_def
  by (simp del: drop_Suc add: continuation_high)

lemma utf8_bytes_high:
  assumes "0x80 \<le> (of_char c :: nat)" and "x \<in> set (take (utf8_width (c # r)) (c # r))"
  shows "0x80 \<le> (of_char x :: nat)"
proof (cases "x = c")
  case False
  then have "x \<in> set (take (utf8_width (c # r) - 1) r)"
    using assms(2) by (cases "utf8_width (c # r)") auto
  then obtain k where k: "k < utf8_width (c # r) - 1" "k < length r" "r ! k = x"
    by (auto simp: in_set_conv_nth)
  have "k = 0 \<or> k = 1 \<or> k = 2" using k(1) utf8_width_high [of c r] by auto
  then have "starts_high (drop k r)" using k(1) utf8_width_high [of c r] by auto
  then show ?thesis using k by (simp add: starts_high_def hd_drop_conv_nth)
qed (use assms in simp)

lemma json_body_plain: "CHR 0x0A \<notin> set (json_body s)"
proof (induction s rule: json_body.induct)
  case 1
  then show ?case by (simp add: json_body.simps)
next
  case (2 c r)
  have high: "CHR 0x0A \<notin> set (take (utf8_width (c # r)) (c # r))" if "\<not> (of_char c :: nat) < 0x80"
    using utf8_bytes_high [of c "CHR 0x0A" r] that by (auto simp: not_less)
  have digit: "hex_digit (of_char (r ! 1) mod 16) \<noteq> CHR 0x0A" by (rule hex_digit_plain) simp
  show ?case
    using 2 high digit json_ascii_plain [of c] by (auto simp: json_body.simps(2) [of c r])
qed

lemma jsonString_plain: "CHR 0x0A \<notin> set (jsonString s)"
  by (simp add: jsonString_def json_body_plain)

lemma dec_nat_digits: "list_all decimal (dec_nat n)"
proof (induction n rule: dec_nat.induct)
  case (1 n)
  have "decimal (digit_char m)" if "m < 10" for m
    using that by (simp add: decimal_def byte_def digit_char_def)
  then show ?case using 1 by (subst dec_nat.simps) simp
qed

lemma dec_plain: "CHR 0x0A \<notin> set (dec n)"
  using dec_nat_digits [of "nat n"] dec_nat_digits [of "nat (- n)"]
  by (auto simp: dec_def list_all_iff decimal_def byte_def)

lemma Marshal_scalar_plain:
  "CHR 0x0A \<notin> set (Marshal (JString s))" "CHR 0x0A \<notin> set (Marshal (JInt i))"
  "CHR 0x0A \<notin> set (Marshal (JBool b))" "CHR 0x0A \<notin> set (Marshal JNull)"
  by (simp_all add: jsonString_plain dec_plain)

lemma newline_safe: "head_safe (newline (Suc n))" "c \<noteq> CHR ''-'' \<Longrightarrow> c \<noteq> CHR 0x0A \<Longrightarrow> head_safe (newline n @ [c])"
proof -
  have spaces: "head_safe (replicate k CHR '' '' @ s) = head_safe s" for k s
    by (induction k) simp_all
  show "head_safe (newline (Suc n))"
    using spaces [of _ "[]"] by (simp add: newline_def)
  show "head_safe (newline n @ [c])" if "c \<noteq> CHR ''-''" "c \<noteq> CHR 0x0A"
    using that spaces by (cases n) (simp_all add: newline_def)
qed

lemma head_safe_indent:
  "head_safe (marshal_indent n j)"
  "list_all head_safe (indent_items n xs)"
  "list_all head_safe (indent_fields n fs)"
proof (induction n j and n xs and n fs rule: marshal_indent_indent_items_indent_fields.induct)
  case (1 n x xs)
  have "head_safe (Join (indent_items (Suc n) (x # xs)) ('','' @ newline (Suc n)))"
    using 1 by (intro head_safe_Join head_safe_append newline_safe) (auto simp: list_all_iff)
  then show ?case
    using newline_safe(2) [of "CHR '']''" n]
    by (simp del: indent_items.simps add: head_safe_append newline_safe)
next
  case (2 n f fs)
  have "head_safe (Join (indent_fields (Suc n) (f # fs)) ('','' @ newline (Suc n)))"
    using 2 by (intro head_safe_Join head_safe_append newline_safe) (auto simp: list_all_iff)
  then show ?case
    using newline_safe(2) [of "CHR ''}''" n]
    by (simp del: indent_fields.simps add: head_safe_append newline_safe)
next
  case (12 n k x fs)
  have "head_safe (jsonString k @ '': '')"
    by (rule head_safe_plain) (simp add: jsonString_plain)
  from head_safe_append [OF this] 12 show ?case by simp
qed (auto intro: head_safe_plain simp: Marshal_scalar_plain simp del: Marshal.simps)

section \<open>Head and text\<close>

lemma trim_added_newline:
  "trim_newline (body @ (if body \<noteq> '''' \<and> last body \<noteq> CHR 0x0A then nl else '''')) = trim_newline body"
  by (simp add: trim_newline_def)

lemma parse_frontmatter:
  "ParseFrontmatter decode (frontmatter j body)
     = map_option (\<lambda>h. (h, trim_newline body)) (decode (marshal_indent 0 j))"
proof -
  let ?rest = "body @ (if body \<noteq> '''' \<and> last body \<noteq> CHR 0x0A then nl else '''')"
  let ?data = "marshal_indent 0 j @ nl @ ''---'' @ nl @ ?rest"
  have "after_prefix (''---'' @ nl) (frontmatter j body) = Some ?data"
    by (simp add: after_prefix_def frontmatter_def)
  moreover have "find_text (nl @ ''---'' @ nl) ?data = Some (length (marshal_indent 0 j))"
    by (rule find_text_after) (rule head_safe_indent)
  moreover have "take (length (marshal_indent 0 j)) ?data = marshal_indent 0 j"
    and "drop (length (marshal_indent 0 j) + 5) ?data = ?rest"
    by simp_all
  ultimately show ?thesis
    unfolding ParseFrontmatter_def using trim_added_newline [of body] by (simp cong: option.case_cong)
qed

section \<open>Paths\<close>

lemma split_slash_plain: "CHR ''/'' \<notin> set s \<Longrightarrow> split_slash s = [s]"
  by (induction s) auto

lemma split_slash_Cons: "CHR ''/'' \<notin> set s \<Longrightarrow> split_slash (s @ ''/'' @ r) = s # split_slash r"
  by (induction s) auto

lemma split_slash_slash:
  "parts \<noteq> [] \<Longrightarrow> (\<And>p. p \<in> set parts \<Longrightarrow> CHR ''/'' \<notin> set p) \<Longrightarrow> split_slash (slash parts) = parts"
  unfolding slash_def
proof (induction parts rule: induct_list012)
  case (3 x y zs)
  then have "split_slash (x @ ''/'' @ Join (y # zs) ''/'') = x # (y # zs)"
    by (subst split_slash_Cons) auto
  then show ?case by simp
qed (simp_all add: split_slash_plain)

lemma first_rest_chars: "first_rest f g n s \<Longrightarrow> c \<in> set s \<Longrightarrow> f c \<or> g c"
  by (auto simp: first_rest_def list_all_iff split: list.splits)

lemma boardName_chars: "boardName s \<Longrightarrow> c \<in> set s \<Longrightarrow> name_char c \<or> c = CHR ''.''"
  unfolding boardName_def by (auto simp: name_char_def dest: first_rest_chars)

lemma idForm_chars: "idForm s \<Longrightarrow> c \<in> set s \<Longrightarrow> name_char c \<or> upper_alpha c"
proof -
  assume i: "idForm s" and c: "c \<in> set s"
  let ?n = "length s - 27"
  have "?n < length s" using i by (simp add: idForm_def Let_def) linarith
  then have "s = take ?n s @ s ! ?n # drop (Suc ?n) s" by (rule id_take_nth_drop)
  then have "c \<in> set (take ?n s) \<or> c = s ! ?n \<or> c \<in> set (drop (Suc ?n) s)"
    using c by (metis Un_iff set_append set_ConsD)
  then show ?thesis
    using i first_rest_chars [of name_start name_char 31 "take ?n s" c]
    by (auto simp: idForm_def Let_def list_all_iff name_char_def name_start_def)
qed

lemma plain_chars: "name_char c \<or> upper_alpha c \<Longrightarrow> c \<noteq> CHR ''/'' \<and> c \<noteq> CHR ''.''"
  by (auto simp: name_char_def name_start_def lower_alpha_def decimal_def upper_alpha_def byte_def)

lemma char_digit_dec: "int (undigits (map char_digit (dec_nat n))) = int n"
proof (induction n rule: dec_nat.induct)
  case (1 n)
  show ?case
  proof (cases "n < 10")
    case True
    then show ?thesis by (simp add: dec_nat.simps [of n] undigits_def)
  next
    case False
    then show ?thesis using 1 by (subst dec_nat.simps) (simp add: undigits_append)
  qed
qed

lemma number_dec: "0 \<le> n \<Longrightarrow> n \<le> 9223372036854775807 \<Longrightarrow> number (dec n) = n"
  using char_digit_dec [of "nat n"] by (simp add: number_def dec_def)

lemma dec_nat_given: "dec_nat n \<noteq> []"
  by (subst dec_nat.simps) simp

lemma classify_post_path:
  assumes "boardName b" and "idForm t" and "idForm p" and "1 \<le> n" and "n \<le> 9223372036854775807"
  shows "ClassifyPath (PostFilePath b t p n) = Some (PostPath b t p n)"
proof -
  let ?name = "if n > 1 then p @ ''.r'' @ dec n else p"
  have fname: "(if n > 1 then p @ ''.r'' @ dec n @ ''.md'' else p @ ''.md'') = ?name @ ''.md''" by simp
  have digits: "list_all decimal (dec n)" and given: "dec n \<noteq> []"
    using dec_nat_digits [of "nat n"] dec_nat_given [of "nat n"] assms(4) by (simp_all add: dec_def)
  have pid: "CHR ''/'' \<notin> set p" "CHR ''.'' \<notin> set p" and tid: "CHR ''/'' \<notin> set t" and bid: "CHR ''/'' \<notin> set b"
    using idForm_chars [OF assms(3)] idForm_chars [OF assms(2)] boardName_chars [OF assms(1)] plain_chars by blast+
  have nid: "CHR ''/'' \<notin> set (dec n)" using digits by (auto simp: list_all_iff decimal_def byte_def)
  have "split_slash (PostFilePath b t p n) = [''boards'', b, ''threads'', t, ''posts'', ?name @ ''.md'']"
    unfolding PostFilePath_def fname
    by (rule split_slash_slash) (use pid tid bid nid in \<open>auto split: if_splits\<close>)
  moreover have "before_suffix ''.md'' (?name @ ''.md'') = Some ?name"
    by (simp add: before_suffix_def suffix_def)
  moreover have "post_name ?name = Some (p, n)"
  proof (cases "n > 1")
    case True
    have "Cut CHR ''.'' (p @ CHR ''.'' # ''r'' @ dec n) = (p, ''r'' @ dec n, True)"
      using pid by (intro Cut_append)
    then show ?thesis using True assms(3,5) digits given number_dec [of n] by (simp add: post_name_def)
  next
    case False
    then have "n = 1" using assms(4) by simp
    then show ?thesis using pid assms(3) by (simp add: post_name_def Cut_not_found)
  qed
  ultimately show ?thesis
    using assms(1,2) by (simp add: ClassifyPath_def classify_thread_file_def)
qed



end
