(* ===== verification/Board_Ids.thy ===== *)
theory Board_Ids
  imports Board_Text
begin

text \<open>
  Identifiers (\<^verbatim>\<open>src/internal/board/ids.go\<close>): the first ten characters after the site are the
  48 bits of milliseconds, so ids of one site sort by the time they were made.
\<close>

section \<open>Strings in order\<close>

lemma string_less_left: "a < b \<Longrightarrow> c @ a < c @ (b :: string)"
  unfolding list_less_def by (rule lexord_append_leftI)

lemma string_less_append:
  assumes "length a = length b" and "a < (b :: string)"
  shows "a @ x < b @ y"
  using assms unfolding list_less_def by (simp add: lexord_sufI)

section \<open>Base 32 digits\<close>

fun digits32 :: "nat \<Rightarrow> nat \<Rightarrow> nat list" where
  "digits32 0 n = []"
| "digits32 (Suc w) n = digits32 w (n div 32) @ [n mod 32]"

lemma length_digits32 [simp]: "length (digits32 w n) = w"
  by (induction w arbitrary: n) simp_all

lemma digits32_bound: "x \<in> set (digits32 w n) \<Longrightarrow> x < 32"
  by (induction w arbitrary: n) auto

lemma crockford_order: "i < j \<Longrightarrow> j < 32 \<Longrightarrow> crockford ! i < crockford ! j"
proof -
  have "sorted_wrt (<) crockford" by (simp add: crockford_def less_char_def)
  moreover have "length crockford = 32" by (simp add: crockford_def)
  ultimately show "i < j \<Longrightarrow> j < 32 \<Longrightarrow> crockford ! i < crockford ! j"
    by (simp add: sorted_wrt_iff_nth_less)
qed

definition text32 :: "nat \<Rightarrow> nat \<Rightarrow> string" where
  "text32 w n = map (\<lambda>x. crockford ! x) (digits32 w n)"

lemma text32_less:
  assumes "m < n" and "n < 32 ^ w"
  shows "text32 w m < text32 w n"
  using assms
proof (induction w arbitrary: m n)
  case 0
  then show ?case by simp
next
  case (Suc w)
  have bound: "n div 32 < 32 ^ w" using Suc.prems(2) by (simp add: less_mult_imp_div_less mult.commute)
  show ?case
  proof (cases "m div 32 < n div 32")
    case True
    from Suc.IH [OF True bound] show ?thesis
      by (auto simp: text32_def intro: string_less_append)
  next
    case False
    then have same: "m div 32 = n div 32" using Suc.prems(1) by (meson div_le_mono le_antisym less_imp_le not_less)
    then have "m mod 32 < n mod 32" using Suc.prems(1) by (metis div_mult_mod_eq nat_add_left_cancel_less)
    then have "[crockford ! (m mod 32)] < [crockford ! (n mod 32)]"
      using crockford_order by (simp add: list_less_def)
    then show ?thesis using same by (simp add: text32_def string_less_left)
  qed
qed

section \<open>The first ten characters\<close>

lemma take_digit: "unat (drop_bit k (m :: 64 word) AND 31) = unat m div 2 ^ k mod 32"
proof -
  have "drop_bit k m AND 31 = take_bit 5 (drop_bit k m)"
    by (simp add: take_bit_eq_mask mask_eq_exp_minus_1)
  then have "unat (drop_bit k m AND 31) = take_bit 5 (unat (drop_bit k m))"
    by (simp add: unsigned_take_bit_eq)
  also have "unat (drop_bit k m) = unat m div 2 ^ k"
    by (simp only: unat_drop_bit_eq) (simp only: drop_bit_eq_div)
  finally show ?thesis by (simp add: take_bit_eq_mod)
qed

lemma accumulate:
  "push_bit 8 (drop_bit (k + 8) m) OR (drop_bit k m AND 255) = drop_bit k (m :: 64 word)"
proof (rule bit_word_eqI)
  fix i
  assume "i < LENGTH(64)"
  have byte: "bit (255 :: 64 word) i \<longleftrightarrow> i < 8"
    using bit_mask_iff [where 'a = "64 word", of 8 i] \<open>i < LENGTH(64)\<close> by (simp add: mask_eq_exp_minus_1)
  show "bit (push_bit 8 (drop_bit (k + 8) m) OR (drop_bit k m AND 255)) i = bit (drop_bit k m) i"
    using \<open>i < LENGTH(64)\<close>
    by (cases "i < 8") (simp_all only: bit_or_iff bit_and_iff bit_push_bit_iff bit_drop_bit_eq byte o_def, auto simp: add.commute)
qed

lemma base32_byte:
  "base32 (drop_bit (k + 8) m) bits ((drop_bit k m AND 255) # bs)
     = (case emit (drop_bit k m) (bits + 8) of (out, rest) \<Rightarrow> out @ base32 (drop_bit k m) rest bs)"
  by (simp add: accumulate Let_def)

definition digit_at :: "64 word \<Rightarrow> nat \<Rightarrow> char" where
  "digit_at m k = crockford ! (unat m div 2 ^ k mod 32)"

lemma emit_two:
  assumes "5 \<le> b" and "b < 10"
  shows "emit (drop_bit k m) (b + 5) = ([digit_at m (k + b), digit_at m (k + b - 5)], b - 5)"
proof -
  have "b - 5 < 5" using assms by simp
  then have "emit (drop_bit k m) (b - 5) = ([], b - 5)"
    by (subst emit.simps) (simp only: if_True)
  moreover have "emit (drop_bit k m) b = (case emit (drop_bit k m) (b - 5) of
      (out, rest) \<Rightarrow> (digit_at m (k + b - 5) # out, rest))"
    using assms by (subst emit.simps) (simp add: Let_def take_digit digit_at_def add.commute)
  moreover have "emit (drop_bit k m) (b + 5) = (case emit (drop_bit k m) b of
      (out, rest) \<Rightarrow> (digit_at m (k + b) # out, rest))"
    by (subst emit.simps) (simp add: Let_def take_digit digit_at_def add.commute)
  ultimately show ?thesis by simp
qed

lemma emit_one: "b < 5 \<Longrightarrow> emit (drop_bit k m) (b + 5) = ([digit_at m (k + b)], b)"
  by (simp add: emit.simps [of _ "b + 5"] emit.simps [of _ b] take_digit digit_at_def drop_bit_drop_bit add.commute)

lemma first_ten:
  assumes "unat m < 2 ^ 48"
  shows "base32 0 2 (map (\<lambda>i. drop_bit (8 * i) m AND 255) [5, 4, 3, 2, 1, 0] @ bs)
     = map (digit_at m) [45, 40, 35, 30, 25, 20, 15, 10, 5, 0] @ base32 m 0 bs"
proof -
  have "unat (drop_bit 48 m) = 0"
    using assms by (simp only: unat_drop_bit_eq) (simp add: drop_bit_eq_div)
  then have "drop_bit 48 m = 0" by (simp only: unat_eq_0)
  then show ?thesis
    using base32_byte [of 40 m 2] base32_byte [of 32 m 0] base32_byte [of 24 m 3] base32_byte [of 16 m 1]
      base32_byte [of 8 m 4] base32_byte [of 0 m 2]
      emit_two [of 5 40 m] emit_one [of 3 32 m] emit_two [of 6 24 m] emit_one [of 4 16 m]
      emit_two [of 7 8 m] emit_two [of 5 0 m]
    by (simp del: base32.simps(2))
qed

lemma digits32_map: "digits32 w n = map (\<lambda>j. n div 32 ^ (w - 1 - j) mod 32) [0..<w]"
proof (induction w arbitrary: n)
  case 0
  then show ?case by simp
next
  case (Suc w)
  have "n div 32 div 32 ^ (w - 1 - j) = n div 32 ^ (w - j)" if "j < w" for j
  proof -
    have "w - j = Suc (w - 1 - j)" using that by simp
    then show ?thesis by (simp only: power_Suc div_mult2_eq)
  qed
  then show ?case by (simp add: Suc.IH)
qed

lemma text32_digits: "map (digit_at m) [45, 40, 35, 30, 25, 20, 15, 10, 5, 0] = text32 10 (unat m)"
  by (simp add: text32_def digit_at_def digits32_map upt_rec)

section \<open>Ids\<close>

lemma NewID_prefix:
  assumes "0 \<le> now" and "now div 1000000 < 2 ^ 48"
  shows "NewID site now random
     = site @ ''-'' @ text32 10 (nat (now div 1000000))
       @ base32 (word_of_int (now div 1000000)) 0 (map (\<lambda>c. of_nat (byte c)) random)"
proof -
  let ?m = "word_of_int (now div 1000000) :: 64 word"
  have number: "unat ?m = nat (now div 1000000)"
    using assms by (simp add: unsigned_of_int take_bit_int_eq_self)
  then have small: "unat ?m < 2 ^ 48" using assms by simp
  show ?thesis
    unfolding NewID_def id_bytes_def Let_def first_ten [OF small] text32_digits number by simp
qed

text \<open>
  Identifiers made on one site sort by the time they were made: of two ids from different
  milliseconds the earlier is smaller as text, whatever random bytes they carry. It holds from the
  Unix epoch until the 48 bits of milliseconds are used up, in the year 10889.
\<close>

theorem ids_sort_by_time:
  assumes "0 \<le> a" and "a div 1000000 < b div 1000000" and "b div 1000000 < 2 ^ 48"
  shows "NewID site a x < NewID site b y"
proof -
  have "text32 10 (nat (a div 1000000)) < text32 10 (nat (b div 1000000))"
    using assms by (intro text32_less) auto
  then have "text32 10 (nat (a div 1000000)) @ s < text32 10 (nat (b div 1000000)) @ t" for s t
    by (intro string_less_append) (simp_all add: text32_def)
  moreover have "a div 1000000 < 2 ^ 48" "0 \<le> b" using assms by linarith+
  ultimately show ?thesis
    using assms by (auto simp: NewID_prefix intro!: string_less_left)
qed

theorem ids_sort_by_time_witness:
  "NewID ''box'' 1700000000123000000 ''0123456789'' < NewID ''box'' 1700000000124000000 ''9876543210''"
  using ids_sort_by_time [of 1700000000123000000 1700000000124000000 "''box''" "''0123456789''" "''9876543210''"]
  by simp

end
