(* ===== verification/Board_Media.thy ===== *)
theory Board_Media
  imports Board_Service
begin

text \<open>
  Attachments of crew-board: judging a file by its bytes, the ingest pipeline, and what people do with
  held attachments (\<^verbatim>\<open>src/internal/board/media.go\<close>, \<^verbatim>\<open>attachments.go\<close>).

  The decoders and the signature scanner are other programs. \<open>media_tools\<close> holds what they answer:
  \<open>mt_transform\<close> stands for the probe, the caps and the re-encoding of \<^verbatim>\<open>transform\<close>,
  \<open>mt_scan\<close> for one run of the scanner on the original and the result. Files are a map from the path
  below the media directory to the content; writing a file that can be written is all the pipeline asks
  of the file system, so its failures are left out, except for a quarantined original that is missing.
\<close>

section \<open>Judging a file\<close>

definition has_text :: "string \<Rightarrow> string \<Rightarrow> bool" where
  "has_text p s = (find_text p s \<noteq> None)"

definition webp_animated :: "string \<Rightarrow> bool" where
  "webp_animated data = (21 < length data \<and> take 4 (drop 12 data) = ''VP8X'' \<and> byte (data ! 20) div 2 mod 2 = 1)"

definition bom :: string where
  "bom = [CHR 0xEF, CHR 0xBB, CHR 0xBF]"

definition trim_head :: "string \<Rightarrow> string" where
  "trim_head s = dropWhile (\<lambda>c. c \<in> {CHR '' '', CHR 0x09, CHR 0x0D, CHR 0x0A})
     (if prefix bom s then drop 3 s else s)"

definition sniff :: "string \<Rightarrow> string" where
  "sniff data =
     (let head = take 4096 data; trimmed = trim_head head
      in if prefix ([CHR 0x89] @ ''PNG'' @ [CHR 0x0D, CHR 0x0A, CHR 0x1A, CHR 0x0A]) data
         then (if has_text ''acTL'' (take 65536 data) then ''apng'' else ''png'')
         else if prefix [CHR 0xFF, CHR 0xD8, CHR 0xFF] data then ''jpeg''
         else if prefix ''GIF87a'' data \<or> prefix ''GIF89a'' data then ''gif''
         else if 12 < length data \<and> take 4 data = ''RIFF'' \<and> take 4 (drop 8 data) = ''WEBP''
         then (if webp_animated data then ''webp-animated'' else ''webp'')
         else if 12 < length data \<and> take 4 (drop 4 data) = ''ftyp''
         then (if take 4 (drop 8 data) \<in> {''avif'', ''avis''} then ''avif'' else ''mp4'')
         else if prefix [CHR 0x1A, CHR 0x45, CHR 0xDF, CHR 0xA3] data then ''webm''
         else if prefix ''%PDF'' data then ''pdf''
         else if prefix [CHR 0xD0, CHR 0xCF, CHR 0x11, CHR 0xE0] data then ''office''
         else if prefix (''PK'' @ [CHR 0x03, CHR 0x04]) data
         then (if has_text ''[Content_Types].xml'' head \<or> has_text ''word/'' head \<or> has_text ''xl/'' head
                  \<or> has_text ''ppt/'' head
               then ''office'' else ''archive'')
         else if prefix [CHR 0x1F, CHR 0x8B] data \<or> prefix (''7z'' @ [CHR 0xBC, CHR 0xAF, CHR 0x27, CHR 0x1C]) data
                 \<or> prefix ''Rar!'' data
         then ''archive''
         else if prefix ''MZ'' data \<or> prefix ([CHR 0x7F] @ ''ELF'') data \<or> prefix ''#!'' data then ''executable''
         else if prefix ''<svg'' trimmed \<or> prefix ''<?xml'' trimmed \<and> has_text ''<svg'' head then ''svg''
         else ''unknown'')"

definition refused_types :: "string list" where
  "refused_types = [''pdf'', ''office'', ''archive'', ''executable'', ''unknown'']"

definition extensionType :: "(string \<times> string) list" where
  "extensionType = [(''.png'', ''png''), (''.apng'', ''apng''), (''.jpg'', ''jpeg''), (''.jpeg'', ''jpeg''),
     (''.gif'', ''gif''), (''.webp'', ''webp''), (''.avif'', ''avif''), (''.svg'', ''svg''), (''.mp4'', ''mp4''),
     (''.m4v'', ''mp4''), (''.mov'', ''mp4''), (''.webm'', ''webm''), (''.pdf'', ''pdf''), (''.doc'', ''office''),
     (''.docx'', ''office''), (''.xls'', ''office''), (''.xlsx'', ''office''), (''.ppt'', ''office''),
     (''.pptx'', ''office''), (''.zip'', ''archive''), (''.exe'', ''executable'')]"

definition compatible :: "string \<Rightarrow> string \<Rightarrow> bool" where
  "compatible claimed real =
     (claimed = real \<or> claimed = ''png'' \<and> real = ''apng'' \<or> claimed = ''apng'' \<and> real = ''png''
      \<or> claimed = ''webp'' \<and> real = ''webp-animated'')"

text \<open>
  Lower case as \<^verbatim>\<open>ToLower\<close> gives it, as far as ASCII texts can be found in it: two letters beyond
  ASCII have an ASCII lower case, U+0130 and U+212A.
\<close>

fun lower_ascii :: "string \<Rightarrow> string" where
  "lower_ascii [] = []"
| "lower_ascii (c # r) =
     (if c = CHR 0xC4 \<and> prefix [CHR 0xB0] r then CHR ''i'' # lower_ascii (drop 1 r)
      else if c = CHR 0xE2 \<and> prefix [CHR 0x84, CHR 0xAA] r then CHR ''k'' # lower_ascii (drop 2 r)
      else lower_char c # lower_ascii r)"

text \<open>What makes a media file also something else, or the empty text.\<close>

definition polyglot :: "string \<Rightarrow> string \<Rightarrow> string" where
  "polyglot data kind =
     (let tail = drop (length data - 65536) data; front = take 1048576 data
      in if has_text (''PK'' @ [CHR 0x05, CHR 0x06]) tail then ''it also holds a ZIP archive''
         else if has_text ''%PDF-'' (drop 1 front) then ''it also holds a PDF''
         else if kind \<noteq> ''svg'' \<and> (has_text ''<script'' (lower_ascii front) \<or> has_text ''<html'' (lower_ascii front))
         then ''it also holds HTML or script'' else '''')"

text \<open>\<^verbatim>\<open>filepath.Ext\<close> and \<^verbatim>\<open>filepath.Base\<close>.\<close>

definition last_element :: "string \<Rightarrow> string" where
  "last_element s = rev (takeWhile (\<lambda>c. c \<noteq> CHR ''/'') (rev s))"

definition fileExt :: "string \<Rightarrow> string" where
  "fileExt s =
     (let e = last_element s; ext = rev (takeWhile (\<lambda>c. c \<noteq> CHR ''.'') (rev e))
      in if CHR ''.'' \<in> set e then CHR ''.'' # ext else '''')"

definition fileBase :: "string \<Rightarrow> string" where
  "fileBase s =
     (if s = '''' then ''.''
      else let t = rev (dropWhile (\<lambda>c. c = CHR ''/'') (rev s)) in if t = '''' then ''/'' else last_element t)"

section \<open>The pipeline\<close>

definition digest_of :: "string \<Rightarrow> string" where
  "digest_of data = hexString (Sum256 data)"

record skip =
  sk_scan :: bool
  sk_decoder :: bool

definition no_skip :: skip where
  "no_skip = \<lparr>sk_scan = False, sk_decoder = False\<rparr>"

text \<open>
  What the decoders find out about the picture, and how a step of the pipeline ends: with the result's
  bytes, held for a person (\<open>HeldBack\<close> with the check and its reason), refused or failed.
\<close>

record media_shape =
  ms_kind :: string
  ms_type :: string
  ms_width :: int
  ms_height :: int
  ms_duration_ms :: int

datatype 'a media_outcome = Transformed 'a string | HeldBack 'a string string | MediaStopped board_error

datatype scan_result = ScanClean | ScanHit string

record media_tools =
  mt_upload_bytes :: int
  mt_scanner :: bool
  mt_transform :: "string \<Rightarrow> string \<Rightarrow> skip \<Rightarrow> media_shape media_outcome"
  mt_scan :: "string \<Rightarrow> string \<Rightarrow> scan_result"

definition add_check :: "string \<Rightarrow> attachment \<Rightarrow> attachment" where
  "add_check c a = a\<lparr>at_checks := at_checks a @ [c]\<rparr>"

definition shaped :: "attachment \<Rightarrow> media_shape \<Rightarrow> attachment" where
  "shaped a m = a\<lparr>at_kind := ms_kind m, at_type := ms_type m, at_width := ms_width m, at_height := ms_height m,
     at_duration_ms := ms_duration_ms m\<rparr>"

definition scan :: "media_tools \<Rightarrow> skip \<Rightarrow> string \<Rightarrow> string \<Rightarrow> attachment \<Rightarrow> attachment media_outcome" where
  "scan tools s data out a =
     (if \<not> mt_scanner tools
      then Transformed (add_check ''re-encoded; not signature-scanned (no scanner on this site)'' a) out
      else if sk_scan s then Transformed (add_check ''re-encoded; signature scan skipped by a person's release'' a) out
      else (case mt_scan tools data out of
              ScanClean \<Rightarrow> Transformed (add_check ''re-encoded; signature-scanned clean'' a) out
            | ScanHit why \<Rightarrow> HeldBack a ''signature scan'' why))"

type_synonym media_files = "string \<Rightarrow> string option"

definition quarantinePath :: "string \<Rightarrow> string" where
  "quarantinePath original = ''quarantine/'' @ original"

definition blobFile :: "attachment \<Rightarrow> string" where
  "blobFile a = ''blobs/sha256/'' @ take 2 (at_output_hash a) @ ''/'' @ at_output_hash a
     @ (if at_type a = ''video/mp4'' then ''.mp4'' else ''.webp'')"

definition new_attachment :: "string \<Rightarrow> string \<Rightarrow> time \<Rightarrow> attachment" where
  "new_attachment name data now =
     \<lparr>at_ref = '''', at_original_hash = digest_of data, at_output_hash = '''', at_name = fileBase name,
      at_state = AttachmentReady, at_reason = '''', at_kind = '''', at_type = '''', at_width = 0, at_height = 0,
      at_duration_ms = 0, at_bytes = 0, at_checks = [], at_created_at = now\<rparr>"

definition pipeline :: "media_tools \<Rightarrow> string \<Rightarrow> string \<Rightarrow> skip \<Rightarrow> attachment \<Rightarrow> attachment media_outcome" where
  "pipeline tools kind data s a =
     (case mt_transform tools kind data s of
        Transformed m out \<Rightarrow> scan tools s data out (shaped a m)
      | HeldBack m check why \<Rightarrow> HeldBack (shaped a m) check why
      | MediaStopped e \<Rightarrow> MediaStopped e)"

definition Ingest :: "media_tools \<Rightarrow> time \<Rightarrow> string \<Rightarrow> string \<Rightarrow> skip \<Rightarrow> media_files \<Rightarrow> board_error + attachment \<times> media_files" where
  "Ingest tools now name data s fs =
     (let kind = sniff data
      in if 0 < mt_upload_bytes tools \<and> mt_upload_bytes tools < int (length data) then Inl (Refused CodeMediaTooLarge)
         else if kind \<in> set refused_types then Inl (Refused CodeMediaTypeRefused)
         else if (case map_of extensionType (lower_ascii (fileExt name)) of
                    None \<Rightarrow> False | Some claimed \<Rightarrow> \<not> compatible claimed kind)
         then Inl (Refused CodeMediaTypeMismatch)
         else if polyglot data kind \<noteq> '''' then Inl (Refused CodeMediaTypeRefused)
         else let original = digest_of data; a0 = new_attachment name data now
              in case pipeline tools kind data s a0 of
                   MediaStopped e \<Rightarrow> Inl e
                 | HeldBack a check why \<Rightarrow>
                     Inr (a\<lparr>at_ref := original, at_state := AttachmentHeld, at_reason := check @ '': '' @ why\<rparr>,
                          fs(quarantinePath original \<mapsto> data))
                 | Transformed a out \<Rightarrow>
                     let a' = a\<lparr>at_output_hash := digest_of out, at_bytes := int (length out),
                                at_state := AttachmentReady, at_ref := digest_of out\<rparr>
                     in Inr (a', (fs(blobFile a' \<mapsto> out))(quarantinePath original := None)))"

section \<open>Attachments of the service\<close>

definition SvcAttachment :: "board_config \<Rightarrow> string \<Rightarrow> bdb \<Rightarrow> board_error + attachment" where
  "SvcAttachment cfg ref d =
     (if cg_media cfg = None then Inl (Refused CodeAttachmentUnknown)
      else ok_or (Refused CodeAttachmentUnknown) (GetAttachment ref d))"

definition SvcBlobPath :: "board_config \<Rightarrow> string \<Rightarrow> bdb \<Rightarrow> board_error + attachment \<times> string" where
  "SvcBlobPath cfg ref d =
     bindR (SvcAttachment cfg ref d) (\<lambda>a.
       if at_state a \<noteq> AttachmentReady then Inl (Refused CodeAttachmentHeld) else Inr (a, blobFile a))"

definition Held :: "board_config \<Rightarrow> bdb \<Rightarrow> attachment list" where
  "Held cfg d = (if cg_media cfg = None then [] else ListAttachments AttachmentHeld d)"

definition Upload :: "board_config \<Rightarrow> world \<Rightarrow> media_tools \<Rightarrow> string \<Rightarrow> string \<Rightarrow> bdb \<times> media_files
    \<Rightarrow> board_error + attachment \<times> bdb \<times> media_files" where
  "Upload cfg w tools name data st =
     (case st of (d, fs) \<Rightarrow>
        if cg_media cfg = None then Inl (Refused CodeMediaTypeRefused)
        else case AttachmentByOriginal (digest_of data) d of
               Some a \<Rightarrow> Inr (a, d, fs)
             | None \<Rightarrow>
                 bindR (Ingest tools (w_now w) name data no_skip fs) (\<lambda>(a, fs').
                   let a' = (if at_state a = AttachmentHeld then a\<lparr>at_bytes := int (length data)\<rparr> else a)
                   in Inr (a', PutAttachment a' d, fs')))"

definition held_attachment :: "board_config \<Rightarrow> world \<Rightarrow> actor \<Rightarrow> string \<Rightarrow> bdb \<Rightarrow> board_error + attachment" where
  "held_attachment cfg w who ref d =
     (if TrimSpace (ac_person who) = '''' then Inl (Refused CodePersonOnly)
      else bindR (author_of cfg w who) (\<lambda>_.
        bindR (SvcAttachment cfg ref d) (\<lambda>a.
          if at_state a \<noteq> AttachmentHeld then Inl (Refused CodeInvalid) else Inr a)))"

definition release_skip :: "attachment \<Rightarrow> skip" where
  "release_skip a = \<lparr>sk_scan = prefix ''signature scan'' (at_reason a), sk_decoder = prefix ''decoder'' (at_reason a)\<rparr>"

definition Release :: "board_config \<Rightarrow> world \<Rightarrow> media_tools \<Rightarrow> actor \<Rightarrow> string \<Rightarrow> bdb \<times> media_files
    \<Rightarrow> board_error + attachment \<times> bdb \<times> media_files" where
  "Release cfg w tools who ref st =
     (case st of (d, fs) \<Rightarrow>
        bindR (held_attachment cfg w who ref d) (\<lambda>a.
          case fs (quarantinePath (at_original_hash a)) of
            None \<Rightarrow> Inl FileFailed
          | Some original \<Rightarrow>
              bindR (Ingest tools (w_now w) (at_name a) original (release_skip a) fs) (\<lambda>(x, fs').
                let x' = x\<lparr>at_ref := at_ref a, at_created_at := at_created_at a\<rparr>
                in if at_state x' = AttachmentHeld
                   then let y = x'\<lparr>at_bytes := int (length original)\<rparr> in Inr (y, PutAttachment y d, fs')
                   else let y = add_check (''released by '' @ ac_person who) x'
                        in Inr (y, PutAttachment y d, fs'(quarantinePath (at_original_hash a) := None)))))"

definition Drop :: "board_config \<Rightarrow> world \<Rightarrow> actor \<Rightarrow> string \<Rightarrow> bdb \<times> media_files
    \<Rightarrow> board_error + attachment \<times> bdb \<times> media_files" where
  "Drop cfg w who ref st =
     (case st of (d, fs) \<Rightarrow>
        bindR (held_attachment cfg w who ref d) (\<lambda>a.
          let a' = a\<lparr>at_state := AttachmentDropped, at_reason := ''dropped by '' @ ac_person who\<rparr>
          in Inr (a', PutAttachment a' d, fs(quarantinePath (at_original_hash a) := None))))"

text \<open>What a purge does to the files of an attachment it drops.\<close>

definition Remove :: "attachment \<Rightarrow> media_files \<Rightarrow> media_files" where
  "Remove a fs =
     (if at_output_hash a \<noteq> '''' then fs(blobFile a := None) else fs)(quarantinePath (at_original_hash a) := None)"

end
