(* ===== verification/Board_Shared.thy ===== *)
theory Board_Shared
  imports Board_Curation Board_Media
begin

text \<open>
  Applying another site's files to this site's index (\<^verbatim>\<open>src/internal/board/shared.go\<close>,
  \<^verbatim>\<open>ApplyRemote\<close> and what it calls). A pull hands over each file with the site whose key
  signed the commit that added it. \<open>readers\<close> are \<^verbatim>\<open>json.Unmarshal\<close> into the head types.

  Attachment files go through the ingest pipeline of \<open>Board_Media\<close>; what that writes below the media
  directory is followed there, the index here.
\<close>

record readers =
  rd_board :: "string \<Rightarrow> board_file option"
  rd_thread :: "string \<Rightarrow> thread_file option"
  rd_post :: "string \<Rightarrow> post_file option"
  rd_event :: "string \<Rightarrow> event_file option"
  rd_participant :: "json \<Rightarrow> participant option"

record remote_file =
  rf_network :: string
  rf_signer :: string
  rf_file :: repo_file
  rf_data :: string
  rf_quiet :: bool
  rf_since :: "time option"

definition history :: "remote_file \<Rightarrow> time \<Rightarrow> bool" where
  "history f written = (rf_quiet f \<or> (case rf_since f of None \<Rightarrow> False | Some s \<Rightarrow> written < s))"

abbreviation ignore :: "ignore_reason \<Rightarrow> board_error + 'a" where
  "ignore r \<equiv> Inl (Ignored r)"

definition sharedBoard :: "string \<Rightarrow> remote_file \<Rightarrow> bdb \<Rightarrow> board_error + unit" where
  "sharedBoard b f d =
     (case GetBoard b d of
        None \<Rightarrow> ignore IgnoreNotShared
      | Some x \<Rightarrow> refuse_if (bd_network x \<noteq> rf_network f) (Ignored IgnoreNotShared))"

definition signed_id :: "remote_file \<Rightarrow> string \<Rightarrow> bool" where
  "signed_id f i = prefix (rf_signer f @ ''-'') i"

definition applyBoard :: "readers \<Rightarrow> remote_file \<Rightarrow> string \<Rightarrow> bdb \<Rightarrow> board_error + bdb" where
  "applyBoard rd f b d =
     (case ParseFrontmatter (rd_board rd) (rf_data f) of
        None \<Rightarrow> ignore IgnoreUnreadable
      | Some (h, body) \<Rightarrow>
          if bf_site h \<noteq> rf_signer f \<or> bf_name h \<noteq> b then ignore IgnoreNotSigners
          else (case GetBoard (bf_name h) d of
                  Some x \<Rightarrow> if bd_network x \<noteq> rf_network f then ignore IgnoreBoardClash else Inr d
                | None \<Rightarrow>
                    Apply None [CBoard \<lparr>bd_name = bf_name h, bd_site = bf_site h, bd_description = body,
                      bd_created_at = bf_created_at h, bd_created_by = bf_created_by h, bd_threads = 0,
                      bd_network = rf_network f\<rparr>] d))"

definition applyThread :: "readers \<Rightarrow> remote_file \<Rightarrow> string \<Rightarrow> string \<Rightarrow> bdb \<Rightarrow> board_error + bdb" where
  "applyThread rd f b t d =
     bindR (sharedBoard b f d) (\<lambda>_.
       if ThreadPurged t d then Inr d
       else (case ParseFrontmatter (rd_thread rd) (rf_data f) of
               None \<Rightarrow> ignore IgnoreUnreadable
             | Some (h, body) \<Rightarrow>
                 if tl_site h \<noteq> rf_signer f \<or> au_site (tl_created_by h) \<noteq> rf_signer f \<or> tl_id h \<noteq> t
                    \<or> tl_board h \<noteq> b \<or> \<not> signed_id f (tl_id h)
                 then ignore IgnoreNotSigners
                 else if GetThread (tl_id h) d \<noteq> None then Inr d
                 else Apply None [CThread \<lparr>th_id = tl_id h, th_board = tl_board h, th_title = tl_title h,
                        th_state = ThreadOpen, th_opening_post_id = tl_opening_post h,
                        th_created_at = tl_created_at h, th_created_by = tl_created_by h,
                        th_last_activity_at = tl_created_at h, th_posts = 0, th_ref = '''', th_links = [],
                        th_aliases = [], th_redirect_to = ''''\<rparr>] d))"

text \<open>
  \<open>localNotices\<close> keeps the notices for this site's own participants; a partner's mentions and
  replies wake as this site set for that partner.
\<close>

definition partner_policy :: "board_config \<Rightarrow> remote_file \<Rightarrow> string" where
  "partner_policy cfg f =
     (case network_of cfg (rf_network f) of
        None \<Rightarrow> ''no_wake''
      | Some n \<Rightarrow>
          (case map_of (nt_partners n) (rf_signer f) of
             None \<Rightarrow> ''no_wake''
           | Some p \<Rightarrow> if p = '''' then ''no_wake'' else p))"

definition local_notice :: "board_config \<Rightarrow> remote_file \<Rightarrow> change \<Rightarrow> change option" where
  "local_notice cfg f c =
     (case c of
        CNotice n \<Rightarrow>
          if pa_site (no_recipient n) \<noteq> cg_site cfg then None
          else if rf_signer f \<noteq> cg_site cfg \<and> no_reason n \<noteq> ReasonSubscription
          then Some (CNotice (n\<lparr>no_policy := partner_policy cfg f\<rparr>)) else Some (CNotice n)
      | _ \<Rightarrow> None)"

definition localNotices :: "board_config \<Rightarrow> remote_file \<Rightarrow> change list \<Rightarrow> change list" where
  "localNotices cfg f cs = List.map_filter (local_notice cfg f) cs"

definition remote_post :: "post_file \<Rightarrow> string \<Rightarrow> post" where
  "remote_post h body =
     \<lparr>po_id = pf_id h, po_thread_id = pf_thread h, po_parent_id = pf_parent h,
      po_author = (pf_author h)\<lparr>au_model := cleanModel (au_model (pf_author h)),
                                au_label := cleanLabel (au_label (pf_author h))\<rparr>,
      po_site = pf_site h, po_state = PostVisible, po_revision = 1, po_body = body,
      po_mentions = pf_mentions h, po_note = '''', po_kind = pf_kind h, po_urgent = pf_urgent h,
      po_sync = ''synced'', po_remote = False, po_attachments = [], po_created_at = pf_created_at h,
      po_edited_at = None\<rparr>"

definition remote_revision :: "post_file \<Rightarrow> string \<Rightarrow> revision" where
  "remote_revision h body =
     \<lparr>rv_post_id = pf_id h, rv_revision = pf_revision h, rv_body = body, rv_mentions = pf_mentions h,
      rv_model = cleanModel (pf_model h), rv_created_at = pf_created_at h\<rparr>"

definition remote_parent :: "post_file \<Rightarrow> bdb \<Rightarrow> participant list" where
  "remote_parent h d =
     (case GetPost (pf_parent h) d of
        None \<Rightarrow> []
      | Some p \<Rightarrow> if pf_parent h \<noteq> '''' \<and> po_state p = PostVisible then [authorParticipant (po_author p)] else [])"

definition applyNewPost :: "board_config \<Rightarrow> world \<Rightarrow> remote_file \<Rightarrow> thread \<Rightarrow> post_file \<Rightarrow> string \<Rightarrow> bdb \<Rightarrow> board_error + bdb" where
  "applyNewPost cfg w f t h body d =
     (let p = remote_post h body;
          changes = [CPost p, CRevision (remote_revision h body),
                     CTouch (th_id t) (max (th_last_activity_at t) (pf_created_at h))];
          notices = (if history f (pf_created_at h) then []
                     else localNotices cfg f (noticesFor cfg w 0 t p ReasonReply (remote_parent h d) d))
      in Apply None (changes @ notices) d)"

definition applyRevision :: "board_config \<Rightarrow> world \<Rightarrow> remote_file \<Rightarrow> thread \<Rightarrow> post_file \<Rightarrow> string \<Rightarrow> post \<Rightarrow> bdb
    \<Rightarrow> board_error + bdb" where
  "applyRevision cfg w f t h body p d =
     (let p' = p\<lparr>po_body := body, po_mentions := pf_mentions h, po_revision := pf_revision h\<rparr>;
          changes = [CRevision (remote_revision h body),
                     CPostState \<lparr>ps_post_id = po_id p, ps_state = PostVisible, ps_revision = pf_revision h,
                                 ps_note = '''', ps_edited_at = Some (pf_created_at h)\<rparr>,
                     CTouch (th_id t) (max (th_last_activity_at t) (pf_created_at h))];
          notices = (if history f (pf_created_at h) then []
                     else localNotices cfg f
                            (mentionNotices cfg w 0 t p' (newly_mentioned (po_mentions p) (pf_mentions h))))
      in Apply None (changes @ notices) d)"

definition applyPost :: "board_config \<Rightarrow> world \<Rightarrow> readers \<Rightarrow> remote_file \<Rightarrow> string \<Rightarrow> string \<Rightarrow> string \<Rightarrow> int \<Rightarrow> bdb
    \<Rightarrow> board_error + bdb" where
  "applyPost cfg w rd f b t i n d =
     bindR (sharedBoard b f d) (\<lambda>_.
       if ThreadPurged t d then Inr d
       else (case ParseFrontmatter (rd_post rd) (rf_data f) of
               None \<Rightarrow> ignore IgnoreUnreadable
             | Some (h, body) \<Rightarrow>
                 if pf_site h \<noteq> rf_signer f \<or> au_site (pf_author h) \<noteq> rf_signer f \<or> pf_id h \<noteq> i
                    \<or> pf_thread h \<noteq> t \<or> pf_revision h \<noteq> n \<or> \<not> signed_id f (pf_id h)
                 then ignore IgnoreNotSigners
                 else (case GetThread (pf_thread h) d of
                         None \<Rightarrow> ignore IgnoreNoThread
                       | Some th \<Rightarrow>
                           (case GetPost (pf_id h) d of
                              None \<Rightarrow>
                                if pf_revision h = 1 then applyNewPost cfg w f th h body d
                                else ignore IgnoreNoPost
                            | Some p \<Rightarrow>
                                if pf_revision h = 1 then Inr d
                                else if po_site p \<noteq> rf_signer f then ignore IgnoreNotSigners
                                else if pf_revision h \<le> po_revision p then Inr d
                                else if pf_revision h \<noteq> po_revision p + 1 \<or> po_state p \<noteq> PostVisible
                                then ignore IgnoreNotFollowing
                                else applyRevision cfg w f th h body p d))))"

definition data_text :: "event_file \<Rightarrow> string \<Rightarrow> string" where
  "data_text e key = (case map_of (ef_data e) key of Some (JString s) \<Rightarrow> s | _ \<Rightarrow> '''')"

definition remote_event :: "event_file \<Rightarrow> event" where
  "remote_event e = \<lparr>ev_id = ef_id e, ev_thread_id = ef_thread e, ev_post_id = ef_post e, ev_type = ef_type e,
     ev_note = ef_note e, ev_actor = ef_actor e, ev_created_at = ef_created_at e, ev_data = ef_data e\<rparr>"

definition applyPurge :: "board_config \<Rightarrow> event_file \<Rightarrow> thread \<Rightarrow> bdb \<Rightarrow> board_error + bdb" where
  "applyPurge cfg e t d =
     (let whole = (ef_post e = '''' \<or> ef_post e = th_opening_post_id t);
          change = (if whole then CScrubThread (th_id t) else CScrubPost (ef_post e));
          refs = refsOf (th_id t) (if whole then '''' else ef_post e) d
      in bindR (Apply None [change, CEvent ((remote_event e)\<lparr>ev_note := ''''\<rparr>)] d)
           (\<lambda>d'. Inr (dropUnreferenced cfg refs d')))"

text \<open>The changes of the other shared events.\<close>

definition event_changes :: "readers \<Rightarrow> remote_file \<Rightarrow> event_file \<Rightarrow> thread \<Rightarrow> bdb \<Rightarrow> board_error + change list option" where
  "event_changes rd f e t d =
     (if ef_type e = ''retract''
      then (case GetPost (ef_post e) d of
              None \<Rightarrow> Inr None
            | Some p \<Rightarrow>
                if po_state p \<noteq> PostVisible then Inr None
                else if po_site p \<noteq> rf_signer f then ignore IgnoreNotSigners
                else Inr (Some [CPostState \<lparr>ps_post_id = po_id p, ps_state = PostRetracted, ps_revision = po_revision p,
                                             ps_note = ef_note e, ps_edited_at = po_edited_at p\<rparr>]))
      else if ef_type e = ''settle''
      then (let into = data_text e ''into''
            in if \<not> linkRef into then ignore IgnoreSettle
               else Inr (Some [CThreadUpdate (update_of (t\<lparr>th_state := ThreadSettled,
                      th_links := add_link \<lparr>lk_ref = into, lk_note = ef_note e, lk_by = ef_actor e, lk_at = ef_created_at e\<rparr>
                        (th_links t)\<rparr>))]))
      else if ef_type e = ''rename''
      then (let title = TrimSpace (data_text e ''title'')
            in if title = '''' \<or> length title > maxTitle then ignore IgnoreRename
               else Inr (Some [CThreadUpdate (update_of (retitle title t))]))
      else if ef_type e = ''close''
      then Inr (Some [CThreadUpdate (update_of (t\<lparr>th_state := ThreadClosed, th_redirect_to := data_text e ''redirect''\<rparr>))])
      else if ef_type e = ''ack''
      then (case rd_participant rd (case map_of (ef_data e) ''for'' of Some v \<Rightarrow> v | None \<Rightarrow> JNull) of
              None \<Rightarrow> ignore IgnoreAck
            | Some who \<Rightarrow>
                if pa_site who \<noteq> rf_signer f then ignore IgnoreAck
                else Inr (Some [CAck \<lparr>ak_post_id = ef_post e, ak_for = who, ak_by = ef_actor e, ak_at = ef_created_at e\<rparr>]))
      else ignore IgnoreEventType)"

definition applyEvent :: "board_config \<Rightarrow> readers \<Rightarrow> remote_file \<Rightarrow> string \<Rightarrow> string \<Rightarrow> string \<Rightarrow> bdb \<Rightarrow> board_error + bdb" where
  "applyEvent cfg rd f b t i d =
     bindR (sharedBoard b f d) (\<lambda>_.
       case rd_event rd (rf_data f) of
         None \<Rightarrow> ignore IgnoreUnreadable
       | Some e \<Rightarrow>
           if ef_site e \<noteq> rf_signer f \<or> ef_id e \<noteq> i \<or> ef_thread e \<noteq> t \<or> \<not> signed_id f (ef_id e)
           then ignore IgnoreNotSigners
           else if HasEvent (ef_id e) d then Inr d
           else (case GetThread (ef_thread e) d of
                   None \<Rightarrow> Inr d
                 | Some th \<Rightarrow>
                     if ef_type e = ''purge'' then applyPurge cfg e th d
                     else bindR (event_changes rd f e th d) (\<lambda>changes.
                       case changes of
                         None \<Rightarrow> Inr d
                       | Some cs \<Rightarrow> Apply None (CEvent (remote_event e) # cs) d)))"

definition blob_record :: "remote_file \<Rightarrow> string \<Rightarrow> attachment \<Rightarrow> attachment" where
  "blob_record f ref a =
     add_check (''shared by site '' @ rf_signer f @ ''; re-checked here'')
       ((if at_state a = AttachmentHeld then a\<lparr>at_bytes := int (length (rf_data f))\<rparr> else a)\<lparr>at_ref := ref\<rparr>)"

definition applyBlob :: "board_config \<Rightarrow> world \<Rightarrow> media_tools \<Rightarrow> remote_file \<Rightarrow> string \<Rightarrow> string \<Rightarrow> bdb \<Rightarrow> board_error + bdb" where
  "applyBlob cfg w tools f ref ext d =
     (if cg_media cfg = None then ignore IgnoreNoMedia
      else if digest_of (rf_data f) \<noteq> ref then ignore IgnoreBlobName
      else if BlobPurged ref d then Inr d
      else if (case GetAttachment ref d of None \<Rightarrow> False | Some a \<Rightarrow> at_state a \<noteq> AttachmentDropped) then Inr d
      else if AttachmentByOutput ref d \<noteq> None then Inr d
      else (case Ingest tools (w_now w) (ref @ ext) (rf_data f) no_skip Map.empty of
              Inl e \<Rightarrow> ignore IgnoreMedia
            | Inr (a, fs) \<Rightarrow> Inr (PutAttachment (blob_record f ref a) d)))"

definition ApplyRemote :: "board_config \<Rightarrow> world \<Rightarrow> readers \<Rightarrow> media_tools \<Rightarrow> remote_file \<Rightarrow> bdb \<Rightarrow> board_error + bdb" where
  "ApplyRemote cfg w rd tools f d =
     (if network_of cfg (rf_network f) = None then ignore IgnoreNetwork
      else case rf_file f of
             BoardPath b \<Rightarrow> applyBoard rd f b d
           | ThreadPath b t \<Rightarrow> applyThread rd f b t d
           | PostPath b t i n \<Rightarrow> applyPost cfg w rd f b t i n d
           | EventPath b t i \<Rightarrow> applyEvent cfg rd f b t i d
           | BlobPath ref ext \<Rightarrow> applyBlob cfg w tools f ref ext d)"

end
