(* ===== verification/Board_Runs.thy ===== *)
theory Board_Runs
  imports Board_Units Board_Paging Board_Audience Board_Files Board_Ids Board_Shared
begin

text \<open>
  Every write of crew-board as a sequence of the units of \<open>Board_Units\<close>: the operations of the
  service (each under its receipt), the files of other sites, and the writes of the notifier and the
  syncer. The states a site can be in are those these steps reach, and all of them keep the invariant.
\<close>

section \<open>Identifiers\<close>

lemma crockford_plain: "i < 32 \<Longrightarrow> decimal (crockford ! i) \<or> upper_alpha (crockford ! i)"
proof -
  assume "i < 32"
  then have "crockford ! i \<in> set crockford" by (intro nth_mem) (simp add: crockford_def)
  moreover have "list_all (\<lambda>c. decimal c \<or> upper_alpha c) crockford" by code_simp
  ultimately show ?thesis by (simp add: list_all_iff)
qed

lemma emit_plain: "list_all (\<lambda>c. decimal c \<or> upper_alpha c) (fst (emit acc bits))"
proof (induction acc bits rule: emit.induct)
  case (1 acc bits)
  have "unat (drop_bit k acc AND 31) < 32" for k by (simp add: take_digit)
  then have "decimal c \<or> upper_alpha c" if "c = crockford ! unat (drop_bit k acc AND 31)" for c k
    using crockford_plain that by blast
  then show ?case using 1 by (subst emit.simps) (auto simp: Let_def split: prod.split)
qed

lemma base32_plain: "list_all (\<lambda>c. decimal c \<or> upper_alpha c) (base32 acc bits bs)"
proof (induction bs arbitrary: acc bits)
  case (Cons b bs)
  then show ?case using emit_plain by (simp add: Let_def split: prod.split) (metis fst_conv)
qed simp

lemma fresh_id_plain:
  assumes "siteName (cg_site cfg)"
  shows "plain_id (fresh_id cfg w k)"
proof -
  have "list_all (\<lambda>c. name_char c \<or> upper_alpha c) (cg_site cfg)"
    using assms first_rest_chars unfolding siteName_def list_all_iff name_char_def by blast
  moreover have "list_all (\<lambda>c. name_char c \<or> upper_alpha c) (base32 0 2 (id_bytes now random))" for now random
    using base32_plain [of 0 2 "id_bytes now random"] by (auto simp: list_all_iff name_char_def name_start_def)
  ultimately show ?thesis by (simp add: fresh_id_def NewID_def plain_id_def name_char_def)
qed

lemma idForm_plain: "idForm i \<Longrightarrow> plain_id i"
  using idForm_chars [of i] by (auto simp: plain_id_def list_all_iff idForm_def Let_def)

section \<open>What a read finds\<close>

lemma GetThread_row:
  assumes "GetThread i d = Some t"
  obtains r where "r \<in> set (bt_threads d)" and "thread_id r = i" and "\<not> tw_purged r" and "t = scanThread d r"
  using assms by (auto simp: GetThread_def dest: sel1_SomeD)

lemma GetThread_id: "GetThread i d = Some t \<Longrightarrow> th_id t = i"
  by (auto elim!: GetThread_row simp: scanThread_def Let_def)

lemma GetThread_live:
  assumes "ids_ok d" and "GetThread i d = Some t"
  shows "\<not> ThreadPurged i d"
proof
  assume "ThreadPurged i d"
  then obtain x where x: "x \<in> set (bt_threads d)" "thread_id x = i" "tw_purged x"
    by (auto simp: ThreadPurged_def list_ex_iff)
  obtain r where r: "r \<in> set (bt_threads d)" "thread_id r = i" "\<not> tw_purged r"
    using assms(2) by (rule GetThread_row)
  have "x = r" using assms(1) x r distinct_key_eq [of thread_id] by (auto simp: ids_ok_def)
  then show False using x(3) r(3) by simp
qed

lemma GetPost_row:
  assumes "GetPost i d = Some p"
  obtains r where "r \<in> set (bt_posts d)" and "scanPost d r = Some p" and "post_id r = i" and "po_id p = i"
    and "po_state p = po_state (pw_post r)" and "po_revision p = po_revision (pw_post r)"
    and "po_author p = po_author (pw_post r)" and "po_thread_id p = po_thread_id (pw_post r)"
    and "live_thread d p"
proof -
  have "p \<in> set (joined d)" "po_id p = i" "live_thread d p"
    using assms by (auto simp: GetPost_def dest: sel1_SomeD)
  then show ?thesis using that scanPost_Some unfolding joined_mem by metis
qed

lemma post_gone_iff:
  assumes "ids_ok d" and "r \<in> set (bt_posts d)"
  shows "purged_post (post_id r) d \<longleftrightarrow> po_state (pw_post r) = PostPurged"
    and "shown (post_id r) d \<longleftrightarrow> po_state (pw_post r) \<noteq> PostPurged"
  using assms distinct_key_eq [of post_id "bt_posts d"]
  by (auto simp: purged_post_def shown_def ids_ok_def)

section \<open>Calm changes\<close>

fun calm_change :: "bdb \<Rightarrow> change \<Rightarrow> bool" where
  "calm_change d (COutbox f) = True"
| "calm_change d (CAck a) = True"
| "calm_change d (CSubscribe s) = True"
| "calm_change d (CBoard b) = True"
| "calm_change d (CEvent e) = True"
| "calm_change d (CTouch t at) = (\<not> ThreadPurged t d)"
| "calm_change d (CThreadUpdate u) = (\<not> ThreadPurged (tu_id u) d)"
| "calm_change d (CNotice n) = (\<not> purged_post (no_post_id n) d)"
| "calm_change d _ = False"

lemma calm_change_cong: "calm d d' \<Longrightarrow> calm_change d' c \<longleftrightarrow> calm_change d c"
  by (cases c) (simp_all add: calm_ThreadPurged calm_purged_post)

lemma calm_same:
  "bt_revisions d' = bt_revisions d \<Longrightarrow> bt_operations d' = bt_operations d \<Longrightarrow> bt_posts d' = bt_posts d
    \<Longrightarrow> bt_threads d' = bt_threads d \<Longrightarrow> bt_notices d' = bt_notices d \<Longrightarrow> calm d d'"
  by (auto simp: calm_def intro: exI [of _ "[]"])

lemma calm_sync:
  "calm d (set_post i (\<lambda>p. p\<lparr>po_sync := s\<rparr>) d)"
proof -
  have "map post_core (bt_posts (set_post i (\<lambda>p. p\<lparr>po_sync := s\<rparr>) d)) = map post_core (bt_posts d)"
    unfolding set_post_posts by (rule map_upd_same) (simp add: post_core_def)
  then show ?thesis by (auto simp: calm_def set_post_posts intro: exI [of _ "[]"])
qed

lemma calm_set_thread:
  assumes "\<not> ThreadPurged i d" and "\<And>t. th_id (f t) = th_id t"
  shows "calm d (set_thread i f d)"
proof -
  have "map thread_core (bt_threads (set_thread i f d)) = map thread_core (bt_threads d)"
    using assms by (auto simp: set_thread_def upd_def thread_core_def ThreadPurged_def list_ex_iff)
  then show ?thesis by (auto simp: calm_def set_thread_def intro: exI [of _ "[]"])
qed

lemma insert_if_Inr [simp]: "insert_if ok d = Inr d' \<longleftrightarrow> ok \<and> d' = d"
  by (auto simp: insert_if_def)

lemma apply_calm:
  assumes "apply_change c d = Inr d'" and "calm_change d c"
  shows "calm d d'"
proof (cases c)
  case (COutbox f)
  let ?row = "\<lparr>xw_id = Suc (bt_outbox_seq d), xw_file = f, xw_pending = True, xw_commit = ''''\<rparr>"
  let ?d = "d\<lparr>bt_outbox := bt_outbox d @ [?row], bt_outbox_seq := Suc (bt_outbox_seq d)\<rparr>"
  have "calm d ?d" by (rule calm_same) simp_all
  moreover have "calm ?d (set_post (of_post_id f) (\<lambda>p. p\<lparr>po_sync := ''pending_push''\<rparr>) ?d)" by (rule calm_sync)
  ultimately have "calm d (set_post (of_post_id f) (\<lambda>p. p\<lparr>po_sync := ''pending_push''\<rparr>) ?d)" by (rule calm_trans)
  moreover have "d' = ?d \<or> d' = set_post (of_post_id f) (\<lambda>p. p\<lparr>po_sync := ''pending_push''\<rparr>) ?d"
    using assms(1) COutbox by (auto simp: Let_def split: if_splits)
  ultimately show ?thesis using \<open>calm d ?d\<close> by blast
next
  case (CThreadUpdate u)
  show ?thesis
    using assms unfolding CThreadUpdate apply_change.simps calm_change.simps sum.inject
    by - (erule subst, rule calm_set_thread, simp_all)
next
  case (CTouch t at)
  show ?thesis
    using assms unfolding CTouch apply_change.simps calm_change.simps sum.inject
    by - (erule subst, rule calm_set_thread, simp_all)
next
  case (CNotice n)
  have "d' = d \<or> has_post (no_post_id n) d \<and> d' = d\<lparr>bt_notices := bt_notices d @ [stored_notice n]\<rparr>"
    using assms(1) CNotice by (simp split: if_splits)
  then consider "d' = d" | "has_post (no_post_id n) d" "d' = d\<lparr>bt_notices := bt_notices d @ [stored_notice n]\<rparr>"
    by blast
  then show ?thesis
  proof cases
    case 1
    then show ?thesis by (simp add: calm_refl)
  next
    case 2
    then have "shown (no_post_id n) d"
      using assms(2) CNotice by (auto simp: shown_def has_post_def purged_post_def list_ex_iff)
    then show ?thesis using 2(2)
      by (auto simp: calm_def stored_notice_def intro!: exI [of _ "[stored_notice n]"])
  qed
next
  case (CSubscribe s)
  then show ?thesis using assms by (auto intro!: calm_same split: prod.splits if_splits)
qed (use assms in \<open>auto intro!: calm_same split: if_splits\<close>)

lemma apply_changes_append:
  "apply_changes (a @ b) d = bindR (apply_changes a d) (apply_changes b)"
  by (induction a arbitrary: d) (auto simp: bindR_def split: sum.split)

lemma apply_all_calm:
  assumes "apply_changes cs d = Inr d'" and "list_all (calm_change d) cs"
  shows "calm d d'"
  using assms
proof (induction cs arbitrary: d)
  case (Cons c cs)
  then obtain d1 where d1: "apply_change c d = Inr d1" "apply_changes cs d1 = Inr d'" by auto
  then have "calm d d1" using apply_calm Cons.prems(2) by auto
  moreover have "calm d1 d'"
    using Cons.IH [OF d1(2)] Cons.prems(2) calm_change_cong [OF calculation] by (simp add: list_all_iff)
  ultimately show ?case by (rule calm_trans)
qed (simp add: calm_refl)

lemma calm_units: "calm d d' \<Longrightarrow> units d d'"
  by (simp add: r_into_rtranclp unit_step.calmly)

lemma unit_then_calm:
  assumes "unit_step d d1" and "apply_changes cs d1 = Inr d'" and "list_all (calm_change d1) cs"
  shows "units d d' \<and> calm d1 d'"
  using apply_all_calm [OF assms(2,3)] assms(1) calm_units by (blast intro: converse_rtranclp_into_rtranclp)

section \<open>Changes that are units\<close>

lemma apply_open:
  "apply_changes (CThread t # cs) d = Inr d' \<longleftrightarrow>
     \<not> has_thread (th_id t) d \<and> has_board (th_board t) d \<and> apply_changes cs (open_row t d) = Inr d'"
  by (auto simp: open_row_def insert_if_def)

lemma apply_post:
  assumes "rv_post_id v = po_id p" and "history_ok d"
  shows "apply_changes (CPost p # CRevision v # cs) d = Inr d' \<longleftrightarrow>
     \<not> has_post (po_id p) d \<and> has_thread (po_thread_id p) d \<and> apply_changes cs (post_rows p v d) = Inr d'"
proof -
  have "\<not> list_ex (\<lambda>x. rv_post_id x = po_id p \<and> rv_revision x = rv_revision v) (bt_revisions d)"
    if "\<not> has_post (po_id p) d"
    using assms(2) that by (auto simp: history_ok_def has_post_def list_ex_iff)
  then show ?thesis
    using assms(1) by (auto simp: post_rows_def insert_if_def has_post_def stored_post_def)
qed

lemma apply_revise:
  assumes "rv_post_id v = i"
  shows "apply_changes (CRevision v # CPostState \<lparr>ps_post_id = i, ps_state = PostVisible, ps_revision = rv_revision v,
           ps_note = '''', ps_edited_at = e\<rparr> # cs) d = Inr d' \<longleftrightarrow>
     \<not> list_ex (\<lambda>x. rv_post_id x = i \<and> rv_revision x = rv_revision v) (bt_revisions d) \<and> has_post i d
     \<and> apply_changes cs (revise_rows i v e d) = Inr d'"
  using assms by (auto simp: insert_if_def revise_rows_def)

lemma apply_withdraw:
  "apply_changes (CPostState \<lparr>ps_post_id = i, ps_state = s, ps_revision = n, ps_note = note, ps_edited_at = e\<rparr> # cs) d
     = apply_changes cs (withdraw_row i s n note e d)"
  by (simp add: withdraw_row_def)

lemma set_post_state:
  assumes "\<And>p. po_id (f p) = po_id p" and "\<And>p. po_state (f p) \<noteq> PostPurged"
  shows "\<not> purged_post i (set_post i f d)" and "ThreadPurged t (set_post i f d) = ThreadPurged t d"
proof -
  show "\<not> purged_post i (set_post i f d)"
  proof
    assume "purged_post i (set_post i f d)"
    then obtain r where "post_id (if post_id r = i then r\<lparr>pw_post := f (pw_post r)\<rparr> else r) = i"
      "po_state (pw_post (if post_id r = i then r\<lparr>pw_post := f (pw_post r)\<rparr> else r)) = PostPurged"
      unfolding purged_post_def set_post_posts set_upd by blast
    then show False using assms by (simp split: if_splits)
  qed
  show "ThreadPurged t (set_post i f d) = ThreadPurged t d" by (simp add: ThreadPurged_def set_post_posts)
qed

lemma post_rows_purged:
  assumes "\<not> has_post (po_id p) d" and "po_state p = PostVisible"
  shows "\<not> purged_post (po_id p) (post_rows p v d)" and "ThreadPurged t (post_rows p v d) = ThreadPurged t d"
  using assms by (simp_all add: purged_post_def ThreadPurged_def post_rows_def has_post_def list_ex_iff stored_post_def)

lemma open_row_purged:
  "ThreadPurged i (open_row t d) = ThreadPurged i d" "has_post i (open_row t d) = has_post i d"
  by (simp_all add: ThreadPurged_def open_row_def stored_thread_def has_post_def)

text \<open>Notices of a write are about its own post.\<close>

definition notice_about :: "string \<Rightarrow> change \<Rightarrow> bool" where
  "notice_about i c = (\<exists>n. c = CNotice n \<and> no_post_id n = i)"

lemma notices_about:
  "list_all (notice_about (po_id p)) (number_notices cfg w k t p xs)"
  "list_all (notice_about (po_id p)) (noticesFor cfg w k t p reason replyTo d)"
  "list_all (notice_about (po_id p)) (mentionNotices cfg w k t p ms)"
proof -
  show *: "list_all (notice_about (po_id p)) (number_notices cfg w k t p xs)" for xs
    by (induction xs arbitrary: k) (auto simp: notice_about_def notice_for_def Let_def)
  show "list_all (notice_about (po_id p)) (noticesFor cfg w k t p reason replyTo d)"
    "list_all (notice_about (po_id p)) (mentionNotices cfg w k t p ms)"
    unfolding noticesFor_def mentionNotices_def by (rule *)+
qed

lemma local_notices_about:
  "list_all (notice_about i) cs \<Longrightarrow> list_all (notice_about i) (localNotices cfg f cs)"
proof (induction cs)
  case (Cons c cs)
  then show ?case
    by (auto simp: localNotices_def List.map_filter_simps local_notice_def notice_about_def split: option.split if_splits)
qed (simp add: localNotices_def List.map_filter_simps)

lemma notice_about_calm: "list_all (notice_about i) cs \<Longrightarrow> \<not> purged_post i d \<Longrightarrow> list_all (calm_change d) cs"
  by (auto simp: list_all_iff notice_about_def)

section \<open>One write\<close>

definition is_outbox :: "change \<Rightarrow> bool" where
  "is_outbox c = (\<exists>f. c = COutbox f)"

lemma outbox_calm: "list_all is_outbox cs \<Longrightarrow> list_all (calm_change d) cs"
  by (auto simp: list_all_iff is_outbox_def)

lemma share_change_outbox: "share_change cfg w cs d c = Inr out \<Longrightarrow> list_all is_outbox out"
proof (cases c)
  case (CRevision r)
  moreover assume "share_change cfg w cs d c = Inr out"
  ultimately show ?thesis
    by (auto simp: share_revision_def Let_def list_all_iff is_outbox_def outbox_def bindR_Inr_iff split: option.splits if_splits)
next
  case (CEvent e)
  moreover assume "share_change cfg w cs d c = Inr out"
  ultimately show ?thesis
    by (auto simp: share_event_def Let_def is_outbox_def outbox_def split: option.splits if_splits)
qed (auto simp: is_outbox_def outbox_def Let_def split: if_splits)

lemma share_all_outbox: "share_all cfg w cs d xs = Inr out \<Longrightarrow> list_all is_outbox out"
  by (induction xs arbitrary: out) (auto simp: bindR_Inr_iff dest: share_change_outbox)

lemma share_appends:
  assumes "share cfg w cs d = Inr cs'"
  obtains out where "cs' = cs @ out" and "list_all is_outbox out"
  using assms share_all_outbox by (auto simp: share_def)

text \<open>
  How a write under its operation id ends, when it does not fail: a receipt answers it and nothing
  changes, or the changes and the receipt are committed.
\<close>

lemma do_write_cases:
  assumes "do_write cfg w operation hash run d = Inr ((res, replayed), d')"
  obtains (replay) row where "replayed" and "d' = d" and "Receipt (TrimSpace operation) d = Some row"
      and "ow_request_hash row = hash" and "ow_result row = Some res" and "\<not> ow_purged row"
  | (fresh) cs out d1 where "\<not> replayed" and "Receipt (TrimSpace operation) d = None" and "run d = Inr (res, cs)"
      and "list_all is_outbox out" and "apply_changes (cs @ out) d = Inr d1"
      and "\<not> has_operation (TrimSpace operation) d1"
      and "d' = receipt_row \<lparr>ow_operation_id = TrimSpace operation, ow_request_hash = hash, ow_result = Some res,
                              ow_created_at = w_now w, ow_purged = False\<rparr> d1"
proof (cases "Receipt (TrimSpace operation) d")
  case (Some row)
  then show ?thesis
    using assms replay by (auto simp: do_write_def Let_def split: if_splits option.splits)
next
  case None
  then obtain cs cs' d1 where run: "run d = Inr (res, cs)" "share cfg w cs d = Inr cs'" "apply_changes cs' d = Inr d1"
    and r: "insert_receipt \<lparr>rc_operation_id = TrimSpace operation, rc_request_hash = hash, rc_result = res,
                     rc_created_at = w_now w, rc_purged = False\<rparr> d1 = Inr d'" "\<not> replayed"
    using assms by (auto simp: do_write_def Let_def Apply_def bindR_Inr_iff split: if_splits)
  obtain out where "cs' = cs @ out" "list_all is_outbox out" using run(2) by (rule share_appends)
  then show ?thesis using fresh run r None by (auto simp: insert_receipt_def receipt_row_def)
qed

text \<open>A run is sound when its changes are units that end where its result may be told.\<close>

definition sound_run :: "(bdb \<Rightarrow> board_error + op_result \<times> change list) \<Rightarrow> bool" where
  "sound_run run = (\<forall>d res cs out d'. board_inv d \<and> run d = Inr (res, cs) \<and> list_all is_outbox out
     \<and> apply_changes (cs @ out) d = Inr d' \<longrightarrow> units d d' \<and> result_ok d' res)"

lemma sound_runI:
  assumes "\<And>d res cs out d'. board_inv d \<Longrightarrow> run d = Inr (res, cs) \<Longrightarrow> list_all is_outbox out
     \<Longrightarrow> apply_changes (cs @ out) d = Inr d' \<Longrightarrow> units d d' \<and> result_ok d' res"
  shows "sound_run run"
  using assms by (auto simp: sound_run_def)

lemma do_write_units:
  assumes "sound_run run" and "board_inv d" and "do_write cfg w operation hash run d = Inr ((res, replayed), d')"
  shows "units d d'"
  using assms(3)
proof (cases rule: do_write_cases)
  case (fresh cs out d1)
  then have "units d d1 \<and> result_ok d1 res" using assms(1,2) by (auto simp: sound_run_def)
  then show ?thesis using fresh(7) unit_step.receipted by (force intro: rtranclp.rtrancl_into_rtrancl)
qed simp

end
