(* ===== verification/Board_Ops.thy ===== *)
theory Board_Ops
  imports Board_Runs
begin

text \<open>
  Each operation of the board service is a sequence of units: the writes under a receipt, the
  acknowledgements and subscriptions, and the files of other sites.
\<close>

section \<open>Writes that share a shape\<close>

lemma calm_result_ok: "calm d d' \<Longrightarrow> result_ok d' r = result_ok d r"
  by (rule result_ok_cong) (simp_all add: calm_ThreadPurged calm_purged_post)

lemma sound_calm:
  assumes "\<And>d res cs. board_inv d \<Longrightarrow> run d = Inr (res, cs) \<Longrightarrow> list_all (calm_change d) cs \<and> result_ok d res"
  shows "sound_run run"
proof (rule sound_runI)
  fix d res cs out d'
  assume a: "board_inv d" "run d = Inr (res, cs)" "list_all is_outbox out" "apply_changes (cs @ out) d = Inr d'"
  then have "list_all (calm_change d) (cs @ out)" "result_ok d res" using assms outbox_calm by auto
  then show "units d d' \<and> result_ok d' res"
    using apply_all_calm [OF a(4)] calm_units calm_result_ok by blast
qed

definition live :: "string \<Rightarrow> string \<Rightarrow> bdb \<Rightarrow> bool" where
  "live t i d = (\<not> ThreadPurged t d \<and> \<not> purged_post i d)"

lemma calm_live: "calm d d' \<Longrightarrow> live t i d' = live t i d"
  by (simp add: live_def calm_ThreadPurged calm_purged_post)

text \<open>\<open>rest\<close> are changes that are calm as long as the thread and the post are not purged.\<close>

definition calm_while_live :: "string \<Rightarrow> string \<Rightarrow> change list \<Rightarrow> bool" where
  "calm_while_live t i rest = (\<forall>d. live t i d \<longrightarrow> list_all (calm_change d) rest)"

lemma calm_while_live_simps [simp]:
  "calm_while_live t i []"
  "calm_while_live t i (a @ b) \<longleftrightarrow> calm_while_live t i a \<and> calm_while_live t i b"
  "calm_while_live t i (CTouch t x # rest) \<longleftrightarrow> calm_while_live t i rest"
  "calm_while_live t i (CEvent e # rest) \<longleftrightarrow> calm_while_live t i rest"
  "calm_while_live t i (CSubscribe s # rest) \<longleftrightarrow> calm_while_live t i rest"
  by (auto simp: calm_while_live_def live_def)

lemma calm_while_live_outbox [simp]: "list_all is_outbox cs \<Longrightarrow> calm_while_live t i cs"
  by (simp add: calm_while_live_def outbox_calm)

lemma calm_while_live_notices [simp]: "list_all (notice_about i) cs \<Longrightarrow> calm_while_live t i cs"
  by (simp add: calm_while_live_def live_def notice_about_calm)

lemma finish:
  assumes "unit_step d d1" and "live t i d1" and "apply_changes rest d1 = Inr d'" and "calm_while_live t i rest"
  shows "units d d' \<and> live t i d'"
  using unit_then_calm [OF assms(1,3)] assms(2,4) calm_live unfolding calm_while_live_def by blast

lemma posted_run:
  assumes inv: "board_inv d" and p: "plain_id (po_id p)" "po_state p = PostVisible" "po_revision p = 1"
    and v: "rv_post_id v = po_id p" "rv_revision v = 1" and live: "\<not> ThreadPurged (po_thread_id p) d"
    and run: "apply_changes (CPost p # CRevision v # rest) d = Inr d'"
    and rest: "calm_while_live (po_thread_id p) (po_id p) rest"
  shows "units d d' \<and> live (po_thread_id p) (po_id p) d'"
proof -
  have fresh: "\<not> has_post (po_id p) d" and run': "apply_changes rest (post_rows p v d) = Inr d'"
    using run inv apply_post [OF v(1)] unfolding board_inv_def by blast+
  have "unit_step d (post_rows p v d)" using fresh p live v by (intro unit_step.posted)
  moreover have "live (po_thread_id p) (po_id p) (post_rows p v d)"
    using fresh p(2) live by (simp add: live_def post_rows_purged)
  ultimately show ?thesis using finish run' rest by blast
qed

lemma revised_run:
  assumes "r \<in> set (bt_posts d)" and "po_state (pw_post r) = PostVisible" and i: "i = post_id r"
    and v: "rv_post_id v = i" "rv_revision v = po_revision (pw_post r) + 1" and n: "n = rv_revision v"
    and live: "\<not> ThreadPurged t d"
    and run: "apply_changes (CRevision v # CPostState \<lparr>ps_post_id = i, ps_state = PostVisible, ps_revision = n,
           ps_note = '''', ps_edited_at = e\<rparr> # rest) d = Inr d'"
    and rest: "calm_while_live t i rest"
  shows "units d d' \<and> live t i d'"
proof -
  have run': "apply_changes rest (revise_rows i v e d) = Inr d'"
    using run apply_revise [OF v(1)] unfolding n by blast
  have "unit_step d (revise_rows i v e d)" using assms(1-5) by (auto intro: unit_step.revised)
  moreover have "live t i (revise_rows i v e d)"
    using live unfolding live_def revise_rows_def
    by (simp add: set_post_state) (simp add: ThreadPurged_def)
  ultimately show ?thesis using finish run' rest by blast
qed

lemma withdrawn_run:
  assumes "r \<in> set (bt_posts d)" and "po_state (pw_post r) = PostVisible" and i: "i = post_id r"
    and "s \<in> {PostRetracted, PostHidden}" and "n = po_revision (pw_post r)" and live: "\<not> ThreadPurged t d"
    and run: "apply_changes (CPostState \<lparr>ps_post_id = i, ps_state = s, ps_revision = n,
           ps_note = note, ps_edited_at = e\<rparr> # rest) d = Inr d'"
    and rest: "calm_while_live t i rest"
  shows "units d d' \<and> live t i d'"
proof -
  have run': "apply_changes rest (withdraw_row i s n note e d) = Inr d'" using run unfolding apply_withdraw .
  have "unit_step d (withdraw_row i s n note e d)" using assms(1-5) by (auto intro: unit_step.withdrawn)
  moreover have "live t i (withdraw_row i s n note e d)"
    using live assms(4) unfolding live_def withdraw_row_def by (auto simp: set_post_state)
  ultimately show ?thesis using finish run' rest by blast
qed

section \<open>Reads of a write\<close>

lemma thread_of_live:
  assumes "board_inv d" and "thread_of i d = Inr t"
  shows "th_id t = i" and "\<not> ThreadPurged i d"
  using assms GetThread_id GetThread_live by (auto simp: thread_of_def board_inv_def)

lemma post_of_row:
  assumes "post_of i d = Inr p"
  obtains r where "r \<in> set (bt_posts d)" and "scanPost d r = Some p" and "post_id r = i" and "po_id p = i"
    and "po_state p = po_state (pw_post r)" and "po_revision p = po_revision (pw_post r)"
    and "po_author p = po_author (pw_post r)" and "po_thread_id p = po_thread_id (pw_post r)"
    and "po_state p \<noteq> PostPurged"
  using assms by (auto simp: post_of_def split: option.splits if_splits elim!: GetPost_row)

lemma authorsPost_found:
  assumes "authorsPost cfg w a i d = Inr (p, t)"
  obtains caller where "post_of i d = Inr p" and "thread_of (po_thread_id p) d = Inr t"
    and "author_of cfg w a = Inr caller" and "sameParticipant caller (po_author p)"
  using assms by (auto simp: authorsPost_def bindR_Inr_iff split: if_splits)

lemma moderated_found:
  assumes "moderated cfg w q d = Inr (person, p, t)"
  obtains "TrimSpace (ac_person (mo_actor q)) \<noteq> ''''" and "author_of cfg w (mo_actor q) = Inr person"
    and "post_of (mo_post q) d = Inr p" and "thread_of (po_thread_id p) d = Inr t"
  using assms by (auto simp: moderated_def bindR_Inr_iff split: if_splits)

section \<open>Writes under a receipt\<close>

lemma CreateBoard_sound: "sound_run (runCreateBoard cfg w q)"
  by (rule sound_calm) (auto simp: runCreateBoard_def Let_def bindR_Inr_iff split: if_splits)

lemma runOpenThread_Inr:
  assumes "runOpenThread cfg w q d = Inr (res, cs)"
  shows "\<exists>title a ms warnings. checkTitle (ot_title q) = Inr title \<and> author_of cfg w (ot_actor q) = Inr a
    \<and> resolveMentions cfg w (ot_body q) = (ms, warnings)
    \<and> (let t = new_thread cfg w q title a;
           p = new_post cfg w (fresh_id cfg w 1) (th_id t) '''' a (ot_body q) ms (ot_urgent q) (ot_kind q)
       in res = RPost \<lparr>pr_thread = Some t, pr_post = p, pr_warnings = warnings\<rparr>
          \<and> cs = [CThread t, CPost p, CRevision (first_revision p)] @ noticesFor cfg w 2 t p '''' [] d
              @ (if ot_no_subscribe q then []
                 else [CSubscribe \<lparr>su_participant = authorParticipant a, su_thread = th_id t, su_board = '''',
                                   su_created_at = w_now w\<rparr>]))"
  using assms by (cases "resolveMentions cfg w (ot_body q)") (auto simp: runOpenThread_def Let_def bindR_Inr_iff split: if_splits)

lemma runReply_Inr:
  assumes "runReply cfg w q d = Inr (res, cs)"
  shows "\<exists>t0 parent pa a ms warnings. thread_of (rp_thread q) d = Inr t0
    \<and> reply_parent t0 (rp_parent q) d = Inr (parent, pa) \<and> author_of cfg w (rp_actor q) = Inr a
    \<and> resolveMentions cfg w (rp_body q) = (ms, warnings)
    \<and> (let p = new_post cfg w (fresh_id cfg w 0) (th_id t0) parent a (rp_body q) ms (rp_urgent q) (rp_kind q);
           t = t0\<lparr>th_last_activity_at := w_now w, th_posts := th_posts t0 + 1\<rparr>
       in res = RPost \<lparr>pr_thread = Some t, pr_post = p, pr_warnings = warnings\<rparr>
          \<and> cs = [CPost p, CRevision (first_revision p), CTouch (th_id t) (w_now w)]
              @ noticesFor cfg w 1 t p ReasonReply (case pa of None \<Rightarrow> [] | Some x \<Rightarrow> [authorParticipant x]) d)"
  using assms by (cases "resolveMentions cfg w (rp_body q)") (auto simp: runReply_def Let_def bindR_Inr_iff)

lemma OpenThread_sound:
  assumes "siteName (cg_site cfg)"
  shows "sound_run (runOpenThread cfg w q)"
proof (rule sound_runI)
  fix d res cs out d'
  assume inv: "board_inv d" and run: "runOpenThread cfg w q d = Inr (res, cs)" and out: "list_all is_outbox out"
    and app: "apply_changes (cs @ out) d = Inr d'"
  obtain title a ms warnings t p rest where t_def: "t = new_thread cfg w q title a"
    and p_def: "p = new_post cfg w (fresh_id cfg w 1) (th_id t) '''' a (ot_body q) ms (ot_urgent q) (ot_kind q)"
    and res: "res = RPost \<lparr>pr_thread = Some t, pr_post = p, pr_warnings = warnings\<rparr>"
    and rest_def: "rest = noticesFor cfg w 2 t p '''' [] d
              @ (if ot_no_subscribe q then []
                 else [CSubscribe \<lparr>su_participant = authorParticipant a, su_thread = th_id t, su_board = '''',
                                   su_created_at = w_now w\<rparr>])"
    and cs: "cs = CThread t # CPost p # CRevision (first_revision p) # rest"
    using runOpenThread_Inr [OF run] unfolding Let_def by force
  have t: "th_id t = fresh_id cfg w 0" and p: "po_id p = fresh_id cfg w 1" "po_thread_id p = th_id t"
      "po_state p = PostVisible" "po_revision p = 1" by (simp_all add: t_def p_def new_thread_def new_post_def)
  have rest: "calm_while_live (th_id t) (po_id p) rest" using notices_about(2) [of p] by (simp add: rest_def)
  have a: "\<not> has_thread (th_id t) d" "apply_changes (CPost p # CRevision (first_revision p) # (rest @ out)) (open_row t d) = Inr d'"
    using app apply_open unfolding cs append_Cons by blast+
  have plain: "plain_id (th_id t)" "plain_id (po_id p)" using fresh_id_plain [OF assms] t p(1) by simp_all
  have inv': "board_inv (open_row t d)" by (rule opened_inv [OF inv a(1) plain(1)])
  have "\<not> ThreadPurged (th_id t) (open_row t d)"
    using a(1) unfolding open_row_purged by (auto simp: ThreadPurged_def has_thread_def list_ex_iff)
  then have "units (open_row t d) d' \<and> live (th_id t) (po_id p) d'"
    using posted_run [OF inv' plain(2) p(3,4) _ _ _ a(2)] rest out p(2) by (simp add: first_revision_def)
  moreover have "unit_step d (open_row t d)" using a(1) plain(1) by (rule unit_step.opened)
  ultimately show "units d d' \<and> result_ok d' res"
    using res by (auto simp: live_def intro: converse_rtranclp_into_rtranclp)
qed

lemma Reply_sound:
  assumes "siteName (cg_site cfg)"
  shows "sound_run (runReply cfg w q)"
proof (rule sound_runI)
  fix d res cs out d'
  assume inv: "board_inv d" and run: "runReply cfg w q d = Inr (res, cs)" and out: "list_all is_outbox out"
    and app: "apply_changes (cs @ out) d = Inr d'"
  obtain t0 parent pa a ms warnings p t rest where t0: "thread_of (rp_thread q) d = Inr t0"
    and p_def: "p = new_post cfg w (fresh_id cfg w 0) (th_id t0) parent a (rp_body q) ms (rp_urgent q) (rp_kind q)"
    and t_def: "t = t0\<lparr>th_last_activity_at := w_now w, th_posts := th_posts t0 + 1\<rparr>"
    and res: "res = RPost \<lparr>pr_thread = Some t, pr_post = p, pr_warnings = warnings\<rparr>"
    and rest_def: "rest = CTouch (th_id t) (w_now w)
              # noticesFor cfg w 1 t p ReasonReply (case pa of None \<Rightarrow> [] | Some x \<Rightarrow> [authorParticipant x]) d"
    and cs: "cs = CPost p # CRevision (first_revision p) # rest"
    using runReply_Inr [OF run] unfolding Let_def by force
  have p: "po_id p = fresh_id cfg w 0" "po_thread_id p = th_id t0" "po_state p = PostVisible" "po_revision p = 1"
    and t: "th_id t = th_id t0" by (simp_all add: t_def p_def new_post_def)
  have rest: "calm_while_live (th_id t0) (po_id p) rest" using notices_about(2) [of p] t by (simp add: rest_def)
  have "plain_id (po_id p)" using fresh_id_plain [OF assms] p(1) by simp
  moreover have "\<not> ThreadPurged (po_thread_id p) d" using thread_of_live [OF inv t0] p(2) by simp
  ultimately have "units d d' \<and> live (po_thread_id p) (po_id p) d'"
    using posted_run [OF inv _ p(3,4), of "first_revision p" "rest @ out" d'] app rest out p(2)
    by (simp add: cs first_revision_def)
  then show "units d d' \<and> result_ok d' res" using res t p(2) by (simp add: live_def)
qed


lemma runEdit_Inr:
  assumes "runEdit cfg w q d = Inr (res, cs)"
  shows "\<exists>p0 t0 ms warnings. authorsPost cfg w (ed_actor q) (ed_post q) d = Inr (p0, t0) \<and> po_state p0 = PostVisible
    \<and> resolveMentions cfg w (ed_body q) = (ms, warnings)
    \<and> (let r = \<lparr>rv_post_id = po_id p0, rv_revision = po_revision p0 + 1, rv_body = ed_body q,
                rv_mentions = ms, rv_model = editorModel (ed_actor q), rv_created_at = w_now w\<rparr>;
           p = p0\<lparr>po_revision := rv_revision r, po_body := ed_body q, po_mentions := ms,
                  po_edited_at := Some (w_now w)\<rparr>;
           t = t0\<lparr>th_last_activity_at := w_now w\<rparr>
       in res = RPost \<lparr>pr_thread = Some t, pr_post = p, pr_warnings = warnings\<rparr>
          \<and> cs = [CRevision r,
                  CPostState \<lparr>ps_post_id = po_id p0, ps_state = PostVisible, ps_revision = rv_revision r,
                              ps_note = '''', ps_edited_at = Some (w_now w)\<rparr>,
                  CTouch (th_id t) (w_now w)]
                 @ mentionNotices cfg w 0 t p (newly_mentioned (po_mentions p0) ms))"
  using assms by (cases "resolveMentions cfg w (ed_body q)") (auto simp: runEdit_def Let_def bindR_Inr_iff split: if_splits)

lemma Edit_sound: "sound_run (runEdit cfg w q)"
proof (rule sound_runI)
  fix d res cs out d'
  assume inv: "board_inv d" and run: "runEdit cfg w q d = Inr (res, cs)" and out: "list_all is_outbox out"
    and app: "apply_changes (cs @ out) d = Inr d'"
  obtain p0 t0 ms warnings v p t rest where found: "authorsPost cfg w (ed_actor q) (ed_post q) d = Inr (p0, t0)"
    and vis: "po_state p0 = PostVisible"
    and v: "v = \<lparr>rv_post_id = po_id p0, rv_revision = po_revision p0 + 1, rv_body = ed_body q,
                rv_mentions = ms, rv_model = editorModel (ed_actor q), rv_created_at = w_now w\<rparr>"
    and p: "p = p0\<lparr>po_revision := rv_revision v, po_body := ed_body q, po_mentions := ms, po_edited_at := Some (w_now w)\<rparr>"
    and t: "t = t0\<lparr>th_last_activity_at := w_now w\<rparr>"
    and res: "res = RPost \<lparr>pr_thread = Some t, pr_post = p, pr_warnings = warnings\<rparr>"
    and rest: "rest = CTouch (th_id t) (w_now w) # mentionNotices cfg w 0 t p (newly_mentioned (po_mentions p0) ms)"
    and cs: "cs = CRevision v # CPostState \<lparr>ps_post_id = po_id p0, ps_state = PostVisible, ps_revision = rv_revision v,
                              ps_note = '''', ps_edited_at = Some (w_now w)\<rparr> # rest"
    using runEdit_Inr [OF run] unfolding Let_def by force
  obtain caller where "post_of (ed_post q) d = Inr p0" and th: "thread_of (po_thread_id p0) d = Inr t0"
    using found by (rule authorsPost_found)
  then obtain r where r: "r \<in> set (bt_posts d)" "post_id r = ed_post q" "po_id p0 = ed_post q"
    "po_state p0 = po_state (pw_post r)" "po_revision p0 = po_revision (pw_post r)" by (blast elim: post_of_row)
  have same: "po_id p = po_id p0" "th_id t = th_id t0" by (simp_all add: p t)
  have live: "\<not> ThreadPurged (th_id t0) d" using thread_of_live [OF inv th] by simp
  have "calm_while_live (th_id t0) (po_id p0) (rest @ out)"
    using notices_about(3) [of p] out same by (simp add: rest)
  moreover have "po_id p0 = post_id r" "rv_post_id v = po_id p0" "rv_revision v = po_revision (pw_post r) + 1"
    using r by (simp_all add: v)
  ultimately have "units d d' \<and> live (th_id t0) (po_id p0) d'"
    using revised_run [OF r(1) _ _ _ _ refl live, of "po_id p0" v "Some (w_now w)" "rest @ out" d'] app vis r(4)
    by (simp add: cs)
  then show "units d d' \<and> result_ok d' res" using res same by (simp add: live_def)
qed

lemma withdraw_sound:
  assumes "\<And>d res cs. run d = Inr (res, cs) \<Longrightarrow> \<exists>p t s nt e ev. post_of i d = Inr p \<and> thread_of (po_thread_id p) d = Inr t
     \<and> po_state p = PostVisible \<and> s \<in> {PostRetracted, PostHidden}
     \<and> res = RPost \<lparr>pr_thread = Some t, pr_post = public (p\<lparr>po_state := s, po_note := nt\<rparr>), pr_warnings = []\<rparr>
     \<and> cs = [CPostState \<lparr>ps_post_id = po_id p, ps_state = s, ps_revision = po_revision p, ps_note = nt,
                         ps_edited_at = e\<rparr>, CEvent ev]"
  shows "sound_run run"
proof (rule sound_runI)
  fix d res cs out d'
  assume inv: "board_inv d" and run: "run d = Inr (res, cs)" and out: "list_all is_outbox out"
    and app: "apply_changes (cs @ out) d = Inr d'"
  obtain p t s nt e ev where post: "post_of i d = Inr p" and th: "thread_of (po_thread_id p) d = Inr t"
    and vis: "po_state p = PostVisible" and s: "s \<in> {PostRetracted, PostHidden}"
    and res: "res = RPost \<lparr>pr_thread = Some t, pr_post = public (p\<lparr>po_state := s, po_note := nt\<rparr>), pr_warnings = []\<rparr>"
    and cs: "cs = [CPostState \<lparr>ps_post_id = po_id p, ps_state = s, ps_revision = po_revision p, ps_note = nt,
                         ps_edited_at = e\<rparr>, CEvent ev]"
    using assms [OF run] by blast
  obtain r where r: "r \<in> set (bt_posts d)" "post_id r = i" "po_id p = i" "po_state p = po_state (pw_post r)"
    "po_revision p = po_revision (pw_post r)" using post by (blast elim: post_of_row)
  have "units d d' \<and> live (th_id t) (po_id p) d'"
    using withdrawn_run [OF r(1) _ _ s, of "po_id p" "po_revision p" "th_id t" nt e "CEvent ev # out" d']
      app vis r thread_of_live [OF inv th] out by (simp add: cs)
  moreover have "po_id (public (p\<lparr>po_state := s, po_note := nt\<rparr>)) = po_id p"
    by (simp add: public_def split: post_state.split)
  ultimately show "units d d' \<and> result_ok d' res" using res by (simp add: live_def)
qed

lemma Retract_sound: "sound_run (runRetract cfg w q)"
  by (rule withdraw_sound [where i = "mo_post q"])
    (auto simp: runRetract_def bindR_Inr_iff Let_def split: if_splits elim!: authorsPost_found)

lemma Hide_sound: "sound_run (runHide cfg w q)"
proof (rule withdraw_sound [where i = "mo_post q"])
  fix d res cs assume "runHide cfg w q d = Inr (res, cs)"
  then obtain person p t where m: "moderated cfg w q d = Inr (person, p, t)" and vis: "po_state p = PostVisible"
    and res: "res = RPost \<lparr>pr_thread = Some t, pr_post = public (p\<lparr>po_state := PostHidden\<rparr>), pr_warnings = []\<rparr>"
    and cs: "cs = [CPostState \<lparr>ps_post_id = po_id p, ps_state = PostHidden, ps_revision = po_revision p,
                              ps_note = po_note p, ps_edited_at = po_edited_at p\<rparr>,
                  CEvent (moderation_event cfg w t p ''hide'' (TrimSpace (mo_note q)) person)]"
    by (auto simp: runHide_def bindR_Inr_iff split: if_splits)
  have "public (p\<lparr>po_state := PostHidden\<rparr>) = public (p\<lparr>po_state := PostHidden, po_note := po_note p\<rparr>)"
    by (simp add: public_def)
  then show "\<exists>p t s nt e ev. post_of (mo_post q) d = Inr p \<and> thread_of (po_thread_id p) d = Inr t
     \<and> po_state p = PostVisible \<and> s \<in> {PostRetracted, PostHidden}
     \<and> res = RPost \<lparr>pr_thread = Some t, pr_post = public (p\<lparr>po_state := s, po_note := nt\<rparr>), pr_warnings = []\<rparr>
     \<and> cs = [CPostState \<lparr>ps_post_id = po_id p, ps_state = s, ps_revision = po_revision p, ps_note = nt,
                         ps_edited_at = e\<rparr>, CEvent ev]"
    using m vis res cs by (elim moderated_found) blast
qed

lemma Purge_sound: "sound_run (runPurge cfg w q)"
proof (rule sound_runI)
  fix d res cs out d'
  assume inv: "board_inv d" and run: "runPurge cfg w q d = Inr (res, cs)" and out: "list_all is_outbox out"
    and app: "apply_changes (cs @ out) d = Inr d'"
  obtain person p t where m: "moderated cfg w q d = Inr (person, p, t)" using run by (auto simp: runPurge_def bindR_Inr_iff)
  then have th: "thread_of (po_thread_id p) d = Inr t" by (rule moderated_found)
  let ?e = "moderation_event cfg w t p ''purge'' (TrimSpace (mo_note q)) person"
  have silent: "silent (tombstone i j k)" for i j k by (simp add: silent_def tombstone_def)
  have calm: "list_all (calm_change x) (CEvent ?e # out)" for x using outbox_calm [OF out] by simp
  show "units d d' \<and> result_ok d' res"
  proof (cases "po_id p = th_opening_post_id t")
    case True
    then have "res = RPost \<lparr>pr_thread = None, pr_post = tombstone (po_id p) (th_id t) '''', pr_warnings = []\<rparr>"
      and cs: "cs = [CScrubThread (th_id t), CEvent ?e]" using run m by (simp_all add: runPurge_def Let_def)
    moreover have "apply_changes (CEvent ?e # out) (scrubThread (th_id t) d) = Inr d'"
      using app by (simp add: cs split: if_splits)
    ultimately show ?thesis using unit_then_calm [OF unit_step.purged_whole _ calm] silent by simp
  next
    case False
    then have res: "res = RPost \<lparr>pr_thread = Some t, pr_post = tombstone (po_id p) (th_id t) (po_parent_id p), pr_warnings = []\<rparr>"
      and cs: "cs = [CScrubPost (po_id p), CEvent ?e]" using run m by (simp_all add: runPurge_def Let_def)
    have "apply_changes (CEvent ?e # out) (scrubPost (po_id p) d) = Inr d'"
      using app by (simp add: cs split: if_splits)
    then have u: "units d d' \<and> calm (scrubPost (po_id p) d) d'" using unit_then_calm [OF unit_step.purged _ calm] by blast
    have "ThreadPurged x (scrubPost i d) = ThreadPurged x d" for x i
      by (simp add: ThreadPurged_def scrubPost_def scrubOutbox_def scrub_def scrubReceipts_def)
    then have "\<not> ThreadPurged (th_id t) d'" using u calm_ThreadPurged [of "scrubPost (po_id p) d"] thread_of_live [OF inv th] by simp
    then show ?thesis using u res silent by simp
  qed
qed

lemma threadChange_sound:
  assumes "\<And>who t d t'. change who t d = Inr t' \<Longrightarrow> th_id t' = th_id t"
  shows "sound_run (runThreadChange cfg w verb q change)"
proof (rule sound_calm)
  fix d res cs assume inv: "board_inv d" and "runThreadChange cfg w verb q change d = Inr (res, cs)"
  then obtain t0 who t e where t: "thread_of (tq_thread q) d = Inr t0" "change who t0 d = Inr t"
    and r: "res = RThread t" "cs = [CThreadUpdate (update_of t), CEvent e]"
    by (auto simp: runThreadChange_def bindR_Inr_iff Let_def)
  have "\<not> ThreadPurged (th_id t) d" using thread_of_live [OF inv t(1)] assms [OF t(2)] by simp
  then show "list_all (calm_change d) cs \<and> result_ok d res" using r by (simp add: update_of_def)
qed

lemma settle_keeps_id: "settle_thread w q who t d = Inr t' \<Longrightarrow> th_id t' = th_id t"
  by (auto simp: settle_thread_def Let_def split: if_splits)

lemma rename_keeps_id: "rename_thread q who t d = Inr t' \<Longrightarrow> th_id t' = th_id t"
  by (auto simp: rename_thread_def retitle_def bindR_Inr_iff)

lemma close_keeps_id: "close_thread q who t d = Inr t' \<Longrightarrow> th_id t' = th_id t"
  by (auto simp: close_thread_def bindR_Inr_iff)

lemmas sound_threadChange = threadChange_sound [OF settle_keeps_id] threadChange_sound [OF rename_keeps_id]
  threadChange_sound [OF close_keeps_id]


section \<open>Writes without a receipt\<close>

lemma Apply_None: "Apply None cs d = Inr d' \<longleftrightarrow> apply_changes cs d = Inr d'"
  by (auto simp: Apply_def bindR_Inr_iff)

lemma Ack_calm:
  assumes "Ack cfg w a i d = Inr (x, d')"
  shows "calm d d'"
proof -
  have "d' = d \<or> (\<exists>p t who ak. apply_changes (CAck ak # shareAck cfg w p t who d) d = Inr d')"
    using assms by (auto simp: Ack_def bindR_Inr_iff Apply_None Let_def split: if_splits simp del: apply_changes.simps)
  moreover have "list_all (calm_change d) (CAck ak # shareAck cfg w p t who d)" for p t who ak
    by (simp add: shareAck_def outbox_def Let_def)
  ultimately show ?thesis using apply_all_calm calm_refl by blast
qed

lemma Subscribe_calm: "Subscribe cfg w q d = Inr (s, d') \<Longrightarrow> calm d d'"
  unfolding Subscribe_def bindR_Inr_iff Apply_None using apply_all_calm by fastforce

lemma Unsubscribe_calm: "Unsubscribe cfg w q d = Inr (s, d') \<Longrightarrow> calm d d'"
  by (auto simp: Unsubscribe_def bindR_Inr_iff StoreUnsubscribe_def split: prod.splits intro!: calm_same)

lemma MarkRead_calm: "MarkRead cfg w a t i d = Inr d' \<Longrightarrow> calm d d'"
  by (auto simp: MarkRead_def StoreMarkRead_def bindR_Inr_iff split: option.splits if_splits intro!: calm_same)

lemma UpdateNotice_calm: "calm d (UpdateNotice n d)"
proof -
  have "map notice_core (bt_notices (UpdateNotice n d)) = map notice_core (bt_notices d)"
    unfolding UpdateNotice_def by simp (rule map_upd_same, simp add: notice_core_def record_attempt_def)
  then show ?thesis by (auto simp: calm_def UpdateNotice_def intro: exI [of _ "[]"])
qed

lemma OutboxDone_calm: "calm d (OutboxDone ids commit d)"
proof -
  have "map post_core (bt_posts (OutboxDone ids commit d)) = map post_core (bt_posts d)"
    unfolding OutboxDone_def Let_def by simp (rule map_upd_same, simp add: post_core_def)
  then show ?thesis by (auto simp: calm_def OutboxDone_def Let_def intro: exI [of _ "[]"])
qed

lemma sync_calm: "calm d (PutSyncState s d)" "calm d (AddFlag f d)" "calm d (PutAttachment a d)"
  by (auto simp: PutSyncState_def AddFlag_def PutAttachment_def intro: calm_same)

lemma media_calm:
  "Upload cfg w tools name data (d, fs) = Inr (a, d', fs') \<Longrightarrow> calm d d'"
  "Release cfg w tools who ref (d, fs) = Inr (a, d', fs') \<Longrightarrow> calm d d'"
  "Drop cfg w who ref (d, fs) = Inr (a, d', fs') \<Longrightarrow> calm d d'"
  by (auto simp: Upload_def Release_def Drop_def Let_def bindR_Inr_iff calm_refl sync_calm split: option.splits if_splits)

lemma purge_blob_calm: "calm d (purge_blob h d)"
  by (rule calm_same) (simp_all add: purge_blob_def scrubOutbox_def)

lemma drop_ref_calm: "calm d (drop_ref ref d)"
proof -
  have "calm d (DeleteAttachment a d)" for a
    unfolding DeleteAttachment_def
    by (rule calm_trans [OF _ purge_blob_calm], rule calm_trans [OF _ purge_blob_calm], rule calm_same) simp_all
  then show ?thesis by (simp add: drop_ref_def calm_refl split: option.split)
qed

lemma dropUnreferenced_calm: "calm d (dropUnreferenced cfg refs d)"
proof -
  have "calm d (fold drop_ref refs d)"
    by (induction refs arbitrary: d) (auto simp: calm_refl intro: calm_trans [OF drop_ref_calm])
  then show ?thesis by (simp add: dropUnreferenced_def calm_refl)
qed

section \<open>Files of other sites\<close>

lemma classified_ids:
  assumes "ClassifyPath path = Some f"
  shows "f = ThreadPath b t \<Longrightarrow> plain_id t" and "f = PostPath b t i n \<Longrightarrow> plain_id i"
proof -
  have post: "idForm i" if "post_name s = Some (i, n)" for s i n
    using that by (auto simp: post_name_def split: prod.splits if_splits list.splits)
  have "(\<forall>b t. f = ThreadPath b t \<longrightarrow> idForm t) \<and> (\<forall>b t i n. f = PostPath b t i n \<longrightarrow> idForm i)"
    using assms post
    by (auto simp: ClassifyPath_def classify_thread_file_def split: list.splits if_splits option.splits prod.splits)
  then show "f = ThreadPath b t \<Longrightarrow> plain_id t" "f = PostPath b t i n \<Longrightarrow> plain_id i"
    using idForm_plain by blast+
qed

lemma applyBoard_calm:
  assumes "applyBoard rd f b d = Inr d'"
  shows "calm d d'"
proof -
  have "d' = d \<or> (\<exists>x. apply_changes [CBoard x] d = Inr d')"
    using assms by (auto simp: applyBoard_def Apply_None split: option.splits if_splits simp del: apply_changes.simps)
  then show ?thesis using apply_all_calm [of "[CBoard x]" for x] calm_refl by auto
qed

lemma applyThread_units:
  assumes "applyThread rd f b t d = Inr d'" and "plain_id t"
  shows "units d d'"
proof -
  have "d' = d \<or> (\<exists>x. th_id x = t \<and> apply_changes [CThread x] d = Inr d')"
    using assms(1)
    by (auto simp: applyThread_def Apply_None bindR_Inr_iff split: option.splits if_splits simp del: apply_changes.simps)
  then show ?thesis
  proof (elim disjE exE conjE)
    fix x assume x: "th_id x = t" "apply_changes [CThread x] d = Inr d'"
    then have "\<not> has_thread (th_id x) d" "d' = open_row x d" using apply_open [of x "[]" d d'] by auto
    then show ?thesis using unit_step.opened assms(2) x(1) by blast
  qed simp
qed

lemma applyNewPost_units:
  assumes inv: "board_inv d" and "plain_id (pf_id h)" and "GetThread (pf_thread h) d = Some t" and "pf_revision h = 1"
    and "applyNewPost cfg w f t h body d = Inr d'"
  shows "units d d'"
proof -
  let ?p = "remote_post h body" and ?v = "remote_revision h body"
  have t: "th_id t = pf_thread h" "\<not> ThreadPurged (pf_thread h) d"
    using GetThread_id [OF assms(3)] GetThread_live assms(3) inv by (auto simp: board_inv_def)
  define ns where "ns = (if history f (pf_created_at h) then []
    else localNotices cfg f (noticesFor cfg w 0 t ?p ReasonReply (remote_parent h d) d))"
  have about: "list_all (notice_about (po_id ?p)) ns"
    using local_notices_about [OF notices_about(2)] by (simp add: ns_def)
  have app: "apply_changes (CPost ?p # CRevision ?v # CTouch (th_id t) (max (th_last_activity_at t) (pf_created_at h)) # ns) d = Inr d'"
    using assms(5) by (simp only: applyNewPost_def Apply_None Let_def ns_def append_Cons append_Nil)
  have p: "po_id ?p = pf_id h" "po_thread_id ?p = pf_thread h" "po_state ?p = PostVisible" "po_revision ?p = 1"
    "rv_post_id ?v = pf_id h" "rv_revision ?v = pf_revision h"
    by (simp_all add: remote_post_def remote_revision_def)
  have "calm_while_live (po_thread_id ?p) (po_id ?p) (CTouch (th_id t) (max (th_last_activity_at t) (pf_created_at h)) # ns)"
    using about t(1) p by simp
  then show ?thesis using posted_run [OF inv _ p(3,4) _ _ _ app] assms(2,4) t(2) p by simp
qed

lemma applyRevision_units:
  assumes inv: "board_inv d" and "GetPost (pf_id h) d = Some p" and "po_state p = PostVisible"
    and "pf_revision h = po_revision p + 1" and "GetThread (pf_thread h) d = Some t"
    and "applyRevision cfg w f t h body p d = Inr d'"
  shows "units d d'"
proof -
  let ?v = "remote_revision h body"
  let ?p = "p\<lparr>po_body := body, po_mentions := pf_mentions h, po_revision := pf_revision h\<rparr>"
  have t: "th_id t = pf_thread h" "\<not> ThreadPurged (pf_thread h) d"
    using GetThread_id [OF assms(5)] GetThread_live assms(5) inv by (auto simp: board_inv_def)
  obtain r where r: "r \<in> set (bt_posts d)" "post_id r = pf_id h" "po_id p = pf_id h"
    "po_state p = po_state (pw_post r)" "po_revision p = po_revision (pw_post r)"
    using assms(2) by (blast elim: GetPost_row)
  define ns where "ns = (if history f (pf_created_at h) then []
    else localNotices cfg f (mentionNotices cfg w 0 t ?p (newly_mentioned (po_mentions p) (pf_mentions h))))"
  have about: "list_all (notice_about (po_id p)) ns"
    using local_notices_about [OF notices_about(3) [of ?p]] by (simp add: ns_def)
  have app: "apply_changes (CRevision ?v # CPostState \<lparr>ps_post_id = po_id p, ps_state = PostVisible, ps_revision = pf_revision h,
       ps_note = '''', ps_edited_at = Some (pf_created_at h)\<rparr>
       # CTouch (th_id t) (max (th_last_activity_at t) (pf_created_at h)) # ns) d = Inr d'"
    using assms(6) by (simp only: applyRevision_def Apply_None Let_def ns_def append_Cons append_Nil)
  have v: "rv_post_id ?v = pf_id h" "rv_revision ?v = pf_revision h" by (simp_all add: remote_revision_def)
  have "calm_while_live (pf_thread h) (po_id p) (CTouch (th_id t) (max (th_last_activity_at t) (pf_created_at h)) # ns)"
    using about t(1) by simp
  then show ?thesis using revised_run [OF r(1) _ _ _ _ _ t(2) app] assms(3,4) r v by simp
qed

lemma applyPost_units:
  assumes "board_inv d" and "plain_id i" and "applyPost cfg w rd f b t i n d = Inr d'"
  shows "units d d'"
proof -
  have "d' = d \<or> (\<exists>h body th. plain_id (pf_id h) \<and> GetThread (pf_thread h) d = Some th \<and>
      (pf_revision h = 1 \<and> applyNewPost cfg w f th h body d = Inr d'
       \<or> (\<exists>p. GetPost (pf_id h) d = Some p \<and> po_state p = PostVisible \<and> pf_revision h = po_revision p + 1
            \<and> applyRevision cfg w f th h body p d = Inr d')))"
    using assms(2,3) by (auto simp: applyPost_def bindR_Inr_iff split: option.splits if_splits)
  then show ?thesis using applyNewPost_units applyRevision_units assms(1) by blast
qed

lemma applyPurge_units:
  assumes "applyPurge cfg e t d = Inr d'"
  shows "units d d'"
proof -
  let ?e = "CEvent ((remote_event e)\<lparr>ev_note := ''''\<rparr>)"
  let ?whole = "ef_post e = '''' \<or> ef_post e = th_opening_post_id t"
  define c where "c = (if ?whole then CScrubThread (th_id t) else CScrubPost (ef_post e))"
  have c: "c \<in> {CScrubThread (th_id t), CScrubPost (ef_post e)}" by (simp add: c_def)
  obtain d1 refs where d1: "apply_changes [c, ?e] d = Inr d1" and d': "d' = dropUnreferenced cfg refs d1"
    using assms unfolding applyPurge_def Let_def bindR_Inr_iff Apply_None c_def by blast
  obtain d0 where "apply_change c d = Inr d0" and app: "apply_changes [?e] d0 = Inr d1"
    using d1 by (metis apply_changes.simps(2) bindR_Inr_iff)
  then have "unit_step d d0" using c by (auto split: if_splits intro: unit_step.intros)
  then have "units d d1" using unit_then_calm [OF _ app] by simp
  then show ?thesis using calm_units [OF dropUnreferenced_calm] unfolding d' by (rule rtranclp_trans)
qed

lemma event_changes_calm:
  assumes "event_changes rd f e t d = Inr (Some cs)" and "ef_type e \<noteq> ''retract''" and live: "\<not> ThreadPurged (th_id t) d"
  shows "list_all (calm_change d) cs"
proof -
  have upd: "tu_id (update_of x) = th_id x" "th_id (retitle title t) = th_id t" for x title
    by (simp_all add: update_of_def retitle_def)
  have "(\<exists>x. cs = [CThreadUpdate (update_of x)] \<and> th_id x = th_id t) \<or> (\<exists>a. cs = [CAck a])"
    using assms(1,2) by (auto simp: event_changes_def Let_def upd split: if_splits option.splits)
  then show ?thesis using live upd(1) by auto
qed

lemma event_changes_units:
  assumes inv: "board_inv d" and t: "GetThread (ef_thread e) d = Some t" and "event_changes rd f e t d = Inr (Some cs)"
    and app: "apply_changes (CEvent ev # cs) d = Inr d'"
  shows "units d d'"
proof -
  have live: "th_id t = ef_thread e" "\<not> ThreadPurged (ef_thread e) d"
    using GetThread_id [OF t] GetThread_live t inv by (auto simp: board_inv_def)
  show ?thesis
  proof (cases "ef_type e = ''retract''")
    case True
    then obtain p where p: "GetPost (ef_post e) d = Some p" "po_state p = PostVisible"
      and cs: "cs = [CPostState \<lparr>ps_post_id = po_id p, ps_state = PostRetracted, ps_revision = po_revision p,
               ps_note = ef_note e, ps_edited_at = po_edited_at p\<rparr>]"
      using assms(3) by (auto simp: event_changes_def split: if_splits option.splits)
    obtain d1 where d1: "apply_change (CEvent ev) d = Inr d1" "apply_changes cs d1 = Inr d'"
      using app by (metis apply_changes.simps(2) bindR_Inr_iff)
    have same: "bt_posts d1 = bt_posts d" "calm d d1" using d1(1) apply_calm [OF d1(1)] by auto
    obtain r where r: "r \<in> set (bt_posts d)" "post_id r = ef_post e" "po_id p = ef_post e" "po_state p = po_state (pw_post r)"
      "po_revision p = po_revision (pw_post r)" using p(1) by (blast elim: GetPost_row)
    have "d' = withdraw_row (post_id r) PostRetracted (po_revision (pw_post r)) (ef_note e) (po_edited_at p) d1"
      using d1(2) r unfolding cs apply_withdraw by simp
    then have "unit_step d1 d'" using unit_step.withdrawn [of r d1 PostRetracted] r p(2) same(1) by simp
    then show ?thesis using calm_units [OF same(2)] by (rule rtranclp.rtrancl_into_rtrancl [rotated])
  next
    case False
    have "list_all (calm_change d) (CEvent ev # cs)"
      using event_changes_calm [OF assms(3) False] live by simp
    then show ?thesis using apply_all_calm [OF app] calm_units by blast
  qed
qed

lemma applyEvent_units:
  assumes "board_inv d" and "applyEvent cfg rd f b t i d = Inr d'"
  shows "units d d'"
proof -
  have "d' = d \<or> (\<exists>e th. GetThread (ef_thread e) d = Some th \<and>
      (applyPurge cfg e th d = Inr d'
       \<or> (\<exists>cs. event_changes rd f e th d = Inr (Some cs) \<and> apply_changes (CEvent (remote_event e) # cs) d = Inr d')))"
    using assms(2)
    by (auto simp: applyEvent_def bindR_Inr_iff Apply_None split: option.splits if_splits simp del: apply_changes.simps)
  then show ?thesis using applyPurge_units event_changes_units assms(1) by blast
qed

lemma applyBlob_calm: "applyBlob cfg w tools f ref ext d = Inr d' \<Longrightarrow> calm d d'"
  by (auto simp: applyBlob_def calm_refl sync_calm split: if_splits sum.splits)

lemma ApplyRemote_units:
  assumes "board_inv d" and "ClassifyPath path = Some (rf_file f)" and "ApplyRemote cfg w rd tools f d = Inr d'"
  shows "units d d'"
  using assms(3) classified_ids [OF assms(2)] applyPost_units [OF assms(1)] applyThread_units
    applyEvent_units [OF assms(1)] calm_units applyBoard_calm applyBlob_calm
  by (auto simp: ApplyRemote_def split: if_splits repo_file.splits)

end
