(* ===== verification/Board_History.thy ===== *)
theory Board_History
  imports Board_Units
begin

text \<open>
  What no step of crew-board takes back: rows stay in their place, a post moves only forward through
  its states, a text stays as written unless its post is purged, a receipt stays unless what it tells of
  is purged.
\<close>

section \<open>How rows move\<close>

definition post_fixed :: "post_row \<Rightarrow> (string \<times> string \<times> string) \<times> (string \<times> string \<times> bool) \<times> time" where
  "post_fixed r =
     (let p = pw_post r
      in ((po_id p, po_thread_id p, po_parent_id p), (po_site p, po_kind p, po_urgent p), po_created_at p))"

definition state_moves :: "post_state \<Rightarrow> post_state \<Rightarrow> bool" where
  "state_moves s s' = (s = s' \<or> s = PostVisible \<or> s' = PostPurged)"

definition post_moves :: "post_row \<Rightarrow> post_row \<Rightarrow> bool" where
  "post_moves r r' =
     (post_fixed r' = post_fixed r \<and> po_revision (pw_post r) \<le> po_revision (pw_post r')
      \<and> state_moves (po_state (pw_post r)) (po_state (pw_post r'))
      \<and> (po_state (pw_post r') \<noteq> PostPurged \<longrightarrow> po_author (pw_post r') = po_author (pw_post r)))"

definition thread_moves :: "thread_row \<Rightarrow> thread_row \<Rightarrow> bool" where
  "thread_moves x x' = (thread_id x' = thread_id x \<and> (tw_purged x \<longrightarrow> tw_purged x'))"

definition receipt_moves :: "operation_row \<Rightarrow> operation_row \<Rightarrow> bool" where
  "receipt_moves x x' =
     (ow_operation_id x' = ow_operation_id x \<and> ow_request_hash x' = ow_request_hash x
      \<and> (x' = x \<or> ow_result x' = None \<and> ow_purged x'))"

interpretation bp: evolving_trans post_moves
proof
  fix a b c assume "post_moves a b" "post_moves b c"
  then show "post_moves a c" by (auto simp: post_moves_def state_moves_def)
qed (simp add: post_moves_def state_moves_def)

interpretation bt: evolving_trans thread_moves
  by unfold_locales (auto simp: thread_moves_def)

interpretation bo: evolving_trans receipt_moves
  by unfold_locales (auto simp: receipt_moves_def)

definition blanked :: "revision \<Rightarrow> revision" where
  "blanked v = v\<lparr>rv_body := '''', rv_mentions := []\<rparr>"

definition text_kept :: "bdb \<Rightarrow> revision \<Rightarrow> revision \<Rightarrow> bool" where
  "text_kept d' v v' = (v' = v \<or> v' = blanked v \<and> purged_post (rv_post_id v) d')"

definition kept :: "bdb \<Rightarrow> bdb \<Rightarrow> bool" where
  "kept d d' =
     (evolves post_moves (bt_posts d) (bt_posts d') \<and> evolves thread_moves (bt_threads d) (bt_threads d')
      \<and> evolves receipt_moves (bt_operations d) (bt_operations d')
      \<and> evolves (text_kept d') (bt_revisions d) (bt_revisions d'))"

lemma kept_purged_post: "kept d d' \<Longrightarrow> purged_post i d \<Longrightarrow> purged_post i d'"
  unfolding kept_def purged_post_def
  using evolves_mem by (fastforce simp: post_moves_def post_fixed_def state_moves_def Let_def)

lemma kept_ThreadPurged: "kept d d' \<Longrightarrow> ThreadPurged i d \<Longrightarrow> ThreadPurged i d'"
  unfolding kept_def ThreadPurged_def list_ex_iff
  using evolves_mem by (fastforce simp: thread_moves_def)

lemma kept_refl: "kept d d"
  unfolding kept_def
  by (simp add: bp.evolves_refl bt.evolves_refl bo.evolves_refl evolvesI text_kept_def)

lemma kept_trans:
  assumes "kept a b" and "kept b c"
  shows "kept a c"
proof -
  have ab: "evolves (text_kept b) (bt_revisions a) (bt_revisions b)"
    and bc: "evolves (text_kept c) (bt_revisions b) (bt_revisions c)" using assms by (simp_all add: kept_def)
  have "evolves (text_kept c) (bt_revisions a) (bt_revisions c)"
  proof (rule evolvesI)
    show "length (bt_revisions a) \<le> length (bt_revisions c)"
      using evolves_length [OF ab] evolves_length [OF bc] by simp
    fix k assume k: "k < length (bt_revisions a)"
    then have "text_kept b (bt_revisions a ! k) (bt_revisions b ! k)" "text_kept c (bt_revisions b ! k) (bt_revisions c ! k)"
      using evolves_nth [OF ab] evolves_nth [OF bc] evolves_length [OF ab] by simp_all
    then show "text_kept c (bt_revisions a ! k) (bt_revisions c ! k)"
      using kept_purged_post [OF assms(2)] by (auto simp: text_kept_def blanked_def)
  qed
  then show ?thesis
    using assms bp.evolves_trans bt.evolves_trans bo.evolves_trans unfolding kept_def by blast
qed

section \<open>Every unit keeps\<close>

lemma evolves_map_eq:
  assumes "map f t' = map f t" and "\<And>a b. f b = f a \<Longrightarrow> R a b"
  shows "evolves R t t'"
proof (rule evolvesI)
  have len: "length t' = length t" using assms(1) by (rule map_eq_imp_length_eq)
  then show "length t \<le> length t'" by simp
  fix i assume "i < length t"
  then show "R (t ! i) (t' ! i)" using assms len by (metis nth_map)
qed

lemma calm_kept:
  assumes "calm d d'"
  shows "kept d d'"
proof -
  have "post_moves r r'" if "post_core r' = post_core r" for r r'
    using that by (cases "pw_post r"; cases "pw_post r'")
      (simp add: post_core_def post_moves_def post_fixed_def state_moves_def Let_def)
  then have "evolves post_moves (bt_posts d) (bt_posts d')"
    using assms evolves_map_eq [of post_core] unfolding calm_def by blast
  moreover have "evolves thread_moves (bt_threads d) (bt_threads d')"
    using assms evolves_map_eq [of thread_core "bt_threads d'" "bt_threads d" thread_moves] unfolding calm_def
    by (simp add: thread_core_def thread_moves_def)
  ultimately show ?thesis
    using assms by (simp add: kept_def calm_def bo.evolves_refl evolvesI text_kept_def)
qed

lemma texts_refl: "evolves (text_kept d') vs (vs @ us)"
  by (rule evolvesI) (simp_all add: text_kept_def nth_append)

lemma set_post_kept:
  assumes "\<And>r. r \<in> set (bt_posts d) \<Longrightarrow> post_id r = i \<Longrightarrow> post_moves r (r\<lparr>pw_post := f (pw_post r)\<rparr>)"
  shows "kept d (set_post i f (d\<lparr>bt_revisions := bt_revisions d @ vs\<rparr>))"
proof -
  have "evolves post_moves (bt_posts d) (upd (\<lambda>r. post_id r = i) (\<lambda>r. r\<lparr>pw_post := f (pw_post r)\<rparr>) (bt_posts d))"
    using assms by (intro bp.evolves_upd)
  then show ?thesis
    by (simp add: kept_def set_post_posts bt.evolves_refl bo.evolves_refl texts_refl)
qed

lemma wipes_kept:
  assumes w: "wipes P ids d d'" and inv: "board_inv d" and "evolves thread_moves (bt_threads d) (bt_threads d')"
  shows "kept d d'"
proof -
  have "evolves post_moves (bt_posts d) (bt_posts d')"
    unfolding wipes_tables(1) [OF w]
    by (rule bp.evolves_upd) (simp add: post_moves_def post_fixed_def state_moves_def scrub_post_def Let_def)
  moreover have "evolves receipt_moves (bt_operations d) (bt_operations d')"
  proof -
    have "evolves receipt_moves ops (fold scrubReceipt ids ops)" for ops
    proof (induction ids arbitrary: ops)
      case (Cons i ids)
      have "evolves receipt_moves ops (scrubReceipt i ops)"
        unfolding scrubReceipt_def by (rule bo.evolves_upd) (simp add: receipt_moves_def)
      then show ?case using bo.evolves_trans Cons.IH by fastforce
    qed (simp add: bo.evolves_refl)
    then show ?thesis by (simp add: wipes_tables(4) [OF w])
  qed
  moreover have "evolves (text_kept d') (bt_revisions d) (bt_revisions d')"
  proof (rule evolvesI)
    show "length (bt_revisions d) \<le> length (bt_revisions d')" by (simp add: wipes_tables(2) [OF w])
    fix k assume k: "k < length (bt_revisions d)"
    let ?v = "bt_revisions d ! k"
    have row: "bt_revisions d' ! k = (if P (rv_post_id ?v) then blanked ?v else ?v)"
      using k by (simp add: wipes_tables(2) [OF w] upd_def blanked_def)
    have "\<exists>r\<in>set (bt_posts d). post_id r = rv_post_id ?v"
      using inv k nth_mem unfolding board_inv_def history_ok_def by blast
    then have "has_post (rv_post_id ?v) d" by (auto simp: has_post_def list_ex_iff)
    then show "text_kept d' ?v (bt_revisions d' ! k)"
      using wipes_purged_post [OF w] by (simp add: row text_kept_def)
  qed
  ultimately show ?thesis using assms(3) by (simp add: kept_def)
qed

lemma unit_step_kept: "unit_step d d' \<Longrightarrow> board_inv d \<Longrightarrow> kept d d'"
proof (induction rule: unit_step.induct)
  case (calmly d d')
  then show ?case by (simp add: calm_kept)
next
  case (opened t d)
  then show ?case
    by (simp add: kept_def open_row_def bp.evolves_refl bt.evolves_append bo.evolves_refl evolvesI text_kept_def)
next
  case (posted p d v)
  then show ?case
    by (simp add: kept_def post_rows_def bp.evolves_append bt.evolves_refl bo.evolves_refl texts_refl)
next
  case (revised r d v e)
  have same: "r' = r" if "r' \<in> set (bt_posts d)" "post_id r' = post_id r" for r'
    using revised that distinct_key_eq [of post_id] by (auto simp: board_inv_def ids_ok_def)
  have "post_moves r (r\<lparr>pw_post := (pw_post r)\<lparr>po_state := PostVisible, po_revision := rv_revision v, po_note := '''',
      po_edited_at := e\<rparr>\<rparr>)"
    using revised by (simp add: post_moves_def post_fixed_def state_moves_def Let_def)
  then show ?case unfolding revise_rows_def using same by (intro set_post_kept) blast
next
  case (withdrawn r d s nt e)
  have same: "r' = r" if "r' \<in> set (bt_posts d)" "post_id r' = post_id r" for r'
    using withdrawn that distinct_key_eq [of post_id] by (auto simp: board_inv_def ids_ok_def)
  have "kept d (set_post (post_id r) (\<lambda>p. p\<lparr>po_state := s, po_revision := po_revision (pw_post r), po_note := nt,
      po_edited_at := e\<rparr>) (d\<lparr>bt_revisions := bt_revisions d @ []\<rparr>))"
    by (rule set_post_kept) (use withdrawn same in \<open>auto simp: post_moves_def post_fixed_def state_moves_def Let_def\<close>)
  then show ?case by (simp add: withdraw_row_def)
next
  case (purged d i)
  then show ?case
    by (intro wipes_kept [OF scrubPost_wipes])
      (simp_all add: scrubPost_def scrubOutbox_def scrub_def scrubReceipts_def bt.evolves_refl)
next
  case (purged_whole d t)
  have "bt_threads (scrubThread t d) = upd (\<lambda>r. thread_id r = t) scrub_thread_row (bt_threads d)"
    by (simp add: scrubThread_def Let_def scrubOutbox_def scrub_def scrubReceipts_def)
  moreover have "evolves thread_moves (bt_threads d) (upd (\<lambda>r. thread_id r = t) scrub_thread_row (bt_threads d))"
    by (rule bt.evolves_upd) (simp add: thread_moves_def scrub_thread_row_def)
  ultimately show ?case
    using purged_whole wipes_kept [OF scrubThread_wipes] by (simp add: board_inv_def ids_ok_def)
next
  case (receipted w x d)
  then show ?case
    by (simp add: kept_def receipt_row_def bp.evolves_refl bt.evolves_refl bo.evolves_append evolvesI text_kept_def)
qed

lemma units_kept: "units d d' \<Longrightarrow> board_inv d \<Longrightarrow> kept d d'"
proof (induction rule: rtranclp_induct)
  case (step y z)
  then show ?case using unit_step_kept units_inv kept_trans by blast
qed (simp add: kept_refl)

end
