(* ===== verification/Board_Guarantees.thy ===== *)
theory Board_Guarantees
  imports Board_Ops Board_History
begin

text \<open>
  What crew-board guarantees along every run: the states a site can be in, exactly-once writes, history
  that is kept, purges that are final, and who may change a post.
\<close>

section \<open>Operations and runs\<close>

datatype board_op =
    OpCreateBoard create_board_request
  | OpOpenThread open_thread_request
  | OpReply reply_request
  | OpEdit edit_request
  | OpRetract moderate_request
  | OpHide moderate_request
  | OpPurge moderate_request
  | OpSettle thread_request
  | OpRename thread_request
  | OpClose thread_request

fun run_op :: "board_config \<Rightarrow> world \<Rightarrow> board_op \<Rightarrow> bdb \<Rightarrow> write_outcome" where
  "run_op cfg w (OpCreateBoard q) d = CreateBoard cfg w q d"
| "run_op cfg w (OpOpenThread q) d = OpenThread cfg w q d"
| "run_op cfg w (OpReply q) d = Reply cfg w q d"
| "run_op cfg w (OpEdit q) d = Edit cfg w q d"
| "run_op cfg w (OpRetract q) d = Retract cfg w q d"
| "run_op cfg w (OpHide q) d = Hide cfg w q d"
| "run_op cfg w (OpPurge q) d = Purge cfg w q d"
| "run_op cfg w (OpSettle q) d = Settle cfg w q d"
| "run_op cfg w (OpRename q) d = Rename cfg w q d"
| "run_op cfg w (OpClose q) d = Close cfg w q d"

fun op_actor :: "board_op \<Rightarrow> actor" where
  "op_actor (OpCreateBoard q) = cb_actor q"
| "op_actor (OpOpenThread q) = ot_actor q"
| "op_actor (OpReply q) = rp_actor q"
| "op_actor (OpEdit q) = ed_actor q"
| "op_actor (OpRetract q) = mo_actor q"
| "op_actor (OpHide q) = mo_actor q"
| "op_actor (OpPurge q) = mo_actor q"
| "op_actor (OpSettle q) = tq_actor q"
| "op_actor (OpRename q) = tq_actor q"
| "op_actor (OpClose q) = tq_actor q"

fun op_id :: "board_op \<Rightarrow> string" where
  "op_id (OpCreateBoard q) = cb_operation_id q"
| "op_id (OpOpenThread q) = ot_operation_id q"
| "op_id (OpReply q) = rp_operation_id q"
| "op_id (OpEdit q) = ed_operation_id q"
| "op_id (OpRetract q) = mo_operation_id q"
| "op_id (OpHide q) = mo_operation_id q"
| "op_id (OpPurge q) = mo_operation_id q"
| "op_id (OpSettle q) = tq_operation_id q"
| "op_id (OpRename q) = tq_operation_id q"
| "op_id (OpClose q) = tq_operation_id q"

text \<open>The JSON of a request, whose hash the receipt keeps.\<close>

fun op_json :: "board_op \<Rightarrow> json" where
  "op_json (OpCreateBoard q) = createBoardJSON q"
| "op_json (OpOpenThread q) = openThreadJSON q"
| "op_json (OpReply q) = replyJSON q"
| "op_json (OpEdit q) = editJSON q"
| "op_json (OpRetract q) = moderateJSON ''retract'' q"
| "op_json (OpHide q) = moderateJSON ''hide'' q"
| "op_json (OpPurge q) = moderateJSON ''purge'' q"
| "op_json (OpSettle q) = threadRequestJSON ''settle'' q"
| "op_json (OpRename q) = threadRequestJSON ''rename'' q"
| "op_json (OpClose q) = threadRequestJSON ''close'' q"

fun op_run :: "board_config \<Rightarrow> world \<Rightarrow> board_op \<Rightarrow> bdb \<Rightarrow> board_error + op_result \<times> change list" where
  "op_run cfg w (OpCreateBoard q) = runCreateBoard cfg w q"
| "op_run cfg w (OpOpenThread q) = runOpenThread cfg w q"
| "op_run cfg w (OpReply q) = runReply cfg w q"
| "op_run cfg w (OpEdit q) = runEdit cfg w q"
| "op_run cfg w (OpRetract q) = runRetract cfg w q"
| "op_run cfg w (OpHide q) = runHide cfg w q"
| "op_run cfg w (OpPurge q) = runPurge cfg w q"
| "op_run cfg w (OpSettle q) = runThreadChange cfg w ''settle'' q (settle_thread w q)"
| "op_run cfg w (OpRename q) = runThreadChange cfg w ''rename'' q (rename_thread q)"
| "op_run cfg w (OpClose q) = runThreadChange cfg w ''close'' q (close_thread q)"

abbreviation op_write :: "board_config \<Rightarrow> world \<Rightarrow> board_op \<Rightarrow> bdb \<Rightarrow> write_outcome" where
  "op_write cfg w op \<equiv> do_write cfg w (op_id op) (requestHash (op_json op)) (op_run cfg w op)"

lemmas op_defs = CreateBoard_def OpenThread_def Reply_def Edit_def Retract_def Hide_def Purge_def
  Settle_def Rename_def Close_def threadChange_def

text \<open>A purge also drops attachments nothing shows any more; everything else is its write.\<close>

lemma run_op_write:
  "run_op cfg w op d =
     (case op of
        OpPurge q \<Rightarrow> bindR (op_write cfg w op d) (\<lambda>((result, replayed), d').
          Inr ((result, replayed), if replayed then d' else dropUnreferenced cfg (purge_refs cfg w q d) d'))
      | _ \<Rightarrow> op_write cfg w op d)"
  by (cases op) (simp_all add: op_defs)

lemma run_op_cases:
  assumes "run_op cfg w op d = Inr ((res, replayed), d')"
  obtains d1 where "op_write cfg w op d = Inr ((res, replayed), d1)" and "calm d1 d'" and "replayed \<Longrightarrow> d' = d1"
proof -
  have "\<exists>d1. op_write cfg w op d = Inr ((res, replayed), d1) \<and> calm d1 d' \<and> (replayed \<longrightarrow> d' = d1)"
    using assms unfolding run_op_write
    by (cases op) (auto simp: bindR_Inr_iff calm_refl dropUnreferenced_calm)
  then show ?thesis using that by blast
qed

lemma op_run_sound: "siteName (cg_site cfg) \<Longrightarrow> sound_run (op_run cfg w op)"
  by (cases op) (simp_all add: CreateBoard_sound OpenThread_sound Reply_sound Edit_sound Retract_sound Hide_sound
      Purge_sound sound_threadChange)

inductive board_step :: "board_config \<Rightarrow> bdb \<Rightarrow> bdb \<Rightarrow> bool" for cfg where
  wrote: "run_op cfg w op d = Inr (x, d') \<Longrightarrow> board_step cfg d d'"
| acked: "Ack cfg w a i d = Inr (x, d') \<Longrightarrow> board_step cfg d d'"
| subscribed: "Subscribe cfg w q d = Inr (s, d') \<Longrightarrow> board_step cfg d d'"
| unsubscribed: "Unsubscribe cfg w q d = Inr (s, d') \<Longrightarrow> board_step cfg d d'"
| read_marked: "MarkRead cfg w a t i d = Inr d' \<Longrightarrow> board_step cfg d d'"
| uploaded: "Upload cfg w tools name data (d, fs) = Inr (a, d', fs') \<Longrightarrow> board_step cfg d d'"
| released: "Release cfg w tools who ref (d, fs) = Inr (a, d', fs') \<Longrightarrow> board_step cfg d d'"
| dropped: "Drop cfg w who ref (d, fs) = Inr (a, d', fs') \<Longrightarrow> board_step cfg d d'"
| pulled: "ClassifyPath path = Some (rf_file f) \<Longrightarrow> ApplyRemote cfg w rd tools f d = Inr d' \<Longrightarrow> board_step cfg d d'"
| attempted: "board_step cfg d (UpdateNotice n d)"
| pushed: "board_step cfg d (OutboxDone ids commit d)"
| synced: "board_step cfg d (PutSyncState s d)"
| flagged: "board_step cfg d (AddFlag f d)"

inductive board_reachable :: "board_config \<Rightarrow> bdb \<Rightarrow> bool" for cfg where
  empty: "board_reachable cfg empty_bdb"
| step: "board_reachable cfg d \<Longrightarrow> board_step cfg d d' \<Longrightarrow> board_reachable cfg d'"

lemma board_step_units:
  assumes "siteName (cg_site cfg)" and "board_inv d" and "board_step cfg d d'"
  shows "units d d'"
  using assms(3)
proof cases
  case (wrote w op x)
  obtain res replayed where "x = (res, replayed)" by (cases x)
  with wrote obtain d1 where w1: "op_write cfg w op d = Inr ((res, replayed), d1)" and c: "calm d1 d'"
    using run_op_cases by metis
  show ?thesis
    using do_write_units [OF op_run_sound [OF assms(1)] assms(2) w1] calm_units [OF c] by (rule rtranclp_trans)
next
  case (pulled path f w rd tools)
  then show ?thesis using ApplyRemote_units assms(2) by blast
qed (auto intro: calm_units Ack_calm Subscribe_calm Unsubscribe_calm MarkRead_calm media_calm UpdateNotice_calm
    OutboxDone_calm sync_calm)

lemma run_inv_kept:
  assumes "siteName (cg_site cfg)" and "board_inv d" and "(board_step cfg)\<^sup>*\<^sup>* d d'"
  shows "board_inv d' \<and> kept d d'"
  using assms(3)
proof (induction rule: rtranclp_induct)
  case base
  then show ?case using assms(2) by (simp add: kept_refl)
next
  case (step y z)
  then have "units y z" using board_step_units assms(1) by blast
  then show ?case using step.IH units_inv units_kept kept_trans by blast
qed

lemma reachable_board_inv: "board_reachable cfg d \<Longrightarrow> siteName (cg_site cfg) \<Longrightarrow> board_inv d"
  by (induction rule: board_reachable.induct) (auto simp: board_inv_empty intro: units_inv dest: board_step_units)

lemma reachable_post_ids_ok:
  assumes "board_reachable cfg d" and "siteName (cg_site cfg)"
  shows "post_ids_ok d"
proof -
  have "list_all plain_id (map post_id (bt_posts d))" "distinct (map post_id (bt_posts d))"
    using reachable_board_inv [OF assms] by (simp_all add: board_inv_def ids_ok_def)
  then show ?thesis by (auto simp: post_ids_ok_def list_all_iff plain_id_def)
qed

end
