(* ===== verification/Board_Promises.thy ===== *)
theory Board_Promises
  imports Board_Guarantees
begin

text \<open>
  What a site's users can count on, along every run of writes, reads, uploads and pulled files: a retried
  write is done once, a text stays as it was written, what was purged does not come back, and a post is
  changed by its author or moderated by a person only.
\<close>

section \<open>The state of a site\<close>


section \<open>Exactly-once writes\<close>

lemma sel1_evolves:
  assumes "evolves R t t'" and "\<And>a b. R a b \<Longrightarrow> P b \<longleftrightarrow> P a" and "sel1 P t = Some r"
  shows "\<exists>r'. sel1 P t' = Some r' \<and> R r r'"
proof -
  have "\<exists>r'. sel1 P u = Some r' \<and> R r r'" if "list_all2 R t u" "sel1 P t = Some r" for u
    using that
  proof (induction rule: list_all2_induct)
    case (Cons x xs y ys)
    then show ?case using assms(2) [of x y] by (auto simp: sel1_def split: if_splits)
  qed simp
  then obtain r' where "sel1 P (take (length t) t') = Some r'" "R r r'" using assms(1,3) unfolding evolves_def by blast
  then show ?thesis using sel1_append [of P "take (length t) t'" "drop (length t) t'"] by simp
qed

lemma Receipt_kept:
  assumes "kept d d'" and "Receipt i d = Some row"
  shows "\<exists>row'. Receipt i d' = Some row' \<and> receipt_moves row row'"
proof -
  have ev: "evolves receipt_moves (bt_operations d) (bt_operations d')" using assms(1) by (simp add: kept_def)
  have "ow_operation_id b = i \<longleftrightarrow> ow_operation_id a = i" if "receipt_moves a b" for a b
    using that by (simp add: receipt_moves_def)
  then show ?thesis
    using sel1_evolves [OF ev, of "\<lambda>x. ow_operation_id x = i"] assms(2) unfolding Receipt_def by simp
qed

text \<open>What a write leaves behind: a receipt under its operation id, with its hash and its result.\<close>

lemma op_write_receipt:
  assumes "op_write cfg w op d = Inr ((res, replayed), d')"
  shows "\<exists>row. Receipt (TrimSpace (op_id op)) d' = Some row \<and> ow_request_hash row = requestHash (op_json op)
           \<and> ow_result row = Some res \<and> \<not> ow_purged row"
  using assms
proof (cases rule: do_write_cases)
  case (fresh cs out d1)
  then have "sel1 (\<lambda>x. ow_operation_id x = TrimSpace (op_id op)) (bt_operations d1) = None"
    by (auto simp: has_operation_def sel1_None_iff list_ex_iff)
  moreover have "sel1 P [x] = Some x" if "P x" for P and x :: operation_row using that by (simp add: sel1_def)
  ultimately show ?thesis using fresh(7) by (simp add: Receipt_def receipt_row_def sel1_append)
qed blast

lemma run_op_receipt:
  assumes "run_op cfg w op d = Inr ((res, replayed), d')"
  shows "\<exists>row. Receipt (TrimSpace (op_id op)) d' = Some row \<and> ow_request_hash row = requestHash (op_json op)
           \<and> ow_result row = Some res \<and> \<not> ow_purged row"
proof -
  obtain d1 where "op_write cfg w op d = Inr ((res, replayed), d1)" "calm d1 d'" using assms by (rule run_op_cases)
  then show ?thesis using op_write_receipt by (force simp: Receipt_def calm_def)
qed

lemma run_op_named: "run_op cfg w op d = Inr x \<Longrightarrow> TrimSpace (op_id op) \<noteq> ''''"
  by (cases op) (auto simp: op_defs do_write_def Let_def bindR_Inr_iff)

lemma op_write_known:
  assumes "Receipt (TrimSpace (op_id op)) d = Some row" and "TrimSpace (op_id op) \<noteq> ''''"
  shows "run_op cfg w op d =
           (if ow_request_hash row \<noteq> requestHash (op_json op) then Inl (Refused CodeOperationConflict)
            else if ow_purged row then Inl (Refused CodePostNotFound)
            else case ow_result row of None \<Rightarrow> Inl StoreFailed | Some r \<Rightarrow> Inr ((r, True), d))"
proof -
  have "op_write cfg w op d =
           (if ow_request_hash row \<noteq> requestHash (op_json op) then Inl (Refused CodeOperationConflict)
            else if ow_purged row then Inl (Refused CodePostNotFound)
            else case ow_result row of None \<Rightarrow> Inl StoreFailed | Some r \<Rightarrow> Inr ((r, True), d))"
    using assms by (simp add: do_write_def Let_def)
  then show ?thesis unfolding run_op_write by (cases op) (auto simp: bindR_def split: option.splits)
qed

text \<open>
  C4: A write is done exactly once. After a write answered, and whatever a site does next, the same
  operation id with another request is refused as a conflict, and with the same request it changes
  nothing: it is answered with the first answer, or refused once what it wrote was purged. At once after
  the write it is answered.
\<close>

theorem board_exactly_once:
  assumes "siteName (cg_site cfg)" and "board_reachable cfg d"
    and "run_op cfg w op d = Inr ((res, replayed), d1)" and "(board_step cfg)\<^sup>*\<^sup>* d1 d2"
    and "TrimSpace (op_id again) = TrimSpace (op_id op)"
  shows "if requestHash (op_json again) \<noteq> requestHash (op_json op)
         then run_op cfg w2 again d2 = Inl (Refused CodeOperationConflict)
         else (run_op cfg w2 again d2 = Inr ((res, True), d2)
               \<or> d2 \<noteq> d1 \<and> run_op cfg w2 again d2 = Inl (Refused CodePostNotFound))"
proof -
  obtain row where row: "Receipt (TrimSpace (op_id op)) d1 = Some row" "ow_request_hash row = requestHash (op_json op)"
      "ow_result row = Some res" "\<not> ow_purged row"
    using run_op_receipt [OF assms(3)] by blast
  have "board_inv d1"
    using assms(1-3) board_reachable.step board_step.wrote reachable_board_inv by metis
  then have "kept d1 d2" using run_inv_kept assms(1,4) by blast
  then obtain row' where row': "Receipt (TrimSpace (op_id op)) d2 = Some row'" "receipt_moves row row'"
    using Receipt_kept row(1) by blast
  then have known: "run_op cfg w2 again d2 =
      (if ow_request_hash row' \<noteq> requestHash (op_json again) then Inl (Refused CodeOperationConflict)
       else if ow_purged row' then Inl (Refused CodePostNotFound)
       else case ow_result row' of None \<Rightarrow> Inl StoreFailed | Some r \<Rightarrow> Inr ((r, True), d2))"
    using op_write_known [of again d2 row'] run_op_named [OF assms(3)] assms(5) by simp
  have "row' = row" if "d2 = d1" using that row(1) row'(1) by simp
  then show ?thesis unfolding known using row row'(2) by (auto simp: receipt_moves_def)
qed

section \<open>History\<close>

lemma evolves_filter_prefix:
  assumes "evolves R t t'" and "\<And>a b. R a b \<Longrightarrow> P b \<longleftrightarrow> P a" and "\<And>a b. R a b \<Longrightarrow> P a \<Longrightarrow> b = a"
  shows "prefix (filter P t) (filter P t')"
proof -
  have "filter P u = filter P t" if "list_all2 R t u" for u
    using that assms(2,3) by (induction rule: list_all2_induct) auto
  then have "filter P (take (length t) t') = filter P t" using assms(1) unfolding evolves_def by blast
  then have "filter P t' = filter P t @ filter P (drop (length t) t')" by (metis append_take_drop_id filter_append)
  then show ?thesis by simp
qed

lemma ListRevisions_in_order:
  assumes "history_ok d" and "r \<in> set (bt_posts d)"
  shows "ListRevisions (post_id r) d = revisions_of (post_id r) d"
proof -
  have "sorted (map rv_revision (revisions_of (post_id r) d))" using assms by (simp add: history_ok_def)
  then show ?thesis by (simp add: ListRevisions_def sel_def revisions_of_def sort_key_id_if_sorted)
qed

text \<open>
  C18: What was written stays. The revisions of a post are numbered from 1 without a gap up to the
  current one, and as long as the post is not purged every run of the site only adds revisions after
  them: no text, model or time of an earlier one changes, and the post stays in its thread under its
  author.
\<close>

theorem board_history_is_kept:
  assumes "siteName (cg_site cfg)" and "board_reachable cfg d" and "(board_step cfg)\<^sup>*\<^sup>* d d'"
    and "r \<in> set (bt_posts d)" and "\<not> purged_post (post_id r) d'"
  shows "map rv_revision (ListRevisions (post_id r) d) = [1..po_revision (pw_post r)]
         \<and> prefix (ListRevisions (post_id r) d) (ListRevisions (post_id r) d')
         \<and> (\<exists>r'\<in>set (bt_posts d'). post_fixed r' = post_fixed r \<and> po_author (pw_post r') = po_author (pw_post r)
              \<and> po_revision (pw_post r) \<le> po_revision (pw_post r'))"
proof -
  have inv: "board_inv d" using assms(1,2) reachable_board_inv by blast
  then have run: "board_inv d'" "kept d d'" using run_inv_kept assms(1,3) by blast+
  obtain r' where r': "r' \<in> set (bt_posts d')" "post_moves r r'"
    using run(2) assms(4) evolves_mem unfolding kept_def by metis
  then have same: "post_id r' = post_id r" by (simp add: post_moves_def post_fixed_def Let_def)
  have "po_state (pw_post r') \<noteq> PostPurged" using assms(5) r'(1) same by (auto simp: purged_post_def)
  then have row: "post_fixed r' = post_fixed r \<and> po_author (pw_post r') = po_author (pw_post r)
      \<and> po_revision (pw_post r) \<le> po_revision (pw_post r')"
    using r'(2) by (simp add: post_moves_def)
  have "prefix (revisions_of (post_id r) d) (revisions_of (post_id r) d')"
    unfolding revisions_of_def
  proof (rule evolves_filter_prefix)
    show "evolves (text_kept d') (bt_revisions d) (bt_revisions d')" using run(2) by (simp add: kept_def)
  qed (use assms(5) in \<open>auto simp: text_kept_def blanked_def\<close>)
  moreover have "map rv_revision (revisions_of (post_id r) d) = [1..po_revision (pw_post r)]"
    using inv assms(4) by (simp add: board_inv_def history_ok_def)
  moreover have "ListRevisions (post_id r) d = revisions_of (post_id r) d"
    "ListRevisions (post_id r) d' = revisions_of (post_id r) d'"
    using ListRevisions_in_order inv run(1) assms(4) r'(1) same unfolding board_inv_def by metis+
  ultimately show ?thesis using row r'(1) by auto
qed

section \<open>Purges\<close>

lemma purged_reads:
  assumes inv: "board_inv d" and gone: "purged_post i d"
  shows "SvcGetPost cfg i d = Inr p \<Longrightarrow> po_state p = PostPurged \<and> silent p \<and> po_attachments p = []"
    and "Revisions i d = Inl (Refused CodePostNotFound)"
    and "SvcSearch b x n d = Inr ps \<Longrightarrow> p \<in> set ps \<Longrightarrow> po_id p \<noteq> i"
proof -
  have state: "po_state (pw_post r) = PostPurged" if "r \<in> set (bt_posts d)" "post_id r = i" for r
    using gone post_gone_iff(1) inv that unfolding board_inv_def by metis
  have found: "po_state p = PostPurged" if "GetPost i d = Some p" for p
    using that state by (auto elim!: GetPost_row)
  show "po_state p = PostPurged \<and> silent p \<and> po_attachments p = []" if get: "SvcGetPost cfg i d = Inr p"
  proof -
    obtain p0 where p0: "GetPost i d = Some p0" using get by (cases "GetPost i d") (simp_all add: SvcGetPost_def)
    then have "p = withAttachments cfg d
        (public (p0\<lparr>po_remote := (po_site p0 \<noteq> '''' \<and> po_site p0 \<noteq> cg_site cfg)\<rparr>))"
      using get by (simp add: SvcGetPost_def)
    then show ?thesis using found [OF p0] by (simp add: withAttachments_def public_def silent_def)
  qed
  show "Revisions i d = Inl (Refused CodePostNotFound)"
    using found by (auto simp: Revisions_def post_of_def bindR_def split: option.splits)
  show "po_id p \<noteq> i" if "SvcSearch b x n d = Inr ps" "p \<in> set ps"
  proof
    assume i: "po_id p = i"
    have "p \<in> set (joined d)" "po_state p = PostVisible"
      using that by (auto simp: SvcSearch_def StoreSearch_def bindR_Inr_iff split: if_splits dest!: in_set_takeD)
    then show False using i state unfolding joined_mem by (metis scanPost_Some post_state.distinct(5))
  qed
qed

lemma runPurge_purges:
  assumes inv: "board_inv d" and run: "runPurge cfg w q d = Inr (res, cs)" and out: "list_all is_outbox out"
    and app: "apply_changes (cs @ out) d = Inr d'"
  shows "purged_post (mo_post q) d'"
proof -
  obtain person p t where m: "moderated cfg w q d = Inr (person, p, t)" using run by (auto simp: runPurge_def bindR_Inr_iff)
  have p: "post_of (mo_post q) d = Inr p" using m by (rule moderated_found)
  have th: "thread_of (po_thread_id p) d = Inr t" using m by (rule moderated_found)
  obtain r where r: "r \<in> set (bt_posts d)" "post_id r = mo_post q" "po_id p = mo_post q"
      "po_thread_id p = po_thread_id (pw_post r)"
    using p by (rule post_of_row)
  have has: "has_post (mo_post q) d" using r by (auto simp: has_post_def list_ex_iff)
  let ?e = "CEvent (moderation_event cfg w t p ''purge'' (TrimSpace (mo_note q)) person)"
  have after: "purged_post (mo_post q) d'"
    if "cs = [c, ?e]" "\<And>x. apply_change c d = Inr x \<Longrightarrow> x = d1" "purged_post (mo_post q) d1" for c d1
  proof -
    have "apply_changes (?e # out) d1 = Inr d'"
      using app that(1,2) by (cases "apply_change c d") (auto simp: bindR_def)
    moreover have "list_all (calm_change d1) (?e # out)" using outbox_calm [OF out] by simp
    ultimately have "calm d1 d'" by (rule apply_all_calm)
    then show ?thesis using that(3) calm_purged_post by blast
  qed
  show ?thesis
  proof (cases "po_id p = th_opening_post_id t")
    case True
    have "post_id r \<in> set (thread_posts (th_id t) d)"
      using r(1,4) thread_of_live(1) [OF inv th] by (simp add: thread_posts_def sel_def)
    then have "purged_post (mo_post q) (scrubThread (th_id t) d)" unfolding r(2)
      using wipes_purged_post [OF scrubThread_wipes] has inv by (simp add: board_inv_def ids_ok_def)
    then show ?thesis
      using True run m by (intro after [of "CScrubThread (th_id t)"]) (auto simp: runPurge_def Let_def split: if_splits)
  next
    case False
    have "purged_post (mo_post q) (scrubPost (po_id p) d)"
      using wipes_purged_post [OF scrubPost_wipes] has r(3) by simp
    then show ?thesis
      using False run m by (intro after [of "CScrubPost (po_id p)"]) (auto simp: runPurge_def Let_def split: if_splits)
  qed
qed

lemma Purge_purges:
  assumes "board_inv d" and "Purge cfg w q d = Inr ((res, False), d')"
  shows "purged_post (mo_post q) d'"
proof -
  obtain d1 where w1: "op_write cfg w (OpPurge q) d = Inr ((res, False), d1)" and c: "calm d1 d'"
    using assms(2) run_op_cases [of cfg w "OpPurge q" d res False d'] by auto
  from w1 show ?thesis
  proof (cases rule: do_write_cases)
    case (fresh cs out d2)
    then have "purged_post (mo_post q) d2" using runPurge_purges [OF assms(1)] by simp
    then show ?thesis using fresh(7) calm_purged_post [OF c] by (simp add: receipt_row_def purged_post_def)
  qed simp
qed


end
