(* ===== verification/Board_Authority.thy ===== *)
theory Board_Authority
  imports Board_Guarantees
begin

text \<open>
  Who may change a post: \<open>post_view\<close> is all a site keeps of it but its sync mark, and every step that
  changes it is traced to a change that names the post, and from there to the check that let it through.
\<close>

section \<open>Changes that leave a post alone\<close>

definition post_view :: "string \<Rightarrow> bdb \<Rightarrow> post list \<times> revision list" where
  "post_view i d = (map post_core (filter (\<lambda>r. post_id r = i) (bt_posts d)), revisions_of i d)"

fun spares :: "string \<Rightarrow> bdb \<Rightarrow> change \<Rightarrow> bool" where
  "spares i d (CPost p) = (po_id p \<noteq> i)"
| "spares i d (CRevision v) = (rv_post_id v \<noteq> i)"
| "spares i d (CPostState s) = (ps_post_id s \<noteq> i)"
| "spares i d (CScrubPost j) = (j \<noteq> i)"
| "spares i d (CScrubThread t) = (\<forall>p\<in>set (fst (post_view i d)). po_thread_id p \<noteq> t)"
| "spares i d _ = True"

lemma spares_cong: "post_view i d' = post_view i d \<Longrightarrow> spares i d' c = spares i d c"
  by (cases c) simp_all

lemma filter_upd_other: "(\<And>x. x \<in> set t \<Longrightarrow> P x \<Longrightarrow> \<not> Q x) \<Longrightarrow> (\<And>x. P (f x) = P x) \<Longrightarrow> filter P (upd Q f t) = filter P t"
  by (induction t) (auto simp: upd_def)

lemma filter_upd_same: "(\<And>x. P (f x) = P x) \<Longrightarrow> (\<And>x. g (f x) = g x) \<Longrightarrow> map g (filter P (upd Q f t)) = map g (filter P t)"
  by (induction t) (auto simp: upd_def)

lemma post_view_cong:
  "bt_posts d' = bt_posts d \<Longrightarrow> bt_revisions d' = bt_revisions d \<Longrightarrow> post_view i d' = post_view i d"
  by (simp add: post_view_def revisions_of_def)

lemma post_view_set_post:
  assumes "\<And>p. po_id (f p) = po_id p" and "j \<noteq> i \<or> (\<forall>p. (f p)\<lparr>po_sync := ''''\<rparr> = p\<lparr>po_sync := ''''\<rparr>)"
  shows "post_view i (set_post j f d) = post_view i d"
proof -
  have "map post_core (filter (\<lambda>r. post_id r = i) (upd (\<lambda>r. post_id r = j) (\<lambda>r. r\<lparr>pw_post := f (pw_post r)\<rparr>) (bt_posts d)))
      = map post_core (filter (\<lambda>r. post_id r = i) (bt_posts d))"
  proof (cases "j = i")
    case True
    then show ?thesis using assms by (intro filter_upd_same) (simp_all add: post_core_def)
  next
    case False
    then show ?thesis using assms(1) by (subst filter_upd_other) auto
  qed
  then show ?thesis by (simp add: post_view_def set_post_def revisions_of_def)
qed

lemma post_view_scrub:
  assumes "\<And>r. r \<in> set (bt_posts d) \<Longrightarrow> post_id r = i \<Longrightarrow> \<not> B r" and "\<not> A i"
    and "bt_posts d' = upd B scrub_post (bt_posts d)"
    and "bt_revisions d' = upd (\<lambda>v. A (rv_post_id v)) (\<lambda>v. v\<lparr>rv_body := '''', rv_mentions := []\<rparr>) (bt_revisions d)"
  shows "post_view i d' = post_view i d"
proof -
  have "filter (\<lambda>r. post_id r = i) (bt_posts d') = filter (\<lambda>r. post_id r = i) (bt_posts d)"
    unfolding assms(3) by (rule filter_upd_other) (use assms(1) in auto)
  moreover have "revisions_of i d' = revisions_of i d"
    unfolding revisions_of_def assms(4) by (rule filter_upd_other) (use assms(2) in auto)
  ultimately show ?thesis by (simp add: post_view_def)
qed

lemma scrubThread_tables:
  "bt_posts (scrubThread t d) = upd (\<lambda>r. po_thread_id (pw_post r) = t) scrub_post (bt_posts d)"
  "bt_revisions (scrubThread t d) = upd (\<lambda>v. rv_post_id v \<in> set (thread_posts t d))
     (\<lambda>v. v\<lparr>rv_body := '''', rv_mentions := []\<rparr>) (bt_revisions d)"
  by (simp_all add: scrubThread_def Let_def scrubOutbox_def scrub_def scrubReceipts_def)

lemma scrubPost_tables:
  "bt_posts (scrubPost j d) = upd (\<lambda>r. post_id r = j) scrub_post (bt_posts d)"
  "bt_revisions (scrubPost j d) = upd (\<lambda>v. rv_post_id v = j)
     (\<lambda>v. v\<lparr>rv_body := '''', rv_mentions := []\<rparr>) (bt_revisions d)"
  by (simp_all add: scrubPost_def scrubOutbox_def scrub_def scrubReceipts_def)

lemma apply_change_spares:
  assumes "apply_change c d = Inr d'" and "spares i d c"
  shows "post_view i d' = post_view i d"
proof (cases c)
  case (COutbox f)
  have "post_view i (set_post j (\<lambda>p. p\<lparr>po_sync := s\<rparr>) x) = post_view i x" for j s x by (rule post_view_set_post) simp_all
  moreover have "post_view i (d\<lparr>bt_outbox := xs, bt_outbox_seq := n\<rparr>) = post_view i d" for xs n
    by (rule post_view_cong) simp_all
  ultimately show ?thesis using assms COutbox by (auto simp: Let_def split: if_splits)
next
  case (CPostState s)
  then show ?thesis using assms post_view_set_post by auto
next
  case (CScrubPost j)
  then show ?thesis using assms post_view_scrub [OF _ _ scrubPost_tables] by (auto split: if_splits)
next
  case (CScrubThread t)
  have "po_thread_id (pw_post r) \<noteq> t" if "r \<in> set (bt_posts d)" "post_id r = i" for r
    using assms(2) that CScrubThread by (auto simp: post_view_def post_core_def)
  moreover from this have "i \<notin> set (thread_posts t d)" by (auto simp: thread_posts_def sel_def)
  ultimately show ?thesis
    using assms CScrubThread post_view_scrub [OF _ _ scrubThread_tables] by (auto split: if_splits)
qed (use assms in \<open>auto simp: post_view_def revisions_of_def stored_post_def set_thread_def split: if_splits prod.splits\<close>)

lemma apply_changes_spares:
  "apply_changes cs d = Inr d' \<Longrightarrow> list_all (spares i d) cs \<Longrightarrow> post_view i d' = post_view i d"
proof (induction cs arbitrary: d)
  case (Cons c cs)
  obtain d1 where d1: "apply_change c d = Inr d1" "apply_changes cs d1 = Inr d'"
    using Cons.prems(1) by (auto simp: bindR_Inr_iff)
  have same: "post_view i d1 = post_view i d" using apply_change_spares [OF d1(1)] Cons.prems(2) by simp
  then have "list_all (spares i d1) cs" using Cons.prems(2) spares_cong [OF same] by (auto simp: list_all_iff)
  then show ?case using Cons.IH d1(2) same by simp
qed simp

text \<open>A post that is there is never inserted again.\<close>

lemma apply_change_ids:
  assumes "apply_change c d = Inr d'"
  shows "\<exists>is. map post_id (bt_posts d') = map post_id (bt_posts d) @ is"
  using assms
  by (cases c) (auto simp: Let_def set_post_def set_thread_def scrubPost_tables scrubThread_tables scrub_post_def
      map_upd_same split: if_splits prod.splits)

lemma apply_change_has_post: "apply_change c d = Inr d' \<Longrightarrow> has_post i d \<Longrightarrow> has_post i d'"
proof -
  have has: "has_post i x \<longleftrightarrow> i \<in> set (map post_id (bt_posts x))" for x by (auto simp: has_post_def list_ex_iff)
  assume "apply_change c d = Inr d'" "has_post i d"
  then show ?thesis unfolding has using apply_change_ids by (metis Un_iff set_append)
qed

lemma apply_changes_new_post:
  "apply_changes cs d = Inr d' \<Longrightarrow> has_post i d \<Longrightarrow> CPost p \<in> set cs \<Longrightarrow> po_id p \<noteq> i"
proof (induction cs arbitrary: d)
  case (Cons c cs)
  obtain d1 where d1: "apply_change c d = Inr d1" "apply_changes cs d1 = Inr d'"
    using Cons.prems(1) by (auto simp: bindR_Inr_iff)
  show ?case
  proof (cases "c = CPost p")
    case True
    then show ?thesis using d1(1) Cons.prems(2) by auto
  next
    case False
    then show ?thesis using Cons.IH [OF d1(2) apply_change_has_post [OF d1(1) Cons.prems(2)]] Cons.prems(3) by simp
  qed
qed simp

lemma touched_named:
  assumes "apply_changes cs d = Inr d'" and "post_view i d' \<noteq> post_view i d"
  shows "\<exists>c\<in>set cs. \<not> spares i d c"
  using apply_changes_spares [OF assms(1)] assms(2) by (auto simp: list_all_iff)

lemma outbox_spares: "list_all is_outbox cs \<Longrightarrow> list_all (spares i d) cs"
  by (auto simp: list_all_iff is_outbox_def split: change.splits)

lemma notice_spares: "list_all (notice_about j) cs \<Longrightarrow> list_all (spares i d) cs"
  by (auto simp: list_all_iff notice_about_def split: change.splits)

lemmas notices_spare = notices_about [THEN notice_spares]

lemma calm_post_view:
  assumes "calm d d'"
  shows "post_view i d' = post_view i d"
proof -
  have "map post_core (filter (\<lambda>r. post_id r = i) t) = filter (\<lambda>p. po_id p = i) (map post_core t)" for t
    by (induction t) (simp_all add: post_core_def)
  then show ?thesis using assms by (simp add: post_view_def calm_def revisions_of_def)
qed

section \<open>Who a write lets through\<close>

definition acts_as_author :: "board_config \<Rightarrow> world \<Rightarrow> actor \<Rightarrow> post_row \<Rightarrow> bool" where
  "acts_as_author cfg w a r = (\<exists>who. author_of cfg w a = Inr who \<and> sameParticipant who (po_author (pw_post r)))"

definition acts_as_person :: "board_config \<Rightarrow> world \<Rightarrow> actor \<Rightarrow> bool" where
  "acts_as_person cfg w a = (TrimSpace (ac_person a) \<noteq> '''' \<and> (\<exists>who. author_of cfg w a = Inr who))"

definition opens_thread_of :: "string \<Rightarrow> post_row \<Rightarrow> bdb \<Rightarrow> bool" where
  "opens_thread_of i r d = (\<exists>t. GetThread (po_thread_id (pw_post r)) d = Some t \<and> th_opening_post_id t = i)"

fun may_change :: "board_config \<Rightarrow> world \<Rightarrow> board_op \<Rightarrow> post_row \<Rightarrow> bdb \<Rightarrow> bool" where
  "may_change cfg w (OpEdit q) r d = (ed_post q = post_id r \<and> acts_as_author cfg w (ed_actor q) r)"
| "may_change cfg w (OpRetract q) r d = (mo_post q = post_id r \<and> acts_as_author cfg w (mo_actor q) r)"
| "may_change cfg w (OpHide q) r d = (mo_post q = post_id r \<and> acts_as_person cfg w (mo_actor q))"
| "may_change cfg w (OpPurge q) r d =
     ((mo_post q = post_id r \<or> opens_thread_of (mo_post q) r d) \<and> acts_as_person cfg w (mo_actor q))"
| "may_change cfg w _ r d = False"

lemma authors_row:
  assumes "board_inv d" and "authorsPost cfg w a i d = Inr (p, t)" and "r \<in> set (bt_posts d)" and "post_id r = po_id p"
  shows "i = post_id r \<and> acts_as_author cfg w a r"
proof -
  obtain caller where c: "post_of i d = Inr p" "author_of cfg w a = Inr caller" "sameParticipant caller (po_author p)"
    using assms(2) by (rule authorsPost_found)
  obtain r' where r': "r' \<in> set (bt_posts d)" "post_id r' = i" "po_id p = i" "po_author p = po_author (pw_post r')"
    using c(1) by (rule post_of_row)
  have "r' = r"
    using assms(1,3,4) r' distinct_key_eq [of post_id "bt_posts d"] by (auto simp: board_inv_def ids_ok_def)
  then show ?thesis using c r' by (auto simp: acts_as_author_def)
qed

lemma OpenThread_touches:
  assumes "runOpenThread cfg w q d = Inr (res, cs)" and "c \<in> set cs" and "\<not> spares i d c"
  shows "\<exists>p. CPost p \<in> set cs \<and> po_id p = i"
proof -
  obtain t p rest where cs: "cs = [CThread t, CPost p, CRevision (first_revision p)] @ noticesFor cfg w 2 t p '''' [] d @ rest"
    and rest: "list_all (spares i d) rest"
    using runOpenThread_Inr [OF assms(1)] unfolding Let_def by (force split: if_splits)
  have "list_all (spares i d) (noticesFor cfg w 2 t p '''' [] d)" by (rule notices_spare)
  then have "c = CPost p \<or> c = CRevision (first_revision p)" using assms(2,3) rest by (auto simp: cs list_all_iff)
  then have "po_id p = i" using assms(3) by (auto simp: first_revision_def)
  then show ?thesis by (auto simp: cs)
qed

lemma Reply_touches:
  assumes "runReply cfg w q d = Inr (res, cs)" and "c \<in> set cs" and "\<not> spares i d c"
  shows "\<exists>p. CPost p \<in> set cs \<and> po_id p = i"
proof -
  obtain t p u at us where cs: "cs = [CPost p, CRevision (first_revision p), CTouch u at]
      @ noticesFor cfg w 1 t p ReasonReply us d"
    using runReply_Inr [OF assms(1)] unfolding Let_def by force
  have "list_all (spares i d) (noticesFor cfg w 1 t p ReasonReply us d)" by (rule notices_spare)
  then have "c = CPost p \<or> c = CRevision (first_revision p)" using assms(2,3) by (auto simp: cs list_all_iff)
  then have "po_id p = i" using assms(3) by (auto simp: first_revision_def)
  then show ?thesis by (auto simp: cs)
qed

lemma Edit_touches:
  assumes "runEdit cfg w q d = Inr (res, cs)" and "c \<in> set cs" and "\<not> spares i d c"
  shows "\<exists>p t. authorsPost cfg w (ed_actor q) (ed_post q) d = Inr (p, t) \<and> po_id p = i"
proof -
  obtain p0 t0 v s u at p t ms where found: "authorsPost cfg w (ed_actor q) (ed_post q) d = Inr (p0, t0)"
    and cs: "cs = [CRevision v, CPostState s, CTouch u at] @ mentionNotices cfg w 0 t p ms"
    and ids: "rv_post_id v = po_id p0" "ps_post_id s = po_id p0"
    using runEdit_Inr [OF assms(1)] unfolding Let_def by force
  have "list_all (spares i d) (mentionNotices cfg w 0 t p ms)" by (rule notices_spare)
  then have "c = CRevision v \<or> c = CPostState s" using assms(2,3) by (auto simp: cs list_all_iff)
  then show ?thesis using assms(3) ids found by auto
qed

lemma Retract_touches:
  assumes "runRetract cfg w q d = Inr (res, cs)" and "c \<in> set cs" and "\<not> spares i d c"
  shows "\<exists>p t. authorsPost cfg w (mo_actor q) (mo_post q) d = Inr (p, t) \<and> po_id p = i"
  using assms by (auto simp: runRetract_def bindR_Inr_iff Let_def split: if_splits)

lemma Hide_touches:
  assumes "runHide cfg w q d = Inr (res, cs)" and "c \<in> set cs" and "\<not> spares i d c"
  shows "mo_post q = i \<and> acts_as_person cfg w (mo_actor q)"
proof -
  obtain person p t where m: "moderated cfg w q d = Inr (person, p, t)" and "po_id p = i"
    using assms by (auto simp: runHide_def bindR_Inr_iff split: if_splits)
  then show ?thesis by (auto simp: acts_as_person_def elim!: moderated_found post_of_row)
qed

lemma Purge_touches:
  assumes inv: "board_inv d" and run: "runPurge cfg w q d = Inr (res, cs)" and r: "r \<in> set (bt_posts d)"
    and c: "c \<in> set cs" "\<not> spares (post_id r) d c"
  shows "(mo_post q = post_id r \<or> opens_thread_of (mo_post q) r d) \<and> acts_as_person cfg w (mo_actor q)"
proof -
  obtain person p t where m: "moderated cfg w q d = Inr (person, p, t)" using run by (auto simp: runPurge_def bindR_Inr_iff)
  then have may: "acts_as_person cfg w (mo_actor q)" and p: "po_id p = mo_post q"
    and th: "thread_of (po_thread_id p) d = Inr t"
    by (auto simp: acts_as_person_def elim!: moderated_found post_of_row)
  have row: "x = r" if "x \<in> set (bt_posts d)" "post_id x = post_id r" for x
    using that inv r distinct_key_eq [of post_id "bt_posts d"] by (auto simp: board_inv_def ids_ok_def)
  show ?thesis
  proof (cases "po_id p = th_opening_post_id t")
    case True
    then have "c = CScrubThread (th_id t)" using run m c by (auto simp: runPurge_def Let_def)
    then obtain x where "x \<in> set (bt_posts d)" "post_id x = post_id r" "po_thread_id (pw_post x) = th_id t"
      using c(2) by (auto simp: post_view_def post_core_def)
    then have "po_thread_id (pw_post r) = th_id t" using row by blast
    moreover have "GetThread (th_id t) d = Some t"
      using th thread_of_live(1) [OF inv th] by (auto simp: thread_of_def ok_or_def split: option.splits)
    ultimately show ?thesis using may p True by (auto simp: opens_thread_of_def)
  next
    case False
    then show ?thesis using run m c may p by (auto simp: runPurge_def Let_def)
  qed
qed

lemma op_run_touches:
  assumes inv: "board_inv d" and run: "op_run cfg w op d = Inr (res, cs)" and app: "apply_changes (cs @ out) d = Inr d'"
    and r: "r \<in> set (bt_posts d)" and c: "c \<in> set cs" "\<not> spares (post_id r) d c"
  shows "may_change cfg w op r d"
proof -
  have "has_post (post_id r) d" using r by (auto simp: has_post_def list_ex_iff)
  then have no_new: "\<not> (\<exists>p. CPost p \<in> set cs \<and> po_id p = post_id r)" using apply_changes_new_post [OF app] by auto
  show ?thesis
  proof (cases op)
    case (OpOpenThread q)
    then show ?thesis using OpenThread_touches run c no_new by auto
  next
    case (OpReply q)
    then show ?thesis using Reply_touches run c no_new by auto
  next
    case (OpEdit q)
    then show ?thesis using Edit_touches [of cfg w q d] authors_row [OF inv _ r] run c by fastforce
  next
    case (OpRetract q)
    then show ?thesis using Retract_touches [of cfg w q d] authors_row [OF inv _ r] run c by fastforce
  next
    case (OpHide q)
    then show ?thesis using Hide_touches run c by auto
  next
    case (OpPurge q)
    then show ?thesis using Purge_touches [OF inv _ r c] run by auto
  qed (use run c in \<open>auto simp: runCreateBoard_def runThreadChange_def Let_def bindR_Inr_iff split: if_splits\<close>)
qed

text \<open>
  C10: A write changes only the posts it may. Whatever a caller asks for, if the state, note, author or
  any text of a post that was there is different afterwards, then the request edited or retracted that
  very post and the caller is the participant who wrote it, or it hid or purged that post, or purged the
  post that opened its thread, and the caller acts as a person of the site.
\<close>

theorem write_needs_authority:
  assumes "siteName (cg_site cfg)" and "board_reachable cfg d" and "run_op cfg w op d = Inr ((res, replayed), d')"
    and "r \<in> set (bt_posts d)" and "post_view (post_id r) d' \<noteq> post_view (post_id r) d"
  shows "may_change cfg w op r d"
proof -
  have inv: "board_inv d" using assms(1,2) reachable_board_inv by blast
  obtain d1 where w1: "op_write cfg w op d = Inr ((res, replayed), d1)" and c: "calm d1 d'" using assms(3) by (rule run_op_cases)
  have changed: "post_view (post_id r) d1 \<noteq> post_view (post_id r) d" using assms(5) calm_post_view [OF c] by simp
  from w1 show ?thesis
  proof (cases rule: do_write_cases)
    case (fresh cs out d2)
    then have "post_view (post_id r) d2 \<noteq> post_view (post_id r) d"
      using changed by (simp add: receipt_row_def post_view_def revisions_of_def)
    then obtain c where "c \<in> set (cs @ out)" "\<not> spares (post_id r) d c" using touched_named [OF fresh(5)] by blast
    moreover have "list_all (spares (post_id r) d) out" using outbox_spares fresh(4) by blast
    ultimately show ?thesis using op_run_touches [OF inv fresh(3,5) assms(4)] by (auto simp: list_all_iff)
  qed (use changed in simp)
qed

section \<open>What a partner may change\<close>

definition purge_event :: "readers \<Rightarrow> remote_file \<Rightarrow> bool" where
  "purge_event rd f =
     (case rf_file f of
        EventPath b t i \<Rightarrow> (case rd_event rd (rf_data f) of None \<Rightarrow> False | Some e \<Rightarrow> ef_type e = ''purge'')
      | _ \<Rightarrow> False)"

lemma site_row:
  assumes "board_inv d" and "GetPost i d = Some p" and "r \<in> set (bt_posts d)" and "post_id r = i"
  shows "po_site p = po_site (pw_post r)"
proof -
  obtain r' where r': "r' \<in> set (bt_posts d)" "scanPost d r' = Some p" "post_id r' = i" using assms(2) by (rule GetPost_row)
  then have "r' = r"
    using assms(1,3,4) distinct_key_eq [of post_id "bt_posts d"] by (auto simp: board_inv_def ids_ok_def)
  then show ?thesis using r'(2) by (auto simp: scanPost_def Let_def)
qed

lemma applyNewPost_shape:
  assumes "applyNewPost cfg w f t h body d = Inr d'"
  shows "\<exists>u at ns. apply_changes ([CPost (remote_post h body), CRevision (remote_revision h body), CTouch u at] @ ns) d = Inr d'
           \<and> list_all (notice_about (pf_id h)) ns"
proof -
  let ?p = "remote_post h body"
  define ns where "ns = (if history f (pf_created_at h) then []
    else localNotices cfg f (noticesFor cfg w 0 t ?p ReasonReply (remote_parent h d) d))"
  have "po_id ?p = pf_id h" by (simp add: remote_post_def)
  then have "list_all (notice_about (pf_id h)) ns"
    using local_notices_about [OF notices_about(2) [of ?p]] by (simp add: ns_def)
  moreover have "apply_changes ([CPost ?p, CRevision (remote_revision h body),
      CTouch (th_id t) (max (th_last_activity_at t) (pf_created_at h))] @ ns) d = Inr d'"
    using assms by (simp only: applyNewPost_def Apply_None Let_def ns_def)
  ultimately show ?thesis by blast
qed

lemma applyRevision_shape:
  assumes "applyRevision cfg w f t h body p d = Inr d'"
  shows "\<exists>s u at ns. apply_changes ([CRevision (remote_revision h body), CPostState s, CTouch u at] @ ns) d = Inr d'
           \<and> list_all (notice_about (po_id p)) ns \<and> ps_post_id s = po_id p"
proof -
  let ?p = "p\<lparr>po_body := body, po_mentions := pf_mentions h, po_revision := pf_revision h\<rparr>"
  let ?s = "\<lparr>ps_post_id = po_id p, ps_state = PostVisible, ps_revision = pf_revision h,
             ps_note = '''', ps_edited_at = Some (pf_created_at h)\<rparr>"
  define ns where "ns = (if history f (pf_created_at h) then []
    else localNotices cfg f (mentionNotices cfg w 0 t ?p (newly_mentioned (po_mentions p) (pf_mentions h))))"
  have "list_all (notice_about (po_id p)) ns"
    using local_notices_about [OF notices_about(3) [of ?p]] by (simp add: ns_def)
  moreover have "apply_changes ([CRevision (remote_revision h body), CPostState ?s,
      CTouch (th_id t) (max (th_last_activity_at t) (pf_created_at h))] @ ns) d = Inr d'"
    using assms by (simp only: applyRevision_def Apply_None Let_def ns_def)
  moreover have "ps_post_id ?s = po_id p" by simp
  ultimately show ?thesis by blast
qed

lemma applyNewPost_touches:
  assumes "applyNewPost cfg w f t h body d = Inr d'" and "has_post i d"
  shows "post_view i d' = post_view i d"
proof -
  let ?p = "remote_post h body"
  obtain u at ns where app: "apply_changes ([CPost ?p, CRevision (remote_revision h body), CTouch u at] @ ns) d = Inr d'"
    and ns: "list_all (notice_about (pf_id h)) ns" using applyNewPost_shape [OF assms(1)] by blast
  have "po_id ?p \<noteq> i" using apply_changes_new_post [OF app assms(2)] by simp
  then have "list_all (spares i d) ([CPost ?p, CRevision (remote_revision h body), CTouch u at] @ ns)"
    using notice_spares [OF ns] by (simp add: remote_revision_def remote_post_def)
  then show ?thesis using apply_changes_spares [OF app] by blast
qed

lemma applyRevision_touches:
  assumes "applyRevision cfg w f t h body p d = Inr d'" and "i \<noteq> po_id p" and "pf_id h = po_id p"
  shows "post_view i d' = post_view i d"
proof -
  obtain s u at ns where app: "apply_changes ([CRevision (remote_revision h body), CPostState s, CTouch u at] @ ns) d = Inr d'"
    and ns: "list_all (notice_about (po_id p)) ns" and s: "ps_post_id s = po_id p"
    using applyRevision_shape [OF assms(1)] by blast
  have "list_all (spares i d) ([CRevision (remote_revision h body), CPostState s, CTouch u at] @ ns)"
    using notice_spares [OF ns] assms(2,3) s by (simp add: remote_revision_def)
  then show ?thesis using apply_changes_spares [OF app] by blast
qed

lemma applyPost_touches:
  assumes inv: "board_inv d" and run: "applyPost cfg w rd f b t i n d = Inr d'" and r: "r \<in> set (bt_posts d)"
    and changed: "post_view (post_id r) d' \<noteq> post_view (post_id r) d"
  shows "po_site (pw_post r) = rf_signer f"
proof -
  have has: "has_post (post_id r) d" using r by (auto simp: has_post_def list_ex_iff)
  have "d' = d \<or> (\<exists>h body th. applyNewPost cfg w f th h body d = Inr d'
      \<or> (\<exists>p. GetPost (pf_id h) d = Some p \<and> po_site p = rf_signer f \<and> applyRevision cfg w f th h body p d = Inr d'))"
    using run by (auto simp: applyPost_def bindR_Inr_iff split: if_splits option.splits)
  then obtain h body th p where p: "GetPost (pf_id h) d = Some p" "po_site p = rf_signer f" "applyRevision cfg w f th h body p d = Inr d'"
    using applyNewPost_touches [OF _ has] changed by metis
  have "po_id p = pf_id h" using p(1) by (rule GetPost_row)
  then have "post_id r = pf_id h" using applyRevision_touches [OF p(3)] changed by metis
  then show ?thesis using site_row [OF inv p(1) r] p(2) by simp
qed

lemma event_changes_touches:
  assumes inv: "board_inv d" and run: "event_changes rd f e t d = Inr (Some cs)" and r: "r \<in> set (bt_posts d)"
    and c: "c \<in> set cs" "\<not> spares (post_id r) d c"
  shows "po_site (pw_post r) = rf_signer f"
proof -
  obtain p where p: "GetPost (ef_post e) d = Some p" "po_site p = rf_signer f" "po_id p = post_id r"
    using run c by (auto simp: event_changes_def Let_def split: if_splits option.splits)
  have "po_id p = ef_post e" using p(1) by (rule GetPost_row)
  then show ?thesis using site_row [OF inv p(1) r] p by simp
qed

lemma applyEvent_touches:
  assumes inv: "board_inv d" and run: "applyEvent cfg rd f b t i d = Inr d'" and r: "r \<in> set (bt_posts d)"
    and changed: "post_view (post_id r) d' \<noteq> post_view (post_id r) d"
  shows "po_site (pw_post r) = rf_signer f \<or> (\<exists>e. rd_event rd (rf_data f) = Some e \<and> ef_type e = ''purge'')"
proof (rule disjCI)
  assume no_purge: "\<not> (\<exists>e. rd_event rd (rf_data f) = Some e \<and> ef_type e = ''purge'')"
  obtain e th cs where cs: "event_changes rd f e th d = Inr (Some cs)" "apply_changes (CEvent (remote_event e) # cs) d = Inr d'"
    using run changed no_purge by (auto simp: applyEvent_def bindR_Inr_iff Apply_None simp del: apply_changes.simps
        split: if_splits option.splits)
  then obtain c where "c \<in> set (CEvent (remote_event e) # cs)" "\<not> spares (post_id r) d c"
    using touched_named [OF cs(2) changed] by blast
  then show "po_site (pw_post r) = rf_signer f" using event_changes_touches [OF inv cs(1) r] by auto
qed

text \<open>The posts a file adds.\<close>

lemma apply_changes_old:
  "apply_changes cs d = Inr d' \<Longrightarrow> (\<And>p. CPost p \<notin> set cs) \<Longrightarrow> map post_id (bt_posts d') = map post_id (bt_posts d)"
proof (induction cs arbitrary: d)
  case (Cons c cs)
  obtain d1 where d1: "apply_change c d = Inr d1" "apply_changes cs d1 = Inr d'"
    using Cons.prems(1) by (auto simp: bindR_Inr_iff)
  have "map post_id (bt_posts d1) = map post_id (bt_posts d)"
    using d1(1) Cons.prems(2)
    by (cases c) (auto simp: Let_def set_post_def set_thread_def scrubPost_tables scrubThread_tables scrub_post_def
        map_upd_same split: if_splits prod.splits)
  then show ?case using Cons.IH [OF d1(2)] Cons.prems(2) by simp
qed simp

lemma notices_keep_posts:
  "apply_changes cs d = Inr d' \<Longrightarrow> list_all (notice_about i) cs \<Longrightarrow> bt_posts d' = bt_posts d"
proof (induction cs arbitrary: d)
  case (Cons c cs)
  obtain d1 where d1: "apply_change c d = Inr d1" "apply_changes cs d1 = Inr d'"
    using Cons.prems(1) by (auto simp: bindR_Inr_iff)
  have "bt_posts d1 = bt_posts d" using d1(1) Cons.prems(2) by (auto simp: notice_about_def split: if_splits)
  then show ?case using Cons.IH [OF d1(2)] Cons.prems(2) by simp
qed simp

lemma applyNewPost_posts:
  assumes "applyNewPost cfg w f t h body d = Inr d'"
  shows "bt_posts d' = bt_posts d @ [stored_post (remote_post h body)]"
proof -
  obtain u at ns where app: "apply_changes ([CPost (remote_post h body), CRevision (remote_revision h body), CTouch u at] @ ns) d = Inr d'"
    and ns: "list_all (notice_about (pf_id h)) ns" using applyNewPost_shape [OF assms] by blast
  have "\<exists>d1. bt_posts d1 = bt_posts d @ [stored_post (remote_post h body)] \<and> apply_changes ns d1 = Inr d'"
    using app by (auto simp: bindR_Inr_iff set_thread_def intro!: exI)
  then show ?thesis using notices_keep_posts [OF _ ns] by auto
qed

lemma applyEvent_old:
  assumes "applyEvent cfg rd f b t i d = Inr d'"
  shows "map post_id (bt_posts d') = map post_id (bt_posts d)"
proof -
  have "d' = d \<or> (\<exists>e th. applyPurge cfg e th d = Inr d')
      \<or> (\<exists>e th cs. event_changes rd f e th d = Inr (Some cs) \<and> apply_changes (CEvent (remote_event e) # cs) d = Inr d')"
    using assms by (auto simp: applyEvent_def bindR_Inr_iff Apply_None simp del: apply_changes.simps
        split: if_splits option.splits)
  then show ?thesis
  proof (elim disjE exE conjE)
    fix e th assume "applyPurge cfg e th d = Inr d'"
    then have "\<exists>c ev refs d1. c \<in> {CScrubThread (th_id th), CScrubPost (ef_post e)}
      \<and> apply_changes [c, CEvent ev] d = Inr d1 \<and> d' = dropUnreferenced cfg refs d1"
      by (auto simp: applyPurge_def Let_def bindR_Inr_iff Apply_None simp del: apply_changes.simps split: if_splits)
    then obtain c ev refs d1 where c: "c \<in> {CScrubThread (th_id th), CScrubPost (ef_post e)}"
      and d1: "apply_changes [c, CEvent ev] d = Inr d1" "d' = dropUnreferenced cfg refs d1" by blast
    have "map post_id (bt_posts d1) = map post_id (bt_posts d)" using c by (intro apply_changes_old [OF d1(1)]) auto
    then show ?thesis using calm_posts_ids [OF dropUnreferenced_calm] d1(2) by simp
  next
    fix e th cs assume cs: "event_changes rd f e th d = Inr (Some cs)" "apply_changes (CEvent (remote_event e) # cs) d = Inr d'"
    have "CPost p \<notin> set cs" for p using cs(1) by (auto simp: event_changes_def Let_def split: if_splits option.splits)
    then show ?thesis using apply_changes_old [OF cs(2)] by simp
  qed simp
qed

lemma applyRevision_old:
  assumes "applyRevision cfg w f t h body p d = Inr d'"
  shows "map post_id (bt_posts d') = map post_id (bt_posts d)"
proof -
  obtain s u at ns where app: "apply_changes ([CRevision (remote_revision h body), CPostState s, CTouch u at] @ ns) d = Inr d'"
    and ns: "list_all (notice_about (po_id p)) ns" using applyRevision_shape [OF assms] by blast
  have "CPost x \<notin> set ns" for x using ns by (auto simp: list_all_iff notice_about_def)
  then show ?thesis using apply_changes_old [OF app] by simp
qed

lemma ApplyRemote_new_posts:
  assumes "ApplyRemote cfg w rd tools f d = Inr d'"
  shows "map post_id (bt_posts d') = map post_id (bt_posts d)
    \<or> (\<exists>h body. pf_site h = rf_signer f \<and> au_site (pf_author h) = rf_signer f \<and> signed_id f (pf_id h)
         \<and> bt_posts d' = bt_posts d @ [stored_post (remote_post h body)])"
proof (cases "rf_file f")
  case (BoardPath b)
  then have "applyBoard rd f b d = Inr d'" using assms by (simp add: ApplyRemote_def split: if_splits)
  then show ?thesis using applyBoard_calm calm_posts_ids by blast
next
  case (ThreadPath b t)
  then have "applyThread rd f b t d = Inr d'" using assms by (simp add: ApplyRemote_def split: if_splits)
  then have "d' = d \<or> (\<exists>x. apply_changes [CThread x] d = Inr d')"
    by (auto simp: applyThread_def Apply_None bindR_Inr_iff split: option.splits if_splits simp del: apply_changes.simps)
  then show ?thesis using apply_changes_old [of "[CThread x]" for x] by auto
next
  case (PostPath b t i n)
  then have "applyPost cfg w rd f b t i n d = Inr d'" using assms by (simp add: ApplyRemote_def split: if_splits)
  then have "d' = d \<or> (\<exists>h body th. pf_site h = rf_signer f \<and> au_site (pf_author h) = rf_signer f \<and> signed_id f (pf_id h)
      \<and> (applyNewPost cfg w f th h body d = Inr d' \<or> (\<exists>p. applyRevision cfg w f th h body p d = Inr d')))"
    by (auto simp: applyPost_def bindR_Inr_iff split: option.splits if_splits)
  then show ?thesis using applyNewPost_posts applyRevision_old by metis
next
  case (EventPath b t i)
  then have "applyEvent cfg rd f b t i d = Inr d'" using assms by (simp add: ApplyRemote_def split: if_splits)
  then show ?thesis using applyEvent_old by blast
next
  case (BlobPath ref ext)
  then have "applyBlob cfg w tools f ref ext d = Inr d'" using assms by (simp add: ApplyRemote_def split: if_splits)
  then show ?thesis using applyBlob_calm calm_posts_ids by blast
qed

lemma ApplyRemote_touches:
  assumes inv: "board_inv d" and run: "ApplyRemote cfg w rd tools f d = Inr d'" and r: "r \<in> set (bt_posts d)"
    and changed: "post_view (post_id r) d' \<noteq> post_view (post_id r) d"
  shows "po_site (pw_post r) = rf_signer f \<or> purge_event rd f"
proof (cases "rf_file f")
  case (BoardPath b)
  then have "applyBoard rd f b d = Inr d'" using run by (simp add: ApplyRemote_def split: if_splits)
  then show ?thesis using applyBoard_calm calm_post_view changed by blast
next
  case (ThreadPath b t)
  then have "applyThread rd f b t d = Inr d'" using run by (simp add: ApplyRemote_def split: if_splits)
  then have "d' = d \<or> (\<exists>x. apply_changes [CThread x] d = Inr d')"
    by (auto simp: applyThread_def Apply_None bindR_Inr_iff split: option.splits if_splits simp del: apply_changes.simps)
  then show ?thesis using touched_named [of "[CThread x]" for x] changed by auto
next
  case (PostPath b t i n)
  then have "applyPost cfg w rd f b t i n d = Inr d'" using run by (simp add: ApplyRemote_def split: if_splits)
  then show ?thesis using applyPost_touches [OF inv _ r changed] by blast
next
  case (EventPath b t i)
  then have "applyEvent cfg rd f b t i d = Inr d'" using run by (simp add: ApplyRemote_def split: if_splits)
  then show ?thesis using applyEvent_touches [OF inv _ r changed] by (fastforce simp: purge_event_def EventPath)
next
  case (BlobPath ref ext)
  then have "applyBlob cfg w tools f ref ext d = Inr d'" using run by (simp add: ApplyRemote_def split: if_splits)
  then show ?thesis using applyBlob_calm calm_post_view changed by blast
qed

text \<open>
  C17: A partner changes only its own posts, but for purges. If a file a partner signed changes the
  state, note, author or any text of a post that was there, the post is one of the signer's site or the
  file is a purge event; and every post a file adds carries the signer as its site, has an author of
  that site and an id under that site's name.
\<close>

theorem partner_changes_only_its_own:
  assumes "siteName (cg_site cfg)" and "board_reachable cfg d" and "ApplyRemote cfg w rd tools f d = Inr d'"
  shows "(\<forall>r\<in>set (bt_posts d). post_view (post_id r) d' \<noteq> post_view (post_id r) d
            \<longrightarrow> po_site (pw_post r) = rf_signer f \<or> purge_event rd f)
       \<and> (\<forall>r\<in>set (bt_posts d'). \<not> has_post (post_id r) d
            \<longrightarrow> po_site (pw_post r) = rf_signer f \<and> au_site (po_author (pw_post r)) = rf_signer f
                \<and> signed_id f (post_id r))"
proof (intro conjI)
  have "board_inv d" using assms(1,2) reachable_board_inv by blast
  then show "\<forall>r\<in>set (bt_posts d). post_view (post_id r) d' \<noteq> post_view (post_id r) d
      \<longrightarrow> po_site (pw_post r) = rf_signer f \<or> purge_event rd f"
    using ApplyRemote_touches assms(3) by blast
  have has: "has_post i d \<longleftrightarrow> i \<in> set (map post_id (bt_posts d))" for i
    by (auto simp: has_post_def list_ex_iff)
  show "\<forall>r\<in>set (bt_posts d'). \<not> has_post (post_id r) d \<longrightarrow> po_site (pw_post r) = rf_signer f
      \<and> au_site (po_author (pw_post r)) = rf_signer f \<and> signed_id f (post_id r)"
    using ApplyRemote_new_posts [OF assms(3)]
  proof
    assume "map post_id (bt_posts d') = map post_id (bt_posts d)"
    then show ?thesis unfolding has by (metis image_eqI list.set_map)
  qed (auto simp: has stored_post_def remote_post_def)
qed

end
