(* ===== verification/Board_Scenario.thy ===== *)
theory Board_Scenario
  imports Board_Promises Board_Authority
begin

text \<open>
  A small site, run on concrete requests: a board is created, a thread opened on it, a reply written,
  edited and purged. The hashes of the requests are parameters of the states, since no step of the run
  depends on them.
\<close>

section \<open>The site and its requests\<close>

definition demo_site :: board_config where
  "demo_site = \<lparr>cg_site = ''home'', cg_people = [''ada'', ''bob''], cg_people_routed = False, cg_notice_retry = 3600000000000,
     cg_archive_after = 2592000000000000, cg_networks = [], cg_media = None\<rparr>"

definition demo_world :: "int \<Rightarrow> world" where
  "demo_world k = \<lparr>w_now = 1000000000 * k, w_session = (\<lambda>a. Inr (''codex'', True)), w_seat = (\<lambda>s. Inr ('''', False)),
     w_random = (\<lambda>n. CHR ''a'' # replicate 9 (if n = 0 then CHR ''b'' else if n = 1 then CHR ''c'' else CHR ''d'')),
     w_blob = (\<lambda>a. None)\<rparr>"

definition demo_person :: "string \<Rightarrow> actor" where
  "demo_person n = \<lparr>ac_session_address = '''', ac_as_seat = '''', ac_person = n, ac_model = '''', ac_label = '''',
     ac_working_for = ''''\<rparr>"

definition demo_create :: create_board_request where
  "demo_create = \<lparr>cb_actor = demo_person ''ada'', cb_operation_id = ''op-1'', cb_name = ''notes'', cb_description = '''',
     cb_network = ''''\<rparr>"

definition demo_open :: open_thread_request where
  "demo_open = \<lparr>ot_actor = demo_person ''ada'', ot_operation_id = ''op-2'', ot_board = ''notes'', ot_title = ''Plan'',
     ot_body = ''Where to start?'', ot_urgent = False, ot_kind = '''', ot_no_subscribe = False\<rparr>"

definition demo_thread_id :: string where "demo_thread_id = fresh_id demo_site (demo_world 2) 0"
definition demo_opening_id :: string where "demo_opening_id = fresh_id demo_site (demo_world 2) 1"
definition demo_reply_id :: string where "demo_reply_id = fresh_id demo_site (demo_world 3) 0"

definition demo_reply :: reply_request where
  "demo_reply = \<lparr>rp_actor = demo_person ''bob'', rp_operation_id = ''op-3'', rp_thread = demo_thread_id, rp_parent = '''',
     rp_body = ''At the store.'', rp_urgent = False, rp_kind = ''''\<rparr>"

definition demo_edit :: edit_request where
  "demo_edit = \<lparr>ed_actor = demo_person ''bob'', ed_operation_id = ''op-4'', ed_post = demo_reply_id, ed_body = ''At the tests.''\<rparr>"

definition demo_purge :: moderate_request where
  "demo_purge = \<lparr>mo_actor = demo_person ''ada'', mo_operation_id = ''op-5'', mo_post = demo_reply_id, mo_note = ''''\<rparr>"

section \<open>The run\<close>

definition demo_created :: "string \<Rightarrow> write_outcome" where
  "demo_created h1 = do_write demo_site (demo_world 1) ''op-1'' h1 (runCreateBoard demo_site (demo_world 1) demo_create) empty_bdb"

definition demo_opened :: "string \<Rightarrow> string \<Rightarrow> write_outcome" where
  "demo_opened h1 h2 = bindR (demo_created h1) (\<lambda>(x, d).
     do_write demo_site (demo_world 2) ''op-2'' h2 (runOpenThread demo_site (demo_world 2) demo_open) d)"

definition demo_replied :: "string \<Rightarrow> string \<Rightarrow> string \<Rightarrow> write_outcome" where
  "demo_replied h1 h2 h3 = bindR (demo_opened h1 h2) (\<lambda>(x, d).
     do_write demo_site (demo_world 3) ''op-3'' h3 (runReply demo_site (demo_world 3) demo_reply) d)"

definition demo_purged :: "string \<Rightarrow> string \<Rightarrow> string \<Rightarrow> string \<Rightarrow> write_outcome" where
  "demo_purged h1 h2 h3 h4 = bindR (demo_replied h1 h2 h3) (\<lambda>(x, d).
     do_write demo_site (demo_world 4) ''op-5'' h4 (runPurge demo_site (demo_world 4) demo_purge) d)"

definition demo_edited :: "string \<Rightarrow> string \<Rightarrow> string \<Rightarrow> string \<Rightarrow> write_outcome" where
  "demo_edited h1 h2 h3 h4 = bindR (demo_replied h1 h2 h3) (\<lambda>(x, d).
     do_write demo_site (demo_world 4) ''op-4'' h4 (runEdit demo_site (demo_world 4) demo_edit) d)"

fun fresh_at :: "write_outcome \<Rightarrow> bool" where
  "fresh_at (Inl e) = False"
| "fresh_at (Inr ((res, replayed), d)) = (\<not> replayed)"

fun told_state :: "write_outcome \<Rightarrow> bdb" where
  "told_state (Inl e) = empty_bdb"
| "told_state (Inr (x, d)) = d"

text \<open>The bound on a body, compared as integers when it is evaluated.\<close>

lemma checkBody_code [code]:
  "checkBody body =
     (if TrimSpace body = '''' then Inl (Refused CodeInvalid)
      else refuse_if (int (length body) > 1048576) (Refused CodeInvalid))"
proof -
  have "maxBody < length body \<longleftrightarrow> 1048576 < int (length body)" unfolding maxBody_def by presburger
  then show ?thesis by (simp add: checkBody_def)
qed

lemma demo_created_fresh: "fresh_at (demo_created h1)" by code_simp

definition demo_facts :: "bdb \<Rightarrow> bool" where
  "demo_facts d =
     (map post_id (bt_posts d) = [demo_opening_id, demo_reply_id]
      \<and> list_all (\<lambda>r. po_state (pw_post r) = PostVisible) (bt_posts d)
      \<and> length (revisions_of demo_reply_id d) = 1 \<and> bt_events d = [] \<and> Receipt ''op-5'' d = None
      \<and> (case moderated demo_site (demo_world 4) demo_purge d of Inl e \<Rightarrow> False | Inr (person, p, t) \<Rightarrow>
            po_id p \<noteq> th_opening_post_id t \<and> po_id p \<noteq> [] \<and> GetThread (th_id t) d = Some t
            \<and> boardNetwork (th_board t) [] d = [] \<and> has_thread (th_id t) d)
      \<and> demo_thread_id \<noteq> [] \<and> \<not> isl (thread_of demo_thread_id d) \<and> GetBoard ''notes'' d \<noteq> None
      \<and> (case SvcSearch ''notes'' ''STORE'' 10 d of Inr [p] \<Rightarrow> po_id p = demo_reply_id | _ \<Rightarrow> False))"

fun fresh_with :: "(bdb \<Rightarrow> bool) \<Rightarrow> write_outcome \<Rightarrow> bool" where
  "fresh_with P (Inl e) = False"
| "fresh_with P (Inr ((res, replayed), d)) = (\<not> replayed \<and> P d)"

lemma fresh_with_iff: "fresh_with P x \<longleftrightarrow> fresh_at x \<and> P (told_state x)"
  by (cases x rule: fresh_at.cases) auto

lemma demo_opened_facts: "fresh_with (\<lambda>d. bt_posts d \<noteq> []) (demo_opened h1 h2)" by code_simp

lemma demo_opened_fresh: "fresh_at (demo_opened h1 h2)"
  using demo_opened_facts unfolding fresh_with_iff by blast

lemma demo_replied_facts: "fresh_with demo_facts (demo_replied h1 h2 h3)" by code_simp

text \<open>A purge of a reply on a board that is not shared goes through whatever the texts are.\<close>

lemma scrubPost_keeps:
  "bt_threads (scrubPost i d) = bt_threads d" "bt_events d = [] \<Longrightarrow> bt_events (scrubPost i d) = []"
  "map ow_operation_id (bt_operations (scrubPost i d)) = map ow_operation_id (bt_operations d)"
  by (simp_all add: scrubPost_def scrubOutbox_def scrub_def scrubReceipts_def scrubReceipt_def map_upd_same)

lemma purge_goes_through:
  assumes "TrimSpace operation \<noteq> ''''" and "Receipt (TrimSpace operation) d = None"
    and "moderated cfg w q d = Inr (person, p, t)" and "po_id p \<noteq> th_opening_post_id t" and "po_id p \<noteq> ''''"
    and "GetThread (th_id t) d = Some t" and "boardNetwork (th_board t) [] d = ''''"
    and "bt_events d = []" and "has_thread (th_id t) d"
  shows "fresh_at (do_write cfg w operation h (runPurge cfg w q) d)"
proof -
  let ?e = "moderation_event cfg w t p ''purge'' (TrimSpace (mo_note q)) person"
  let ?cs = "[CScrubPost (po_id p), CEvent ?e]"
  let ?d = "(scrubPost (po_id p) d)\<lparr>bt_events := [\<lparr>ew_event = ?e\<rparr>]\<rparr>"
  have e: "ev_thread_id ?e = th_id t" "ev_type ?e = ''purge''" by (simp_all add: moderation_event_def)
  have "share cfg w ?cs d = Inr ?cs"
    using assms(6,7) e by (simp add: share_def share_event_def threadOf_def boardNetwork_def bindR_def)
  moreover have "\<exists>res. runPurge cfg w q d = Inr (res, ?cs)" using assms(3,4) by (simp add: runPurge_def Let_def bindR_def)
  moreover have "apply_changes ?cs d = Inr ?d"
    using assms(5,8,9) e by (simp add: scrubPost_keeps has_thread_def bindR_def insert_if_def)
  moreover have "\<not> has_operation (TrimSpace operation) ?d"
  proof -
    have "has_operation i x \<longleftrightarrow> i \<in> set (map ow_operation_id (bt_operations x))" for i x
      by (auto simp: has_operation_def list_ex_iff)
    then have "has_operation (TrimSpace operation) ?d
        \<longleftrightarrow> TrimSpace operation \<in> set (map ow_operation_id (bt_operations (scrubPost (po_id p) d)))" by simp
    then show ?thesis unfolding scrubPost_keeps(3) using assms(2) by (auto simp: Receipt_def sel1_None_iff)
  qed
  ultimately show ?thesis
    using assms(1,2) by (auto simp: do_write_def Let_def bindR_def Apply_def insert_receipt_def insert_if_def
        simp del: apply_changes.simps)
qed

lemma demo_edited_facts: "fresh_with (\<lambda>d. length (revisions_of demo_reply_id d) = 2) (demo_edited h1 h2 h3 h4)" by code_simp

section \<open>The states of the run\<close>

definition demo_h1 :: string where "demo_h1 = requestHash (createBoardJSON demo_create)"
definition demo_h2 :: string where "demo_h2 = requestHash (openThreadJSON demo_open)"
definition demo_h3 :: string where "demo_h3 = requestHash (replyJSON demo_reply)"
definition demo_board :: bdb where "demo_board = told_state (demo_created demo_h1)"
definition demo_thread :: bdb where "demo_thread = told_state (demo_opened demo_h1 demo_h2)"
definition demo_db :: bdb where "demo_db = told_state (demo_replied demo_h1 demo_h2 demo_h3)"
definition demo_answered :: bdb where
  "demo_answered = told_state (Edit demo_site (demo_world 4) demo_edit demo_db)"
definition demo_cleared :: bdb where
  "demo_cleared = told_state (Purge demo_site (demo_world 4) demo_purge demo_db)"

lemma fresh_outcome: "fresh_at x \<Longrightarrow> \<exists>res. x = Inr ((res, False), told_state x)"
  by (cases x rule: fresh_at.cases) auto

lemma demo_ids: "cb_operation_id demo_create = ''op-1''" "ot_operation_id demo_open = ''op-2''"
  "rp_operation_id demo_reply = ''op-3''" "ed_operation_id demo_edit = ''op-4''" "mo_operation_id demo_purge = ''op-5''"
  by (simp_all add: demo_create_def demo_open_def demo_reply_def demo_edit_def demo_purge_def)

lemma demo_site_ok: "siteName (cg_site demo_site)" by code_simp

lemma demo_created_run: "\<exists>res. run_op demo_site (demo_world 1) (OpCreateBoard demo_create) empty_bdb = Inr ((res, False), demo_board)"
  using fresh_outcome [OF demo_created_fresh [of demo_h1]]
  by (simp add: CreateBoard_def demo_created_def demo_ids demo_board_def flip: demo_h1_def)

lemma demo_opened_run: "\<exists>res. run_op demo_site (demo_world 2) (OpOpenThread demo_open) demo_board = Inr ((res, False), demo_thread)"
proof -
  obtain res where "demo_created demo_h1 = Inr ((res, False), demo_board)"
    using fresh_outcome [OF demo_created_fresh] demo_board_def by metis
  then have "demo_opened demo_h1 demo_h2
      = do_write demo_site (demo_world 2) ''op-2'' demo_h2 (runOpenThread demo_site (demo_world 2) demo_open) demo_board"
    by (simp add: demo_opened_def bindR_def)
  then show ?thesis
    using fresh_outcome [OF demo_opened_fresh [of demo_h1 demo_h2]]
    by (simp add: OpenThread_def demo_ids demo_thread_def flip: demo_h2_def)
qed

lemma demo_replied_run: "\<exists>res. run_op demo_site (demo_world 3) (OpReply demo_reply) demo_thread = Inr ((res, False), demo_db)"
proof -
  obtain res where "demo_opened demo_h1 demo_h2 = Inr ((res, False), demo_thread)"
    using fresh_outcome [OF demo_opened_fresh] demo_thread_def by metis
  then have "demo_replied demo_h1 demo_h2 demo_h3
      = do_write demo_site (demo_world 3) ''op-3'' demo_h3 (runReply demo_site (demo_world 3) demo_reply) demo_thread"
    by (simp add: demo_replied_def bindR_def)
  moreover have "fresh_at (demo_replied demo_h1 demo_h2 demo_h3)" using demo_replied_facts unfolding fresh_with_iff by blast
  ultimately show ?thesis
    using fresh_outcome by (fastforce simp: Reply_def demo_ids demo_db_def simp flip: demo_h3_def)
qed

lemma demo_steps: "board_step demo_site empty_bdb demo_board" "board_step demo_site demo_board demo_thread"
  "board_step demo_site demo_thread demo_db"
  using demo_created_run demo_opened_run demo_replied_run board_step.wrote by metis+

lemma demo_reachable: "board_reachable demo_site demo_board" "board_reachable demo_site demo_thread"
  "board_reachable demo_site demo_db"
  using demo_steps board_reachable.intros by metis+

lemma demo_db_facts: "demo_facts demo_db"
  using demo_replied_facts unfolding fresh_with_iff demo_db_def by blast

lemma demo_thread_posts: "bt_posts demo_thread \<noteq> []"
  using demo_opened_facts unfolding fresh_with_iff demo_thread_def by blast

lemma demo_posts: "map post_id (bt_posts demo_db) = [demo_opening_id, demo_reply_id]"
  "r \<in> set (bt_posts demo_db) \<Longrightarrow> po_state (pw_post r) = PostVisible"
  using demo_db_facts by (simp_all add: demo_facts_def list_all_iff)

lemma demo_purge_run: "\<exists>res. Purge demo_site (demo_world 4) demo_purge demo_db = Inr ((res, False), demo_cleared)"
proof -
  note ready = demo_db_facts [unfolded demo_facts_def]
  obtain person p t where m: "moderated demo_site (demo_world 4) demo_purge demo_db = Inr (person, p, t)"
    using ready by (cases "moderated demo_site (demo_world 4) demo_purge demo_db") auto
  let ?x = "do_write demo_site (demo_world 4) ''op-5'' (requestHash (moderateJSON ''purge'' demo_purge))
      (runPurge demo_site (demo_world 4) demo_purge) demo_db"
  have "TrimSpace ''op-5'' = ''op-5''" by code_simp
  then have "fresh_at ?x" using ready m by (intro purge_goes_through [OF _ _ m]) simp_all
  then obtain res d where "?x = Inr ((res, False), d)" using fresh_outcome by blast
  then have "\<exists>res d. Purge demo_site (demo_world 4) demo_purge demo_db = Inr ((res, False), d)"
    by (simp add: Purge_def demo_ids bindR_def)
  then show ?thesis unfolding demo_cleared_def by (metis told_state.simps(2))
qed

lemma demo_edit_run: "\<exists>res. run_op demo_site (demo_world 4) (OpEdit demo_edit) demo_db = Inr ((res, False), demo_answered)"
  "length (revisions_of demo_reply_id demo_db) = 1" "length (revisions_of demo_reply_id demo_answered) = 2"
proof -
  let ?h = "requestHash (editJSON demo_edit)"
  have "fresh_at (demo_replied demo_h1 demo_h2 demo_h3)" using demo_replied_facts unfolding fresh_with_iff by blast
  then obtain res where "demo_replied demo_h1 demo_h2 demo_h3 = Inr ((res, False), demo_db)"
    using fresh_outcome demo_db_def by metis
  then have edit: "Edit demo_site (demo_world 4) demo_edit demo_db = demo_edited demo_h1 demo_h2 demo_h3 ?h"
    by (simp add: Edit_def demo_ids demo_edited_def bindR_def)
  have facts: "fresh_at (demo_edited demo_h1 demo_h2 demo_h3 ?h)"
    "length (revisions_of demo_reply_id (told_state (demo_edited demo_h1 demo_h2 demo_h3 ?h))) = 2"
    using demo_edited_facts [of demo_h1 demo_h2 demo_h3 ?h] unfolding fresh_with_iff by blast+
  show "\<exists>res. run_op demo_site (demo_world 4) (OpEdit demo_edit) demo_db = Inr ((res, False), demo_answered)"
    using fresh_outcome [OF facts(1)] by (simp add: demo_answered_def edit)
  show "length (revisions_of demo_reply_id demo_answered) = 2" using facts(2) by (simp add: demo_answered_def edit)
  show "length (revisions_of demo_reply_id demo_db) = 1"
    using demo_db_facts by (simp add: demo_facts_def)
qed

lemma demo_reads:
  "demo_thread_id \<noteq> '''' \<and> (\<exists>t. thread_of demo_thread_id demo_db = Inr t)" "GetBoard ''notes'' demo_db \<noteq> None"
  "\<exists>p. SvcSearch ''notes'' ''STORE'' 10 demo_db = Inr [p] \<and> po_id p = demo_reply_id"
proof -
  note facts = demo_db_facts [unfolded demo_facts_def]
  show "demo_thread_id \<noteq> '''' \<and> (\<exists>t. thread_of demo_thread_id demo_db = Inr t)"
    using facts by (cases "thread_of demo_thread_id demo_db") auto
  show "GetBoard ''notes'' demo_db \<noteq> None" using facts by simp
  show "\<exists>p. SvcSearch ''notes'' ''STORE'' 10 demo_db = Inr [p] \<and> po_id p = demo_reply_id"
    using facts by (cases "SvcSearch ''notes'' ''STORE'' 10 demo_db") (auto split: list.splits)
qed

end
