(* ===== verification/Board_Partner.thy ===== *)
theory Board_Partner
  imports Board_Authority
begin

text \<open>
  A site that joined a network, and what it pulls from a partner there: the partner's board, a thread on
  it, and a post. The decoded headers are given as constants.
\<close>

definition shared_site :: board_config where
  "shared_site = \<lparr>cg_site = ''home'', cg_people = [''ada''], cg_people_routed = False, cg_notice_retry = 3600000000000,
     cg_archive_after = 2592000000000000,
     cg_networks = [\<lparr>nt_name = ''net'', nt_partners = [(''away'', ''no_wake'')]\<rparr>], cg_media = None\<rparr>"

definition shared_world :: world where
  "shared_world = \<lparr>w_now = 5000000000, w_session = (\<lambda>a. Inr (''codex'', True)), w_seat = (\<lambda>s. Inr ('''', False)),
     w_random = (\<lambda>n. replicate 10 (CHR ''a'')), w_blob = (\<lambda>a. None)\<rparr>"

definition away_author :: author where
  "away_author = no_author\<lparr>au_kind := AuthorPerson, au_address := ''eve'', au_site := ''away''\<rparr>"

definition away_thread :: string where "away_thread = ''away-01ARZ3NDEKTSV4RRFFQ69G5FAV''"
definition away_post :: string where "away_post = ''away-01ARZ3NDEKTSV4RRFFQ69G5FAW''"

definition away_readers :: readers where
  "away_readers = \<lparr>
     rd_board = (\<lambda>s. Some \<lparr>bf_name = ''shared'', bf_site = ''away'', bf_created_by = away_author, bf_created_at = 0\<rparr>),
     rd_thread = (\<lambda>s. Some \<lparr>tl_id = away_thread, tl_board = ''shared'', tl_title = ''Plan'', tl_opening_post = away_post,
       tl_site = ''away'', tl_created_by = away_author, tl_created_at = 0\<rparr>),
     rd_post = (\<lambda>s. Some \<lparr>pf_id = away_post, pf_thread = away_thread, pf_board = ''shared'', pf_parent = '''',
       pf_site = ''away'', pf_author = away_author, pf_kind = '''', pf_urgent = False, pf_revision = 1, pf_mentions = [],
       pf_model = '''', pf_created_at = 0\<rparr>),
     rd_event = (\<lambda>s. None), rd_participant = (\<lambda>j. None)\<rparr>"

definition away_tools :: media_tools where
  "away_tools = \<lparr>mt_upload_bytes = 0, mt_scanner = False, mt_transform = (\<lambda>a b c. MediaStopped StoreFailed), mt_scan = (\<lambda>a b. ScanClean)\<rparr>"

definition away_file :: "repo_file \<Rightarrow> remote_file" where
  "away_file p = \<lparr>rf_network = ''net'', rf_signer = ''away'', rf_file = p,
     rf_data = ''---'' @ nl @ ''{}'' @ nl @ ''---'' @ nl @ ''Hello'' @ nl, rf_quiet = False, rf_since = None\<rparr>"

fun pulled_state :: "board_error + bdb \<Rightarrow> bdb" where
  "pulled_state (Inl e) = empty_bdb"
| "pulled_state (Inr d) = d"

definition pull :: "repo_file \<Rightarrow> bdb \<Rightarrow> board_error + bdb" where
  "pull p d = ApplyRemote shared_site shared_world away_readers away_tools (away_file p) d"

definition away_board_path :: string where "away_board_path = ''boards/shared/board.md''"
definition away_thread_path :: string where "away_thread_path = ''boards/shared/threads/'' @ away_thread @ ''/thread.md''"
definition away_post_path :: string where
  "away_post_path = PostFilePath ''shared'' away_thread away_post 1"

lemma away_paths:
  "ClassifyPath away_board_path = Some (BoardPath ''shared'')"
  "ClassifyPath away_thread_path = Some (ThreadPath ''shared'' away_thread)"
  "ClassifyPath away_post_path = Some (PostPath ''shared'' away_thread away_post 1)"
  by code_simp+

definition shared_board :: bdb where "shared_board = pulled_state (pull (BoardPath ''shared'') empty_bdb)"
definition shared_thread :: bdb where "shared_thread = pulled_state (pull (ThreadPath ''shared'' away_thread) shared_board)"
definition shared_post :: bdb where "shared_post = pulled_state (pull (PostPath ''shared'' away_thread away_post 1) shared_thread)"

lemma shared_pulls:
  "\<not> isl (pull (BoardPath ''shared'') empty_bdb)"
  "\<not> isl (pull (ThreadPath ''shared'' away_thread) shared_board)"
  "\<not> isl (pull (PostPath ''shared'' away_thread away_post 1) shared_thread)"
  "map post_id (bt_posts shared_post) = [away_post]"
  by code_simp+

lemma shared_site_ok: "siteName (cg_site shared_site)" by code_simp

lemma shared_thread_posts: "bt_posts shared_thread = []" by code_simp

lemma pull_ok: "\<not> isl (pull p d) \<Longrightarrow> pull p d = Inr (pulled_state (pull p d))"
  by (cases "pull p d") auto

lemma shared_step:
  "ClassifyPath path = Some p \<Longrightarrow> \<not> isl (pull p d) \<Longrightarrow> board_step shared_site d (pulled_state (pull p d))"
  using board_step.pulled [of path "away_file p" shared_site shared_world away_readers away_tools d] pull_ok
  by (simp add: pull_def away_file_def)

lemma shared_reachable: "board_reachable shared_site shared_board" "board_reachable shared_site shared_thread"
  "board_reachable shared_site shared_post"
proof -
  show b: "board_reachable shared_site shared_board"
    unfolding shared_board_def by (rule board_reachable.step [OF board_reachable.empty shared_step [OF away_paths(1) shared_pulls(1)]])
  show t: "board_reachable shared_site shared_thread"
    unfolding shared_thread_def by (rule board_reachable.step [OF b shared_step [OF away_paths(2) shared_pulls(2)]])
  show "board_reachable shared_site shared_post"
    unfolding shared_post_def by (rule board_reachable.step [OF t shared_step [OF away_paths(3) shared_pulls(3)]])
qed

lemma shared_post_pulled:
  "ApplyRemote shared_site shared_world away_readers away_tools
     (away_file (PostPath ''shared'' away_thread away_post 1)) shared_thread = Inr shared_post"
  using pull_ok [OF shared_pulls(3)] by (simp add: pull_def shared_post_def)


end
