(* ===== verification/Board_Witnesses.thy ===== *)
theory Board_Witnesses
  imports Board_Scenario Board_Partner Board_Search
begin

text \<open>
  The board's properties at the states of the demo site: each one applied where its hypotheses hold.
\<close>

lemma demo_run: "(board_step demo_site)\<^sup>*\<^sup>* demo_board demo_db" "(board_step demo_site)\<^sup>*\<^sup>* demo_thread demo_db"
  using demo_steps by (auto intro: rtranclp.intros r_into_rtranclp)

lemma demo_ids_ok: "post_ids_ok demo_db"
  using reachable_post_ids_ok demo_reachable(3) demo_site_ok by blast


theorem board_exactly_once_witness:
  "\<exists>res. run_op demo_site (demo_world 1) (OpCreateBoard demo_create) empty_bdb = Inr ((res, False), demo_board)
     \<and> run_op demo_site (demo_world 9) (OpCreateBoard demo_create) demo_board = Inr ((res, True), demo_board)
     \<and> run_op demo_site (demo_world 9) (OpCreateBoard demo_create) demo_db
         \<in> {Inr ((res, True), demo_db), Inl (Refused CodePostNotFound)}"
proof -
  obtain res where r: "run_op demo_site (demo_world 1) (OpCreateBoard demo_create) empty_bdb = Inr ((res, False), demo_board)"
    using demo_created_run by blast
  note once = board_exactly_once [OF demo_site_ok board_reachable.empty r]
  have "run_op demo_site (demo_world 9) (OpCreateBoard demo_create) demo_board = Inr ((res, True), demo_board)"
    using once [OF rtranclp.rtrancl_refl refl] by simp
  moreover have "run_op demo_site (demo_world 9) (OpCreateBoard demo_create) demo_db
      \<in> {Inr ((res, True), demo_db), Inl (Refused CodePostNotFound)}"
    using once [OF demo_run(1) refl] by auto
  ultimately show ?thesis using r by blast
qed

theorem board_history_is_kept_witness:
  "bt_posts demo_thread \<noteq> []
   \<and> prefix (ListRevisions (post_id (hd (bt_posts demo_thread))) demo_thread) (ListRevisions (post_id (hd (bt_posts demo_thread))) demo_db)"
proof -
  have "\<not> purged_post i demo_db" for i using demo_posts(2) by (auto simp: purged_post_def)
  then show ?thesis
    using board_history_is_kept [OF demo_site_ok demo_reachable(2) demo_run(2) hd_in_set] demo_thread_posts by blast
qed


theorem write_needs_authority_witness:
  "\<exists>r\<in>set (bt_posts demo_db). post_id r = demo_reply_id
     \<and> post_view (post_id r) demo_answered \<noteq> post_view (post_id r) demo_db
     \<and> may_change demo_site (demo_world 4) (OpEdit demo_edit) r demo_db"
proof -
  obtain res where e: "run_op demo_site (demo_world 4) (OpEdit demo_edit) demo_db = Inr ((res, False), demo_answered)"
    using demo_edit_run(1) by blast
  have "demo_reply_id \<in> set (map post_id (bt_posts demo_db))" by (simp add: demo_posts(1))
  then obtain r where r: "r \<in> set (bt_posts demo_db)" "post_id r = demo_reply_id" by auto
  have changed: "post_view demo_reply_id demo_answered \<noteq> post_view demo_reply_id demo_db"
    using demo_edit_run(2,3) by (auto simp: post_view_def)
  then have "may_change demo_site (demo_world 4) (OpEdit demo_edit) r demo_db"
    using write_needs_authority [OF demo_site_ok demo_reachable(3) e r(1)] r(2) by simp
  then show ?thesis using r changed by metis
qed

theorem partner_changes_only_its_own_witness:
  "map post_id (bt_posts shared_post) = [away_post] \<and> po_site (pw_post (hd (bt_posts shared_post))) = ''away''
   \<and> signed_id (away_file (PostPath ''shared'' away_thread away_post 1)) away_post"
proof -
  have ids: "map post_id (bt_posts shared_post) = [away_post]" by (rule shared_pulls(4))
  then obtain r where r: "bt_posts shared_post = [r]" "post_id r = away_post" by (cases "bt_posts shared_post") auto
  have "\<not> has_post (post_id r) shared_thread" by (simp add: has_post_def shared_thread_posts)
  then have "po_site (pw_post r) = rf_signer (away_file (PostPath ''shared'' away_thread away_post 1))
      \<and> signed_id (away_file (PostPath ''shared'' away_thread away_post 1)) (post_id r)"
    using partner_changes_only_its_own [OF shared_site_ok shared_reachable(2) shared_post_pulled] r(1) by simp
  then show ?thesis using ids r by (simp add: away_file_def)
qed


theorem reading_pages_complete_witness:
  "\<exists>!pages. reads demo_site demo_thread_id 1 demo_db '''' pages
     \<and> concat pages = map (shown_post demo_site demo_db)
         (sort_key postKey (filter (\<lambda>p. po_thread_id p = demo_thread_id) (joined demo_db)))"
proof -
  obtain t where "thread_of demo_thread_id demo_db = Inr t" using demo_reads(1) by blast
  then show ?thesis by (rule reading_pages_complete [OF demo_ids_ok])
qed

theorem open_acks_complete_witness:
  "OpenAcks ''notes'' 5 demo_db = Inr (Some (take (pageSize 5) (open_decisions demo_db
     (rev (sort_key postKey (filter (\<lambda>p. po_state p = PostVisible \<and> po_kind p = KindDecision
        \<and> (if ''notes'' = '''' then live_thread demo_db p else on_board ''notes'' demo_db p \<noteq> None)) (joined demo_db)))))))"
  using open_acks_complete [OF demo_ids_ok, of "''notes''" 5] demo_reads(2) by blast

end
