(* ===== verification/Board_Uploads.thy ===== *)
theory Board_Uploads
  imports Board_Media
begin

text \<open>
  What the attachment pipeline promises, whatever decoders and scanner it is given: what is served is
  what was checked, what is held is kept aside, and the same bytes are taken in once.
\<close>

section \<open>Records and files\<close>

lemma GetAttachment_Put: "GetAttachment ref (PutAttachment a d) = (if ref = at_ref a then Some a else GetAttachment ref d)"
proof -
  have rest: "sel1 (\<lambda>x. at_ref x = ref) (filter (\<lambda>x. at_ref x \<noteq> at_ref a) xs)
      = (if ref = at_ref a then None else sel1 (\<lambda>x. at_ref x = ref) xs)" for xs
    by (induction xs) (auto simp: sel1_def)
  have "sel1 (\<lambda>x. at_ref x = ref) (filter (\<lambda>x. at_ref x \<noteq> at_ref a) (bt_attachments d) @ [a])
      = (if ref = at_ref a then Some a else sel1 (\<lambda>x. at_ref x = ref) (bt_attachments d))"
    unfolding sel1_append rest by (simp split: option.split)
  then show ?thesis by (simp add: GetAttachment_def PutAttachment_def)
qed

lemma AttachmentByOriginal_None:
  "AttachmentByOriginal h d = None \<longleftrightarrow> (\<forall>a\<in>set (bt_attachments d). at_original_hash a = h \<longrightarrow> at_state a = AttachmentDropped)"
proof -
  have "AttachmentByOriginal h d = None
      \<longleftrightarrow> sort_key at_created_at (sel (\<lambda>a. at_original_hash a = h \<and> at_state a \<noteq> AttachmentDropped) (bt_attachments d)) = []"
    by (auto simp: AttachmentByOriginal_def sel1_None_iff simp flip: set_empty)
  also have "\<dots> \<longleftrightarrow> set (sel (\<lambda>a. at_original_hash a = h \<and> at_state a \<noteq> AttachmentDropped) (bt_attachments d)) = {}"
    by (simp flip: set_empty)
  also have "\<dots> \<longleftrightarrow> (\<forall>a\<in>set (bt_attachments d). at_original_hash a = h \<longrightarrow> at_state a = AttachmentDropped)"
    by (auto simp: sel_def)
  finally show ?thesis .
qed

lemma AttachmentByOriginal_Put:
  assumes "AttachmentByOriginal h d = None" and "at_original_hash a = h" and "at_state a \<noteq> AttachmentDropped"
  shows "AttachmentByOriginal h (PutAttachment a d) = Some a"
proof -
  have none: "\<forall>x\<in>set (bt_attachments d). at_original_hash x = h \<longrightarrow> at_state x = AttachmentDropped"
    using assms(1) by (simp add: AttachmentByOriginal_None)
  then have "sel (\<lambda>x. at_original_hash x = h \<and> at_state x \<noteq> AttachmentDropped)
      (filter (\<lambda>x. at_ref x \<noteq> at_ref a) (bt_attachments d) @ [a]) = [a]"
    using assms(2,3) by (auto simp: sel_def filter_empty_conv)
  then show ?thesis by (simp add: AttachmentByOriginal_def PutAttachment_def sel1_def)
qed

lemma paths_apart: "blobFile a \<noteq> quarantinePath h"
  by (simp add: blobFile_def quarantinePath_def)

lemma quarantine_inj: "quarantinePath h = quarantinePath h' \<longleftrightarrow> h = h'"
  by (simp add: quarantinePath_def)

lemma sha_round_length: "length (sha_round kw v) = length v"
  by (auto simp: sha_round_def Let_def split: list.split)

lemma sha_block_length: "length (sha_block h bs) = length h"
proof -
  have "length (fold sha_round xs v) = length v" for xs v by (induction xs arbitrary: v) (simp_all add: sha_round_length)
  then show ?thesis by (simp add: sha_block_def Let_def)
qed

lemma digest_length [simp]: "length (digest_of data) = 64"
proof -
  have blocks: "length (fold (\<lambda>b acc. sha_block acc b) xs v) = length v" for xs v
    by (induction xs arbitrary: v) (simp_all add: sha_block_length)
  have bytes: "length (concat (map be_bytes h)) = 4 * length h" for h
    by (induction h) (simp_all add: be_bytes_def)
  have hex: "length (hexString t) = 2 * length t" for t
    by (induction t) (simp_all add: hexString_def hex_byte_def)
  show ?thesis by (simp add: digest_of_def hex Sum256_def Let_def bytes blocks sha_init_def)
qed

lemma blobFile_hash:
  assumes "blobFile a = blobFile b" and "2 \<le> length (at_output_hash a)" and "2 \<le> length (at_output_hash b)"
  shows "at_output_hash a = at_output_hash b"
  using assms by (auto simp: blobFile_def split: if_splits)

section \<open>What the pipeline lets through\<close>

lemma Ingest_cases:
  assumes "Ingest tools now name data s fs = Inr (a, fs')"
  obtains (ready) out where "at_state a = AttachmentReady" and "at_ref a = digest_of out" and "at_output_hash a = digest_of out"
      and "at_bytes a = int (length out)" and "fs' = (fs(blobFile a \<mapsto> out))(quarantinePath (digest_of data) := None)"
      and "mt_scanner tools \<Longrightarrow> \<not> sk_scan s \<Longrightarrow> mt_scan tools data out = ScanClean"
      and "at_original_hash a = digest_of data"
  | (held) "at_state a = AttachmentHeld" and "at_ref a = digest_of data" and "fs' = fs(quarantinePath (digest_of data) \<mapsto> data)"
      and "at_original_hash a = digest_of data"
  using assms
  by (auto simp: Ingest_def Let_def pipeline_def scan_def shaped_def new_attachment_def add_check_def
      split: if_splits media_outcome.splits scan_result.splits)

lemma Upload_cases:
  assumes "Upload cfg w tools name data (d, fs) = Inr (a, d', fs')"
  obtains (known) "AttachmentByOriginal (digest_of data) d = Some a" and "d' = d" and "fs' = fs"
  | (taken) x where "AttachmentByOriginal (digest_of data) d = None" and "Ingest tools (w_now w) name data no_skip fs = Inr (x, fs')"
      and "a = (if at_state x = AttachmentHeld then x\<lparr>at_bytes := int (length data)\<rparr> else x)" and "d' = PutAttachment a d"
      and "cg_media cfg \<noteq> None"
proof (cases "AttachmentByOriginal (digest_of data) d")
  case None
  have media: "cg_media cfg \<noteq> None" using assms by (cases "cg_media cfg") (simp_all add: Upload_def)
  then obtain x fs1 where x: "Ingest tools (w_now w) name data no_skip fs = Inr (x, fs1)"
    using assms None by (auto simp: Upload_def bindR_Inr_iff)
  then show ?thesis using assms None media taken [of x] by (auto simp: Upload_def bindR_def Let_def)
next
  case (Some y)
  then show ?thesis using assms known by (auto simp: Upload_def split: if_splits)
qed

text \<open>
  C19: An upload that is new is kept only if it is no document, archive or program and holds no second
  format. It is either ready, and then what is served under its reference are bytes with exactly that
  hash, which the scanner (where one is set up) found clean; or held, and then its original is in
  quarantine, nothing else changed on disk and its file is refused to readers. Uploading the same bytes
  again returns the same attachment and changes nothing.
\<close>

theorem upload_outcomes:
  assumes "Upload cfg w tools name data (d, fs) = Inr (a, d', fs')" and "AttachmentByOriginal (digest_of data) d = None"
  shows "sniff data \<notin> set refused_types \<and> polyglot data (sniff data) = []
       \<and> (if at_state a = AttachmentReady
          then \<exists>out. SvcBlobPath cfg (at_ref a) d' = Inr (a, blobFile a) \<and> fs' (blobFile a) = Some out
                 \<and> digest_of out = at_ref a \<and> (mt_scanner tools \<longrightarrow> mt_scan tools data out = ScanClean)
          else at_state a = AttachmentHeld \<and> fs' = fs(quarantinePath (digest_of data) \<mapsto> data)
                 \<and> SvcBlobPath cfg (at_ref a) d' = Inl (Refused CodeAttachmentHeld))
       \<and> Upload cfg w2 tools2 name2 data (d', fs') = Inr (a, d', fs')"
  using assms(1)
proof (cases rule: Upload_cases)
  case (taken x)
  have kind: "sniff data \<notin> set refused_types \<and> polyglot data (sniff data) = []"
    using taken(2) by (auto simp: Ingest_def Let_def split: if_splits)
  have get: "GetAttachment (at_ref a) d' = Some a" by (simp add: taken(4) GetAttachment_Put)
  have "at_original_hash a = digest_of data \<and> at_state a \<noteq> AttachmentDropped"
    using taken(2) by (cases rule: Ingest_cases) (simp_all add: taken(3))
  then have "AttachmentByOriginal (digest_of data) d' = Some a"
    using AttachmentByOriginal_Put [OF assms(2)] by (simp add: taken(4))
  then have again: "Upload cfg w2 tools2 name2 data (d', fs') = Inr (a, d', fs')"
    using taken(5) by (simp add: Upload_def)
  from taken(2) show ?thesis
  proof (cases rule: Ingest_cases)
    case (ready out)
    have "a = x" using ready(1) by (simp add: taken(3))
    then have "SvcBlobPath cfg (at_ref a) d' = Inr (a, blobFile a)"
      using get taken(5) ready(1) by (simp add: SvcBlobPath_def SvcAttachment_def ok_or_def bindR_def)
    moreover have "fs' (blobFile a) = Some out" using ready(5) \<open>a = x\<close> paths_apart by simp
    ultimately show ?thesis using kind again ready \<open>a = x\<close> by (auto simp: no_skip_def)
  next
    case held
    have "at_state a = AttachmentHeld" using held(1) by (simp add: taken(3))
    then have "SvcBlobPath cfg (at_ref a) d' = Inl (Refused CodeAttachmentHeld)"
      using get taken(5) by (simp add: SvcBlobPath_def SvcAttachment_def ok_or_def bindR_def)
    then show ?thesis using kind again held(3) \<open>at_state a = AttachmentHeld\<close> by simp
  qed
qed (use assms(2) in simp)

section \<open>Records and bytes agree\<close>

definition bytes_ok :: "media_files \<Rightarrow> attachment \<Rightarrow> bool" where
  "bytes_ok fs a =
     (case at_state a of
        AttachmentReady \<Rightarrow> \<exists>out. fs (blobFile a) = Some out \<and> digest_of out = at_output_hash a
      | AttachmentHeld \<Rightarrow> at_ref a = at_original_hash a
          \<and> (\<exists>data. fs (quarantinePath (at_original_hash a)) = Some data \<and> digest_of data = at_original_hash a)
      | AttachmentDropped \<Rightarrow> True)"

definition media_ok :: "bdb \<times> media_files \<Rightarrow> bool" where
  "media_ok st = (\<forall>a\<in>set (bt_attachments (fst st)). bytes_ok (snd st) a)"

lemma put_media_ok:
  assumes "\<And>b. b \<in> set (bt_attachments d) \<Longrightarrow> at_ref b \<noteq> at_ref a \<Longrightarrow> bytes_ok fs' b" and "bytes_ok fs' a"
  shows "media_ok (PutAttachment a d, fs')"
  using assms by (auto simp: media_ok_def PutAttachment_def)

lemma blob_written:
  assumes "bytes_ok fs b" and "at_state b = AttachmentHeld \<Longrightarrow> at_original_hash b \<noteq> h"
    and "at_output_hash x = digest_of out"
  shows "bytes_ok ((fs(blobFile x \<mapsto> out))(quarantinePath h := None)) b"
proof (cases "at_state b")
  case AttachmentReady
  then obtain o1 where o1: "fs (blobFile b) = Some o1" "digest_of o1 = at_output_hash b"
    using assms(1) by (auto simp: bytes_ok_def)
  have "2 \<le> length (at_output_hash b)" unfolding o1(2) [symmetric] by simp
  then have "at_output_hash x = at_output_hash b" if "blobFile b = blobFile x"
    using blobFile_hash [of x b] that assms(3) by simp
  then show ?thesis using AttachmentReady o1 assms(3) paths_apart by (auto simp: bytes_ok_def)
next
  case AttachmentHeld
  then show ?thesis using assms(1,2) paths_apart by (auto simp: bytes_ok_def quarantine_inj dest: sym)
qed (simp add: bytes_ok_def)

lemma quarantine_changed:
  assumes "bytes_ok fs b" and "at_state b = AttachmentHeld \<Longrightarrow> at_original_hash b \<noteq> h"
  shows "bytes_ok (fs(quarantinePath h := v)) b"
proof (cases "at_state b")
  case AttachmentReady
  then show ?thesis using assms(1) paths_apart by (auto simp: bytes_ok_def)
next
  case AttachmentHeld
  then show ?thesis using assms by (auto simp: bytes_ok_def quarantine_inj)
qed (simp add: bytes_ok_def)

lemma Ingest_media_ok:
  assumes run: "Ingest tools now name data s fs = Inr (x, fs1)" and ok: "media_ok (d, fs)"
    and other: "\<And>b. b \<in> set (bt_attachments d) \<Longrightarrow> at_ref b \<noteq> at_ref a \<Longrightarrow> at_state b = AttachmentHeld
                  \<Longrightarrow> at_original_hash b \<noteq> digest_of data"
    and a: "at_state a = at_state x" "at_output_hash a = at_output_hash x" "at_type a = at_type x"
      "at_original_hash a = at_original_hash x" "at_state x = AttachmentHeld \<Longrightarrow> at_ref a = digest_of data"
  shows "media_ok (PutAttachment a d, fs1)"
proof -
  have old: "bytes_ok fs b" if "b \<in> set (bt_attachments d)" for b using ok that by (simp add: media_ok_def)
  have path: "blobFile a = blobFile x" using a by (simp add: blobFile_def)
  from run show ?thesis
  proof (cases rule: Ingest_cases)
    case (ready out)
    have "bytes_ok fs1 a" using a ready path paths_apart by (auto simp: bytes_ok_def)
    moreover have "bytes_ok fs1 b" if "b \<in> set (bt_attachments d)" "at_ref b \<noteq> at_ref a" for b
      unfolding ready(5) using blob_written [OF old [OF that(1)] other [OF that] ready(3)] by blast
    ultimately show ?thesis by (rule put_media_ok [rotated])
  next
    case held
    have "bytes_ok fs1 a" using a held by (auto simp: bytes_ok_def)
    moreover have "bytes_ok fs1 b" if "b \<in> set (bt_attachments d)" "at_ref b \<noteq> at_ref a" for b
      unfolding held(3) using quarantine_changed [OF old [OF that(1)] other [OF that]] by blast
    ultimately show ?thesis by (rule put_media_ok [rotated])
  qed
qed

lemma Upload_media_ok:
  assumes "Upload cfg w tools name data (d, fs) = Inr (a, d', fs')" and "media_ok (d, fs)"
  shows "media_ok (d', fs')"
  using assms(1)
proof (cases rule: Upload_cases)
  case (taken x)
  have orig: "at_state x = AttachmentHeld \<Longrightarrow> at_ref x = digest_of data" using taken(2) by (cases rule: Ingest_cases) auto
  show ?thesis unfolding taken(4)
  proof (rule Ingest_media_ok [OF taken(2) assms(2)])
    show "at_original_hash b \<noteq> digest_of data" if "b \<in> set (bt_attachments d)" "at_state b = AttachmentHeld" for b
      using taken(1) that unfolding AttachmentByOriginal_None by auto
  qed (use orig in \<open>auto simp: taken(3)\<close>)
qed (use assms(2) in simp)

lemma held_found:
  assumes "held_attachment cfg w who ref d = Inr a"
  shows "a \<in> set (bt_attachments d) \<and> at_ref a = ref \<and> at_state a = AttachmentHeld"
  using assms
  by (auto simp: held_attachment_def SvcAttachment_def ok_or_def GetAttachment_def bindR_Inr_iff
      split: if_splits option.splits dest: sel1_SomeD)

text \<open>A held attachment is named by the hash of its original, so no other one waits on the same file.\<close>

lemma held_bytes:
  assumes "media_ok (d, fs)" and "a \<in> set (bt_attachments d)" and "at_state a = AttachmentHeld"
  shows "at_ref a = at_original_hash a"
    and "\<exists>data. fs (quarantinePath (at_original_hash a)) = Some data \<and> digest_of data = at_original_hash a"
proof -
  have "bytes_ok fs a" using assms(1,2) by (simp add: media_ok_def)
  then show "at_ref a = at_original_hash a"
    "\<exists>data. fs (quarantinePath (at_original_hash a)) = Some data \<and> digest_of data = at_original_hash a"
    using assms(3) by (simp_all add: bytes_ok_def)
qed

lemma held_alone:
  assumes "media_ok (d, fs)" and "a \<in> set (bt_attachments d)" and "at_state a = AttachmentHeld"
    and "b \<in> set (bt_attachments d)" and "at_state b = AttachmentHeld" and "at_ref b \<noteq> at_ref a"
  shows "at_original_hash b \<noteq> at_original_hash a"
  using held_bytes(1) [OF assms(1-3)] held_bytes(1) [OF assms(1,4,5)] assms(6) by simp

lemma Drop_media_ok:
  assumes "Drop cfg w who ref (d, fs) = Inr (x, d', fs')" and ok: "media_ok (d, fs)"
  shows "media_ok (d', fs')"
proof -
  obtain a where a: "held_attachment cfg w who ref d = Inr a" "fs' = fs(quarantinePath (at_original_hash a) := None)"
      "at_ref x = at_ref a" "at_state x = AttachmentDropped" "d' = PutAttachment x d"
    using assms(1) by (auto simp: Drop_def bindR_Inr_iff Let_def)
  note f = held_found [OF a(1)]
  have "bytes_ok fs' b" if "b \<in> set (bt_attachments d)" "at_ref b \<noteq> at_ref x" for b
    unfolding a(2) using quarantine_changed held_alone [OF ok _ _ that(1)] f that ok a(3) by (auto simp: media_ok_def)
  then show ?thesis unfolding a(5) using a(4) by (intro put_media_ok) (auto simp: bytes_ok_def)
qed


lemma Release_media_ok:
  assumes "Release cfg w tools who ref (d, fs) = Inr (y, d', fs')" and ok: "media_ok (d, fs)"
  shows "media_ok (d', fs')"
proof -
  obtain a where a: "held_attachment cfg w who ref d = Inr a"
    using assms(1) by (cases "held_attachment cfg w who ref d") (simp_all add: Release_def bindR_def)
  obtain original where q: "fs (quarantinePath (at_original_hash a)) = Some original"
    using assms(1) a by (cases "fs (quarantinePath (at_original_hash a))") (simp_all add: Release_def bindR_def)
  obtain x fs1 where i: "Ingest tools (w_now w) (at_name a) original (release_skip a) fs = Inr (x, fs1)"
    using assms(1) a q by (cases "Ingest tools (w_now w) (at_name a) original (release_skip a) fs")
      (auto simp: Release_def bindR_def)
  have "y = (if at_state x = AttachmentHeld
             then x\<lparr>at_ref := at_ref a, at_created_at := at_created_at a, at_bytes := int (length original)\<rparr>
             else add_check (''released by '' @ ac_person who) (x\<lparr>at_ref := at_ref a, at_created_at := at_created_at a\<rparr>))"
    and y1: "d' = PutAttachment y d"
    and fs': "fs' = (if at_state x = AttachmentHeld then fs1 else fs1(quarantinePath (at_original_hash a) := None))"
    using assms(1) a q i by (auto simp: Release_def bindR_def Let_def split: if_splits)
  then have y: "d' = PutAttachment y d" "at_ref y = at_ref a" "at_state y = at_state x" "at_output_hash y = at_output_hash x"
    "at_type y = at_type x" "at_original_hash y = at_original_hash x"
    by (simp_all add: add_check_def)
  have f: "a \<in> set (bt_attachments d)" "at_state a = AttachmentHeld" using held_found [OF a] by blast+
  have h: "digest_of original = at_original_hash a" using held_bytes(2) [OF ok f] q by auto
  have others: "at_original_hash b \<noteq> digest_of original"
    if "b \<in> set (bt_attachments d)" "at_ref b \<noteq> at_ref y" "at_state b = AttachmentHeld" for b
    using held_alone [OF ok f that(1,3)] that(2) y(2) h by simp
  have "at_ref y = digest_of original" unfolding y(2) h by (rule held_bytes(1) [OF ok f])
  then have ok1: "media_ok (PutAttachment y d, fs1)" by (intro Ingest_media_ok [OF i ok others y(3-6)])
  show ?thesis
  proof (cases "at_state x = AttachmentHeld")
    case True
    then show ?thesis using ok1 by (simp add: y(1) fs')
  next
    case False
    have "bytes_ok fs' b" if "b \<in> set (bt_attachments (PutAttachment y d))" for b
    proof -
      have "bytes_ok fs1 b" using ok1 that by (simp add: media_ok_def)
      moreover have "at_original_hash b \<noteq> at_original_hash a" if "at_state b = AttachmentHeld"
        using that \<open>b \<in> set (bt_attachments (PutAttachment y d))\<close> others [of b] False y(3) h
        by (auto simp: PutAttachment_def)
      ultimately show ?thesis using quarantine_changed False by (simp add: fs')
    qed
    then show ?thesis by (simp add: y(1) media_ok_def)
  qed
qed

inductive media_step :: "board_config \<Rightarrow> bdb \<times> media_files \<Rightarrow> bdb \<times> media_files \<Rightarrow> bool" for cfg where
  uploads: "Upload cfg w tools name data st = Inr (a, st') \<Longrightarrow> media_step cfg st st'"
| releases: "Release cfg w tools who ref st = Inr (a, st') \<Longrightarrow> media_step cfg st st'"
| drops: "Drop cfg w who ref st = Inr (a, st') \<Longrightarrow> media_step cfg st st'"

lemma media_step_ok: "media_step cfg st st' \<Longrightarrow> media_ok st \<Longrightarrow> media_ok st'"
proof (induction rule: media_step.induct)
  case (uploads w tools name data st a st')
  then show ?case using Upload_media_ok by (cases st; cases st') blast
next
  case (releases w tools who ref st a st')
  then show ?case using Release_media_ok by (cases st; cases st') blast
next
  case (drops w who ref st a st')
  then show ?case using Drop_media_ok by (cases st; cases st') blast
qed

text \<open>
  C20: Records and bytes agree. However uploads, releases and drops follow each other, with whatever
  decoders and scanner answers, the file of every attachment that is served exists and its bytes have the
  hash the record names, and the original of every attachment that waits for a person is in quarantine,
  unchanged.
\<close>

theorem attachments_have_their_bytes:
  assumes "(media_step cfg)\<^sup>*\<^sup>* (d0, fs0) (d, fs)" and "bt_attachments d0 = []"
  shows "(\<forall>ref a path. SvcBlobPath cfg ref d = Inr (a, path)
            \<longrightarrow> (\<exists>out. fs path = Some out \<and> digest_of out = at_output_hash a))
       \<and> (\<forall>a\<in>set (Held cfg d). \<exists>data. fs (quarantinePath (at_original_hash a)) = Some data
            \<and> digest_of data = at_original_hash a)"
proof -
  have "media_ok st'" if "(media_step cfg)\<^sup>*\<^sup>* st st'" "media_ok st" for st st'
    using that by (induction rule: rtranclp_induct) (auto intro: media_step_ok)
  moreover have "media_ok (d0, fs0)" using assms(2) by (simp add: media_ok_def)
  ultimately have ok: "media_ok (d, fs)" using assms(1) by blast
  have "\<exists>out. fs path = Some out \<and> digest_of out = at_output_hash a" if "SvcBlobPath cfg ref d = Inr (a, path)" for ref a path
  proof -
    have "a \<in> set (bt_attachments d)" "at_state a = AttachmentReady" "path = blobFile a"
      using that by (auto simp: SvcBlobPath_def SvcAttachment_def ok_or_def GetAttachment_def bindR_Inr_iff
          split: if_splits option.splits dest: sel1_SomeD)
    then show ?thesis using ok by (force simp: media_ok_def bytes_ok_def)
  qed
  moreover have "\<exists>data. fs (quarantinePath (at_original_hash a)) = Some data \<and> digest_of data = at_original_hash a"
    if "a \<in> set (Held cfg d)" for a
    using that held_bytes(2) [OF ok] by (auto simp: Held_def ListAttachments_def sel_def split: if_splits)
  ultimately show ?thesis by blast
qed

section \<open>One upload\<close>

definition media_site :: board_config where
  "media_site = \<lparr>cg_site = ''home'', cg_people = [''ada''], cg_people_routed = False, cg_notice_retry = 3600000000000,
     cg_archive_after = 2592000000000000, cg_networks = [], cg_media = Some 1000\<rparr>"

definition media_world :: world where
  "media_world = \<lparr>w_now = 0, w_session = (\<lambda>a. Inr (''codex'', True)), w_seat = (\<lambda>s. Inr ('''', False)),
     w_random = (\<lambda>n. ''''), w_blob = (\<lambda>a. None)\<rparr>"

definition plain_tools :: media_tools where
  "plain_tools = \<lparr>mt_upload_bytes = 1000, mt_scanner = True,
     mt_transform = (\<lambda>kind data s. Transformed \<lparr>ms_kind = ''image'', ms_type = ''image/webp'', ms_width = 1, ms_height = 1,
       ms_duration_ms = 0\<rparr> ''RIFF''), mt_scan = (\<lambda>data out. ScanClean)\<rparr>"

lemma polyglot_short:
  assumes "length data \<le> 65536" and "\<not> has_text (''PK'' @ [CHR 0x05, CHR 0x06]) data" and "\<not> has_text ''%PDF-'' (drop 1 data)"
    and "\<not> has_text ''<script'' (lower_ascii data)" and "\<not> has_text ''<html'' (lower_ascii data)"
  shows "polyglot data kind = ''''"
proof -
  have "drop (length data - 65536) data = data" "take 1048576 data = data" using assms(1) by simp_all
  then show ?thesis using assms(2-5) by (simp add: polyglot_def Let_def)
qed

lemma gif_checks: "sniff ''GIF89a;'' = ''gif''" "''gif'' \<notin> set refused_types" "polyglot ''GIF89a;'' ''gif'' = ''''"
  "map_of extensionType (lower_ascii (fileExt ''dot.gif'')) = Some ''gif''" "compatible ''gif'' ''gif''"
proof -
  show "polyglot ''GIF89a;'' ''gif'' = ''''"
  proof (rule polyglot_short)
    show "\<not> has_text (''PK'' @ [CHR 0x05, CHR 0x06]) ''GIF89a;''" "\<not> has_text ''%PDF-'' (drop 1 ''GIF89a;'')"
      "\<not> has_text ''<script'' (lower_ascii ''GIF89a;'')" "\<not> has_text ''<html'' (lower_ascii ''GIF89a;'')" by code_simp+
  qed simp
qed code_simp+

lemma gif_uploads:
  "\<exists>a d' fs'. Upload media_site media_world plain_tools ''dot.gif'' ''GIF89a;'' (empty_bdb, Map.empty) = Inr (a, d', fs')
     \<and> at_state a = AttachmentReady"
  and gif_new: "AttachmentByOriginal h empty_bdb = None"
proof -
  show new: "AttachmentByOriginal h empty_bdb = None" for h by (simp add: AttachmentByOriginal_None empty_bdb_def)
  have "cg_media media_site = Some 1000" by (simp add: media_site_def)
  then show "\<exists>a d' fs'. Upload media_site media_world plain_tools ''dot.gif'' ''GIF89a;'' (empty_bdb, Map.empty) = Inr (a, d', fs')
     \<and> at_state a = AttachmentReady"
    using gif_checks by (simp add: Upload_def new Ingest_def Let_def pipeline_def plain_tools_def scan_def no_skip_def bindR_def)
qed

theorem upload_outcomes_witness:
  "\<exists>a d' fs'. Upload media_site media_world plain_tools ''dot.gif'' ''GIF89a;'' (empty_bdb, Map.empty) = Inr (a, d', fs')
     \<and> Upload media_site media_world plain_tools ''dot.gif'' ''GIF89a;'' (d', fs') = Inr (a, d', fs')"
  using gif_uploads upload_outcomes [OF _ gif_new] by blast

theorem attachments_have_their_bytes_witness:
  "\<exists>a d fs out. (media_step media_site)\<^sup>*\<^sup>* (empty_bdb, Map.empty) (d, fs)
     \<and> SvcBlobPath media_site (at_ref a) d = Inr (a, blobFile a) \<and> fs (blobFile a) = Some out
     \<and> digest_of out = at_output_hash a"
proof -
  obtain a d fs where up: "Upload media_site media_world plain_tools ''dot.gif'' ''GIF89a;'' (empty_bdb, Map.empty) = Inr (a, d, fs)"
      and ready: "at_state a = AttachmentReady"
    using gif_uploads by blast
  from up have "GetAttachment (at_ref a) d = Some a"
    by (cases rule: Upload_cases) (simp_all add: gif_new GetAttachment_Put)
  then have path: "SvcBlobPath media_site (at_ref a) d = Inr (a, blobFile a)"
    using ready by (simp add: SvcBlobPath_def SvcAttachment_def media_site_def ok_or_def bindR_def)
  have run: "(media_step media_site)\<^sup>*\<^sup>* (empty_bdb, Map.empty) (d, fs)"
    using media_step.uploads [OF up] by (rule r_into_rtranclp)
  have "bt_attachments empty_bdb = []" by (simp add: empty_bdb_def)
  then have "\<exists>out. fs (blobFile a) = Some out \<and> digest_of out = at_output_hash a"
    using attachments_have_their_bytes [OF run] path by blast
  then show ?thesis using run path by blast
qed

end
