(* ===== verification/Board_Render.thy ===== *)
theory Board_Render
  imports Board_Text
begin

text \<open>
  A post as a model reads it (\<^verbatim>\<open>src/internal/board/render.go\<close>): folded sections become one
  line unless they are asked for, images a description, and code is left as written. The two patterns
  of the file are deterministic from left to right, so each is a function of the text it starts at.
\<close>

abbreviation LF :: char where "LF \<equiv> CHR 0x0A"

section \<open>Code\<close>

fun SplitAfter :: "string \<Rightarrow> string list" where
  "SplitAfter [] = [[]]"
| "SplitAfter (c # r) =
     (case SplitAfter r of
        [] \<Rightarrow> [[c]]
      | l # ls \<Rightarrow> if c = LF then [c] # l # ls else (c # l) # ls)"

text \<open>\<^verbatim>\<open>fencePattern\<close>: the fence a line starts with, and the bytes up to its end.\<close>

definition fenceOf :: "string \<Rightarrow> (string \<times> nat) option" where
  "fenceOf line =
     (let sp = length (takeWhile (\<lambda>c. c = CHR '' '') (take 3 line)); rest = drop sp line
      in case rest of
           [] \<Rightarrow> None
         | c # _ \<Rightarrow>
             (let run = takeWhile (\<lambda>x. x = c) rest
              in if (c = tick \<or> c = CHR ''~'') \<and> 3 \<le> length run then Some (run, sp + length run) else None))"

text \<open>
  The fenced blocks of the lines from \<open>offset\<close> on, the fence that is open (with where it opened), and
  the prose between them with the positions of its bytes.
\<close>

fun fences :: "nat \<Rightarrow> (string \<times> nat) option \<Rightarrow> string list \<Rightarrow> (nat \<times> nat) list \<times> (char \<times> nat) list" where
  "fences offset None [] = ([], [])"
| "fences offset (Some (f, start)) [] = ([(start, offset)], [])"
| "fences offset None (line # rest) =
     (case fenceOf line of
        Some (run, _) \<Rightarrow> fences (offset + length line) (Some (run, offset)) rest
      | None \<Rightarrow>
          (let (rs, prose) = fences (offset + length line) None rest
           in (rs, zip line [offset..<offset + length line] @ prose)))"
| "fences offset (Some (f, start)) (line # rest) =
     (let stop = offset + length line
      in case fenceOf line of
           None \<Rightarrow> fences stop (Some (f, start)) rest
         | Some (run, w) \<Rightarrow>
             if hd run = hd f \<and> length f \<le> length run \<and> TrimSpace (drop w line) = ''''
             then (let (rs, prose) = fences stop None rest in ((start, stop) # rs, prose))
             else fences stop (Some (f, start)) rest)"

text \<open>From a run of \<open>w\<close> backquotes, the end of the next run of the same length and what follows it.\<close>

function close_run :: "nat \<Rightarrow> (char \<times> nat) list \<Rightarrow> (nat \<times> (char \<times> nat) list) option" where
  "close_run w [] = None"
| "close_run w (x # xs) =
     (if fst x \<noteq> tick then close_run w xs
      else let run = x # takeWhile (\<lambda>y. fst y = tick) xs; rest = dropWhile (\<lambda>y. fst y = tick) xs
           in if length run = w then Some (snd (last run) + 1, rest) else close_run w rest)"
  by pat_completeness auto
termination
  by (relation "measure (\<lambda>(w, xs). length xs)") (auto simp: length_dropWhile_le le_imp_less_Suc)

lemma close_run_shorter: "close_run w xs = Some (e, rest) \<Longrightarrow> length rest \<le> length xs"
proof (induction w xs rule: close_run.induct)
  case (2 w x xs)
  show ?case
  proof (cases "fst x = tick")
    case False
    then show ?thesis using 2 by auto
  next
    case True
    have "length rest \<le> length (dropWhile (\<lambda>y. fst y = tick) xs)"
      using 2 True by (auto simp: Let_def split: if_splits)
    then show ?thesis using length_dropWhile_le [of "\<lambda>y. fst y = tick" xs] by simp
  qed
qed simp

function spans :: "(char \<times> nat) list \<Rightarrow> (nat \<times> nat) list" where
  "spans [] = []"
| "spans (x # xs) =
     (if fst x \<noteq> tick then spans xs
      else let w = Suc (length (takeWhile (\<lambda>y. fst y = tick) xs)); rest = dropWhile (\<lambda>y. fst y = tick) xs
           in case close_run w rest of
                Some (e, rest') \<Rightarrow> (snd x, e) # spans rest'
              | None \<Rightarrow> spans rest)"
  by pat_completeness auto
termination
proof (relation "measure length")
  fix x :: "char \<times> nat" and xs w rest y e rest'
  assume "rest = dropWhile (\<lambda>y. fst y = tick) xs" and "close_run w rest = Some y" and "(e, rest') = y"
  then show "(rest', x # xs) \<in> measure length"
    using close_run_shorter [of w rest e rest'] length_dropWhile_le [of "\<lambda>y. fst y = tick" xs] by simp
next
  fix x :: "char \<times> nat" and xs rest :: "(char \<times> nat) list" and w
  assume "rest = dropWhile (\<lambda>y. fst y = tick) xs"
  then show "(rest, x # xs) \<in> measure length" using length_dropWhile_le [of "\<lambda>y. fst y = tick" xs] by simp
qed simp_all

definition codeRanges :: "string \<Rightarrow> (nat \<times> nat) list" where
  "codeRanges body = (let (rs, prose) = fences 0 None (SplitAfter body) in rs @ spans prose)"

section \<open>Folds\<close>

text \<open>
  A literal of the pattern without regard to case, and the number of bytes it matched: the letter s is
  also matched by U+017F, the one other character that folds to a letter of the pattern.
\<close>

fun ci_prefix :: "string \<Rightarrow> string \<Rightarrow> nat option" where
  "ci_prefix [] s = Some 0"
| "ci_prefix (p # ps) [] = None"
| "ci_prefix (p # ps) (c # r) =
     (if lower_char c = p then map_option Suc (ci_prefix ps r)
      else if p = CHR ''s'' \<and> c = CHR 0xC5 \<and> r \<noteq> [] \<and> hd r = CHR 0xBF then map_option (\<lambda>n. n + 2) (ci_prefix ps (tl r))
      else None)"

fun find_ci :: "string \<Rightarrow> string \<Rightarrow> (nat \<times> nat) option" where
  "find_ci p [] = None"
| "find_ci p (c # r) =
     (case ci_prefix p (c # r) of
        Some w \<Rightarrow> Some (0, w)
      | None \<Rightarrow> map_option (\<lambda>(at, w). (Suc at, w)) (find_ci p r))"

text \<open>
  The folded section a text starts with: its summary and its inner part as offset and length, and the
  length of the whole.
\<close>

definition spaces :: "string \<Rightarrow> nat" where
  "spaces s = length (takeWhile re_space s)"

definition details_at :: "string \<Rightarrow> ((nat \<times> nat) option \<times> (nat \<times> nat) \<times> nat) option" where
  "details_at s =
     (case ci_prefix ''<details'' s of
        None \<Rightarrow> None
      | Some a \<Rightarrow>
          (let s1 = drop a s;
               b = (if spaces s1 = 0 then 0
                    else case ci_prefix ''open'' (drop (spaces s1) s1) of None \<Rightarrow> 0 | Some w \<Rightarrow> spaces s1 + w);
               s2 = drop b s1; s3 = drop (spaces s2) s2
           in if s3 = [] \<or> hd s3 \<noteq> CHR ''>'' then None
              else let s4 = tl s3; start = a + b + spaces s2 + 1 + spaces s4; t = drop start s;
                       plain = (case find_ci ''</details>'' t of
                                  None \<Rightarrow> None
                                | Some (y, w) \<Rightarrow> Some (None, (start, y), start + y + w))
                   in case ci_prefix ''<summary>'' t of
                        None \<Rightarrow> plain
                      | Some v \<Rightarrow>
                          (case find_ci ''</summary>'' (drop v t) of
                             None \<Rightarrow> plain
                           | Some (x, xw) \<Rightarrow>
                               (case find_ci ''</details>'' (drop (v + x + xw) t) of
                                  None \<Rightarrow> plain
                                | Some (y, yw) \<Rightarrow>
                                    Some (Some (start + v, x), (start + v + x + xw, y), start + v + x + xw + y + yw)))))"

definition slice :: "nat \<times> nat \<Rightarrow> string \<Rightarrow> string" where
  "slice r s = take (snd r) (drop (fst r) s)"

text \<open>Sections are found in the masked text and taken from the body; both have the same length.\<close>

function replace_from :: "(string \<Rightarrow> string \<Rightarrow> string) \<Rightarrow> string \<Rightarrow> string \<Rightarrow> string" where
  "replace_from f [] body = []"
| "replace_from f (c # m) body =
     (case details_at (c # m) of
        None \<Rightarrow> hd body # replace_from f m (tl body)
      | Some (summary, inner, n) \<Rightarrow>
          f (case summary of None \<Rightarrow> '''' | Some r \<Rightarrow> slice r body) (slice inner body)
            @ replace_from f (drop (n - 1) m) (drop n body))"
  by pat_completeness auto
termination
  by (relation "measure (\<lambda>(f, m, b). length m)") auto

definition masked :: "string \<Rightarrow> string" where
  "masked body =
     (let rs = codeRanges body
      in map (\<lambda>(i, c). if c = CHR ''<'' \<and> list_ex (\<lambda>(a, b). a \<le> i \<and> i < b) rs then CHR 0x00 else c)
           (enumerate 0 body))"

definition replaceFolds :: "string \<Rightarrow> (string \<Rightarrow> string \<Rightarrow> string) \<Rightarrow> string" where
  "replaceFolds body f = replace_from f (masked body) body"

section \<open>Images\<close>

text \<open>The image a text starts with: alternative text, target, caption, and its length.\<close>

definition image_at :: "string \<Rightarrow> (string \<times> string \<times> string \<times> nat) option" where
  "image_at s =
     (if \<not> prefix ''!['' s then None
      else let alt = takeWhile (\<lambda>c. c \<noteq> CHR '']'') (drop 2 s); r1 = drop (2 + length alt) s
           in if \<not> prefix ''](''  r1 then None
              else let r2 = drop 2 r1; r3 = drop (spaces r2) r2;
                       target = takeWhile (\<lambda>c. \<not> re_space c \<and> c \<noteq> CHR '')'') r3; r4 = drop (length target) r3;
                       r5 = drop (spaces r4) r4;
                       quoted = takeWhile (\<lambda>c. c \<noteq> CHR 0x22) (tl r5);
                       captioned = (spaces r4 \<noteq> 0 \<and> r5 \<noteq> [] \<and> hd r5 = CHR 0x22 \<and> length quoted < length (tl r5));
                       caption = (if captioned then quoted else '''');
                       r6 = (if captioned then drop (length quoted + 2) r5 else r4);
                       r7 = drop (spaces r6) r6
                   in if target = [] \<or> r7 = [] \<or> hd r7 \<noteq> CHR '')'' then None
                      else Some (alt, target, caption, length s - length r7 + 1))"

definition times_sign :: string where
  "times_sign = [CHR 0xC3, CHR 0x97]"

text \<open>Milliseconds as whole seconds, to the nearest, halves to the even one.\<close>

definition seconds0 :: "int \<Rightarrow> int" where
  "seconds0 ms =
     (let q = ms div 1000; r = ms mod 1000
      in if r > 500 \<or> r = 500 \<and> odd q then q + 1 else q)"

definition describe_image :: "(string \<Rightarrow> attachment option) \<Rightarrow> string \<times> string \<times> string \<Rightarrow> string" where
  "describe_image known m =
     (let (alt, target, caption) = m; alt = TrimSpace alt; caption = TrimSpace caption;
          image = (if alt = '''' then ''image'' else ''image: '' @ alt);
          parts = (if caption = '''' then [] else [''caption '' @ caption]);
          bracket = (\<lambda>first rest. ''['' @ Join (first # rest) ''; '' @ '']'')
      in case after_prefix ''blob:'' target of
           None \<Rightarrow> bracket image (parts @ [''link '' @ target])
         | Some hash \<Rightarrow>
             (let ref = (case after_prefix ''sha256-'' hash of None \<Rightarrow> hash | Some h \<Rightarrow> h);
                  blob = ''board blob '' @ ref
              in case known ref of
                   None \<Rightarrow> bracket image (parts @ [blob])
                 | Some a \<Rightarrow>
                     (let size = dec (at_width a) @ times_sign @ dec (at_height a)
                      in if at_state a = AttachmentHeld
                         then ''[attachment held: '' @ at_reason a
                              @ ''; a person on this site can release it with board release '' @ ref @ '']''
                         else if at_state a = AttachmentDropped then ''[attachment removed]''
                         else if at_kind a = ''moving image''
                         then bracket (''moving '' @ image)
                                (parts @ [size @ '', '' @ dec (seconds0 (at_duration_ms a)) @ '' s'', blob])
                         else bracket image (parts @ [size, blob]))))"

function replaceImages :: "(string \<times> string \<times> string \<Rightarrow> string) \<Rightarrow> string \<Rightarrow> string" where
  "replaceImages f [] = []"
| "replaceImages f (c # r) =
     (case image_at (c # r) of
        None \<Rightarrow> c # replaceImages f r
      | Some (alt, target, caption, n) \<Rightarrow> f (alt, target, caption) @ replaceImages f (drop (n - 1) r))"
  by pat_completeness auto
termination
  by (relation "measure (\<lambda>(f, s). length s)") auto

section \<open>Rendering\<close>

definition plural :: "nat \<Rightarrow> string \<Rightarrow> string \<Rightarrow> string" where
  "plural n one many = (if n = 1 then one else many)"

definition trim_newlines :: "string \<Rightarrow> string" where
  "trim_newlines s = rev (dropWhile (\<lambda>c. c = LF) (rev (dropWhile (\<lambda>c. c = LF) s)))"

definition fold_text :: "bool \<Rightarrow> string \<Rightarrow> string \<Rightarrow> string" where
  "fold_text unfold summary inner =
     (let summary = (if TrimSpace summary = '''' then ''details'' else TrimSpace summary);
          inner = trim_newlines inner
      in if unfold then ''['' @ summary @ '']'' @ [LF] @ inner @ [LF] @ ''[end of '' @ summary @ '']''
         else let n = (if TrimSpace inner = '''' then 0 else length (filter (\<lambda>c. c = LF) inner) + 1)
              in ''[folded: '' @ summary @ '', '' @ dec (int n) @ '' '' @ plural n ''line'' ''lines''
                 @ ''; --unfold to show]'')"

definition RenderForAgentWith :: "string \<Rightarrow> bool \<Rightarrow> attachment list \<Rightarrow> string" where
  "RenderForAgentWith body unfold attachments =
     replaceImages (describe_image (\<lambda>ref. sel1 (\<lambda>a. at_ref a = ref) (rev attachments)))
       (replaceFolds body (fold_text unfold))"

definition RenderForAgent :: "string \<Rightarrow> bool \<Rightarrow> string" where
  "RenderForAgent body unfold = RenderForAgentWith body unfold []"

end
