(* ===== verification/Humans.thy ===== *)
theory Humans
  imports Board_Text
begin

text \<open>
  crew-humans (\<^verbatim>\<open>src/internal/humans\<close>): the people of a site, their routes, the notices
  in their inboxes and the pushes of each notice, with the SQLite records of
  \<^verbatim>\<open>humanssqlite/store.go\<close>. The stored times are fixed-width UTC texts, which sort as the
  instants do, so a column of times is a column of instants.

  Parameters: \<open>url_ok\<close> says whether \<^verbatim>\<open>url.Parse\<close> reads an http or https address with a
  host in a text; the four random bytes of an id; and what a push answers.
\<close>

section \<open>Runes\<close>

text \<open>
  The runes of a string, each as the bytes it is printed with: a byte that starts no valid sequence is
  a rune of its own and prints as U+FFFD, as \<^verbatim>\<open>string([]rune(s))\<close> does.
\<close>

definition replacement :: string where
  "replacement = [CHR 0xEF, CHR 0xBF, CHR 0xBD]"

definition ellipsis :: string where
  "ellipsis = [CHR 0xE2, CHR 0x80, CHR 0xA6]"

definition rune_width :: "string \<Rightarrow> nat" where
  "rune_width s = (if byte (hd s) < 0x80 then 1 else utf8_width s)"

function runes :: "string \<Rightarrow> string list" where
  "runes [] = []"
| "runes (c # r) =
     (let w = rune_width (c # r)
      in if w = 0 then replacement # runes r else take w (c # r) # runes (drop w (c # r)))"
  by pat_completeness auto
termination
  by (relation "measure length") auto

declare runes.simps [simp del]

definition RuneCount :: "string \<Rightarrow> nat" where
  "RuneCount s = length (runes s)"

section \<open>People\<close>

abbreviation RouteInbox :: string where "RouteInbox \<equiv> ''inbox''"
abbreviation RouteHomeAssistant :: string where "RouteHomeAssistant \<equiv> ''home-assistant''"
abbreviation PushMentions :: string where "PushMentions \<equiv> ''mentions''"
abbreviation PushAll :: string where "PushAll \<equiv> ''all''"
abbreviation PushUrgent :: string where "PushUrgent \<equiv> ''urgent''"

record route_config =
  rk_kind :: string
  rk_url :: string
  rk_service :: string
  rk_token_file :: string
  rk_push :: string

record human =
  hu_name :: string
  hu_display :: string
  hu_routes :: "route_config list"

record people_file =
  pe_site :: string
  pe_people :: "human list"

definition publicRoute :: "route_config \<Rightarrow> route_config" where
  "publicRoute r = r\<lparr>rk_token_file := ''''\<rparr>"

definition publicPerson :: "human \<Rightarrow> human" where
  "publicPerson p = p\<lparr>hu_routes := map publicRoute (hu_routes p)\<rparr>"

text \<open>The reasons a people file is refused with.\<close>

datatype people_error =
    SiteMissing
  | BadName string
  | ListedTwice string
  | BadURL string nat
  | BadService string nat
  | TokenMissing string nat
  | UnknownKind string nat string
  | BadPush string nat

definition nameRule :: "string \<Rightarrow> bool" where
  "nameRule s = first_rest lower_alpha name_char 31 s"

definition serviceRule :: "string \<Rightarrow> bool" where
  "serviceRule s = (s \<noteq> [] \<and> list_all (\<lambda>c. name_start c \<or> c = CHR ''_'') s)"

text \<open>One route of person \<open>p\<close>: the route with its defaults, and whether it is an inbox.\<close>

definition checkRoute ::
  "(string \<Rightarrow> bool) \<Rightarrow> string \<Rightarrow> nat \<Rightarrow> route_config \<Rightarrow> people_error + route_config \<times> bool" where
  "checkRoute url_ok p j r =
     (if rk_kind r = RouteInbox then Inr (r, True)
      else if rk_kind r = RouteHomeAssistant
      then (if \<not> url_ok (rk_url r) then Inl (BadURL p j)
            else if \<not> serviceRule (rk_service r) then Inl (BadService p j)
            else if rk_token_file r = '''' then Inl (TokenMissing p j)
            else if rk_push r = '''' then Inr (r\<lparr>rk_push := PushMentions\<rparr>, False)
            else if rk_push r \<in> {PushMentions, PushAll, PushUrgent} then Inr (r, False)
            else Inl (BadPush p j))
      else Inl (UnknownKind p j (rk_kind r)))"

fun checkRoutes ::
  "(string \<Rightarrow> bool) \<Rightarrow> string \<Rightarrow> nat \<Rightarrow> route_config list \<Rightarrow> people_error + route_config list \<times> bool" where
  "checkRoutes url_ok p j [] = Inr ([], False)"
| "checkRoutes url_ok p j (r # rs) =
     bindR (checkRoute url_ok p j r) (\<lambda>(r', here).
     bindR (checkRoutes url_ok p (Suc j) rs) (\<lambda>(rs', later).
     Inr (r' # rs', here \<or> later)))"

definition inboxRoute :: route_config where
  "inboxRoute = \<lparr>rk_kind = RouteInbox, rk_url = '''', rk_service = '''', rk_token_file = '''', rk_push = ''''\<rparr>"

definition checkPerson :: "(string \<Rightarrow> bool) \<Rightarrow> human \<Rightarrow> people_error + human" where
  "checkPerson url_ok p =
     bindR (checkRoutes url_ok (hu_name p) 0 (hu_routes p)) (\<lambda>(rs, inbox).
     Inr (p\<lparr>hu_display := (if hu_display p = '''' then hu_name p else hu_display p),
           hu_routes := (if inbox then rs else inboxRoute # rs)\<rparr>))"

fun checkPeople :: "(string \<Rightarrow> bool) \<Rightarrow> string list \<Rightarrow> human list \<Rightarrow> people_error + human list" where
  "checkPeople url_ok seen [] = Inr []"
| "checkPeople url_ok seen (p # ps) =
     bindR (refuse_if (\<not> nameRule (hu_name p)) (BadName (hu_name p))) (\<lambda>_.
     bindR (refuse_if (hu_name p \<in> set seen) (ListedTwice (hu_name p))) (\<lambda>_.
     bindR (checkPerson url_ok p) (\<lambda>p'.
     bindR (checkPeople url_ok (hu_name p # seen) ps) (\<lambda>ps'.
     Inr (p' # ps')))))"

definition Check :: "(string \<Rightarrow> bool) \<Rightarrow> people_file \<Rightarrow> people_error + people_file" where
  "Check url_ok f =
     bindR (refuse_if (pe_site f = '''') SiteMissing) (\<lambda>_.
     bindR (checkPeople url_ok [] (pe_people f)) (\<lambda>ps.
     Inr (f\<lparr>pe_people := ps\<rparr>)))"

section \<open>Notices and pushes\<close>

record notify_request =
  nr_person :: string
  nr_source :: string
  nr_key :: string
  nr_title :: string
  nr_text :: string
  nr_link :: string
  nr_reason :: string
  nr_group :: string
  nr_urgent :: bool

datatype notify_outcome = OutcomeAccepted | OutcomeRecorded

record notify_result =
  ns_notice_id :: string
  ns_outcome :: notify_outcome
  ns_routes :: "string list"

datatype push_state = DeliveryPending | DeliverySent | DeliveryFailed

record push_delivery =
  pd_notice_id :: string
  pd_route :: int
  pd_kind :: string
  pd_state :: push_state
  pd_attempts :: nat
  pd_last_error :: string
  pd_next_attempt_at :: time
  pd_give_up_at :: time
  pd_sent_at :: "time option"

text \<open>A row of the \<^verbatim>\<open>notices\<close> table, and a notice: the row with its pushes.\<close>

record inbox_row =
  in_id :: string
  in_person :: string
  in_source :: string
  in_key :: string
  in_title :: string
  in_text :: string
  in_link :: string
  in_reason :: string
  in_group :: string
  in_urgent :: bool
  in_created_at :: time
  in_read_at :: "time option"

record inbox_notice = inbox_row +
  in_deliveries :: "push_delivery list"

definition pushes :: "route_config \<Rightarrow> 'a inbox_row_scheme \<Rightarrow> bool" where
  "pushes r n =
     (if rk_push r = PushAll then True
      else if rk_push r = PushUrgent then in_urgent n
      else in_urgent n \<or> in_reason n \<noteq> ''subscription'')"

datatype humans_code = CodeInvalid | CodeUnknownPerson | CodeNotFound | CodeConflict

text \<open>A refusal with its code, or an error of the store.\<close>

datatype humans_error = HumansRefused humans_code | HumansStore

section \<open>Identifiers\<close>

text \<open>
  \<^verbatim>\<open>newID\<close> keeps the last millisecond it used and a sequence in package variables; the
  sequence is a 64-bit integer of which the low 16 bits are printed.
\<close>

record id_state =
  idLast :: int
  idSeq :: "64 word"

definition id_start :: id_state where
  "id_start = \<lparr>idLast = 0, idSeq = 0\<rparr>"

fun hex_nat :: "nat \<Rightarrow> string" where
  "hex_nat n = (if n < 16 then [hex_digit n] else hex_nat (n div 16) @ [hex_digit (n mod 16)])"

declare hex_nat.simps [simp del]

definition hexPad :: "nat \<Rightarrow> nat \<Rightarrow> string" where
  "hexPad w n = replicate (w - length (hex_nat n)) CHR ''0'' @ hex_nat n"

definition newID :: "time \<Rightarrow> string \<Rightarrow> id_state \<Rightarrow> string \<times> id_state" where
  "newID now random st =
     (let ms = now div 1000000;
          (ms, seq) = (if ms \<le> idLast st then (idLast st, idSeq st + 1) else (ms, 0))
      in (''hn-'' @ hexPad 12 (nat ms) @ hexPad 4 (unat (seq AND 0xFFFF)) @ hexString random,
          \<lparr>idLast = ms, idSeq = seq\<rparr>))"

section \<open>Records\<close>

record hdb =
  hd_notices :: "inbox_row list"
  hd_deliveries :: "push_delivery list"

definition empty_hdb :: hdb where
  "empty_hdb = \<lparr>hd_notices = [], hd_deliveries = []\<rparr>"

definition listPushes :: "string \<Rightarrow> hdb \<Rightarrow> push_delivery list" where
  "listPushes i d = sort_key pd_route (sel (\<lambda>x. pd_notice_id x = i) (hd_deliveries d))"

definition scanNotice :: "hdb \<Rightarrow> inbox_row \<Rightarrow> inbox_notice" where
  "scanNotice d r = inbox_row.extend r (inbox_notice.fields (listPushes (in_id r) d))"

definition getNotice :: "string \<Rightarrow> hdb \<Rightarrow> inbox_notice option" where
  "getNotice i d = map_option (scanNotice d) (sel1 (\<lambda>r. in_id r = i) (hd_notices d))"

text \<open>
  The insert does nothing on a conflict of \<^verbatim>\<open>(source, idempotency_key)\<close>, which SQLite looks at
  before the primary key; a clash of the primary keys is an error.
\<close>

definition InsertNotice :: "inbox_notice \<Rightarrow> hdb \<Rightarrow> humans_error + (inbox_notice \<times> bool) \<times> hdb" where
  "InsertNotice n d =
     (case sel1 (\<lambda>r. in_source r = in_source n \<and> in_key r = in_key n) (hd_notices d) of
        Some r \<Rightarrow> bindR (ok_or HumansStore (getNotice (in_id r) d)) (\<lambda>old. Inr ((old, False), d))
      | None \<Rightarrow>
          if in_id n \<in> set (map in_id (hd_notices d)) then Inl HumansStore
          else if \<not> distinct (map pd_route (in_deliveries n))
                  \<or> (\<exists>x\<in>set (hd_deliveries d). pd_notice_id x = in_id n \<and> pd_route x \<in> pd_route ` set (in_deliveries n))
          then Inl HumansStore
          else Inr ((n, True),
                 d\<lparr>hd_notices := hd_notices d @ [(inbox_row.truncate n)\<lparr>in_read_at := None\<rparr>],
                   hd_deliveries := hd_deliveries d
                     @ map (\<lambda>x. x\<lparr>pd_notice_id := in_id n\<rparr>) (in_deliveries n)\<rparr>))"

definition storedNotices :: "string \<Rightarrow> bool \<Rightarrow> string \<Rightarrow> int \<Rightarrow> hdb \<Rightarrow> inbox_notice list" where
  "storedNotices person unread_only before limit d =
     map (scanNotice d) (take (nat limit) (rev (sort_key in_id (sel (\<lambda>r.
       in_person r = person \<and> (unread_only \<longrightarrow> in_read_at r = None) \<and> (before \<noteq> '''' \<longrightarrow> in_id r < before))
       (hd_notices d)))))"

definition CountUnread :: "string \<Rightarrow> hdb \<Rightarrow> nat" where
  "CountUnread person d = length (sel (\<lambda>r. in_person r = person \<and> in_read_at r = None) (hd_notices d))"

definition markable :: "string \<Rightarrow> string list \<Rightarrow> string \<Rightarrow> string \<Rightarrow> inbox_row \<Rightarrow> bool" where
  "markable person ids through grp r =
     (in_person r = person \<and> in_read_at r = None \<and>
      (if ids \<noteq> [] then in_id r \<in> set ids
       else if through \<noteq> '''' then in_id r \<le> through
       else in_group r = grp))"

definition markRows :: "string \<Rightarrow> string list \<Rightarrow> string \<Rightarrow> string \<Rightarrow> time \<Rightarrow> hdb \<Rightarrow> nat \<times> hdb" where
  "markRows person ids through grp when d =
     (length (sel (markable person ids through grp) (hd_notices d)),
      d\<lparr>hd_notices := upd (markable person ids through grp) (\<lambda>r. r\<lparr>in_read_at := Some when\<rparr>) (hd_notices d)\<rparr>)"

definition DueDeliveries :: "time \<Rightarrow> nat \<Rightarrow> hdb \<Rightarrow> push_delivery list" where
  "DueDeliveries now limit d =
     take limit (sort_key pd_next_attempt_at
       (sel (\<lambda>x. pd_state x = DeliveryPending \<and> pd_next_attempt_at x \<le> now) (hd_deliveries d)))"

definition UpdateDelivery :: "push_delivery \<Rightarrow> hdb \<Rightarrow> hdb" where
  "UpdateDelivery v d =
     d\<lparr>hd_deliveries :=
         upd (\<lambda>x. pd_notice_id x = pd_notice_id v \<and> pd_route x = pd_route v)
           (\<lambda>x. x\<lparr>pd_state := pd_state v, pd_attempts := pd_attempts v, pd_last_error := pd_last_error v,
                 pd_next_attempt_at := pd_next_attempt_at v, pd_sent_at := pd_sent_at v\<rparr>)
           (hd_deliveries d)\<rparr>"

section \<open>The service\<close>

record humans_config =
  hc_people :: people_file
  hc_give_up :: duration

definition NewHumans :: "(string \<Rightarrow> bool) \<Rightarrow> humans_config \<Rightarrow> people_error + humans_config" where
  "NewHumans url_ok cfg =
     bindR (Check url_ok (hc_people cfg)) (\<lambda>f.
     Inr \<lparr>hc_people = f, hc_give_up = (if hc_give_up cfg \<le> 0 then 3600000000000 else hc_give_up cfg)\<rparr>)"

definition person :: "humans_config \<Rightarrow> string \<Rightarrow> human option" where
  "person cfg name = sel1 (\<lambda>p. hu_name p = name) (pe_people (hc_people cfg))"

definition People :: "humans_config \<Rightarrow> human list" where
  "People cfg = map publicPerson (pe_people (hc_people cfg))"

definition GetPerson :: "humans_config \<Rightarrow> string \<Rightarrow> humans_error + human" where
  "GetPerson cfg name = bindR (ok_or (HumansRefused CodeUnknownPerson) (person cfg name)) (\<lambda>p. Inr (publicPerson p))"

definition blank :: "char \<Rightarrow> bool" where
  "blank c = (c = CHR '' '' \<or> byte c = 10)"

definition LastIndexBlank :: "string \<Rightarrow> nat option" where
  "LastIndexBlank s =
     (let tail = takeWhile (\<lambda>c. \<not> blank c) (rev s)
      in if length tail = length s then None else Some (length s - length tail - 1))"

definition TrimRightBlank :: "string \<Rightarrow> string" where
  "TrimRightBlank s = rev (dropWhile blank (rev s))"

definition cut_text :: "string \<Rightarrow> nat \<Rightarrow> string" where
  "cut_text s most =
     (if RuneCount s \<le> most then s
      else let short = concat (take (most - 1) (runes s));
               short = (case LastIndexBlank short of
                          Some i \<Rightarrow> if i > length short * 2 div 3 then take i short else short
                        | None \<Rightarrow> short)
           in TrimRightBlank short @ ellipsis)"

text \<open>The guards of \<^verbatim>\<open>Notify\<close> after the person is known, on the trimmed request.\<close>

definition trimmed :: "notify_request \<Rightarrow> notify_request" where
  "trimmed q = q\<lparr>nr_title := TrimSpace (nr_title q), nr_text := TrimSpace (nr_text q)\<rparr>"

definition notifiable :: "(string \<Rightarrow> bool) \<Rightarrow> notify_request \<Rightarrow> bool" where
  "notifiable url_ok q =
     (nr_source q \<noteq> '''' \<and> length (nr_source q) \<le> 256 \<and>
      nr_key q \<noteq> '''' \<and> length (nr_key q) \<le> 256 \<and>
      nr_title q \<noteq> '''' \<and> RuneCount (nr_title q) \<le> 200 \<and>
      length (nr_link q) \<le> 2048 \<and>
      length (nr_group q) \<le> 256 \<and> length (nr_reason q) \<le> 64 \<and>
      (nr_link q = '''' \<or> url_ok (nr_link q)))"

definition noticeOf :: "string \<Rightarrow> time \<Rightarrow> notify_request \<Rightarrow> inbox_row" where
  "noticeOf i now q =
     \<lparr>in_id = i, in_person = nr_person q, in_source = nr_source q, in_key = nr_key q, in_title = nr_title q,
      in_text = nr_text q, in_link = nr_link q, in_reason = nr_reason q, in_group = nr_group q,
      in_urgent = nr_urgent q, in_created_at = now, in_read_at = None\<rparr>"

definition pushesFor :: "humans_config \<Rightarrow> time \<Rightarrow> human \<Rightarrow> inbox_row \<Rightarrow> push_delivery list" where
  "pushesFor cfg now p n =
     map (\<lambda>(i, r). \<lparr>pd_notice_id = in_id n, pd_route = int i, pd_kind = rk_kind r, pd_state = DeliveryPending,
             pd_attempts = 0, pd_last_error = '''', pd_next_attempt_at = now,
             pd_give_up_at = now + hc_give_up cfg, pd_sent_at = None\<rparr>)
       (filter (\<lambda>(i, r). rk_kind r \<noteq> RouteInbox \<and> pushes r n) (enumerate 0 (hu_routes p)))"

definition sameRequest :: "inbox_notice \<Rightarrow> inbox_notice \<Rightarrow> bool" where
  "sameRequest a b =
     (in_person a = in_person b \<and> in_title a = in_title b \<and> in_text a = in_text b \<and> in_link a = in_link b
      \<and> in_reason a = in_reason b \<and> in_group a = in_group b \<and> in_urgent a = in_urgent b)"

definition notifyResult :: "inbox_notice \<Rightarrow> notify_result" where
  "notifyResult n =
     \<lparr>ns_notice_id = in_id n,
      ns_outcome = (if in_deliveries n = [] then OutcomeRecorded else OutcomeAccepted),
      ns_routes = RouteInbox # map pd_kind (in_deliveries n)\<rparr>"

text \<open>The service's state: the package variables of \<^verbatim>\<open>newID\<close> and the records.\<close>

record humans_site =
  hs_ids :: id_state
  hs_db :: hdb

type_synonym notify_answer = "humans_error + notify_result \<times> bool"

definition Notify ::
  "(string \<Rightarrow> bool) \<Rightarrow> humans_config \<Rightarrow> time \<Rightarrow> string \<Rightarrow> notify_request \<Rightarrow> humans_site \<Rightarrow> notify_answer \<times> humans_site" where
  "Notify url_ok cfg now random q s =
     (case person cfg (nr_person q) of
        None \<Rightarrow> (Inl (HumansRefused CodeUnknownPerson), s)
      | Some p \<Rightarrow>
          let q = trimmed q
          in if \<not> notifiable url_ok q then (Inl (HumansRefused CodeInvalid), s)
             else let q = q\<lparr>nr_text := cut_text (nr_text q) 600\<rparr>;
                      (i, ids) = newID now random (hs_ids s);
                      s = s\<lparr>hs_ids := ids\<rparr>;
                      row = noticeOf i now q;
                      n = inbox_row.extend row (inbox_notice.fields (pushesFor cfg now p row))
                  in (case InsertNotice n (hs_db s) of
                        Inl e \<Rightarrow> (Inl e, s)
                      | Inr ((stored, created), d) \<Rightarrow>
                          if \<not> created \<and> \<not> sameRequest stored n
                          then (Inl (HumansRefused CodeConflict), s\<lparr>hs_db := d\<rparr>)
                          else (Inr (notifyResult stored, \<not> created), s\<lparr>hs_db := d\<rparr>)))"

record inbox =
  ib_notices :: "inbox_notice list"
  ib_unread :: nat

definition InboxOf ::
  "humans_config \<Rightarrow> string \<Rightarrow> bool \<Rightarrow> string \<Rightarrow> int \<Rightarrow> hdb \<Rightarrow> humans_error + inbox" where
  "InboxOf cfg name unread_only before limit d =
     (case person cfg name of
        None \<Rightarrow> Inl (HumansRefused CodeUnknownPerson)
      | Some _ \<Rightarrow>
          Inr \<lparr>ib_notices = storedNotices name unread_only before
                  (if limit \<le> 0 \<or> limit > 200 then 50 else limit) d,
               ib_unread = CountUnread name d\<rparr>)"

definition NoticeByID :: "string \<Rightarrow> hdb \<Rightarrow> humans_error + inbox_notice" where
  "NoticeByID i d = ok_or (HumansRefused CodeNotFound) (getNotice i d)"

record mark_read_request =
  mk_person :: string
  mk_ids :: "string list"
  mk_through :: string
  mk_group :: string

definition MarkNoticesRead ::
  "humans_config \<Rightarrow> time \<Rightarrow> mark_read_request \<Rightarrow> hdb \<Rightarrow> humans_error + nat \<times> hdb" where
  "MarkNoticesRead cfg now q d =
     (case person cfg (mk_person q) of
        None \<Rightarrow> Inl (HumansRefused CodeUnknownPerson)
      | Some _ \<Rightarrow>
          if length (filter id [mk_ids q \<noteq> [], mk_through q \<noteq> '''', mk_group q \<noteq> '''']) \<noteq> 1
             \<or> length (mk_ids q) > 200
          then Inl (HumansRefused CodeInvalid)
          else Inr (markRows (mk_person q) (mk_ids q) (mk_through q) (mk_group q) now d))"

definition routeOf :: "humans_config \<Rightarrow> string \<Rightarrow> push_delivery \<Rightarrow> (human \<times> route_config) option" where
  "routeOf cfg name x =
     (case person cfg name of
        None \<Rightarrow> None
      | Some p \<Rightarrow>
          if pd_route x < 0 \<or> pd_route x \<ge> int (length (hu_routes p))
             \<or> rk_kind (hu_routes p ! nat (pd_route x)) \<noteq> pd_kind x
          then None else Some (p, hu_routes p ! nat (pd_route x)))"

section \<open>Delivery\<close>

datatype push_answer = Pushed | PushRefused string | PushFailed string

type_synonym pushers = "string \<Rightarrow> (human \<Rightarrow> route_config \<Rightarrow> inbox_notice \<Rightarrow> push_answer) option"

fun double_until :: "nat \<Rightarrow> duration \<Rightarrow> duration" where
  "double_until 0 v = v"
| "double_until (Suc n) v = (if v < 300000000000 then double_until n (v * 2) else v)"

definition backoff :: "nat \<Rightarrow> duration" where
  "backoff attempts = min (double_until (attempts - 1) 5000000000) 300000000000"

text \<open>
  One attempt at a due push, the delivery as it is written back: \<open>now\<close> is the clock of the attempt,
  \<open>pusher\<close> the pusher of the delivery's kind.
\<close>

definition attempted ::
  "time \<Rightarrow> (human \<times> route_config) option \<Rightarrow> (human \<Rightarrow> route_config \<Rightarrow> inbox_notice \<Rightarrow> push_answer) option
     \<Rightarrow> inbox_notice \<Rightarrow> push_delivery \<Rightarrow> push_delivery" where
  "attempted now to pusher n x =
     (case to of
        None \<Rightarrow> x\<lparr>pd_state := DeliveryFailed, pd_last_error := ''the route is no longer in the people file''\<rparr>
      | Some (p, r) \<Rightarrow>
          (case pusher of
             None \<Rightarrow> x\<lparr>pd_state := DeliveryFailed, pd_last_error := ''no pusher for '' @ pd_kind x\<rparr>
           | Some push \<Rightarrow>
               (case push p r n of
                  Pushed \<Rightarrow> x\<lparr>pd_state := DeliverySent, pd_last_error := '''', pd_sent_at := Some now\<rparr>
                | PushRefused e \<Rightarrow> x\<lparr>pd_state := DeliveryFailed, pd_last_error := ''refused: '' @ e\<rparr>
                | PushFailed e \<Rightarrow>
                    if now \<ge> pd_give_up_at x
                    then x\<lparr>pd_state := DeliveryFailed, pd_last_error := ''gave up: '' @ e\<rparr>
                    else x\<lparr>pd_last_error := e, pd_next_attempt_at := now + backoff (pd_attempts x)\<rparr>)))"

definition attempt :: "humans_config \<Rightarrow> time \<Rightarrow> pushers \<Rightarrow> push_delivery \<Rightarrow> hdb \<Rightarrow> bool \<times> hdb" where
  "attempt cfg now pushers x d =
     (let x = x\<lparr>pd_attempts := Suc (pd_attempts x)\<rparr>
      in case getNotice (pd_notice_id x) d of
           None \<Rightarrow> (False, d)
         | Some n \<Rightarrow>
             (let x = attempted now (routeOf cfg (in_person n) x) (pushers (pd_kind x)) n x
              in (pd_state x \<noteq> DeliveryPending, UpdateDelivery x d)))"

text \<open>
  A pass: \<open>start\<close> is its clock, \<open>io\<close> the clock and the answers of its attempts by number.
\<close>

fun attempts :: "humans_config \<Rightarrow> (nat \<Rightarrow> time \<times> pushers) \<Rightarrow> nat \<Rightarrow> push_delivery list \<Rightarrow> hdb \<Rightarrow> nat \<times> hdb" where
  "attempts cfg io k [] d = (0, d)"
| "attempts cfg io k (x # xs) d =
     (let (settled, d) = attempt cfg (fst (io k)) (snd (io k)) x d;
          (n, d) = attempts cfg io (Suc k) xs d
      in ((if settled then Suc n else n), d))"

definition Pass :: "humans_config \<Rightarrow> time \<Rightarrow> (nat \<Rightarrow> time \<times> pushers) \<Rightarrow> hdb \<Rightarrow> nat \<times> hdb" where
  "Pass cfg start io d = attempts cfg io 0 (DueDeliveries start 50 d) d"

section \<open>Home Assistant\<close>

text \<open>
  The request a push makes: \<open>token\<close> reads the token file (\<open>Inl\<close> its error), \<open>post\<close> sends the request.
  The map of the body prints with its keys in order.
\<close>

record ha_request =
  ha_endpoint :: string
  ha_authorization :: string
  ha_body :: json

datatype ha_answer = HaMalformed string | HaUnreachable string | HaAnswered nat string

definition haData :: "inbox_notice \<Rightarrow> json" where
  "haData n = JObject
     ([(''channel'', JString (if in_urgent n then ''Crew urgent'' else ''Crew''))]
      @ (if in_link n \<noteq> '''' then [(''clickAction'', JString (in_link n))] else [])
      @ [(''importance'', JString (if in_urgent n then ''high'' else ''default''))]
      @ (if in_urgent n then [(''priority'', JString ''high'')] else [])
      @ (if in_group n \<noteq> '''' then [(''tag'', JString (''crew-'' @ in_group n))] else [])
      @ (if in_link n \<noteq> '''' then [(''url'', JString (in_link n))] else []))"

definition trimSlashes :: "string \<Rightarrow> string" where
  "trimSlashes s = rev (dropWhile (\<lambda>c. c = CHR ''/'') (rev s))"

definition haRequest :: "string \<Rightarrow> route_config \<Rightarrow> inbox_notice \<Rightarrow> ha_request" where
  "haRequest token r n =
     (let title = (if in_urgent n then ''[urgent] '' @ in_title n else in_title n);
          message = cut_text (in_text n) 140;
          message = (if message = '''' then title else message)
      in \<lparr>ha_endpoint = trimSlashes (rk_url r) @ ''/api/services/notify/'' @ rk_service r,
          ha_authorization = ''Bearer '' @ TrimSpace token,
          ha_body = JObject [(''data'', haData n), (''message'', JString message), (''title'', JString title)]\<rparr>)"

definition HomeAssistantPush ::
  "(string \<Rightarrow> string + string) \<Rightarrow> (ha_request \<Rightarrow> ha_answer) \<Rightarrow> human \<Rightarrow> route_config \<Rightarrow> inbox_notice \<Rightarrow> push_answer" where
  "HomeAssistantPush token post p r n =
     (case token (rk_token_file r) of
        Inl e \<Rightarrow> PushRefused (''read the Home Assistant token: '' @ e)
      | Inr t \<Rightarrow>
          (case post (haRequest t r n) of
             HaMalformed e \<Rightarrow> PushRefused e
           | HaUnreachable e \<Rightarrow> PushFailed e
           | HaAnswered status detail \<Rightarrow>
               if status < 300 then Pushed
               else if status \<ge> 400 \<and> status < 500 \<and> status \<noteq> 429
               then PushRefused (''Home Assistant answered '' @ dec (int status) @ '': '' @ TrimSpace (take 512 detail))
               else PushFailed (''Home Assistant answered '' @ dec (int status))))"

end
