(* ===== verification/Humans_Text.thy ===== *)
theory Humans_Text
  imports Humans Board_Ids
begin

text \<open>
  The texts and ids of crew-humans: a shortened text is at most as many characters as asked for, and
  the ids of one process sort in the order they were made until the printed sequence wraps.
\<close>

section \<open>Runes\<close>

definition valid_rune :: "string \<Rightarrow> bool" where
  "valid_rune r = (r \<noteq> [] \<and> rune_width r = length r)"

definition lead_byte :: "char \<Rightarrow> (nat \<times> nat \<times> nat) option" where
  "lead_byte a =
     (let x = of_char a :: nat
      in if 0xC2 \<le> x \<and> x \<le> 0xDF then Some (2, 0x80, 0xBF)
         else if x = 0xE0 then Some (3, 0xA0, 0xBF)
         else if x = 0xED then Some (3, 0x80, 0x9F)
         else if 0xE1 \<le> x \<and> x \<le> 0xEF then Some (3, 0x80, 0xBF)
         else if x = 0xF0 then Some (4, 0x90, 0xBF)
         else if x = 0xF4 then Some (4, 0x80, 0x8F)
         else if 0xF1 \<le> x \<and> x \<le> 0xF3 then Some (4, 0x80, 0xBF)
         else None)"

lemma utf8_width_lead:
  "utf8_width (a # r) =
     (case lead_byte a of
        None \<Rightarrow> 0
      | Some (w, lo, hi) \<Rightarrow>
          if continuation lo hi r \<and> (3 \<le> w \<longrightarrow> continuation 0x80 0xBF (drop 1 r))
             \<and> (4 \<le> w \<longrightarrow> continuation 0x80 0xBF (drop 2 r))
          then w else 0)"
  unfolding utf8_width_def lead_byte_def Let_def list.case by (simp split del: if_split split: if_split)

lemma lead_byte_width: "lead_byte a = Some (w, lo, hi) \<Longrightarrow> w = 2 \<or> w = 3 \<or> w = 4"
  unfolding lead_byte_def Let_def by (simp split: if_splits)

lemma lead_byte_high: "lead_byte a = Some (w, lo, hi) \<Longrightarrow> 0x80 \<le> (of_char a :: nat) \<and> 0x80 \<le> lo"
  unfolding lead_byte_def Let_def by (simp split: if_splits)

lemma continuation_iff: "continuation lo hi s \<longleftrightarrow> (\<exists>c r. s = c # r \<and> lo \<le> of_char c \<and> of_char c \<le> hi)"
  by (cases s) (simp_all add: continuation_def)

text \<open>The width depends on no byte after the sequence, and the sequence is there.\<close>

lemma utf8_width_local:
  assumes "utf8_width s = w" and "w \<noteq> 0"
  shows "w \<le> length s \<and> (\<forall>t. utf8_width (take w s @ t) = w) \<and> (\<forall>c\<in>set (take w s). 0x80 \<le> (of_char c :: nat))"
proof -
  obtain a r where s: "s = a # r" using assms by (cases s) (auto simp: utf8_width_def)
  obtain lo hi where l: "lead_byte a = Some (w, lo, hi)" and c: "continuation lo hi r"
    and c1: "3 \<le> w \<longrightarrow> continuation 0x80 0xBF (drop 1 r)"
    and c2: "4 \<le> w \<longrightarrow> continuation 0x80 0xBF (drop 2 r)"
    using assms unfolding s utf8_width_lead by (simp split: option.splits prod.splits if_splits)
  obtain b r1 where r: "r = b # r1" "lo \<le> of_char b" "of_char b \<le> hi" using c by (auto simp: continuation_iff)
  have high: "0x80 \<le> (of_char a :: nat)" "0x80 \<le> (of_char b :: nat)" using lead_byte_high [OF l] r(2) by auto
  consider "w = 2" | "w = 3" | "w = 4" using lead_byte_width [OF l] by blast
  then show ?thesis
  proof cases
    case 1
    then show ?thesis using l r high by (simp add: s utf8_width_lead continuation_iff)
  next
    case 2
    then obtain c' r2 where "r1 = c' # r2" "0x80 \<le> (of_char c' :: nat)" "(of_char c' :: nat) \<le> 0xBF"
      using c1 r by (auto simp: continuation_iff)
    then show ?thesis using l r 2 high by (simp add: s utf8_width_lead continuation_iff numeral_3_eq_3)
  next
    case 3
    then obtain c' r2 where r2: "r1 = c' # r2" "0x80 \<le> (of_char c' :: nat)" "(of_char c' :: nat) \<le> 0xBF"
      using c1 r by (auto simp: continuation_iff)
    then obtain d r3 where "r2 = d # r3" "0x80 \<le> (of_char d :: nat)" "(of_char d :: nat) \<le> 0xBF"
      using c2 r 3 by (auto simp: continuation_iff)
    then show ?thesis using l r r2 3 high by (simp add: s utf8_width_lead continuation_iff)
  qed
qed

lemma rune_width_append:
  assumes "valid_rune r"
  shows "rune_width (r @ t) = length r"
proof (cases "byte (hd r) < 0x80")
  case True
  with assms show ?thesis by (cases r) (auto simp: valid_rune_def rune_width_def)
next
  case False
  then have "utf8_width r = length r" "length r \<noteq> 0" using assms by (auto simp: valid_rune_def rune_width_def)
  then have "utf8_width (r @ t) = length r" using utf8_width_local [of r "length r"] by simp
  with False \<open>length r \<noteq> 0\<close> show ?thesis by (simp add: rune_width_def)
qed

lemma rune_width_take:
  assumes "rune_width s \<noteq> 0" and "s \<noteq> []"
  shows "valid_rune (take (rune_width s) s)"
proof (cases "byte (hd s) < 0x80")
  case True
  with assms show ?thesis by (cases s) (auto simp: valid_rune_def rune_width_def)
next
  case False
  define w where "w = utf8_width s"
  have w: "rune_width s = w" "w \<noteq> 0" using assms False by (auto simp: rune_width_def w_def)
  have loc: "w \<le> length s \<and> (\<forall>t. utf8_width (take w s @ t) = w)"
    using utf8_width_local [of s w] w(2) w_def by blast
  then have "w \<le> length s" by blast
  moreover from loc have "utf8_width (take w s @ []) = w" by blast
  moreover have "hd (take w s) = hd s" using assms(2) w(2) by (cases s; cases w) auto
  ultimately show ?thesis using False assms(2) w by (simp add: valid_rune_def rune_width_def)
qed

lemma replacement_valid: "valid_rune replacement"
  by (simp add: valid_rune_def replacement_def rune_width_def byte_def utf8_width_def continuation_def Let_def)

lemma ellipsis_valid: "valid_rune ellipsis"
  by (simp add: valid_rune_def ellipsis_def rune_width_def byte_def utf8_width_def continuation_def Let_def)

lemma runes_valid: "r \<in> set (runes s) \<Longrightarrow> valid_rune r"
proof (induction s rule: runes.induct)
  case (2 c r')
  then show ?case
    using rune_width_take [of "c # r'"]
    by (cases "rune_width (c # r') = 0") (auto simp: runes.simps(2) [of c r'] Let_def replacement_valid)
qed (simp add: runes.simps)

lemma runes_Cons:
  assumes "valid_rune r"
  shows "runes (r @ t) = r # runes t"
proof -
  obtain c r' where "r = c # r'" using assms by (cases r) (auto simp: valid_rune_def)
  with rune_width_append [OF assms, of t] assms show ?thesis
    by (simp add: runes.simps(2) Let_def)
qed

lemma runes_concat: "list_all valid_rune rs \<Longrightarrow> runes (concat rs) = rs"
  by (induction rs) (auto simp: runes_Cons runes.simps(1))

lemma rune_of_blank:
  assumes "valid_rune r" and "c \<in> set r" and "blank c"
  shows "r = [c]"
proof (cases "byte (hd r) < 0x80")
  case True
  with assms show ?thesis by (cases r) (auto simp: valid_rune_def rune_width_def)
next
  case False
  then have "utf8_width r = length r" "length r \<noteq> 0" using assms(1) by (auto simp: valid_rune_def rune_width_def)
  then have "0x80 \<le> byte c" using utf8_width_local [of r "length r"] assms(2) by (simp add: byte_def)
  moreover have "byte c < 0x80" using assms(3) by (auto simp: blank_def byte_def)
  ultimately show ?thesis by simp
qed

lemma rune_blank_or_not:
  assumes "valid_rune r"
  obtains c where "r = [c]" and "blank c" | "list_all (\<lambda>c. \<not> blank c) r"
  using assms rune_of_blank by (metis list_all_iff)

section \<open>Cutting\<close>

lemma TrimRightBlank_concat:
  assumes "list_all valid_rune rs"
  shows "\<exists>k\<le>length rs. TrimRightBlank (concat rs) = concat (take k rs)"
  using assms
proof (induction rs rule: rev_induct)
  case Nil
  then show ?case by (simp add: TrimRightBlank_def)
next
  case (snoc r rs)
  then have v: "valid_rune r" and IH: "\<exists>k\<le>length rs. TrimRightBlank (concat rs) = concat (take k rs)" by auto
  show ?case
    using v
  proof (cases rule: rune_blank_or_not)
    case (1 c)
    then have "TrimRightBlank (concat (rs @ [r])) = TrimRightBlank (concat rs)" by (simp add: TrimRightBlank_def)
    with IH show ?thesis by (auto intro: exI le_SucI)
  next
    case 2
    then obtain c r' where "r = r' @ [c]" "\<not> blank c" using v
      by (cases r rule: rev_cases) (auto simp: valid_rune_def)
    then have "TrimRightBlank (concat (rs @ [r])) = concat (rs @ [r])" by (simp add: TrimRightBlank_def)
    then show ?thesis by (metis order_refl take_all_iff)
  qed
qed

lemma LastIndexBlank_append:
  assumes "list_all (\<lambda>c. \<not> blank c) r"
  shows "LastIndexBlank (s @ r) = LastIndexBlank s"
proof -
  have "takeWhile (\<lambda>c. \<not> blank c) (rev r @ rev s) = rev r @ takeWhile (\<lambda>c. \<not> blank c) (rev s)"
    using assms by (intro takeWhile_append2) (simp add: list_all_iff)
  then show ?thesis by (simp add: LastIndexBlank_def Let_def)
qed

lemma LastIndexBlank_concat:
  assumes "list_all valid_rune rs" and "LastIndexBlank (concat rs) = Some i"
  shows "\<exists>k\<le>length rs. take i (concat rs) = concat (take k rs)"
  using assms
proof (induction rs rule: rev_induct)
  case Nil
  then show ?case by simp
next
  case (snoc r rs)
  then have v: "valid_rune r" by simp
  show ?case
    using v
  proof (cases rule: rune_blank_or_not)
    case (1 c)
    then have "i = length (concat rs)" using snoc.prems(2) by (simp add: LastIndexBlank_def Let_def)
    then have "take i (concat (rs @ [r])) = concat (take (length rs) (rs @ [r]))" by simp
    then show ?thesis by (metis length_append le_add1)
  next
    case 2
    then have i: "LastIndexBlank (concat rs) = Some i"
      using snoc.prems(2) LastIndexBlank_append by simp
    have "length (takeWhile (\<lambda>c. \<not> blank c) (rev (concat rs))) \<le> length (concat rs)"
      using length_takeWhile_le [of _ "rev (concat rs)"] by simp
    with i have "i < length (concat rs)"
      unfolding LastIndexBlank_def Let_def by (simp split: if_splits)
    moreover obtain k where "k \<le> length rs" "take i (concat rs) = concat (take k rs)"
      using snoc.IH snoc.prems(1) i by auto
    ultimately have "take i (concat (rs @ [r])) = concat (take k (rs @ [r])) \<and> k \<le> length (rs @ [r])" by simp
    then show ?thesis by blast
  qed
qed

text \<open>A shortened text: whole runes of the text, then an ellipsis.\<close>

lemma cut_shape:
  assumes "1 \<le> most"
  shows "cut_text s most = s \<and> RuneCount s \<le> most
    \<or> (\<exists>k<most. cut_text s most = concat (take k (runes s)) @ ellipsis \<and> most < RuneCount s)"
proof (cases "RuneCount s \<le> most")
  case True
  then show ?thesis by (simp add: cut_text_def)
next
  case False
  let ?rs = "take (most - 1) (runes s)"
  define short where "short = (case LastIndexBlank (concat ?rs) of
      Some i \<Rightarrow> if i > length (concat ?rs) * 2 div 3 then take i (concat ?rs) else concat ?rs
    | None \<Rightarrow> concat ?rs)"
  have v: "list_all valid_rune ?rs" using runes_valid by (auto simp: list_all_iff dest: in_set_takeD)
  have "short = concat ?rs \<or> (\<exists>i. LastIndexBlank (concat ?rs) = Some i \<and> short = take i (concat ?rs))"
    by (simp add: short_def split: option.split)
  then have "\<exists>k. short = concat (take k ?rs)" using LastIndexBlank_concat [OF v] by (metis take_all_iff order_refl)
  then obtain k where k: "short = concat (take k ?rs)" by blast
  have v2: "list_all valid_rune (take k ?rs)" using v unfolding list_all_iff by (blast dest: in_set_takeD)
  then obtain j where "TrimRightBlank short = concat (take j (take k ?rs))"
    using TrimRightBlank_concat [OF v2] k by auto
  then have "TrimRightBlank short = concat (take (min (min j k) (most - 1)) (runes s))"
    by (simp add: min.assoc)
  moreover have "min (min j k) (most - 1) < most" using assms by simp
  moreover have "cut_text s most = TrimRightBlank short @ ellipsis" using False unfolding cut_text_def short_def Let_def if_not_P by simp
  ultimately show ?thesis using False by (metis not_less)
qed

lemma cut_bound:
  assumes "1 \<le> most"
  shows "RuneCount (cut_text s most) \<le> most"
  using cut_shape [OF assms, of s]
proof (elim disjE exE conjE)
  fix k
  assume k: "k < most" and c: "cut_text s most = concat (take k (runes s)) @ ellipsis"
  have "list_all valid_rune (take k (runes s) @ [ellipsis])"
    using runes_valid ellipsis_valid by (auto simp: list_all_iff dest: in_set_takeD)
  then have "runes (cut_text s most) = take k (runes s) @ [ellipsis]"
    using runes_concat [of "take k (runes s) @ [ellipsis]"] c by simp
  with k show ?thesis by (simp add: RuneCount_def)
qed simp

section \<open>Ids\<close>

lemma hex_digit_order: "i < j \<Longrightarrow> j < 16 \<Longrightarrow> hex_digit i < hex_digit j"
proof -
  assume "i < j" "j < 16"
  then have "j \<in> set [0..<16]" "i \<in> set [0..<j]" by auto
  moreover have "list_all (\<lambda>j. list_all (\<lambda>i. hex_digit i < hex_digit j) [0..<j]) [0..<16]" by code_simp
  ultimately show ?thesis by (simp add: list_all_iff)
qed

fun hex_fixed :: "nat \<Rightarrow> nat \<Rightarrow> string" where
  "hex_fixed 0 n = []"
| "hex_fixed (Suc w) n = hex_fixed w (n div 16) @ [hex_digit (n mod 16)]"

lemma length_hex_fixed [simp]: "length (hex_fixed w n) = w"
  by (induction w arbitrary: n) simp_all

lemma hex_fixed_0: "hex_fixed w 0 = replicate w CHR ''0''"
proof (induction w)
  case (Suc w)
  have "hex_digit 0 = CHR ''0''" by code_simp
  with Suc show ?case by (simp add: replicate_append_same)
qed simp

lemma hexPad_fixed:
  assumes "n < 16 ^ w" and "0 < w"
  shows "hexPad w n = hex_fixed w n \<and> length (hex_nat n) \<le> w"
  using assms
proof (induction n arbitrary: w rule: hex_nat.induct)
  case (1 n)
  obtain v where w: "w = Suc v" using 1 by (cases w) auto
  show ?case
  proof (cases "n < 16")
    case True
    then show ?thesis by (simp add: hexPad_def hex_nat.simps [of n] w hex_fixed_0)
  next
    case False
    then have "n div 16 < 16 ^ v" "0 < v" using 1 w by (auto simp: div_less_iff_less_mult mult.commute) (cases v, auto)
    then have "hexPad v (n div 16) = hex_fixed v (n div 16) \<and> length (hex_nat (n div 16)) \<le> v"
      using 1 False by blast
    with False show ?thesis by (auto simp: hexPad_def hex_nat.simps [of n] w)
  qed
qed

lemma hex_fixed_less:
  assumes "m < n" and "n < 16 ^ w"
  shows "hex_fixed w m < hex_fixed w n"
  using assms
proof (induction w arbitrary: m n)
  case 0
  then show ?case by simp
next
  case (Suc w)
  show ?case
  proof (cases "m div 16 < n div 16")
    case True
    have "n div 16 < 16 ^ w" using Suc.prems by (simp add: div_less_iff_less_mult mult.commute)
    with True have "hex_fixed w (m div 16) < hex_fixed w (n div 16)" using Suc.IH by blast
    then show ?thesis by (simp add: string_less_append)
  next
    case False
    then have eq: "m div 16 = n div 16" using Suc.prems by (simp add: div_le_mono dual_order.antisym)
    then have "m mod 16 < n mod 16"
      using Suc.prems(1) div_mult_mod_eq [of m 16] div_mult_mod_eq [of n 16] by linarith
    then have "[hex_digit (m mod 16)] < [hex_digit (n mod 16)]" by (simp add: hex_digit_order)
    then show ?thesis using eq by (simp add: string_less_left)
  qed
qed

text \<open>What an id prints of the state that made it.\<close>

definition printed :: "id_state \<Rightarrow> string \<Rightarrow> string" where
  "printed st random = ''hn-'' @ hexPad 12 (nat (idLast st)) @ hexPad 4 (unat (idSeq st AND 0xFFFF)) @ hexString random"

lemma newID_printed: "fst (newID now random st) = printed (snd (newID now random st)) random"
  by (simp add: newID_def printed_def Let_def)

lemma low_bits: "unat (s AND 0xFFFF :: 64 word) = unat s mod 65536"
proof -
  have "s AND 0xFFFF = take_bit 16 s" by (simp add: take_bit_eq_mask mask_eq_exp_minus_1)
  then have "unat (s AND 0xFFFF) = take_bit 16 (unat s)" by (simp only: unsigned_take_bit_eq)
  then show ?thesis by (simp add: take_bit_eq_mod)
qed

lemma low_bits_bound: "unat (s AND 0xFFFF :: 64 word) < 16 ^ 4"
  by (simp add: low_bits)

lemma low_bits_Suc:
  "unat (s + 1 AND 0xFFFF :: 64 word) = (if unat (s AND 0xFFFF) = 65535 then 0 else Suc (unat (s AND 0xFFFF)))"
proof -
  have "unat (s + 1) mod 65536 = Suc (unat s) mod 65536"
    by (simp add: unat_word_ariths mod_mod_cancel)
  then show ?thesis by (simp add: low_bits mod_Suc)
qed

lemma printed_less:
  assumes "0 \<le> idLast a" and "idLast b < 16 ^ 12"
    and "idLast a < idLast b \<or> idLast a = idLast b \<and> unat (idSeq a AND 0xFFFF) < unat (idSeq b AND 0xFFFF)"
  shows "printed a x < printed b y"
proof -
  have hx: "hexPad 12 (nat (idLast a)) = hex_fixed 12 (nat (idLast a))" "hexPad 12 (nat (idLast b)) = hex_fixed 12 (nat (idLast b))"
    "hexPad 4 (unat (idSeq c AND 0xFFFF)) = hex_fixed 4 (unat (idSeq c AND 0xFFFF))" for c
    using hexPad_fixed low_bits_bound assms by auto
  consider "nat (idLast a) < nat (idLast b)" | "idLast a = idLast b" "unat (idSeq a AND 0xFFFF) < unat (idSeq b AND 0xFFFF)"
    using assms by linarith
  then show ?thesis
  proof cases
    case 1
    then have "hex_fixed 12 (nat (idLast a)) < hex_fixed 12 (nat (idLast b))" using assms by (intro hex_fixed_less) auto
    then show ?thesis unfolding printed_def hx by (intro string_less_left string_less_append) simp_all
  next
    case 2
    then have "hex_fixed 4 (unat (idSeq a AND 0xFFFF)) < hex_fixed 4 (unat (idSeq b AND 0xFFFF))"
      using low_bits_bound by (intro hex_fixed_less) auto
    then show ?thesis unfolding printed_def hx 2(1) by (intro string_less_left string_less_append) simp_all
  qed
qed


text \<open>
  One id after another in a process: \<open>st\<close> is the state the last id was printed from.
\<close>

lemma newID_state:
  "snd (newID now random st) =
     (if now div 1000000 \<le> idLast st then st\<lparr>idSeq := idSeq st + 1\<rparr> else \<lparr>idLast = now div 1000000, idSeq = 0\<rparr>)"
  by (simp add: newID_def Let_def)

end
