(* ===== verification/Json_Read.thy ===== *)
theory Json_Read
  imports Humans_Text
begin

text \<open>
  Reading back what \<^verbatim>\<open>json.Marshal\<close> prints of a flat object of strings and booleans, as
  \<^verbatim>\<open>json.Unmarshal\<close> reads it: escapes, surrogate pairs, and U+FFFD for bytes that are no
  UTF-8. Objects with blank space between their tokens, with numbers, or with nested values are printed
  nowhere in the program and are refused here.
\<close>

section \<open>Strings\<close>

definition hex_value :: "char \<Rightarrow> nat option" where
  "hex_value c =
     (if decimal c then Some (byte c - 48)
      else if 97 \<le> byte c \<and> byte c \<le> 102 then Some (byte c - 87)
      else if 65 \<le> byte c \<and> byte c \<le> 70 then Some (byte c - 55) else None)"

definition hex4 :: "string \<Rightarrow> nat option" where
  "hex4 s =
     (case map hex_value (take 4 s) of
        [Some a, Some b, Some c, Some e] \<Rightarrow> Some (a * 4096 + b * 256 + c * 16 + e)
      | _ \<Rightarrow> None)"

text \<open>The UTF-8 bytes of a code point.\<close>

definition utf8_encode :: "nat \<Rightarrow> string" where
  "utf8_encode n =
     map char_of
       (if n < 0x80 then [n]
        else if n < 0x800 then [0xC0 + n div 64, 0x80 + n mod 64]
        else if n < 0x10000 then [0xE0 + n div 4096, 0x80 + n div 64 mod 64, 0x80 + n mod 64]
        else [0xF0 + n div 262144, 0x80 + n div 4096 mod 64, 0x80 + n div 64 mod 64, 0x80 + n mod 64])"

text \<open>What an escape \<^verbatim>\<open>\u\<close> stands for, with what follows its four digits: its bytes and the rest.\<close>

definition unescape_u :: "nat \<Rightarrow> string \<Rightarrow> string \<times> string" where
  "unescape_u n r =
     (if 0xD800 \<le> n \<and> n < 0xE000
      then (case (if take 2 r = [CHR 0x5C, CHR ''u''] then hex4 (drop 2 r) else None) of
              Some m \<Rightarrow>
                if n < 0xDC00 \<and> 0xDC00 \<le> m \<and> m < 0xE000
                then (utf8_encode (0x10000 + (n - 0xD800) * 1024 + (m - 0xDC00)), drop 6 r)
                else (replacement, r)
            | None \<Rightarrow> (replacement, r))
      else (utf8_encode n, r))"

definition short_escape :: "char \<Rightarrow> char option" where
  "short_escape e =
     (if e = CHR 0x22 \<or> e = CHR 0x5C \<or> e = CHR ''/'' then Some e
      else if e = CHR ''b'' then Some (CHR 0x08) else if e = CHR ''f'' then Some (CHR 0x0C)
      else if e = CHR ''n'' then Some (CHR 0x0A) else if e = CHR ''r'' then Some (CHR 0x0D)
      else if e = CHR ''t'' then Some (CHR 0x09) else None)"

lemma unescape_u_length: "length (snd (unescape_u n r)) \<le> length r"
  by (simp add: unescape_u_def split: option.split)

text \<open>The string after its opening quote, and the text after its closing one.\<close>

function json_chars :: "string \<Rightarrow> (string \<times> string) option" where
  "json_chars [] = None"
| "json_chars (c # r) =
     (if c = CHR 0x22 then Some ([], r)
      else if c = CHR 0x5C
      then (case r of
              [] \<Rightarrow> None
            | e # r1 \<Rightarrow>
                if e = CHR ''u''
                then (case hex4 r1 of
                        None \<Rightarrow> None
                      | Some n \<Rightarrow>
                          map_option (\<lambda>(s, rest). (fst (unescape_u n (drop 4 r1)) @ s, rest))
                            (json_chars (snd (unescape_u n (drop 4 r1)))))
                else (case short_escape e of
                        None \<Rightarrow> None
                      | Some x \<Rightarrow> map_option (\<lambda>(s, rest). (x # s, rest)) (json_chars r1)))
      else if byte c < 0x20 then None
      else if rune_width (c # r) = 0 then map_option (\<lambda>(s, rest). (replacement @ s, rest)) (json_chars r)
      else map_option (\<lambda>(s, rest). (take (rune_width (c # r)) (c # r) @ s, rest))
             (json_chars (drop (rune_width (c # r)) (c # r))))"
  by pat_completeness auto
termination
proof (relation "measure length", goal_cases)
  case (2 c r e r1 n)
  then show ?case using unescape_u_length [of n "drop 4 r1"] by simp
qed auto

declare json_chars.simps [simp del]

section \<open>Flat objects\<close>

definition read_scalar :: "string \<Rightarrow> (json \<times> string) option" where
  "read_scalar s =
     (if prefix ''true'' s then Some (JBool True, drop 4 s)
      else if prefix ''false'' s then Some (JBool False, drop 5 s)
      else case s of
             [] \<Rightarrow> None
           | c # r \<Rightarrow> if c = CHR 0x22 then map_option (\<lambda>(t, rest). (JString t, rest)) (json_chars r) else None)"

definition read_field :: "string \<Rightarrow> ((string \<times> json) \<times> string) option" where
  "read_field s =
     (case read_scalar s of
        Some (JString k, c # r) \<Rightarrow>
          if c = CHR '':'' then map_option (\<lambda>(v, rest). ((k, v), rest)) (read_scalar r) else None
      | _ \<Rightarrow> None)"

fun read_fields :: "nat \<Rightarrow> string \<Rightarrow> ((string \<times> json) list \<times> string) option" where
  "read_fields 0 s = None"
| "read_fields (Suc n) s =
     (case read_field s of
        Some (f, c # r) \<Rightarrow>
          if c = CHR ''}'' then Some ([f], r)
          else if c = CHR '','' then map_option (\<lambda>(fs, rest). (f # fs, rest)) (read_fields n r)
          else None
      | _ \<Rightarrow> None)"

text \<open>A text of \<open>n\<close> bytes has fewer than \<open>n\<close> fields.\<close>

definition readObject :: "string \<Rightarrow> (string \<times> json) list option" where
  "readObject s =
     (case s of
        c # r \<Rightarrow>
          if c \<noteq> CHR ''{'' then None
          else if r = ''}'' then Some []
          else (case read_fields (length s) r of Some (fs, []) \<Rightarrow> Some fs | _ \<Rightarrow> None)
      | [] \<Rightarrow> None)"

section \<open>Reading what was printed\<close>

lemma hex_value_digit: "k < 16 \<Longrightarrow> hex_value (hex_digit k) = Some k"
  by (simp add: hex_value_def hex_digit_def byte_def decimal_def)

lemma hex_value_letters:
  "hex_value CHR ''0'' = Some 0" "hex_value CHR ''2'' = Some 2" "hex_value CHR ''f'' = Some 15" "hex_value CHR ''d'' = Some 13"
  by (simp_all add: hex_value_def byte_def decimal_def)

lemma json_chars_u:
  assumes "hex4 h = Some n" and "length h = 4" and "\<not> (0xD800 \<le> n \<and> n < 0xE000)"
  shows "json_chars (CHR 0x5C # CHR ''u'' # h @ t) = map_option (\<lambda>(s, rest). (utf8_encode n @ s, rest)) (json_chars t)"
proof -
  have "hex4 (h @ t) = Some n" using assms(1,2) by (simp add: hex4_def)
  moreover have "unescape_u n t = (utf8_encode n, t)" using assms(3) unfolding unescape_u_def by (simp only: if_False)
  ultimately show ?thesis using assms(2) by (simp add: json_chars.simps(2) [of "CHR 0x5C"])
qed

lemma json_chars_byte:
  assumes "byte c < 0x20 \<or> c = CHR ''<'' \<or> c = CHR ''>'' \<or> c = CHR ''&''"
  shows "json_chars (CHR 0x5C # ''u00'' @ hex_byte (byte c) @ t) = map_option (\<lambda>(s, rest). (c # s, rest)) (json_chars t)"
proof -
  have "byte c < 128" using assms by (auto simp: byte_def)
  then have "hex4 (''00'' @ hex_byte (byte c)) = Some (byte c)"
    by (simp add: hex4_def hex_byte_def hex_value_digit hex_value_letters)
  moreover have "utf8_encode (byte c) = [c]" using \<open>byte c < 128\<close> by (simp add: utf8_encode_def byte_def)
  ultimately show ?thesis
    using json_chars_u [of "''00'' @ hex_byte (byte c)" "byte c" t] \<open>byte c < 128\<close> by (simp add: hex_byte_def)
qed

lemma json_chars_short:
  assumes "short_escape e = Some x" and "e \<noteq> CHR ''u''"
  shows "json_chars (CHR 0x5C # e # t) = map_option (\<lambda>(s, rest). (x # s, rest)) (json_chars t)"
  using assms by (simp add: json_chars.simps(2) [of "CHR 0x5C"])

lemma json_chars_plain:
  assumes "0x20 \<le> byte c" and "c \<noteq> CHR 0x22" and "c \<noteq> CHR 0x5C" and "valid_rune (c # r)"
  shows "json_chars ((c # r) @ t) = map_option (\<lambda>(s, rest). ((c # r) @ s, rest)) (json_chars t)"
  using assms rune_width_append [OF assms(4), of t] by (simp add: json_chars.simps(2) [of c])

lemma json_chars_ascii:
  assumes "(of_char c :: nat) < 0x80"
  shows "json_chars (json_ascii c @ t) = map_option (\<lambda>(s, rest). (c # s, rest)) (json_chars t)"
proof -
  have c: "c = char_of (of_char c :: nat)" by simp
  show ?thesis
  proof (cases "(of_char c :: nat) \<in> {0x22, 0x5C, 8, 12, 10, 13, 9}")
    case True
    then have "c = CHR 0x22 \<or> c = CHR 0x5C \<or> c = CHR 0x08 \<or> c = CHR 0x0C \<or> c = CHR 0x0A \<or> c = CHR 0x0D \<or> c = CHR 0x09"
      using c by (elim insertE) (simp_all add: char_of_def bit_0)
    then show ?thesis
      by (elim disjE) (simp_all add: json_ascii_def json_chars_short short_escape_def)
  next
    case special: False
    show ?thesis
    proof (cases "(of_char c :: nat) < 0x20 \<or> (of_char c :: nat) = 0x3C \<or> (of_char c :: nat) = 0x3E \<or> (of_char c :: nat) = 0x26")
      case True
      then have "json_ascii c = CHR 0x5C # ''u00'' @ hex_byte (byte c)"
        using special by (simp add: json_ascii_def Let_def byte_def)
      moreover have "byte c < 0x20 \<or> c = CHR ''<'' \<or> c = CHR ''>'' \<or> c = CHR ''&''"
        using True c unfolding byte_def by (elim disjE) (simp_all add: char_of_def bit_0)
      ultimately show ?thesis using json_chars_byte [of c t] by simp
    next
      case False
      then have "json_ascii c = [c]" using special by (simp add: json_ascii_def Let_def)
      moreover have "valid_rune [c]" using assms by (simp add: valid_rune_def rune_width_def byte_def)
      moreover have "c \<noteq> CHR 0x22" "c \<noteq> CHR 0x5C" using special by auto
      moreover have "0x20 \<le> byte c" using False by (simp add: byte_def)
      ultimately show ?thesis using json_chars_plain [of c "[]" t] by simp
    qed
  qed
qed

lemma runes_ascii: "(of_char c :: nat) < 0x80 \<Longrightarrow> runes (c # r) = [c] # runes r"
  using runes_Cons [of "[c]" r] by (simp add: valid_rune_def rune_width_def byte_def)

lemma utf8_encode_replacement: "utf8_encode 0xFFFD = replacement"
  by (simp add: utf8_encode_def replacement_def char_of_def bit_0)

lemma utf8_encode_separator:
  assumes "line_separator s"
  obtains z r where "s = [CHR 0xE2, CHR 0x80, z] @ r" and "valid_rune [CHR 0xE2, CHR 0x80, z]"
    and "of_char z mod 16 < (16 :: nat)" and "utf8_encode (0x2020 + of_char z mod 16) = [CHR 0xE2, CHR 0x80, z]"
    and "of_char z mod 16 \<in> {8, 9 :: nat}"
proof -
  obtain x y z where t: "take 3 s = [x, y, z]" and v: "of_char x = (0xE2 :: nat)" "of_char y = (0x80 :: nat)"
    "of_char z = (0xA8 :: nat) \<or> of_char z = (0xA9 :: nat)"
    using assms unfolding line_separator_def by (auto simp: map_eq_Cons_conv split: list.splits)
  have "x = char_of (of_char x :: nat)" "y = char_of (of_char y :: nat)" "z = char_of (of_char z :: nat)" by simp_all
  then have xyz: "x = CHR 0xE2" "y = CHR 0x80" "z = CHR 0xA8 \<or> z = CHR 0xA9" using v by (auto simp: char_of_def bit_0)
  have "s = [x, y, z] @ drop 3 s" using t by (metis append_take_drop_id)
  moreover have "valid_rune [CHR 0xE2, CHR 0x80, z]"
    using xyz(3) by (auto simp: valid_rune_def rune_width_def byte_def utf8_width_def continuation_def Let_def)
  moreover have "utf8_encode (0x2020 + of_char z mod 16) = [CHR 0xE2, CHR 0x80, z]"
    using xyz(3) by (auto simp: utf8_encode_def char_of_def bit_0)
  moreover have "of_char z mod 16 \<in> {8, 9 :: nat}" using xyz(3) by auto
  ultimately show ?thesis using that xyz by auto
qed

lemma rune_width_high: "\<not> (of_char c :: nat) < 0x80 \<Longrightarrow> rune_width (c # r) = utf8_width (c # r)"
  by (simp add: rune_width_def byte_def)

lemma json_chars_body: "json_chars (json_body s @ CHR 0x22 # rest) = Some (concat (runes s), rest)"
proof (induction s rule: json_body.induct)
  case 1
  then show ?case by (simp add: json_body.simps json_chars.simps runes.simps)
next
  case (2 c r)
  let ?s = "c # r"
  consider (ascii) "(of_char c :: nat) < 0x80"
    | (invalid) "\<not> (of_char c :: nat) < 0x80" "utf8_width ?s = 0"
    | (separator) "\<not> (of_char c :: nat) < 0x80" "utf8_width ?s \<noteq> 0" "line_separator ?s"
    | (valid) "\<not> (of_char c :: nat) < 0x80" "utf8_width ?s \<noteq> 0" "\<not> line_separator ?s" by blast
  then show ?case
  proof cases
    case ascii
    then show ?thesis
      using 2(1) json_chars_ascii [of c "json_body r @ CHR 0x22 # rest"] by (simp add: json_body.simps(2) [of c r] runes_ascii)
  next
    case invalid
    have "hex4 ''fffd'' = Some 0xFFFD" by (simp add: hex4_def hex_value_letters)
    then have "json_chars (CHR 0x5C # CHR ''u'' # ''fffd'' @ t) = map_option (\<lambda>(s, rest). (replacement @ s, rest)) (json_chars t)" for t
      using json_chars_u [of "''fffd''" "0xFFFD" t] by (simp add: utf8_encode_replacement)
    moreover have "runes ?s = replacement # runes r"
      using invalid by (simp add: runes.simps(2) Let_def rune_width_high)
    ultimately show ?thesis using 2(2) invalid by (simp add: json_body.simps(2) [of c r])
  next
    case separator
    obtain z r' where s: "?s = [CHR 0xE2, CHR 0x80, z] @ r'" and v: "valid_rune [CHR 0xE2, CHR 0x80, z]"
      and e: "utf8_encode (0x2020 + of_char z mod 16) = [CHR 0xE2, CHR 0x80, z]" and m: "of_char z mod 16 \<in> {8, 9 :: nat}"
      using utf8_encode_separator [OF separator(3)] by metis
    have "hex4 (''202'' @ [hex_digit (of_char z mod 16)]) = Some (0x2020 + of_char z mod 16)"
      by (simp add: hex4_def hex_value_letters hex_value_digit)
    then have "json_chars (CHR 0x5C # CHR ''u'' # (''202'' @ [hex_digit (of_char z mod 16)]) @ t)
        = map_option (\<lambda>(s, rest). ([CHR 0xE2, CHR 0x80, z] @ s, rest)) (json_chars t)" for t
      using json_chars_u [of "''202'' @ [hex_digit (of_char z mod 16)]" "0x2020 + of_char z mod 16" t] e m by auto
    moreover have "json_body ?s = CHR 0x5C # CHR ''u'' # (''202'' @ [hex_digit (of_char z mod 16)]) @ json_body r'"
    proof -
      have "json_body ?s = CHR 0x5C # ''u202'' @ [hex_digit (of_char (r ! 1) mod 16)] @ json_body (drop 2 r)"
        using separator by (simp only: json_body.simps(2) [of c r] if_False if_True)
      then show ?thesis using s by simp
    qed
    moreover have "runes ?s = [CHR 0xE2, CHR 0x80, z] # runes r'" unfolding s by (rule runes_Cons [OF v])
    moreover have "json_chars (json_body r' @ CHR 0x22 # rest) = Some (concat (runes r'), rest)"
      using 2(3) separator s by simp
    ultimately show ?thesis by simp
  next
    case valid
    define w where "w = utf8_width ?s"
    have w: "rune_width ?s = w" "w \<noteq> 0" using valid by (simp_all add: w_def rune_width_high)
    have v: "valid_rune (take w ?s)" using rune_width_take [of ?s] w by simp
    obtain x where x: "take w ?s = c # x" using w(2) by (cases w) auto
    have "c \<noteq> CHR 0x22" "c \<noteq> CHR 0x5C" "0x20 \<le> byte c" using valid(1) by (auto simp: byte_def)
    then have "json_chars (take w ?s @ t) = map_option (\<lambda>(s, rest). (take w ?s @ s, rest)) (json_chars t)" for t
      using json_chars_plain [of c x t] v unfolding x by blast
    moreover have "runes ?s = take w ?s # runes (drop w ?s)"
      using runes_Cons [OF v, of "drop w ?s"] by (simp only: append_take_drop_id)
    moreover have "json_body ?s = take w ?s @ json_body (drop w ?s)"
      using valid by (simp only: json_body.simps(2) [of c r] w_def if_False)
    moreover have "json_chars (json_body (drop w ?s) @ CHR 0x22 # rest) = Some (concat (runes (drop w ?s)), rest)"
      using 2(4) valid unfolding w_def by blast
    ultimately show ?thesis by simp
  qed
qed


text \<open>What a value is after it was printed and read: its strings are made of whole runes.\<close>

definition clean :: "string \<Rightarrow> string" where
  "clean s = concat (runes s)"

fun clean_scalar :: "json \<Rightarrow> json" where
  "clean_scalar (JString s) = JString (clean s)"
| "clean_scalar j = j"

fun scalar :: "json \<Rightarrow> bool" where
  "scalar (JString s) = True"
| "scalar (JBool b) = True"
| "scalar j = False"

lemma clean_idem [simp]: "clean (clean s) = clean s"
  using runes_concat [of "runes s"] runes_valid by (simp add: clean_def list_all_iff)

lemma read_string: "read_scalar (jsonString s @ rest) = Some (JString (clean s), rest)"
  by (simp add: read_scalar_def jsonString_def json_chars_body clean_def)

lemma read_scalar_printed: "scalar j \<Longrightarrow> read_scalar (Marshal j @ rest) = Some (clean_scalar j, rest)"
  by (cases j rule: scalar.cases) (simp_all add: read_string, simp_all add: read_scalar_def)

lemma read_field_printed:
  assumes "scalar j"
  shows "read_field (jsonString k @ '':'' @ Marshal j @ rest) = Some ((clean k, clean_scalar j), rest)"
  using read_string [of k "'':'' @ Marshal j @ rest"] read_scalar_printed [OF assms, of rest] by (simp add: read_field_def)

lemma read_fields_printed:
  assumes "fs \<noteq> []" and "list_all (scalar \<circ> snd) fs" and "length fs \<le> n"
  shows "read_fields n (Join (marshal_fields fs) '','' @ ''}'' @ rest)
    = Some (map (\<lambda>(k, j). (clean k, clean_scalar j)) fs, rest)"
  using assms
proof (induction fs arbitrary: n)
  case (Cons f fs)
  obtain k j where f: "f = (k, j)" by (cases f)
  obtain m where n: "n = Suc m" using Cons.prems by (cases n) auto
  have j: "scalar j" using Cons.prems f by simp
  show ?case
  proof (cases fs)
    case Nil
    then show ?thesis using read_field_printed [OF j, of k "''}'' @ rest"] f n by simp
  next
    case (Cons g gs)
    then have "Join (marshal_fields (f # fs)) '','' = jsonString k @ '':'' @ Marshal j @ '','' @ Join (marshal_fields fs) '',''"
      by (cases g) (simp add: f)
    moreover have "read_fields m (Join (marshal_fields fs) '','' @ ''}'' @ rest)
        = Some (map (\<lambda>(k, j). (clean k, clean_scalar j)) fs, rest)"
      using Cons.IH [of m] Cons.prems n Cons by simp
    ultimately show ?thesis
      using read_field_printed [OF j, of k "'','' @ Join (marshal_fields fs) '','' @ ''}'' @ rest"] f n by simp
  qed
qed simp

lemma marshal_fields_long: "2 * length fs \<le> Suc (length (Join (marshal_fields fs) '',''))"
proof (induction fs)
  case (Cons f fs)
  then show ?case by (cases f; cases "marshal_fields fs") (auto simp: jsonString_def)
qed simp

lemma readObject_printed:
  assumes "list_all (scalar \<circ> snd) fs"
  shows "readObject (Marshal (JObject fs)) = Some (map (\<lambda>(k, j). (clean k, clean_scalar j)) fs)"
proof (cases "fs = []")
  case True
  then show ?thesis by (simp add: readObject_def)
next
  case False
  let ?m = "Marshal (JObject fs)"
  have "Join (marshal_fields fs) '','' \<noteq> []" using marshal_fields_long [of fs] False by (cases fs) auto
  moreover have "length fs \<le> length ?m" using marshal_fields_long [of fs] by simp
  ultimately show ?thesis
    using read_fields_printed [OF False assms, of "length ?m" "[]"] by (auto simp: readObject_def)
qed


end
