(* ===== verification/Board_Notifier.thy ===== *)
theory Board_Notifier
  imports Board_Reads Board_Render Json_Read
begin

text \<open>
  The notifier of crew-board (\<^verbatim>\<open>src/internal/board/notices.go\<close>): it sends the queued notices
  to the fabric, hands those for people to crew-humans, and follows what became of them. The fabric, the
  directory and crew-humans are interfaces of the code, so their answers are arguments, one set for each
  notice of a pass; \<open>printable\<close> is the table of the printable characters beyond ASCII, which
  \<^verbatim>\<open>%q\<close> consults.
\<close>

section \<open>Text\<close>

text \<open>The code point of a valid rune.\<close>

definition code_point :: "string \<Rightarrow> nat" where
  "code_point r =
     (case map byte r of
        [a] \<Rightarrow> a
      | [a, b] \<Rightarrow> (a - 0xC0) * 64 + (b - 0x80)
      | [a, b, c] \<Rightarrow> (a - 0xE0) * 4096 + (b - 0x80) * 64 + (c - 0x80)
      | [a, b, c, e] \<Rightarrow> (a - 0xF0) * 262144 + (b - 0x80) * 4096 + (c - 0x80) * 64 + (e - 0x80)
      | _ \<Rightarrow> 0)"

definition quoteRune :: "(string \<Rightarrow> bool) \<Rightarrow> string \<Rightarrow> string" where
  "quoteRune printable r =
     (let n = code_point r; back = CHR 0x5C
      in if n = 0x22 \<or> n = 0x5C then back # r
         else if (if n < 0x80 then 0x20 \<le> n \<and> n < 0x7F else printable r) then r
         else if n = 7 then [back, CHR ''a''] else if n = 8 then [back, CHR ''b'']
         else if n = 12 then [back, CHR ''f''] else if n = 10 then [back, CHR ''n'']
         else if n = 13 then [back, CHR ''r''] else if n = 9 then [back, CHR ''t'']
         else if n = 11 then [back, CHR ''v'']
         else if n < 0x20 \<or> n = 0x7F then back # ''x'' @ hexPad 2 n
         else if n < 0x10000 then back # ''u'' @ hexPad 4 n
         else back # ''U'' @ hexPad 8 n)"

function quoteBody :: "(string \<Rightarrow> bool) \<Rightarrow> string \<Rightarrow> string" where
  "quoteBody printable [] = []"
| "quoteBody printable (c # r) =
     (let w = rune_width (c # r)
      in if w = 0 then CHR 0x5C # ''x'' @ hex_byte (byte c) @ quoteBody printable r
         else quoteRune printable (take w (c # r)) @ quoteBody printable (drop w (c # r)))"
  by pat_completeness auto
termination
  by (relation "measure (\<lambda>(p, s). length s)") auto

declare quoteBody.simps [simp del]

definition Quote :: "(string \<Rightarrow> bool) \<Rightarrow> string \<Rightarrow> string" where
  "Quote printable s = CHR 0x22 # quoteBody printable s @ [CHR 0x22]"

fun split_lines :: "string \<Rightarrow> string list" where
  "split_lines [] = [[]]"
| "split_lines (c # r) =
     (if c = LF then [] # split_lines r
      else case split_lines r of [] \<Rightarrow> [[c]] | l # ls \<Rightarrow> (c # l) # ls)"

text \<open>\<^verbatim>\<open>strings.Fields\<close>: the word being read is kept reversed.\<close>

function fields_from :: "string \<Rightarrow> string \<Rightarrow> string list" where
  "fields_from word [] = (if word = [] then [] else [rev word])"
| "fields_from word (c # r) =
     (let w = lead_space (c # r)
      in if w = 0 then fields_from (c # word) r
         else (if word = [] then [] else [rev word]) @ fields_from [] (drop w (c # r)))"
  by pat_completeness auto
termination
  by (relation "measure (\<lambda>(w, s). length s)") auto

declare fields_from.simps [simp del]

definition Fields :: "string \<Rightarrow> string list" where
  "Fields s = fields_from [] s"

definition unreserved :: "char \<Rightarrow> bool" where
  "unreserved c = (lower_alpha c \<or> upper_alpha c \<or> decimal c \<or> c \<in> set ''-_.~'')"

definition upper_hex :: "nat \<Rightarrow> char" where
  "upper_hex n = (if n < 10 then char_of (48 + n) else char_of (55 + n))"

definition percent :: "char \<Rightarrow> string" where
  "percent c = [CHR ''%'', upper_hex (byte c div 16), upper_hex (byte c mod 16)]"

definition PathEscape :: "string \<Rightarrow> string" where
  "PathEscape s = concat (map (\<lambda>c. if unreserved c \<or> c \<in> set ''$&+:=@'' then [c] else percent c) s)"

definition QueryEscape :: "string \<Rightarrow> string" where
  "QueryEscape s = concat (map (\<lambda>c. if unreserved c then [c] else if c = CHR '' '' then ''+'' else percent c) s)"

definition upper_char :: "char \<Rightarrow> string" where
  "upper_char c = (if lower_alpha c then [char_of (byte c - 32)] else if byte c < 0x80 then [c] else replacement)"

definition displayPerson :: "string \<Rightarrow> string" where
  "displayPerson name = (case name of [] \<Rightarrow> [] | c # r \<Rightarrow> upper_char c @ r)"

definition personAuthor :: "author \<Rightarrow> string" where
  "personAuthor a =
     (if au_kind a = AuthorPerson then displayPerson (au_address a)
      else if au_kind a = AuthorSession \<and> au_label a \<noteq> '''' then au_label a
      else au_address a)"

definition runtime_name :: "string \<Rightarrow> string" where
  "runtime_name adapter =
     (if adapter = ''claude-code'' then ''Claude Code'' else if adapter = ''crew-codex'' then ''Codex''
      else if adapter = ''crew-dsh'' then ''DSH'' else if adapter = ''crew-hermes'' then ''Hermes'' else adapter)"

definition displayAuthor :: "author \<Rightarrow> string" where
  "displayAuthor a =
     (let runtime = runtime_name (au_adapter a)
            @ (if au_kind a = AuthorSeat \<and> au_label a \<noteq> '''' then '' '' @ au_label a else '''')
            @ (if au_model a \<noteq> '''' then '', '' @ au_model a else '''')
            @ (if au_working_for a \<noteq> '''' then '', working for '' @ displayPerson (au_working_for a) else '''')
      in if au_kind a = AuthorSeat then au_address a @ '' ('' @ runtime @ '', '' @ au_session a @ '')''
         else if au_kind a = AuthorSession
         then (if au_label a \<noteq> '''' then au_label a @ '' ('' @ runtime @ '', '' @ au_address a @ '')''
               else au_address a @ '' ('' @ runtime @ '')'')
         else au_address a)"

section \<open>Configuration and state\<close>

record notifier_config =
  nc_adapter_id :: string
  nc_instance_id :: string
  nc_origin :: string
  nc_site :: string
  nc_lease_duration :: duration
  nc_ttl :: duration
  nc_people :: bool
  nc_web_url :: string

definition NewNotifier :: "notifier_config \<Rightarrow> notifier_config" where
  "NewNotifier cfg =
     (let adapter = (if nc_adapter_id cfg = '''' then ''crew-board'' else nc_adapter_id cfg)
      in cfg\<lparr>nc_adapter_id := adapter,
            nc_instance_id := (if nc_instance_id cfg = '''' then adapter else nc_instance_id cfg),
            nc_origin := (if nc_origin cfg = '''' then ''system/crew-board'' else nc_origin cfg),
            nc_lease_duration := (if nc_lease_duration cfg \<le> 0 then 300000000000 else nc_lease_duration cfg),
            nc_ttl := (if nc_ttl cfg \<le> 0 then 86400000000000 else nc_ttl cfg)\<rparr>)"

record client_lease =
  cl_token :: string
  cl_expires_at :: time

definition no_lease :: client_lease where
  "no_lease = \<lparr>cl_token = '''', cl_expires_at = zero_time\<rparr>"

record notifier =
  nf_lease :: client_lease
  nf_bound :: bool

text \<open>
  An error of the fabric's client: the status where the fabric answered, its reason code (empty where
  there is none) and its text. Wrapping an error keeps the first two.
\<close>

record fab_error =
  fe_status :: "nat option"
  fe_code :: string
  fe_text :: string

definition wrap :: "string \<Rightarrow> fab_error \<Rightarrow> fab_error" where
  "wrap what e = e\<lparr>fe_text := what @ fe_text e\<rparr>"

record client_binding =
  cb_bound :: bool
  cb_adapter_id :: string
  cb_revision :: int

record client_bind_request =
  br_actor_adapter_id :: string
  br_lease_token :: string
  br_adapter_id :: string
  br_target_ref :: string
  br_expected_revision :: "int option"

record message_request =
  mq_producer_id :: string
  mq_lease_token :: string
  mq_operation_id :: string
  mq_sender_address :: string
  mq_recipient_address :: string
  mq_body :: string
  mq_activation_policy :: string
  mq_ttl :: string

record client_delivery =
  cd_message_id :: string
  cd_state :: string
  cd_terminal_reason :: string
  cd_expires_at :: "time option"

record person_notice =
  pn_person :: string
  pn_key :: string
  pn_title :: string
  pn_text :: string
  pn_link :: string
  pn_reason :: string
  pn_group :: string
  pn_urgent :: bool

datatype person_answer = PersonTold string | PersonRefused string | PersonFailed string

text \<open>The outside world of one notice of a pass.\<close>

record notice_io =
  io_now :: time
  io_lease_now :: time
  io_register :: "string \<Rightarrow> string \<Rightarrow> duration \<Rightarrow> fab_error + client_lease"
  io_renew :: "string \<Rightarrow> string \<Rightarrow> duration \<Rightarrow> fab_error + client_lease"
  io_resolve :: "string \<Rightarrow> fab_error + client_binding"
  io_bind :: "string \<Rightarrow> client_bind_request \<Rightarrow> fab_error + unit"
  io_submit :: "message_request \<Rightarrow> fab_error + string"
  io_mailbox :: "string \<Rightarrow> fab_error + client_delivery list"
  io_seat_holder :: "string \<Rightarrow> string + string \<times> bool"
  io_session :: "string \<Rightarrow> string + string \<times> bool"
  io_people :: "person_notice \<Rightarrow> person_answer"

definition noticeRefused :: "fab_error \<Rightarrow> bool" where
  "noticeRefused e =
     (case fe_status e of
        None \<Rightarrow> False
      | Some s \<Rightarrow> 400 \<le> s \<and> s < 500 \<and> fe_code e \<notin> {''lease_expired'', ''lease_fenced'', ''adapter_mismatch''})"

definition errorText :: "fab_error \<Rightarrow> string" where
  "errorText e = (if fe_code e \<noteq> '''' then fe_code e else fe_text e)"

section \<open>Submitting\<close>

definition ensureLease :: "notifier_config \<Rightarrow> notice_io \<Rightarrow> notifier \<Rightarrow> fab_error option \<times> notifier" where
  "ensureLease cfg io n =
     (let l = nf_lease n
      in if cl_token l \<noteq> '''' \<and> io_lease_now io + nc_lease_duration cfg div 2 < cl_expires_at l then (None, n)
         else case (if cl_token l = '''' then None
                    else case io_renew io (nc_adapter_id cfg) (cl_token l) (nc_lease_duration cfg) of
                           Inr renewed \<Rightarrow> Some renewed | Inl _ \<Rightarrow> None) of
                Some renewed \<Rightarrow> (None, n\<lparr>nf_lease := renewed\<rparr>)
              | None \<Rightarrow>
                  (case io_register io (nc_adapter_id cfg) (nc_instance_id cfg) (nc_lease_duration cfg) of
                     Inl e \<Rightarrow> (Some (wrap ''register with the fabric: '' e), n\<lparr>nf_lease := no_lease\<rparr>)
                   | Inr registered \<Rightarrow> (None, n\<lparr>nf_lease := registered, nf_bound := False\<rparr>)))"

definition bindOrigin :: "notifier_config \<Rightarrow> notice_io \<Rightarrow> notifier \<Rightarrow> int option \<Rightarrow> fab_error option \<times> notifier" where
  "bindOrigin cfg io n revision =
     (case io_bind io (nc_origin cfg)
             \<lparr>br_actor_adapter_id = nc_adapter_id cfg, br_lease_token = cl_token (nf_lease n),
              br_adapter_id = nc_adapter_id cfg, br_target_ref = nc_adapter_id cfg, br_expected_revision = revision\<rparr> of
        Inl e \<Rightarrow> (Some (wrap (''bind '' @ nc_origin cfg @ '': '') e), n)
      | Inr _ \<Rightarrow> (None, n\<lparr>nf_bound := True\<rparr>))"

definition ensureOrigin :: "notifier_config \<Rightarrow> notice_io \<Rightarrow> notifier \<Rightarrow> fab_error option \<times> notifier" where
  "ensureOrigin cfg io n =
     (if nf_bound n then (None, n)
      else case io_resolve io (nc_origin cfg) of
             Inr b \<Rightarrow>
               if cb_bound b \<and> cb_adapter_id b = nc_adapter_id cfg then (None, n\<lparr>nf_bound := True\<rparr>)
               else if cb_bound b
               then (Some \<lparr>fe_status = None, fe_code = '''', fe_text = nc_origin cfg @ '' is bound to adapter ''
                       @ cb_adapter_id b @ '', not '' @ nc_adapter_id cfg\<rparr>, n)
               else bindOrigin cfg io n (Some (cb_revision b))
           | Inl e \<Rightarrow>
               if fe_status e = Some 404 then bindOrigin cfg io n None
               else (Some (wrap (''resolve '' @ nc_origin cfg @ '': '') e), n))"

definition noticeMessage :: "notifier_config \<Rightarrow> client_lease \<Rightarrow> notice \<Rightarrow> string \<Rightarrow> message_request" where
  "noticeMessage cfg l x body =
     \<lparr>mq_producer_id = nc_adapter_id cfg, mq_lease_token = cl_token l,
      mq_operation_id = ''crew-board/notice/'' @ no_id x, mq_sender_address = nc_origin cfg,
      mq_recipient_address = pa_address (no_recipient x), mq_body = body,
      mq_activation_policy = no_policy x, mq_ttl = durationString (nc_ttl cfg)\<rparr>"

definition submit ::
  "notifier_config \<Rightarrow> notice_io \<Rightarrow> notice \<Rightarrow> string \<Rightarrow> notifier \<Rightarrow> (fab_error + string) \<times> notifier" where
  "submit cfg io x body n =
     (case ensureLease cfg io n of
        (Some e, n) \<Rightarrow> (Inl e, n)
      | (None, n) \<Rightarrow>
          (case ensureOrigin cfg io n of
             (Some e, n) \<Rightarrow> (Inl e, n)
           | (None, n) \<Rightarrow>
               (case io_submit io (noticeMessage cfg (nf_lease n) x body) of
                  Inr i \<Rightarrow> (Inr i, n)
                | Inl e \<Rightarrow>
                    (Inl e, if fe_code e \<in> {''lease_expired'', ''lease_fenced''} then \<lparr>nf_lease = no_lease, nf_bound = False\<rparr>
                            else if fe_code e = ''adapter_mismatch'' then n\<lparr>nf_bound := False\<rparr> else n))))"

section \<open>What a notice says\<close>

text \<open>\<open>Inl\<close> is the text of the error the notice fails with.\<close>

definition stillShown :: "notice \<Rightarrow> bdb \<Rightarrow> string + post" where
  "stillShown x d =
     (case GetPost (no_post_id x) d of
        None \<Rightarrow> Inl ''the post is gone''
      | Some p \<Rightarrow>
          if po_state p \<noteq> PostVisible
          then Inl (''the post was '' @ post_state_text (po_state p) @ '' before the notice went out'')
          else Inr p)"

definition driver_command :: "string \<Rightarrow> string" where
  "driver_command adapter =
     (if adapter = ''claude-code'' then ''crew-claude''
      else if adapter \<in> {''crew-codex'', ''crew-dsh'', ''crew-hermes''} then adapter
      else ''<your driver>'')"

definition command :: "notice_io \<Rightarrow> participant \<Rightarrow> string" where
  "command io p =
     (let session = (if pa_kind p = AuthorSeat
                     then (case io_seat_holder io (pa_address p) of
                             Inl _ \<Rightarrow> None
                           | Inr (holder, _) \<Rightarrow> if holder = '''' then None else Some holder)
                     else Some (pa_address p))
      in case session of
           None \<Rightarrow> ''<your driver>''
         | Some s \<Rightarrow>
             (case io_session io s of Inl _ \<Rightarrow> ''<your driver>'' | Inr (adapter, _) \<Rightarrow> driver_command adapter))"

definition last_space :: "string \<Rightarrow> nat option" where
  "last_space s =
     (let tail = takeWhile (\<lambda>c. c \<noteq> CHR '' '') (rev s)
      in if length tail = length s then None else Some (length s - length tail - 1))"

definition quoted :: "string \<Rightarrow> string" where
  "quoted text =
     (let q = TrimSpace text
      in if length q \<le> 600 then q
         else let at = (case last_space (take 600 q) of None \<Rightarrow> 600 | Some i \<Rightarrow> if i < 400 then 600 else i)
              in take at q @ '' '' @ ellipsis)"

definition reason_text :: "string \<Rightarrow> string" where
  "reason_text r =
     (if r = ReasonMention then ''You were mentioned by'' else if r = ReasonReply then ''Reply to your post from''
      else if r = ReasonSubscription then ''New post in a thread you follow, from'' else '''')"

definition noticeBody :: "(string \<Rightarrow> bool) \<Rightarrow> notifier_config \<Rightarrow> notice_io \<Rightarrow> notice \<Rightarrow> bdb \<Rightarrow> string + string" where
  "noticeBody printable cfg io x d =
     bindR (stillShown x d) (\<lambda>p.
     bindR (ok_or ''not found'' (GetThread (no_thread_id x) d)) (\<lambda>t.
     let whereabouts = ''board '' @ th_board t
           @ (if po_kind p \<noteq> '''' then '', a '' @ po_kind p else '''')
           @ (if nc_site cfg \<noteq> '''' \<and> po_site p \<noteq> nc_site cfg then ''; from site '' @ po_site p @ '', outside this box'' else '''');
         com = command io (no_recipient x);
         as = (if pa_kind (no_recipient x) = AuthorSeat then '' --as '' @ pa_address (no_recipient x) else '''')
     in Inr ((if no_urgent x then ''[urgent] '' else '''')
             @ reason_text (no_reason x) @ '' '' @ displayAuthor (po_author p) @ '' in '' @ Quote printable (th_title t)
             @ '' ('' @ whereabouts @ ''):'' @ [LF, LF]
             @ concat (map (\<lambda>line. ''> '' @ line @ [LF]) (split_lines (quoted (RenderForAgent (po_body p) False))))
             @ [LF] @ ''Read it with: '' @ com @ '' board read '' @ po_id p @ as
             @ (if po_kind p = KindDecision \<and> no_reason x = ReasonMention
                then [LF] @ ''This decision names you; acknowledge it with: '' @ com @ '' board ack '' @ po_id p @ as else '''')
             @ (if no_reason x \<noteq> ReasonSubscription
                then [LF] @ ''Answer on the board with: '' @ com @ '' board reply '' @ po_id p @ as @ '' TEXT'' else ''''))))"

definition excerpt :: "nat \<Rightarrow> string \<Rightarrow> string" where
  "excerpt most s = concat (take most (runes s)) @ ellipsis"

definition personNotice :: "(string \<Rightarrow> bool) \<Rightarrow> notifier_config \<Rightarrow> notice \<Rightarrow> bdb \<Rightarrow> string + person_notice" where
  "personNotice printable cfg x d =
     bindR (ok_or ''not found'' (GetPost (no_post_id x) d)) (\<lambda>p.
     bindR (ok_or ''not found'' (GetThread (no_thread_id x) d)) (\<lambda>t.
     let who = personAuthor (po_author p); named = Quote printable (th_title t);
         title = (if no_reason x = ReasonMention then who @ '' mentioned you in '' @ named
                  else if no_reason x = ReasonReply then who @ '' replied in '' @ named
                  else ''New in '' @ named @ '', from '' @ who);
         title = (if RuneCount title > 190 then excerpt 189 title else title);
         text' = Join (Fields (RenderForAgent (po_body p) False)) '' '';
         text' = (if nc_site cfg \<noteq> '''' \<and> po_site p \<noteq> nc_site cfg then ''(from site '' @ po_site p @ '') '' @ text' else text');
         text' = (if RuneCount text' > 600 then excerpt 599 text' else text');
         link = (if nc_web_url cfg = '''' then ''''
                 else trimSlashes (nc_web_url cfg) @ ''/t/'' @ PathEscape (th_id t) @ ''?post='' @ QueryEscape (po_id p) @ ''#'' @ po_id p)
     in Inr \<lparr>pn_person = pa_address (no_recipient x), pn_key = ''crew-board/notice/'' @ no_id x, pn_title = title,
             pn_text = text', pn_link = link, pn_reason = no_reason x, pn_group = th_id t, pn_urgent = no_urgent x\<rparr>))"

text \<open>A person's notice as it is frozen on the notice, and read back.\<close>

definition personNoticeJSON :: "person_notice \<Rightarrow> json" where
  "personNoticeJSON q =
     JObject ([(''person'', JString (pn_person q)), (''key'', JString (pn_key q)), (''title'', JString (pn_title q)),
               (''text'', JString (pn_text q))] @ text_field ''link'' (pn_link q)
              @ [(''reason'', JString (pn_reason q)), (''group'', JString (pn_group q))]
              @ bool_field ''urgent'' (pn_urgent q))"

definition field_of :: "string \<Rightarrow> (string \<times> json) list \<Rightarrow> json option" where
  "field_of k fs = map_of (rev fs) k"

definition string_field :: "string \<Rightarrow> (string \<times> json) list \<Rightarrow> string option" where
  "string_field k fs = (case field_of k fs of None \<Rightarrow> Some '''' | Some (JString s) \<Rightarrow> Some s | _ \<Rightarrow> None)"

definition flag_field :: "string \<Rightarrow> (string \<times> json) list \<Rightarrow> bool option" where
  "flag_field k fs = (case field_of k fs of None \<Rightarrow> Some False | Some (JBool b) \<Rightarrow> Some b | _ \<Rightarrow> None)"

definition readPersonNotice :: "string \<Rightarrow> person_notice option" where
  "readPersonNotice body =
     (case readObject body of
        None \<Rightarrow> None
      | Some fs \<Rightarrow>
          (case map (\<lambda>k. string_field k fs) [''person'', ''key'', ''title'', ''text'', ''link'', ''reason'', ''group''] of
             [Some a, Some b, Some c, Some e, Some f, Some g, Some h] \<Rightarrow>
               map_option (\<lambda>u. \<lparr>pn_person = a, pn_key = b, pn_title = c, pn_text = e, pn_link = f, pn_reason = g,
                              pn_group = h, pn_urgent = u\<rparr>) (flag_field ''urgent'' fs)
           | _ \<Rightarrow> None))"

section \<open>Passes\<close>

definition failed :: "notice \<Rightarrow> string \<Rightarrow> notice" where
  "failed x e = x\<lparr>no_state := NoticeFailed, no_last_error := e\<rparr>"

definition checked :: "time \<Rightarrow> notice \<Rightarrow> client_delivery \<Rightarrow> notice" where
  "checked now x v =
     (if cd_message_id v \<noteq> no_message_id x then x
      else if cd_state v = ''delivered'' then x\<lparr>no_state := NoticeDelivered, no_last_error := ''''\<rparr>
      else if cd_state v = ''expired''
              \<or> cd_state v \<in> {''queued'', ''claimed''} \<and> (case cd_expires_at v of None \<Rightarrow> False | Some t \<Rightarrow> t \<le> now)
      then x\<lparr>no_state := NoticeExpired, no_last_error := ''not delivered before its TTL ran out''\<rparr>
      else if cd_state v \<in> {''failed'', ''cancelled'', ''outcome_unknown''}
      then failed x (''the fabric settled it as '' @ cd_state v @ '' '' @ cd_terminal_reason v)
      else x)"

definition check :: "notice_io \<Rightarrow> notice \<Rightarrow> bdb \<Rightarrow> bool \<times> bdb" where
  "check io x d =
     (case io_mailbox io (pa_address (no_recipient x)) of
        Inl _ \<Rightarrow> (False, UpdateNotice (x\<lparr>no_next_attempt_at := io_now io + 60000000000\<rparr>) d)
      | Inr vs \<Rightarrow>
          (let x = foldl (checked (io_now io)) x vs;
               x = (if no_state x \<noteq> NoticeSent then x
                    else x\<lparr>no_next_attempt_at := (if io_now io \<ge> no_give_up_at x then never else io_now io + 60000000000)\<rparr>)
           in (no_state x \<noteq> NoticeSent, UpdateNotice x d)))"

definition retried :: "time \<Rightarrow> string \<Rightarrow> string \<Rightarrow> notice \<Rightarrow> notice" where
  "retried now gave_up e x =
     (if now \<ge> no_give_up_at x then failed x (gave_up @ e)
      else x\<lparr>no_last_error := e, no_next_attempt_at := now + backoff (nat (no_attempts x))\<rparr>)"

text \<open>
  A body that cannot be read back fails the notice; the decoder's own words, which the code appends to the
  recorded error, are left out.
\<close>

definition sendPerson :: "(string \<Rightarrow> bool) \<Rightarrow> notifier_config \<Rightarrow> notice_io \<Rightarrow> notice \<Rightarrow> bdb \<Rightarrow> bool \<times> bdb" where
  "sendPerson printable cfg io x d =
     (let now = io_now io;
          settle_as = (\<lambda>x d. (no_state x \<noteq> NoticePending, UpdateNotice x d));
          tell = (\<lambda>q x d. settle_as
            (case io_people io q of
               PersonTold i \<Rightarrow> x\<lparr>no_state := NoticeDelivered, no_message_id := i, no_sent_at := Some now, no_last_error := ''''\<rparr>
             | PersonRefused e \<Rightarrow> failed x e
             | PersonFailed e \<Rightarrow> retried now ''crew-humans could not be reached before the notice gave up: '' e x) d)
      in if \<not> nc_people cfg
         then (True, UpdateNotice (x\<lparr>no_state := NoticeNoRoute,
                 no_last_error := ''no route to people (crew-humans is not configured)''\<rparr>) d)
         else if no_body x = ''''
         then (case personNotice printable cfg x d of
                 Inl e \<Rightarrow> (True, UpdateNotice (failed x e) d)
               | Inr q \<Rightarrow>
                   (let x = x\<lparr>no_body := Marshal (personNoticeJSON q)\<rparr> in tell q x (UpdateNotice x d)))
         else (case readPersonNotice (no_body x) of
                 None \<Rightarrow> (True, UpdateNotice (failed x ''the stored notice is unreadable'') d)
               | Some q \<Rightarrow> tell q x d))"

definition submitted :: "notifier_config \<Rightarrow> time \<Rightarrow> fab_error + string \<Rightarrow> notice \<Rightarrow> notice" where
  "submitted cfg now answer x =
     (case answer of
        Inr i \<Rightarrow> x\<lparr>no_state := NoticeSent, no_message_id := i, no_sent_at := Some now, no_last_error := '''',
                  no_next_attempt_at := now + 60000000000, no_give_up_at := now + (nc_ttl cfg + 3600000000000)\<rparr>
      | Inl e \<Rightarrow>
          if noticeRefused e then failed x (''the fabric refused it: '' @ errorText e)
          else retried now ''the fabric could not be reached before the notice gave up: '' (errorText e) x)"

definition send ::
  "(string \<Rightarrow> bool) \<Rightarrow> notifier_config \<Rightarrow> notice_io \<Rightarrow> notice \<Rightarrow> notifier \<times> bdb \<Rightarrow> bool \<times> notifier \<times> bdb" where
  "send printable cfg io x st =
     (let (n, d) = st; x = x\<lparr>no_attempts := no_attempts x + 1\<rparr>;
          go = (\<lambda>x d. let (answer, n) = submit cfg io x (no_body x) n; x = submitted cfg (io_now io) answer x
                     in (no_state x \<noteq> NoticePending, n, UpdateNotice x d))
      in case stillShown x d of
           Inl e \<Rightarrow> (True, n, UpdateNotice (failed x e) d)
         | Inr _ \<Rightarrow>
             if pa_kind (no_recipient x) = AuthorPerson
             then (let (settled, d) = sendPerson printable cfg io x d in (settled, n, d))
             else if no_body x = ''''
             then (case noticeBody printable cfg io x d of
                     Inl e \<Rightarrow> (True, n, UpdateNotice (failed x e) d)
                   | Inr body \<Rightarrow> (let x = x\<lparr>no_body := body\<rparr> in go x (UpdateNotice x d)))
             else go x d)"

fun notify_all ::
  "(string \<Rightarrow> bool) \<Rightarrow> notifier_config \<Rightarrow> (nat \<Rightarrow> notice_io) \<Rightarrow> nat \<Rightarrow> notice list \<Rightarrow> notifier \<times> bdb \<Rightarrow> nat \<times> notifier \<times> bdb" where
  "notify_all printable cfg io k [] st = (0, st)"
| "notify_all printable cfg io k (x # xs) st =
     (let (settled, st) =
            (if no_state x = NoticeSent
             then (let (b, d) = check (io k) x (snd st) in (b, fst st, d))
             else send printable cfg (io k) x st);
          (c, st) = notify_all printable cfg io (Suc k) xs st
      in ((if settled then Suc c else c), st))"

text \<open>A pass of the notifier: \<open>start\<close> is its clock, \<open>io k\<close> the world of its notice number \<open>k\<close>.\<close>

definition NotifierPass ::
  "(string \<Rightarrow> bool) \<Rightarrow> notifier_config \<Rightarrow> time \<Rightarrow> (nat \<Rightarrow> notice_io) \<Rightarrow> notifier \<times> bdb \<Rightarrow> nat \<times> notifier \<times> bdb" where
  "NotifierPass printable cfg start io st =
     notify_all printable cfg io 0 (DueNotices start 50 (snd st)) st"

end
