(* ===== verification/Humans_Api.thy ===== *)
theory Humans_Api
  imports Board_Notifier
begin

text \<open>
  From crew-board to crew-humans: \<^verbatim>\<open>NotifyPerson\<close> of \<^verbatim>\<open>cmd/crew-board/main.go\<close>
  over the client of \<^verbatim>\<open>humansclient\<close> and the handler of \<^verbatim>\<open>humanshttp\<close>. The request
  is printed as JSON, read by crew-humans from at most 64 KiB, and answered with a status; \<open>wire\<close> says
  whether the request or the response is lost. An accepted notice's result is read back as it was written,
  and the message that follows a refusal's code is left out.
\<close>

datatype wire = RequestLost string | ResponseLost string | Delivered

definition personRequest :: "person_notice \<Rightarrow> notify_request" where
  "personRequest q =
     \<lparr>nr_person = pn_person q, nr_source = ''system/crew-board'', nr_key = pn_key q, nr_title = pn_title q,
      nr_text = pn_text q, nr_link = pn_link q, nr_reason = pn_reason q, nr_group = pn_group q, nr_urgent = pn_urgent q\<rparr>"

definition requestJSON :: "notify_request \<Rightarrow> json" where
  "requestJSON q =
     JObject ([(''person'', JString (nr_person q)), (''source'', JString (nr_source q)),
               (''idempotency_key'', JString (nr_key q)), (''title'', JString (nr_title q))]
              @ text_field ''text'' (nr_text q) @ text_field ''link'' (nr_link q) @ text_field ''reason'' (nr_reason q)
              @ text_field ''group'' (nr_group q) @ bool_field ''urgent'' (nr_urgent q))"

text \<open>A body longer than the limit is cut inside its object and does not parse.\<close>

definition readRequest :: "string \<Rightarrow> notify_request option" where
  "readRequest body =
     (if length body > 65536 then None
      else case readObject body of
             None \<Rightarrow> None
           | Some fs \<Rightarrow>
               (case map (\<lambda>k. string_field k fs)
                       [''person'', ''source'', ''idempotency_key'', ''title'', ''text'', ''link'', ''reason'', ''group''] of
                  [Some a, Some b, Some c, Some e, Some f, Some g, Some h, Some i] \<Rightarrow>
                    map_option (\<lambda>u. \<lparr>nr_person = a, nr_source = b, nr_key = c, nr_title = e, nr_text = f, nr_link = g,
                                   nr_reason = h, nr_group = i, nr_urgent = u\<rparr>) (flag_field ''urgent'' fs)
                | _ \<Rightarrow> None))"

definition handleNotify ::
  "(string \<Rightarrow> bool) \<Rightarrow> humans_config \<Rightarrow> time \<Rightarrow> string \<Rightarrow> string \<Rightarrow> humans_site \<Rightarrow> notify_answer \<times> humans_site" where
  "handleNotify url_ok cfg now random body s =
     (case readRequest body of
        None \<Rightarrow> (Inl (HumansRefused CodeInvalid), s)
      | Some q \<Rightarrow> Notify url_ok cfg now random q s)"

fun humans_status :: "humans_error \<Rightarrow> nat \<times> string" where
  "humans_status (HumansRefused CodeInvalid) = (400, ''invalid_request'')"
| "humans_status (HumansRefused CodeUnknownPerson) = (404, ''unknown_person'')"
| "humans_status (HumansRefused CodeNotFound) = (404, ''notice_not_found'')"
| "humans_status (HumansRefused CodeConflict) = (409, ''idempotency_conflict'')"
| "humans_status HumansStore = (500, ''internal_error'')"

definition person_answer_of :: "notify_answer \<Rightarrow> person_answer" where
  "person_answer_of a =
     (case a of
        Inr (res, _) \<Rightarrow> PersonTold (ns_notice_id res)
      | Inl e \<Rightarrow>
          (let (status, code) = humans_status e;
               said = ''crew-humans answered '' @ dec (int status) @ '' '' @ code
           in if 400 \<le> status \<and> status < 500 then PersonRefused (''crew-humans refused the notice: '' @ said)
              else PersonFailed said))"

definition NotifyPerson ::
  "(string \<Rightarrow> bool) \<Rightarrow> humans_config \<Rightarrow> time \<Rightarrow> string \<Rightarrow> wire \<Rightarrow> person_notice \<Rightarrow> humans_site \<Rightarrow> person_answer \<times> humans_site" where
  "NotifyPerson url_ok cfg now random w q s =
     (let body = Marshal (requestJSON (personRequest q))
      in case w of
           RequestLost e \<Rightarrow> (PersonFailed e, s)
         | ResponseLost e \<Rightarrow> (PersonFailed e, snd (handleNotify url_ok cfg now random body s))
         | Delivered \<Rightarrow>
             (let (a, s) = handleNotify url_ok cfg now random body s in (person_answer_of a, s)))"

end
