(* ===== verification/Due_Pass.thy ===== *)
theory Due_Pass
  imports Prelude
begin

text \<open>
  The contract of a background pass, which the deliverer of crew-humans and the notifier of crew-board
  share: the rows that were due when the pass began are attempted one after another, an attempt replaces
  its own row by an outcome and leaves every other row and the rest of the state's frame alone, and the
  pass counts the rows it settled.
\<close>

definition replaced :: "'r list \<Rightarrow> 'r list \<Rightarrow> 'r \<Rightarrow> 'r" where
  "replaced xs xs' y = (case map_of (zip xs xs') y of Some y' \<Rightarrow> y' | None \<Rightarrow> y)"

definition all_outcomes :: "(nat \<Rightarrow> 'r \<Rightarrow> 'r \<Rightarrow> bool) \<Rightarrow> nat \<Rightarrow> 'r list \<Rightarrow> 'r list \<Rightarrow> bool" where
  "all_outcomes out k xs xs' =
     list_all2 (\<lambda>j (x, x'). out j x x') [k..<k + length xs] (zip xs xs')"

lemma all_outcomes_Cons:
  "length xs' = length xs \<Longrightarrow>
     all_outcomes out k (x # xs) (x' # xs') \<longleftrightarrow> out k x x' \<and> all_outcomes out (Suc k) xs xs'"
  by (simp add: all_outcomes_def upt_conv_Cons del: upt_Suc)

lemma length_filter_snd:
  "length xs' = length xs \<Longrightarrow> length (filter (\<lambda>(x, x'). P x') (zip xs xs')) = length (filter P xs')"
  by (induction xs' xs rule: list_induct2) simp_all

lemma replaced_cases:
  assumes "length xs' = length xs" and "all_outcomes out k xs xs'"
  shows "replaced xs xs' y = y \<or> y \<in> set xs \<and> (\<exists>j. out j y (replaced xs xs' y))"
  using assms
proof (induction xs arbitrary: xs' k)
  case Nil
  then show ?case by (simp add: replaced_def)
next
  case (Cons x xs)
  then obtain x' ys where xs': "xs' = x' # ys" "length ys = length xs" by (cases xs') auto
  with Cons.prems have o1: "out k x x'" and o2: "all_outcomes out (Suc k) xs ys" by (simp_all add: all_outcomes_Cons)
  show ?case
  proof (cases "y = x")
    case True
    then show ?thesis using o1 by (auto simp: replaced_def xs')
  next
    case False
    then have "replaced (x # xs) xs' y = replaced xs ys y" by (simp add: replaced_def xs')
    then show ?thesis using Cons.IH [OF xs'(2) o2] by auto
  qed
qed

locale due_pass =
  fixes rows :: "'s \<Rightarrow> 'r list"
    and key :: "'r \<Rightarrow> 'k"
    and ready :: "'s \<Rightarrow> 'r \<Rightarrow> bool"
    and frame :: "'s \<Rightarrow> 's \<Rightarrow> bool"
    and act :: "nat \<Rightarrow> 'r \<Rightarrow> 's \<Rightarrow> bool \<times> 's"
    and outcome :: "'s \<Rightarrow> nat \<Rightarrow> 'r \<Rightarrow> 'r \<Rightarrow> bool"
    and settles :: "'r \<Rightarrow> 'r \<Rightarrow> bool"
  assumes act_row: "distinct (map key (rows s)) \<Longrightarrow> x \<in> set (rows s) \<Longrightarrow> ready s x \<Longrightarrow>
      \<exists>x'. outcome s k x x' \<and> fst (act k x s) = settles x x' \<and> frame s (snd (act k x s))
        \<and> rows (snd (act k x s)) = map (\<lambda>y. if y = x then x' else y) (rows s)"
    and outcome_key: "outcome s k x x' \<Longrightarrow> key x' = key x"
    and frame_refl: "frame s s"
    and frame_trans: "frame s t \<Longrightarrow> frame t u \<Longrightarrow> frame s u"
    and ready_frame: "frame s t \<Longrightarrow> ready s x \<Longrightarrow> ready t x"
    and outcome_frame: "frame s t \<Longrightarrow> outcome t k x x' \<Longrightarrow> outcome s k x x'"
begin

fun pass :: "nat \<Rightarrow> 'r list \<Rightarrow> 's \<Rightarrow> nat \<times> 's" where
  "pass k [] s = (0, s)"
| "pass k (x # xs) s =
     (let (settled, s) = act k x s; (n, s) = pass (Suc k) xs s in ((if settled then Suc n else n), s))"

lemma replaced_rest:
  assumes "distinct (map key (rows s))" and "x \<in> set (rows s)" and "set xs \<subseteq> set (rows s)" and "x \<notin> set xs"
    and "key x' = key x"
  shows "replaced xs xs' (if y = x then x' else y) = replaced (x # xs) (x' # xs') y"
proof (cases "y = x")
  case True
  have "x' \<notin> set xs"
  proof
    assume "x' \<in> set xs"
    then have "x' = x" using assms distinct_key_eq [of key "rows s" x' x] by auto
    with \<open>x' \<in> set xs\<close> assms(4) show False by simp
  qed
  then have "map_of (zip xs xs') x' = None" by (auto simp: map_of_eq_None_iff dest: set_zip_leftD)
  with True show ?thesis by (simp add: replaced_def)
qed (simp add: replaced_def)

lemma pass_spec:
  assumes "distinct (map key (rows s))" and "distinct xs" and "set xs \<subseteq> set (rows s)"
    and "\<forall>x\<in>set xs. ready s x" and "pass k xs s = (n, s')"
  shows "\<exists>xs'. length xs' = length xs \<and> all_outcomes (outcome s) k xs xs'
    \<and> n = length (filter (case_prod settles) (zip xs xs')) \<and> frame s s' \<and> rows s' = map (replaced xs xs') (rows s)"
  using assms
proof (induction xs arbitrary: k s n)
  case Nil
  then show ?case by (simp add: replaced_def frame_refl all_outcomes_def)
next
  case (Cons x xs)
  obtain x' where o1: "outcome s k x x'" and a: "fst (act k x s) = settles x x'" "frame s (snd (act k x s))"
    and r: "rows (snd (act k x s)) = map (\<lambda>y. if y = x then x' else y) (rows s)"
    using act_row [OF Cons.prems(1), of x k] Cons.prems(3,4) by auto
  define t where "t = snd (act k x s)"
  obtain m where m: "pass (Suc k) xs t = (m, s')" and n: "n = (if settles x x' then Suc m else m)"
    using Cons.prems(5) a(1) by (auto simp: t_def split: prod.splits)
  have key: "key x' = key x" using outcome_key [OF o1] .
  have "map key (rows t) = map key (rows s)" using key by (simp add: t_def r)
  moreover have "set xs \<subseteq> set (rows t)" using Cons.prems(2,3) by (auto simp: t_def r)
  moreover have "\<forall>y\<in>set xs. ready t y" using Cons.prems(4) ready_frame a(2) by (simp add: t_def)
  ultimately obtain ys where ys: "length ys = length xs" "all_outcomes (outcome t) (Suc k) xs ys"
    "m = length (filter (case_prod settles) (zip xs ys))" "frame t s'" "rows s' = map (replaced xs ys) (rows t)"
    using Cons.IH [OF _ _ _ _ m] Cons.prems(1,2) by (metis distinct.simps(2))
  have "all_outcomes (outcome s) (Suc k) xs ys"
    using ys(2) outcome_frame [OF a(2)] unfolding all_outcomes_def t_def by (auto elim!: list_all2_mono)
  then have "all_outcomes (outcome s) k (x # xs) (x' # ys)" using o1 ys(1) by (simp add: all_outcomes_Cons)
  moreover have "rows s' = map (replaced (x # xs) (x' # ys)) (rows s)"
    using replaced_rest [OF Cons.prems(1) _ _ _ key] Cons.prems(2,3) ys(5) by (simp add: t_def r)
  moreover have "frame s s'" using frame_trans a(2) ys(4) by (metis t_def)
  ultimately show ?case using ys n by (intro exI [of _ "x' # ys"]) simp
qed

end

end
