(* ===== verification/Humans_Guarantees.thy ===== *)
theory Humans_Guarantees
  imports Humans_Text Due_Pass
begin

text \<open>
  What crew-humans promises: the people file it acts on, the steps its records take, the invariant of
  the states they reach, and what a notify, a pass of the deliverer and a mark-read do.
\<close>

section \<open>The people file\<close>

definition route_ok :: "(string \<Rightarrow> bool) \<Rightarrow> route_config \<Rightarrow> bool" where
  "route_ok url_ok r =
     (rk_kind r = RouteInbox \<or>
      rk_kind r = RouteHomeAssistant \<and> url_ok (rk_url r) \<and> serviceRule (rk_service r) \<and> rk_token_file r \<noteq> ''''
      \<and> rk_push r \<in> {PushMentions, PushAll, PushUrgent})"

definition human_ok :: "(string \<Rightarrow> bool) \<Rightarrow> human \<Rightarrow> bool" where
  "human_ok url_ok p =
     (nameRule (hu_name p) \<and> hu_display p \<noteq> '''' \<and> RouteInbox \<in> rk_kind ` set (hu_routes p)
      \<and> list_all (route_ok url_ok) (hu_routes p))"

definition people_ok :: "(string \<Rightarrow> bool) \<Rightarrow> people_file \<Rightarrow> bool" where
  "people_ok url_ok f =
     (pe_site f \<noteq> '''' \<and> distinct (map hu_name (pe_people f)) \<and> list_all (human_ok url_ok) (pe_people f))"

lemma checkRoute_ok:
  "checkRoute url_ok p j r = Inr (r', b) \<Longrightarrow> route_ok url_ok r' \<and> (b \<longleftrightarrow> rk_kind r' = RouteInbox)"
  by (auto simp: checkRoute_def route_ok_def split: if_splits)

lemma checkRoute_id: "route_ok url_ok r \<Longrightarrow> checkRoute url_ok p j r = Inr (r, rk_kind r = RouteInbox)"
  by (auto simp: checkRoute_def route_ok_def)

lemma checkRoutes_ok:
  "checkRoutes url_ok p j rs = Inr (rs', b)
     \<Longrightarrow> list_all (route_ok url_ok) rs' \<and> (b \<longleftrightarrow> RouteInbox \<in> rk_kind ` set rs')"
proof (induction rs arbitrary: j rs' b)
  case (Cons r rs)
  then obtain r1 b1 rs1 b2 where r: "checkRoute url_ok p j r = Inr (r1, b1)"
    and rs: "checkRoutes url_ok p (Suc j) rs = Inr (rs1, b2)" and eq: "rs' = r1 # rs1" "b = (b1 \<or> b2)"
    by (auto simp: bindR_Inr_iff)
  then show ?case using checkRoute_ok [OF r] Cons.IH [OF rs] by auto
qed simp

lemma checkRoutes_id:
  "list_all (route_ok url_ok) rs \<Longrightarrow> checkRoutes url_ok p j rs = Inr (rs, RouteInbox \<in> rk_kind ` set rs)"
  by (induction rs arbitrary: j) (auto simp: checkRoute_id)

lemma nameRule_nonempty: "nameRule s \<Longrightarrow> s \<noteq> ''''"
  by (auto simp: nameRule_def first_rest_def)

lemma checkPerson_ok:
  assumes "checkPerson url_ok p = Inr p'" and "nameRule (hu_name p)"
  shows "hu_name p' = hu_name p \<and> human_ok url_ok p'"
proof -
  obtain rs b where rs: "checkRoutes url_ok (hu_name p) 0 (hu_routes p) = Inr (rs, b)"
    and p': "p' = p\<lparr>hu_display := (if hu_display p = '''' then hu_name p else hu_display p),
      hu_routes := (if b then rs else inboxRoute # rs)\<rparr>"
    using assms(1) by (auto simp: checkPerson_def bindR_Inr_iff)
  have "hu_display p' \<noteq> ''''" using nameRule_nonempty [OF assms(2)] p' by simp
  moreover have "RouteInbox \<in> rk_kind ` set (hu_routes p') \<and> list_all (route_ok url_ok) (hu_routes p')"
    using checkRoutes_ok [OF rs] p' by (cases b) (simp_all add: inboxRoute_def route_ok_def)
  moreover have "hu_name p' = hu_name p" using p' by simp
  ultimately show ?thesis using assms(2) by (simp add: human_ok_def)
qed

lemma checkPerson_id: "human_ok url_ok p \<Longrightarrow> checkPerson url_ok p = Inr p"
  by (simp add: checkPerson_def human_ok_def checkRoutes_id)

lemma checkPeople_ok:
  "checkPeople url_ok seen ps = Inr ps'
     \<Longrightarrow> list_all (human_ok url_ok) ps' \<and> distinct (map hu_name ps') \<and> set (map hu_name ps') \<inter> set seen = {}"
proof (induction ps arbitrary: seen ps')
  case (Cons p ps)
  then obtain p' qs where n: "nameRule (hu_name p)" and s: "hu_name p \<notin> set seen" and c: "checkPerson url_ok p = Inr p'"
    and r: "checkPeople url_ok (hu_name p # seen) ps = Inr qs" and ps': "ps' = p' # qs"
    by (auto simp: bindR_Inr_iff)
  have q: "list_all (human_ok url_ok) qs \<and> distinct (map hu_name qs) \<and> set (map hu_name qs) \<inter> set (hu_name p # seen) = {}"
    using Cons.IH [OF r] .
  have p': "hu_name p' = hu_name p" "human_ok url_ok p'" using checkPerson_ok [OF c n] by auto
  have "hu_name p \<notin> set (map hu_name qs)" "set (map hu_name qs) \<inter> set seen = {}" using q by auto
  with p' s q show ?case unfolding ps' by simp
qed simp

lemma checkPeople_id:
  "list_all (human_ok url_ok) ps \<Longrightarrow> distinct (map hu_name ps) \<Longrightarrow> set (map hu_name ps) \<inter> set seen = {}
     \<Longrightarrow> checkPeople url_ok seen ps = Inr ps"
  by (induction ps arbitrary: seen) (auto simp: checkPerson_id human_ok_def)

lemma Check_ok: "Check url_ok f = Inr f' \<Longrightarrow> people_ok url_ok f'"
  by (auto simp: Check_def bindR_Inr_iff people_ok_def dest: checkPeople_ok)

lemma NewHumans_people_ok: "NewHumans url_ok raw = Inr cfg \<Longrightarrow> people_ok url_ok (hc_people cfg) \<and> 0 < hc_give_up cfg"
  by (auto simp: NewHumans_def bindR_Inr_iff dest: Check_ok)

lemma person_SomeD: "person cfg i = Some p \<Longrightarrow> p \<in> set (pe_people (hc_people cfg)) \<and> hu_name p = i"
  by (auto simp: person_def dest: sel1_SomeD)

lemma person_known:
  assumes "people_ok url_ok (hc_people cfg)" and "person cfg i = Some p"
  shows "human_ok url_ok p"
  using assms person_SomeD [OF assms(2)] by (auto simp: people_ok_def list_all_iff)

section \<open>Steps\<close>

text \<open>
  The records change when a source notifies, a person's notices are marked read and the deliverer makes
  a pass; a restart forgets the variables of \<^verbatim>\<open>newID\<close>. The people file may be another one at
  each step, as long as it was accepted.
\<close>

inductive humans_step :: "(string \<Rightarrow> bool) \<Rightarrow> humans_site \<Rightarrow> humans_site \<Rightarrow> bool" for url_ok where
  notified: "NewHumans url_ok raw = Inr cfg \<Longrightarrow> Notify url_ok cfg now random q s = (a, s') \<Longrightarrow> humans_step url_ok s s'"
| marked: "NewHumans url_ok raw = Inr cfg \<Longrightarrow> MarkNoticesRead cfg now m (hs_db s) = Inr (n, d)
    \<Longrightarrow> humans_step url_ok s (s\<lparr>hs_db := d\<rparr>)"
| passed: "NewHumans url_ok raw = Inr cfg \<Longrightarrow> Pass cfg start io (hs_db s) = (n, d) \<Longrightarrow> humans_step url_ok s (s\<lparr>hs_db := d\<rparr>)"
| restarted: "humans_step url_ok s (s\<lparr>hs_ids := id_start\<rparr>)"

definition humans_start :: humans_site where
  "humans_start = \<lparr>hs_ids = id_start, hs_db = empty_hdb\<rparr>"

section \<open>The invariant\<close>

definition row_ok :: "inbox_row \<Rightarrow> bool" where
  "row_ok r =
     (in_id r \<noteq> '''' \<and> in_source r \<noteq> '''' \<and> length (in_source r) \<le> 256 \<and> in_key r \<noteq> '''' \<and> length (in_key r) \<le> 256
      \<and> in_title r \<noteq> '''' \<and> RuneCount (in_title r) \<le> 200 \<and> RuneCount (in_text r) \<le> 600
      \<and> length (in_link r) \<le> 2048 \<and> length (in_group r) \<le> 256 \<and> length (in_reason r) \<le> 64)"

definition push_ok :: "push_delivery \<Rightarrow> bool" where
  "push_ok x =
     (pd_kind x = RouteHomeAssistant \<and> 0 \<le> pd_route x
      \<and> (pd_sent_at x \<noteq> None \<longleftrightarrow> pd_state x = DeliverySent)
      \<and> (pd_state x = DeliveryPending \<longrightarrow> pd_next_attempt_at x \<le> pd_give_up_at x + 300000000000))"

definition push_key :: "push_delivery \<Rightarrow> string \<times> int" where
  "push_key x = (pd_notice_id x, pd_route x)"

definition source_key :: "inbox_row \<Rightarrow> string \<times> string" where
  "source_key r = (in_source r, in_key r)"

definition humans_inv :: "hdb \<Rightarrow> bool" where
  "humans_inv d =
     (distinct (map in_id (hd_notices d)) \<and> distinct (map source_key (hd_notices d))
      \<and> distinct (map push_key (hd_deliveries d))
      \<and> list_all row_ok (hd_notices d) \<and> list_all push_ok (hd_deliveries d)
      \<and> list_all (\<lambda>x. pd_notice_id x \<in> in_id ` set (hd_notices d)) (hd_deliveries d))"

text \<open>
  How rows move: a notice is marked read once and never changes otherwise; a push keeps its place,
  its kind and its deadline, and is final once sent or failed.
\<close>

definition row_moves :: "inbox_row \<Rightarrow> inbox_row \<Rightarrow> bool" where
  "row_moves r r' = (r' = r \<or> in_read_at r = None \<and> (\<exists>t. r' = r\<lparr>in_read_at := Some t\<rparr>))"

definition push_moves :: "push_delivery \<Rightarrow> push_delivery \<Rightarrow> bool" where
  "push_moves x x' =
     (x' = x \<or> pd_state x = DeliveryPending \<and> push_key x' = push_key x \<and> pd_kind x' = pd_kind x
        \<and> pd_give_up_at x' = pd_give_up_at x \<and> pd_attempts x < pd_attempts x')"

interpretation rows: evolving_trans row_moves
  by unfold_locales (auto simp: row_moves_def)

interpretation pushings: evolving_trans push_moves
  by unfold_locales (auto simp: push_moves_def)

text \<open>The kinds of a notice's pushes, in the order of its routes.\<close>

definition kinds :: "string \<Rightarrow> hdb \<Rightarrow> string list" where
  "kinds i d = map pd_kind (listPushes i d)"

definition inbox_kept :: "hdb \<Rightarrow> hdb \<Rightarrow> bool" where
  "inbox_kept d d' =
     (evolves row_moves (hd_notices d) (hd_notices d') \<and> evolves push_moves (hd_deliveries d) (hd_deliveries d')
      \<and> (\<forall>i\<in>in_id ` set (hd_notices d). kinds i d' = kinds i d))"

lemma inbox_kept_refl: "inbox_kept d d"
  by (simp add: inbox_kept_def rows.evolves_refl pushings.evolves_refl)

lemma row_moves_id: "row_moves r r' \<Longrightarrow> in_id r' = in_id r"
  by (auto simp: row_moves_def)

lemma kept_ids: "evolves row_moves t t' \<Longrightarrow> in_id ` set t \<subseteq> in_id ` set t'"
proof
  fix i
  assume e: "evolves row_moves t t'" and "i \<in> in_id ` set t"
  then obtain r where "r \<in> set t" "i = in_id r" by blast
  then obtain r' where "r' \<in> set t'" "row_moves r r'" using evolves_mem [OF e] by blast
  then show "i \<in> in_id ` set t'" using row_moves_id \<open>i = in_id r\<close> by (metis imageI)
qed

lemma inbox_kept_trans: "inbox_kept a b \<Longrightarrow> inbox_kept b c \<Longrightarrow> inbox_kept a c"
  unfolding inbox_kept_def using rows.evolves_trans pushings.evolves_trans kept_ids by (metis subset_iff)

section \<open>Passes\<close>

lemma double_until_min:
  "0 < v \<Longrightarrow> min (double_until n v) 300000000000 = min (v * 2 ^ n) 300000000000"
proof (induction n arbitrary: v)
  case (Suc n)
  show ?case
  proof (cases "v < 300000000000")
    case True
    then show ?thesis using Suc by (simp add: mult.assoc)
  next
    case False
    have "v * 1 \<le> v * 2 ^ Suc n"
      using Suc.prems one_le_power [of "2 :: int" "Suc n"] by (intro mult_left_mono) simp_all
    then have "300000000000 \<le> v * 2 ^ Suc n" using False by linarith
    moreover have "double_until (Suc n) v = v" using False by simp
    ultimately show ?thesis using False by (simp only: min_def) auto
  qed
qed simp

lemma backoff_closed: "backoff n = min (5000000000 * 2 ^ (n - 1)) 300000000000"
  by (simp add: backoff_def double_until_min)

lemma backoff_bounds: "5000000000 \<le> backoff n \<and> backoff n \<le> 300000000000"
proof -
  have "5000000000 * 1 \<le> (5000000000 :: int) * 2 ^ (n - 1)" by (intro mult_left_mono) simp_all
  then show ?thesis by (simp add: backoff_closed)
qed

text \<open>What one attempt at time \<open>t\<close> makes of a pending push.\<close>

definition push_outcome :: "time \<Rightarrow> push_delivery \<Rightarrow> push_delivery \<Rightarrow> bool" where
  "push_outcome t x x' =
     (push_key x' = push_key x \<and> pd_kind x' = pd_kind x \<and> pd_give_up_at x' = pd_give_up_at x
      \<and> pd_attempts x' = Suc (pd_attempts x)
      \<and> (pd_state x' = DeliverySent \<and> pd_sent_at x' = Some t
         \<or> pd_state x' = DeliveryFailed \<and> pd_sent_at x' = None
         \<or> pd_state x' = DeliveryPending \<and> pd_sent_at x' = None \<and> t < pd_give_up_at x
           \<and> pd_next_attempt_at x' = t + min (5000000000 * 2 ^ pd_attempts x) 300000000000))"

lemma attempted_outcome:
  assumes "pd_state x = DeliveryPending" and "pd_sent_at x = None"
  shows "push_outcome t x (attempted t to pusher n (x\<lparr>pd_attempts := Suc (pd_attempts x)\<rparr>))"
  using assms unfolding attempted_def push_outcome_def
  by (simp add: push_key_def backoff_closed split: option.split prod.split push_answer.split)

lemma outcome_moves: "push_outcome t x x' \<Longrightarrow> pd_state x = DeliveryPending \<Longrightarrow> push_moves x x'"
  by (simp add: push_outcome_def push_moves_def)

lemma outcome_ok:
  assumes "push_outcome t x x'" and "push_ok x"
  shows "push_ok x'"
proof -
  have "min (5000000000 * 2 ^ pd_attempts x) 300000000000 \<le> (300000000000 :: int)" by simp
  then show ?thesis using assms by (auto simp: push_outcome_def push_ok_def push_key_def)
qed

lemma UpdateDelivery_row:
  assumes "distinct (map push_key (hd_deliveries d))" and "x \<in> set (hd_deliveries d)"
    and "push_key x' = push_key x" and "pd_kind x' = pd_kind x" and "pd_give_up_at x' = pd_give_up_at x"
  shows "UpdateDelivery x' d = d\<lparr>hd_deliveries := map (\<lambda>y. if y = x then x' else y) (hd_deliveries d)\<rparr>"
proof -
  have k: "pd_notice_id x' = pd_notice_id x" "pd_route x' = pd_route x" using assms(3) by (auto simp: push_key_def)
  have "y = x" if "y \<in> set (hd_deliveries d)" "pd_notice_id y = pd_notice_id x" "pd_route y = pd_route x" for y
    using distinct_key_eq [OF assms(1) that(1) assms(2)] that by (simp add: push_key_def)
  then show ?thesis using k assms(4,5) by (simp add: UpdateDelivery_def upd_def)
qed

text \<open>A pending push whose notice is there, and what a pass leaves alone.\<close>

definition push_ready :: "hdb \<Rightarrow> push_delivery \<Rightarrow> bool" where
  "push_ready d x =
     (pd_state x = DeliveryPending \<and> pd_sent_at x = None \<and> pd_notice_id x \<in> in_id ` set (hd_notices d))"

definition same_notices :: "hdb \<Rightarrow> hdb \<Rightarrow> bool" where
  "same_notices d d' = (hd_notices d' = hd_notices d)"

lemma attempt_row:
  assumes "distinct (map push_key (hd_deliveries d))" and "x \<in> set (hd_deliveries d)" and "push_ready d x"
  shows "\<exists>x'. push_outcome t x x' \<and> fst (attempt cfg t p x d) = (pd_state x' \<noteq> DeliveryPending)
    \<and> same_notices d (snd (attempt cfg t p x d))
    \<and> hd_deliveries (snd (attempt cfg t p x d)) = map (\<lambda>y. if y = x then x' else y) (hd_deliveries d)"
proof -
  have "sel1 (\<lambda>r. in_id r = pd_notice_id x) (hd_notices d) \<noteq> None"
    using assms(3) by (auto simp: push_ready_def sel1_None_iff)
  then obtain n where n: "getNotice (pd_notice_id x) d = Some n" by (auto simp: getNotice_def)
  let ?x1 = "x\<lparr>pd_attempts := Suc (pd_attempts x)\<rparr>"
  let ?x' = "attempted t (routeOf cfg (in_person n) ?x1) (p (pd_kind x)) n ?x1"
  have o1: "push_outcome t x ?x'" using assms(3) by (intro attempted_outcome) (simp_all add: push_ready_def)
  then have "UpdateDelivery ?x' d = d\<lparr>hd_deliveries := map (\<lambda>y. if y = x then ?x' else y) (hd_deliveries d)\<rparr>"
    using assms by (intro UpdateDelivery_row) (simp_all add: push_outcome_def)
  then show ?thesis using o1 n by (intro exI [of _ ?x']) (simp add: attempt_def Let_def same_notices_def)
qed

interpretation deliverer: due_pass hd_deliveries push_key push_ready same_notices
  "\<lambda>k x. attempt cfg (fst (io k)) (snd (io k)) x" "\<lambda>d k. push_outcome (fst (io k))" "\<lambda>x x'. pd_state x' \<noteq> DeliveryPending"
  for cfg io
  by unfold_locales (blast intro: attempt_row, auto simp: same_notices_def push_ready_def push_outcome_def)

lemma attempts_pass: "attempts cfg io k xs d = deliverer.pass cfg io k xs d"
  by (induction xs arbitrary: k d) (simp_all add: Let_def split: prod.split)

section \<open>Every step keeps the invariant\<close>

lemma sort_key_map: "sort_key f (map g xs) = map g (sort_key (f \<circ> g) xs)"
proof -
  have "insort_key f (g x) (map g ys) = map g (insort_key (f \<circ> g) x ys)" for x ys by (induction ys) simp_all
  then show ?thesis by (induction xs) simp_all
qed

definition key_kind :: "push_delivery \<Rightarrow> string \<times> int \<times> string" where
  "key_kind x = (pd_notice_id x, pd_route x, pd_kind x)"

lemma kinds_eq:
  "kinds i d = map (snd \<circ> snd) (sort_key (fst \<circ> snd) (filter (\<lambda>k. fst k = i) (map key_kind (hd_deliveries d))))"
  by (simp add: kinds_def listPushes_def sel_def sort_key_map filter_map key_kind_def comp_def)

lemma kinds_cong: "map key_kind (hd_deliveries d') = map key_kind (hd_deliveries d) \<Longrightarrow> kinds i d' = kinds i d"
  by (simp only: kinds_eq)

lemma due_rows:
  assumes "humans_inv d"
  shows "distinct (DueDeliveries start k d)" and "set (DueDeliveries start k d) \<subseteq> set (hd_deliveries d)"
    and "\<forall>x\<in>set (DueDeliveries start k d). push_ready d x"
proof -
  have "distinct (hd_deliveries d)" using assms by (auto simp: humans_inv_def distinct_map)
  then show "distinct (DueDeliveries start k d)" by (simp add: DueDeliveries_def sel_def)
  have sub: "set (DueDeliveries start k d) \<subseteq> {x \<in> set (hd_deliveries d). pd_state x = DeliveryPending}"
    by (auto simp: DueDeliveries_def dest: in_set_takeD)
  then show "set (DueDeliveries start k d) \<subseteq> set (hd_deliveries d)" by blast
  have "push_ready d x" if "x \<in> set (hd_deliveries d)" "pd_state x = DeliveryPending" for x
    using assms that unfolding humans_inv_def list_all_iff push_ok_def push_ready_def
    by (metis push_state.distinct(1))
  then show "\<forall>x\<in>set (DueDeliveries start k d). push_ready d x" using sub by blast
qed

lemma Pass_spec:
  assumes "humans_inv d" and "Pass cfg start io d = (n, d')"
  obtains xs where "length xs = length (DueDeliveries start 50 d)"
    and "all_outcomes (\<lambda>j. push_outcome (fst (io j))) 0 (DueDeliveries start 50 d) xs"
    and "n = length (filter (\<lambda>x. pd_state x \<noteq> DeliveryPending) xs)"
    and "d' = d\<lparr>hd_deliveries := map (replaced (DueDeliveries start 50 d) xs) (hd_deliveries d)\<rparr>"
proof -
  have "distinct (map push_key (hd_deliveries d))" using assms(1) by (simp add: humans_inv_def)
  from deliverer.pass_spec [OF this due_rows [OF assms(1), of start 50] assms(2) [unfolded Pass_def attempts_pass]]
  obtain xs where xs: "length xs = length (DueDeliveries start 50 d)"
    "all_outcomes (\<lambda>j. push_outcome (fst (io j))) 0 (DueDeliveries start 50 d) xs"
    "n = length (filter (\<lambda>(x, x'). pd_state x' \<noteq> DeliveryPending) (zip (DueDeliveries start 50 d) xs))" "same_notices d d'"
    "hd_deliveries d' = map (replaced (DueDeliveries start 50 d) xs) (hd_deliveries d)" by blast
  then show ?thesis using that [of xs] by (simp add: same_notices_def length_filter_snd)
qed

lemma Pass_kept:
  assumes "humans_inv d" and "Pass cfg start io d = (n, d')"
  shows "humans_inv d' \<and> inbox_kept d d'"
proof -
  define xs where "xs = DueDeliveries start 50 d"
  obtain xs' where l: "length xs' = length xs" and o1: "all_outcomes (\<lambda>j. push_outcome (fst (io j))) 0 xs xs'"
    and d': "d' = d\<lparr>hd_deliveries := map (replaced xs xs') (hd_deliveries d)\<rparr>"
    using Pass_spec [OF assms] unfolding xs_def by metis
  note each = replaced_cases [OF l o1]
  have pending: "pd_state y = DeliveryPending" if "y \<in> set xs" for y
    using that due_rows(3) [OF assms(1), of start 50] by (simp add: xs_def push_ready_def)
  have same: "push_key (replaced xs xs' y) = push_key y" "key_kind (replaced xs xs' y) = key_kind y" for y
    using each [of y] by (auto simp: push_outcome_def key_kind_def push_key_def)
  have notice: "pd_notice_id (replaced xs xs' y) = pd_notice_id y" for y using same(1) [of y] by (simp add: push_key_def)
  have ok: "push_ok (replaced xs xs' y)" if "push_ok y" for y using each [of y] outcome_ok that by metis
  have moves: "push_moves y (replaced xs xs' y)" for y
    using each [of y] pending outcome_moves [of _ y] pushings.R_refl by metis
  have k: "kinds i d' = kinds i d" for i by (rule kinds_cong) (simp add: d' same(2))
  have "evolves push_moves (hd_deliveries d) (hd_deliveries d')"
    by (rule evolvesI) (simp_all add: d' moves)
  then have "inbox_kept d d'" using k by (simp add: inbox_kept_def d' rows.evolves_refl)
  moreover have "humans_inv d'"
    using assms(1) ok by (simp add: humans_inv_def d' list_all_iff notice same(1) comp_def)
  ultimately show ?thesis by blast
qed

lemma MarkNoticesRead_kept:
  assumes "humans_inv d" and "MarkNoticesRead cfg now q d = Inr (n, d')"
  shows "humans_inv d' \<and> inbox_kept d d'"
proof -
  let ?P = "markable (mk_person q) (mk_ids q) (mk_through q) (mk_group q)"
  have d': "d' = d\<lparr>hd_notices := upd ?P (\<lambda>r. r\<lparr>in_read_at := Some now\<rparr>) (hd_notices d)\<rparr>"
    using assms(2) by (auto simp: MarkNoticesRead_def markRows_def split: option.splits if_splits)
  have same: "map in_id (hd_notices d') = map in_id (hd_notices d)" "map source_key (hd_notices d') = map source_key (hd_notices d)"
    unfolding d' by (simp_all add: map_upd_same source_key_def)
  have rows: "list_all row_ok (hd_notices d')"
    using assms(1) by (auto simp: humans_inv_def d' list_all_iff set_upd row_ok_def)
  have "in_id ` set (hd_notices d') = in_id ` set (hd_notices d)" using same(1) by (metis list.set_map)
  then have "humans_inv d'" using assms(1) rows unfolding humans_inv_def same by (simp add: d')
  moreover have "evolves row_moves (hd_notices d) (hd_notices d')"
    unfolding d' by simp (rule rows.evolves_upd, auto simp: row_moves_def markable_def)
  then have "inbox_kept d d'" by (simp add: inbox_kept_def d' kinds_def listPushes_def pushings.evolves_refl)
  ultimately show ?thesis by blast
qed


section \<open>Notify\<close>

text \<open>The request as it is stored: trimmed, its text cut.\<close>

definition stored_request :: "notify_request \<Rightarrow> notify_request" where
  "stored_request q = (trimmed q)\<lparr>nr_text := cut_text (nr_text (trimmed q)) 600\<rparr>"

definition new_notice :: "humans_config \<Rightarrow> time \<Rightarrow> string \<Rightarrow> human \<Rightarrow> notify_request \<Rightarrow> inbox_notice" where
  "new_notice cfg now i p q =
     (let row = noticeOf i now (stored_request q)
      in inbox_row.extend row (inbox_notice.fields (pushesFor cfg now p row)))"

lemma new_notice_simps [simp]:
  "inbox_row.truncate (new_notice cfg now i p q) = noticeOf i now (stored_request q)"
  "in_deliveries (new_notice cfg now i p q) = pushesFor cfg now p (noticeOf i now (stored_request q))"
  "in_id (new_notice cfg now i p q) = i"
  "in_source (new_notice cfg now i p q) = nr_source q"
  "in_key (new_notice cfg now i p q) = nr_key q"
  by (simp_all add: new_notice_def Let_def noticeOf_def stored_request_def trimmed_def inbox_row.defs inbox_notice.defs)

lemma pushesFor_simps:
  assumes "x \<in> set (pushesFor cfg now p n)"
  shows "pd_notice_id x = in_id n \<and> pd_state x = DeliveryPending \<and> pd_sent_at x = None \<and> pd_attempts x = 0
    \<and> pd_next_attempt_at x = now \<and> pd_give_up_at x = now + hc_give_up cfg \<and> 0 \<le> pd_route x
    \<and> pd_kind x \<noteq> RouteInbox \<and> pd_kind x \<in> rk_kind ` set (hu_routes p)"
  using assms by (auto simp: pushesFor_def in_set_enumerate_eq)

lemma pushesFor_ok:
  assumes "human_ok url_ok p" and "0 < hc_give_up cfg" and "x \<in> set (pushesFor cfg now p n)"
  shows "push_ok x"
proof -
  have "pd_kind x = RouteHomeAssistant"
    using pushesFor_simps [OF assms(3)] assms(1) by (auto simp: human_ok_def list_all_iff route_ok_def)
  then show ?thesis using pushesFor_simps [OF assms(3)] assms(2) by (simp add: push_ok_def)
qed

lemma notice_id_unchanged:
  "map (\<lambda>x. x\<lparr>pd_notice_id := in_id n\<rparr>) (pushesFor cfg now p n) = pushesFor cfg now p n"
  by (rule map_idI) (simp add: pushesFor_simps)

lemma noticeOf_ok:
  assumes "notifiable url_ok (trimmed q)" and "i \<noteq> ''''"
  shows "row_ok (noticeOf i now (stored_request q))"
  using assms cut_bound [of 600 "nr_text (trimmed q)"]
  by (simp add: row_ok_def noticeOf_def notifiable_def stored_request_def)

lemma newID_nonempty: "fst (newID now random st) \<noteq> ''''"
  by (simp add: newID_printed printed_def)

text \<open>Everything a notify can do.\<close>

lemma Notify_cases:
  assumes "Notify url_ok cfg now random q s = (a, s')"
  obtains (unknown) "person cfg (nr_person q) = None" "a = Inl (HumansRefused CodeUnknownPerson)" "hs_db s' = hs_db s"
  | (invalid) "\<not> notifiable url_ok (trimmed q)" "a = Inl (HumansRefused CodeInvalid)" "hs_db s' = hs_db s"
  | (insert) p where "person cfg (nr_person q) = Some p" "notifiable url_ok (trimmed q)"
      "hs_ids s' = snd (newID now random (hs_ids s))"
      "let n = new_notice cfg now (fst (newID now random (hs_ids s))) p q
       in (a, hs_db s') = (case InsertNotice n (hs_db s) of
              Inl e \<Rightarrow> (Inl e, hs_db s)
            | Inr ((stored, created), d) \<Rightarrow>
                (if \<not> created \<and> \<not> sameRequest stored n then Inl (HumansRefused CodeConflict)
                 else Inr (notifyResult stored, \<not> created), d))"
proof (cases "person cfg (nr_person q)")
  case None
  then show ?thesis using assms by (intro unknown) (auto simp: Notify_def)
next
  case (Some p)
  show ?thesis
  proof (cases "notifiable url_ok (trimmed q)")
    case False
    then show ?thesis using assms Some by (intro invalid) (auto simp: Notify_def Let_def)
  next
    case True
    then show ?thesis using assms Some
      by (intro insert [of p])
        (auto simp: Notify_def Let_def new_notice_def stored_request_def split: prod.splits sum.splits if_splits)
  qed
qed

lemma InsertNotice_known:
  assumes "humans_inv d" and "r \<in> set (hd_notices d)" and "source_key r = (in_source n, in_key n)"
  shows "InsertNotice n d = Inr ((scanNotice d r, False), d)"
proof -
  have "sel1 (\<lambda>r'. source_key r' = source_key r) (hd_notices d) = Some r"
    using assms by (intro sel1_unique) (simp_all add: humans_inv_def)
  then have "sel1 (\<lambda>r. in_source r = in_source n \<and> in_key r = in_key n) (hd_notices d) = Some r"
    using assms(3) by (simp add: source_key_def)
  moreover have "sel1 (\<lambda>r'. in_id r' = in_id r) (hd_notices d) = Some r"
    using assms(1,2) by (intro sel1_unique) (simp_all add: humans_inv_def)
  ultimately show ?thesis by (simp add: InsertNotice_def getNotice_def)
qed

lemma InsertNotice_fresh:
  assumes "InsertNotice n d = Inr ((stored, True), d')"
  shows "stored = n \<and> in_id n \<notin> in_id ` set (hd_notices d)
    \<and> (in_source n, in_key n) \<notin> source_key ` set (hd_notices d)
    \<and> distinct (map pd_route (in_deliveries n))
    \<and> d' = d\<lparr>hd_notices := hd_notices d @ [(inbox_row.truncate n)\<lparr>in_read_at := None\<rparr>],
           hd_deliveries := hd_deliveries d @ map (\<lambda>x. x\<lparr>pd_notice_id := in_id n\<rparr>) (in_deliveries n)\<rparr>"
  using assms
  by (auto simp: InsertNotice_def bindR_Inr_iff sel1_None_iff source_key_def split: option.splits if_splits)

lemma InsertNotice_old:
  assumes "InsertNotice n d = Inr ((stored, False), d')"
  shows "d' = d \<and> (\<exists>r\<in>set (hd_notices d). source_key r = (in_source n, in_key n))"
  using assms
  by (auto simp: InsertNotice_def bindR_Inr_iff source_key_def split: option.splits if_splits dest!: sel1_SomeD)

lemma noticeOf_unread [simp]: "(noticeOf i now q)\<lparr>in_read_at := None\<rparr> = noticeOf i now q"
  by (simp add: noticeOf_def)

lemma noticeOf_simps [simp]:
  "in_id (noticeOf i now q) = i"
  "source_key (noticeOf i now q) = (nr_source q, nr_key q)"
  by (simp_all add: noticeOf_def source_key_def)

lemma stored_request_simps [simp]:
  "nr_source (stored_request q) = nr_source q"
  "nr_key (stored_request q) = nr_key q"
  by (simp_all add: stored_request_def trimmed_def)

lemma Insert_new_kept:
  assumes inv: "humans_inv d" and p: "human_ok url_ok p" and g: "0 < hc_give_up cfg"
    and q: "notifiable url_ok (trimmed q)" and i: "i \<noteq> ''''"
    and ins: "InsertNotice (new_notice cfg now i p q) d = Inr ((stored, True), d')"
  shows "humans_inv d' \<and> inbox_kept d d'"
proof -
  define r where "r = noticeOf i now (stored_request q)"
  define xs where "xs = pushesFor cfg now p r"
  have d': "d' = d\<lparr>hd_notices := hd_notices d @ [r], hd_deliveries := hd_deliveries d @ xs\<rparr>"
    and fresh: "i \<notin> in_id ` set (hd_notices d)" "source_key r \<notin> source_key ` set (hd_notices d)"
    and routes: "distinct (map pd_route xs)"
    using InsertNotice_fresh [OF ins] notice_id_unchanged [of r cfg now p] by (simp_all add: r_def xs_def)
  have x: "pd_notice_id x = i \<and> push_ok x" if "x \<in> set xs" for x
    using that pushesFor_simps pushesFor_ok [OF p g] by (auto simp: xs_def r_def)
  have "pd_notice_id y \<noteq> i" if "y \<in> set (hd_deliveries d)" for y
    using inv that fresh(1) by (auto simp: humans_inv_def list_all_iff)
  then have "push_key ` set (hd_deliveries d) \<inter> push_key ` set xs = {}" using x by (auto simp: push_key_def)
  moreover have "distinct (map push_key xs)" using routes by (auto simp: distinct_map push_key_def inj_on_def)
  ultimately have "humans_inv d'"
    using inv fresh x noticeOf_ok [OF q i, of now]
    by (auto simp: humans_inv_def d' list_all_iff r_def)
  moreover have "kinds j d' = kinds j d" if "j \<noteq> i" for j
  proof -
    have "filter (\<lambda>k. fst k = j) (map key_kind xs) = []" using x that by (auto simp: filter_empty_conv key_kind_def)
    then show ?thesis by (simp add: kinds_eq d')
  qed
  then have "\<forall>j\<in>in_id ` set (hd_notices d). kinds j d' = kinds j d" using fresh(1) by metis
  then have "inbox_kept d d'"
    unfolding inbox_kept_def by (simp add: d' rows.evolves_append pushings.evolves_append)
  ultimately show ?thesis by blast
qed

lemma Notify_kept:
  assumes "humans_inv (hs_db s)" and "NewHumans url_ok raw = Inr cfg" and "Notify url_ok cfg now random q s = (a, s')"
  shows "humans_inv (hs_db s') \<and> inbox_kept (hs_db s) (hs_db s')"
  using assms(3)
proof (cases rule: Notify_cases)
  case (insert p)
  let ?n = "new_notice cfg now (fst (newID now random (hs_ids s))) p q"
  show ?thesis
  proof (cases "InsertNotice ?n (hs_db s)")
    case (Inl e)
    then show ?thesis using insert(4) assms(1) by (simp add: Let_def inbox_kept_refl)
  next
    case (Inr v)
    obtain stored created d where v: "v = ((stored, created), d)" by (metis prod.exhaust)
    then have d: "hs_db s' = d" using insert(4) Inr by (simp add: Let_def)
    show ?thesis
    proof (cases created)
      case True
      have "human_ok url_ok p" "0 < hc_give_up cfg"
        using NewHumans_people_ok [OF assms(2)] person_known insert(1) by blast+
      moreover have "InsertNotice ?n (hs_db s) = Inr ((stored, True), d)" using Inr v True by simp
      ultimately show ?thesis
        unfolding d using Insert_new_kept [OF assms(1) _ _ insert(2) newID_nonempty] by blast
    next
      case False
      then have "InsertNotice ?n (hs_db s) = Inr ((stored, False), d)" using Inr v by simp
      then have "d = hs_db s" using InsertNotice_old by blast
      then show ?thesis using d assms(1) by (simp add: inbox_kept_refl)
    qed
  qed
qed (use assms(1) in \<open>simp_all add: inbox_kept_refl\<close>)

lemma humans_step_kept:
  assumes "humans_step url_ok s s'" and "humans_inv (hs_db s)"
  shows "humans_inv (hs_db s') \<and> inbox_kept (hs_db s) (hs_db s')"
  using assms
proof cases
  case (notified raw cfg now random q a)
  then show ?thesis using Notify_kept assms(2) by blast
next
  case (marked raw cfg now m n d)
  then show ?thesis using MarkNoticesRead_kept assms(2) by simp
next
  case (passed raw cfg start io n d)
  then show ?thesis using Pass_kept assms(2) by simp
next
  case restarted
  then show ?thesis using assms(2) by (simp add: inbox_kept_refl)
qed

lemma humans_run_kept:
  assumes "(humans_step url_ok)\<^sup>*\<^sup>* s s'" and "humans_inv (hs_db s)"
  shows "humans_inv (hs_db s') \<and> inbox_kept (hs_db s) (hs_db s')"
  using assms(1)
proof (induction rule: rtranclp_induct)
  case base
  then show ?case using assms(2) by (simp add: inbox_kept_refl)
next
  case (step y z)
  then show ?case using humans_step_kept inbox_kept_trans by blast
qed

lemma humans_reachable_inv: "(humans_step url_ok)\<^sup>*\<^sup>* humans_start s \<Longrightarrow> humans_inv (hs_db s)"
  using humans_run_kept [of url_ok humans_start s] by (simp add: humans_start_def empty_hdb_def humans_inv_def)


section \<open>Guarantees\<close>

text \<open>
  C9: Every state crew-humans reaches is well formed: notice ids, and the pairs of source and key, are
  unique; a notice has a title of at most 200 and a text of at most 600 characters; each push belongs to
  a notice, has its own route, is for Home Assistant, carries a time it was sent exactly when it was
  sent, and while pending is next attempted at most five minutes after its deadline.
\<close>

theorem reachable_inbox_wellformed:
  assumes "(humans_step url_ok)\<^sup>*\<^sup>* humans_start s"
  shows "humans_inv (hs_db s)"
  using assms by (rule humans_reachable_inv)

lemma sameRequest_iff:
  "sameRequest (scanNotice d r) (new_notice cfg now i p q) \<longleftrightarrow>
     in_person r = nr_person q \<and> in_title r = TrimSpace (nr_title q) \<and> in_text r = cut_text (TrimSpace (nr_text q)) 600
     \<and> in_link r = nr_link q \<and> in_reason r = nr_reason q \<and> in_group r = nr_group q \<and> in_urgent r = nr_urgent q"
  by (simp add: sameRequest_def scanNotice_def new_notice_def Let_def noticeOf_def stored_request_def trimmed_def
      inbox_row.defs inbox_notice.defs)

lemma notifyResult_scan:
  "notifyResult (scanNotice d r) =
     \<lparr>ns_notice_id = in_id r, ns_outcome = (if kinds (in_id r) d = [] then OutcomeRecorded else OutcomeAccepted),
      ns_routes = RouteInbox # kinds (in_id r) d\<rparr>"
  by (simp add: notifyResult_def scanNotice_def kinds_def inbox_row.defs inbox_notice.defs)

lemma sorted_pushesFor: "sort_key pd_route (pushesFor cfg now p n) = pushesFor cfg now p n"
proof -
  have "sorted (map fst (filter P (enumerate 0 rs)))" for P and rs :: "route_config list"
    by (rule sorted_filter) (simp add: enumerate_eq_zip)
  then have "sorted (map int (map fst (filter (\<lambda>(i, r). rk_kind r \<noteq> RouteInbox \<and> pushes r n) (enumerate 0 (hu_routes p)))))"
    by (simp add: sorted_map sorted_wrt_map)
  then have "sorted (map pd_route (pushesFor cfg now p n))"
    by (simp add: pushesFor_def comp_def case_prod_beta)
  then show ?thesis by (rule sort_key_id_if_sorted)
qed

definition holds_request :: "inbox_row \<Rightarrow> notify_request \<Rightarrow> bool" where
  "holds_request r q =
     (source_key r = (nr_source q, nr_key q) \<and> in_person r = nr_person q \<and> in_title r = TrimSpace (nr_title q)
      \<and> in_text r = cut_text (TrimSpace (nr_text q)) 600 \<and> in_link r = nr_link q \<and> in_reason r = nr_reason q
      \<and> in_group r = nr_group q \<and> in_urgent r = nr_urgent q)"

lemma holds_request_iff:
  assumes "holds_request r q" and "nr_source q' = nr_source q" and "nr_key q' = nr_key q"
  shows "holds_request r q' \<longleftrightarrow> stored_request q' = stored_request q"
  using assms by (cases q; cases q') (auto simp: holds_request_def stored_request_def trimmed_def)

lemma noticeOf_holds: "holds_request (noticeOf i now (stored_request q)) q"
  by (simp add: holds_request_def noticeOf_def source_key_def stored_request_def trimmed_def)

lemma fresh_result:
  assumes inv: "humans_inv d" and fresh: "i \<notin> in_id ` set (hd_notices d)" and r: "in_id r = i"
    and d': "hd_deliveries d' = hd_deliveries d @ pushesFor cfg now p r"
  shows "kinds i d' = map pd_kind (pushesFor cfg now p r)"
proof -
  have "filter (\<lambda>x. pd_notice_id x = i) (hd_deliveries d) = []"
    using inv fresh by (auto simp: humans_inv_def list_all_iff filter_empty_conv)
  moreover have "filter (\<lambda>x. pd_notice_id x = i) (pushesFor cfg now p r) = pushesFor cfg now p r"
    using pushesFor_simps r by (simp add: filter_id_conv)
  ultimately show ?thesis by (simp add: kinds_def listPushes_def sel_def d' sorted_pushesFor)
qed

lemma Notify_recorded:
  assumes "humans_inv (hs_db s)" and "Notify url_ok cfg now random q s = (Inr (res, replayed), s')"
  obtains r where "r \<in> set (hd_notices (hs_db s'))" and "holds_request r q" and "res = notifyResult (scanNotice (hs_db s') r)"
  using assms(2)
proof (cases rule: Notify_cases)
  case (insert p)
  define i where "i = fst (newID now random (hs_ids s))"
  let ?n = "new_notice cfg now i p q" and ?r = "noticeOf i now (stored_request q)"
  obtain stored created d where ins: "InsertNotice ?n (hs_db s) = Inr ((stored, created), d)"
    using insert(4) by (cases "InsertNotice ?n (hs_db s)") (auto simp: Let_def i_def)
  then have d: "hs_db s' = d" and res: "res = notifyResult stored" and ok: "created \<or> sameRequest stored ?n"
    using insert(4) by (auto simp: Let_def i_def split: if_splits)
  show ?thesis
  proof (cases created)
    case True
    then have f: "stored = ?n" "i \<notin> in_id ` set (hd_notices (hs_db s))"
      "hd_notices d = hd_notices (hs_db s) @ [?r]" "hd_deliveries d = hd_deliveries (hs_db s) @ pushesFor cfg now p ?r"
      using InsertNotice_fresh [of ?n "hs_db s" stored d] ins notice_id_unchanged [of ?r cfg now p] by auto
    have "kinds i d = map pd_kind (pushesFor cfg now p ?r)" using fresh_result [OF assms(1) f(2) _ f(4)] by simp
    then have "res = notifyResult (scanNotice d ?r)" unfolding notifyResult_scan res f(1) by (simp add: notifyResult_def)
    then show ?thesis using that [of ?r] f(3) noticeOf_holds d by simp
  next
    case False
    then have old: "d = hs_db s" and "\<exists>r\<in>set (hd_notices (hs_db s)). source_key r = (nr_source q, nr_key q)"
      using InsertNotice_old [of ?n "hs_db s" stored d] ins by auto
    then obtain r where r: "r \<in> set (hd_notices (hs_db s))" "source_key r = (nr_source q, nr_key q)" by blast
    then have "stored = scanNotice (hs_db s) r" using InsertNotice_known [OF assms(1) r(1), of ?n] ins by simp
    then show ?thesis
      using that [of r] r ok False res old d sameRequest_iff by (auto simp: holds_request_def)
  qed
qed simp_all

lemma Notify_again:
  assumes "(humans_step url_ok)\<^sup>*\<^sup>* humans_start s" and "NewHumans url_ok raw = Inr cfg"
    and "Notify url_ok cfg now random q s = (Inr (res, replayed), s1)" and "(humans_step url_ok)\<^sup>*\<^sup>* s1 s2"
    and "nr_source q' = nr_source q" and "nr_key q' = nr_key q"
    and "person cfg' (nr_person q') \<noteq> None" and "notifiable url_ok (trimmed q')"
  shows "\<exists>ids. Notify url_ok cfg' now' random' q' s2 =
    (if stored_request q' = stored_request q then Inr (res, True) else Inl (HumansRefused CodeConflict),
     s2\<lparr>hs_ids := ids\<rparr>)"
proof -
  have inv: "humans_inv (hs_db s)" using humans_reachable_inv [OF assms(1)] .
  then obtain r where r: "r \<in> set (hd_notices (hs_db s1))" "holds_request r q" "res = notifyResult (scanNotice (hs_db s1) r)"
    using Notify_recorded [OF _ assms(3)] by blast
  have kept: "humans_inv (hs_db s2)" "inbox_kept (hs_db s1) (hs_db s2)"
    using humans_run_kept [OF assms(4)] Notify_kept [OF inv assms(2,3)] by blast+
  then have e: "evolves row_moves (hd_notices (hs_db s1)) (hd_notices (hs_db s2))" by (simp add: inbox_kept_def)
  obtain r' where r': "r' \<in> set (hd_notices (hs_db s2))" "row_moves r r'" using evolves_mem [OF e r(1)] by blast
  have same: "holds_request r' q" "in_id r' = in_id r" "source_key r' = (nr_source q', nr_key q')"
  proof -
    obtain t where "r' = r \<or> r' = r\<lparr>in_read_at := Some t\<rparr>" using r'(2) unfolding row_moves_def by blast
    then show "holds_request r' q" "in_id r' = in_id r" "source_key r' = (nr_source q', nr_key q')"
      using r(2) assms(5,6) by (auto simp: holds_request_def source_key_def)
  qed
  have res: "notifyResult (scanNotice (hs_db s2) r') = res"
    using kept(2) r(1,3) same(2) unfolding notifyResult_scan inbox_kept_def by simp
  obtain a s3 where n: "Notify url_ok cfg' now' random' q' s2 = (a, s3)" by (metis prod.exhaust)
  then show ?thesis
  proof (cases rule: Notify_cases)
    case (insert p)
    let ?n = "new_notice cfg' now' (fst (newID now' random' (hs_ids s2))) p q'"
    have "InsertNotice ?n (hs_db s2) = Inr ((scanNotice (hs_db s2) r', False), hs_db s2)"
      using InsertNotice_known [OF kept(1) r'(1)] same(3) by simp
    moreover have "sameRequest (scanNotice (hs_db s2) r') ?n \<longleftrightarrow> stored_request q' = stored_request q"
      using holds_request_iff [OF same(1) assms(5,6)] same(3) by (simp add: sameRequest_iff holds_request_def)
    ultimately have "(a, hs_db s3) =
        (if stored_request q' = stored_request q then Inr (res, True) else Inl (HumansRefused CodeConflict), hs_db s2)"
      using insert(4) unfolding Let_def by (simp add: res)
    then show ?thesis unfolding n by (intro exI [of _ "hs_ids s3"]) simp
  qed (use assms(7,8) in simp_all)
qed

text \<open>
  C5: A source's notify is recorded once. Once a notify has succeeded, whatever notices, passes, marks
  and restarts come between, a notify with the same source and key (by a person the file still has, in a
  valid request) changes no record: with the same content it answers the first answer again, the notice's
  id, outcome and routes, and with any other content it is refused as a conflict.
\<close>

theorem notify_exactly_once:
  assumes "(humans_step url_ok)\<^sup>*\<^sup>* humans_start s" and "NewHumans url_ok raw = Inr cfg"
    and "Notify url_ok cfg now random q s = (Inr (res, replayed), s1)" and "(humans_step url_ok)\<^sup>*\<^sup>* s1 s2"
    and "nr_source q' = nr_source q" and "nr_key q' = nr_key q"
    and "person cfg' (nr_person q') \<noteq> None" and "notifiable url_ok (trimmed q')"
  shows "\<exists>ids. Notify url_ok cfg' now' random' q' s2 =
    (if stored_request q' = stored_request q then Inr (res, True) else Inl (HumansRefused CodeConflict),
     s2\<lparr>hs_ids := ids\<rparr>)"
  using assms by (rule Notify_again)



lemma length_filter_upd:
  assumes "\<And>r. P r \<Longrightarrow> Q r \<and> \<not> Q (f r)"
  shows "length (filter Q (upd P f t)) + length (filter P t) = length (filter Q t)"
  using assms by (induction t) auto


text \<open>
  C40: The next id sorts after the last one of the process, whether or not the clock moved forward, except
  where the clock has not passed the last millisecond and the printed 16 bits of the sequence wrap:
  there, and only there, it sorts before it.
\<close>

theorem next_id_sorts:
  assumes "0 \<le> idLast st" and "idLast st < 16 ^ 12" and "now div 1000000 < 16 ^ 12"
  shows "printed st before < fst (newID now random st)
    \<longleftrightarrow> \<not> (now div 1000000 \<le> idLast st \<and> unat (idSeq st AND 0xFFFF) = 65535)"
proof (cases "now div 1000000 \<le> idLast st")
  case True
  then have st: "snd (newID now random st) = st\<lparr>idSeq := idSeq st + 1\<rparr>" by (simp add: newID_state)
  show ?thesis
  proof (cases "unat (idSeq st AND 0xFFFF) = 65535")
    case wrap: True
    then have "printed (st\<lparr>idSeq := idSeq st + 1\<rparr>) random < printed st before"
      using assms by (intro printed_less) (simp_all add: low_bits_Suc)
    then show ?thesis using True wrap by (simp add: newID_printed st not_less_iff_gr_or_eq)
  next
    case False
    then have "printed st before < printed (st\<lparr>idSeq := idSeq st + 1\<rparr>) random"
      using assms by (intro printed_less) (simp_all add: low_bits_Suc)
    then show ?thesis using False by (simp add: newID_printed st)
  qed
next
  case False
  then have "printed st before < printed (snd (newID now random st)) random"
    using assms by (intro printed_less) (simp_all add: newID_state)
  then show ?thesis using False by (simp add: newID_printed)
qed

text \<open>
  A people file that is accepted names every person once, by a plain name, with a display name, an
  inbox, and no route that could not be used; accepting it again, as the service does with a file that was
  loaded, changes nothing.
\<close>

theorem people_file_checked:
  assumes "Check url_ok f = Inr f'"
  shows "people_ok url_ok f' \<and> Check url_ok f' = Inr f'"
proof -
  have ok: "people_ok url_ok f'" using Check_ok [OF assms] .
  then have "checkPeople url_ok [] (pe_people f') = Inr (pe_people f')"
    by (intro checkPeople_id) (auto simp: people_ok_def)
  with ok show ?thesis by (simp add: Check_def people_ok_def)
qed


end
