(* ===== verification/Notifier_Guarantees.thy ===== *)
theory Notifier_Guarantees
  imports Humans_Api Board_Guarantees Humans_Guarantees
begin

text \<open>
  What the notifier of crew-board promises: a pass attempts each due notice once, the text of a notice
  is fixed before its first attempt, nothing is sent about a post that is not shown, and a notice for a
  person is recorded by crew-humans once, however many answers are lost on the way.
\<close>

section \<open>Rows\<close>

text \<open>The notices a pass can see: those about posts that were not purged.\<close>

definition live_notices :: "notifier \<times> bdb \<Rightarrow> notice list" where
  "live_notices st = map nw_notice (filter (\<lambda>r. \<not> nw_purged r) (bt_notices (snd st)))"

definition same_notice :: "notice \<Rightarrow> notice \<Rightarrow> bool" where
  "same_notice x x' =
     (no_id x' = no_id x \<and> no_post_id x' = no_post_id x \<and> no_thread_id x' = no_thread_id x
      \<and> no_recipient x' = no_recipient x \<and> no_reason x' = no_reason x \<and> no_policy x' = no_policy x
      \<and> no_urgent x' = no_urgent x \<and> no_created_at x' = no_created_at x)"

definition only_notices :: "notifier \<times> bdb \<Rightarrow> notifier \<times> bdb \<Rightarrow> bool" where
  "only_notices s t =
     (snd t = (snd s)\<lparr>bt_notices := bt_notices (snd t)\<rparr>
      \<and> filter nw_purged (bt_notices (snd t)) = filter nw_purged (bt_notices (snd s))
      \<and> (\<forall>c. (board_step c)\<^sup>*\<^sup>* (snd s) (snd t)))"

lemma only_notices_refl: "only_notices s s"
  by (simp add: only_notices_def)

lemma only_notices_trans:
  assumes "only_notices s t" and "only_notices t u"
  shows "only_notices s u"
proof -
  have "(board_step c)\<^sup>*\<^sup>* (snd s) (snd u)" for c using assms unfolding only_notices_def by (meson rtranclp_trans)
  moreover have "snd u = (snd s)\<lparr>bt_notices := bt_notices (snd u)\<rparr>"
  proof -
    have "snd u = (snd t)\<lparr>bt_notices := bt_notices (snd u)\<rparr>" "snd t = (snd s)\<lparr>bt_notices := bt_notices (snd t)\<rparr>"
      using assms unfolding only_notices_def by blast+
    then have "snd u = ((snd s)\<lparr>bt_notices := bt_notices (snd t)\<rparr>)\<lparr>bt_notices := bt_notices (snd u)\<rparr>" by metis
    also have "\<dots> = (snd s)\<lparr>bt_notices := bt_notices (snd u)\<rparr>" by simp
    finally show ?thesis .
  qed
  ultimately show ?thesis using assms by (simp add: only_notices_def)
qed

lemma filter_upd_disjoint:
  assumes "\<And>r. P r \<Longrightarrow> \<not> Q r \<and> \<not> Q (f r)"
  shows "filter Q (upd P f t) = filter Q t"
  using assms by (induction t) auto

lemma UpdateNotice_only: "only_notices (n, d) (n', UpdateNotice x d)"
proof -
  have "filter nw_purged (bt_notices (UpdateNotice x d)) = filter nw_purged (bt_notices d)"
    unfolding UpdateNotice_def by simp (rule filter_upd_disjoint, simp add: record_attempt_def)
  then show ?thesis
    by (simp add: only_notices_def board_step.attempted r_into_rtranclp) (simp add: UpdateNotice_def)
qed

lemma UpdateNotice_twice:
  "no_id x = no_id y \<Longrightarrow> UpdateNotice x (UpdateNotice y d) = UpdateNotice x d"
  by (simp add: UpdateNotice_def upd_def record_attempt_def comp_def)

lemma UpdateNotice_row:
  assumes "distinct (map no_id (live_notices (n, d)))" and "x \<in> set (live_notices (n, d))" and "same_notice x x'"
  shows "live_notices (n', UpdateNotice x' d) = map (\<lambda>y. if y = x then x' else y) (live_notices (n, d))"
proof -
  have i: "no_id x' = no_id x" using assms(3) by (simp add: same_notice_def)
  have rec: "nw_notice (record_attempt x' r) = x'" "nw_purged (record_attempt x' r) = nw_purged r"
    if "nw_notice r = x" for r
    using that assms(3) by (simp_all add: record_attempt_def same_notice_def)
  have "filter (\<lambda>r. \<not> nw_purged r) (upd (\<lambda>r. no_id (nw_notice r) = no_id x' \<and> \<not> nw_purged r) (record_attempt x') t)
      = map (\<lambda>r. if no_id (nw_notice r) = no_id x' then record_attempt x' r else r) (filter (\<lambda>r. \<not> nw_purged r) t)" for t
    by (induction t) (auto simp: record_attempt_def)
  moreover have "nw_notice r = x" if "r \<in> set (bt_notices d)" "\<not> nw_purged r" "no_id (nw_notice r) = no_id x" for r
    using distinct_key_eq [OF assms(1), of "nw_notice r" x] assms(2) that by (simp add: live_notices_def)
  ultimately show ?thesis using rec i by (simp add: live_notices_def UpdateNotice_def)
qed

lemma GetPost_only: "only_notices s t \<Longrightarrow> GetPost i (snd t) = GetPost i (snd s)"
proof -
  have "scanPost (d\<lparr>bt_notices := z\<rparr>) = scanPost d" for d z by (rule ext) (simp add: scanPost_def)
  then have cong: "GetPost i (d\<lparr>bt_notices := z\<rparr>) = GetPost i d" for d z
    by (simp add: GetPost_def joined_def live_thread_def)
  assume "only_notices s t"
  then have "snd t = (snd s)\<lparr>bt_notices := bt_notices (snd t)\<rparr>" by (simp add: only_notices_def)
  then show ?thesis using cong by metis
qed

section \<open>One attempt\<close>

definition post_shown :: "notifier \<times> bdb \<Rightarrow> notice \<Rightarrow> bool" where
  "post_shown st x = (case GetPost (no_post_id x) (snd st) of None \<Rightarrow> False | Some p \<Rightarrow> po_state p = PostVisible)"

definition for_person :: "notice \<Rightarrow> bool" where
  "for_person x = (pa_kind (no_recipient x) = AuthorPerson)"

text \<open>
  What an attempt at time \<open>t\<close> makes of a notice: a sent one is settled as its delivery was, or looked at
  again in a minute (never, once its window is over); a pending one is sent to the fabric or delivered to
  crew-humans, fails, has no route, or waits for another attempt at most five minutes later.
\<close>

definition follow_up :: "time \<Rightarrow> notice \<Rightarrow> notice \<Rightarrow> bool" where
  "follow_up t x x' =
     (no_attempts x' = no_attempts x \<and> no_body x' = no_body x \<and> no_give_up_at x' = no_give_up_at x
      \<and> (no_state x' \<in> {NoticeDelivered, NoticeExpired, NoticeFailed}
         \<or> no_state x' = NoticeSent
           \<and> (no_next_attempt_at x' = t + 60000000000 \<or> no_give_up_at x \<le> t \<and> no_next_attempt_at x' = never)))"

definition first_hand :: "notifier_config \<Rightarrow> bool \<Rightarrow> time \<Rightarrow> notice \<Rightarrow> notice \<Rightarrow> bool" where
  "first_hand cfg vis t x x' =
     (no_attempts x' = no_attempts x + 1 \<and> (no_body x \<noteq> '''' \<longrightarrow> no_body x' = no_body x)
      \<and> (no_state x' = NoticeFailed
         \<or> no_state x' = NoticeNoRoute \<and> for_person x \<and> \<not> nc_people cfg
         \<or> vis \<and> no_body x' \<noteq> ''''
           \<and> (no_state x' = NoticeSent \<and> \<not> for_person x \<and> no_sent_at x' = Some t
                \<and> no_next_attempt_at x' = t + 60000000000 \<and> no_give_up_at x' = t + nc_ttl cfg + 3600000000000
              \<or> no_state x' = NoticeDelivered \<and> for_person x \<and> nc_people cfg \<and> no_sent_at x' = Some t
              \<or> no_state x' = NoticePending \<and> t < no_give_up_at x \<and> no_give_up_at x' = no_give_up_at x
                \<and> t + 5000000000 \<le> no_next_attempt_at x' \<and> no_next_attempt_at x' \<le> t + 300000000000)))"

definition notice_outcome :: "notifier_config \<Rightarrow> (nat \<Rightarrow> notice_io) \<Rightarrow> notifier \<times> bdb \<Rightarrow> nat \<Rightarrow> notice \<Rightarrow> notice \<Rightarrow> bool" where
  "notice_outcome cfg io st k x x' =
     (same_notice x x'
      \<and> (if no_state x = NoticeSent then follow_up (io_now (io k)) x x'
         else first_hand cfg (post_shown st x) (io_now (io k)) x x'))"

lemma checked_steps:
  assumes "no_state x = NoticeSent"
  shows "let y = foldl (checked t) x vs
    in same_notice x y \<and> no_attempts y = no_attempts x \<and> no_body y = no_body x \<and> no_give_up_at y = no_give_up_at x
       \<and> no_state y \<in> {NoticeSent, NoticeDelivered, NoticeExpired, NoticeFailed}"
proof -
  define ok where "ok y = (same_notice x y \<and> no_attempts y = no_attempts x \<and> no_body y = no_body x
    \<and> no_give_up_at y = no_give_up_at x \<and> no_state y \<in> {NoticeSent, NoticeDelivered, NoticeExpired, NoticeFailed})" for y
  have "ok (checked t y v)" if "ok y" for y v
    using that by (simp add: ok_def checked_def failed_def same_notice_def)
  then have "ok (foldl (checked t) y vs)" if "ok y" for y using that by (induction vs arbitrary: y) simp_all
  moreover have "ok x" using assms by (simp add: ok_def same_notice_def)
  ultimately show ?thesis unfolding Let_def ok_def by blast
qed

lemma check_outcome:
  assumes "no_state x = NoticeSent"
  obtains x' where "same_notice x x'" and "follow_up (io_now io) x x'"
    and "check io x d = (no_state x' \<noteq> NoticeSent, UpdateNotice x' d)"
proof (cases "io_mailbox io (pa_address (no_recipient x))")
  case (Inl e)
  then show ?thesis using assms that [of "x\<lparr>no_next_attempt_at := io_now io + 60000000000\<rparr>"]
    by (simp add: check_def same_notice_def follow_up_def)
next
  case (Inr vs)
  define y where "y = foldl (checked (io_now io)) x vs"
  have y: "same_notice x y" "no_attempts y = no_attempts x" "no_body y = no_body x" "no_give_up_at y = no_give_up_at x"
    "no_state y \<in> {NoticeSent, NoticeDelivered, NoticeExpired, NoticeFailed}"
    using checked_steps [OF assms, of "io_now io" vs] by (simp_all add: y_def Let_def)
  define x' where "x' = (if no_state y \<noteq> NoticeSent then y
    else y\<lparr>no_next_attempt_at := (if io_now io \<ge> no_give_up_at y then never else io_now io + 60000000000)\<rparr>)"
  have "check io x d = (no_state x' \<noteq> NoticeSent, UpdateNotice x' d)"
    using Inr by (simp add: check_def x'_def y_def Let_def)
  moreover have "same_notice x x'" using y(1) by (simp add: x'_def same_notice_def)
  moreover have "follow_up (io_now io) x x'" using y by (auto simp: x'_def follow_up_def)
  ultimately show ?thesis using that by blast
qed

lemma retried_outcome:
  "let x' = retried t why e x
   in same_notice x x' \<and> no_attempts x' = no_attempts x \<and> no_body x' = no_body x
      \<and> (no_state x' = NoticeFailed
         \<or> no_state x' = no_state x \<and> t < no_give_up_at x \<and> no_give_up_at x' = no_give_up_at x
           \<and> t + 5000000000 \<le> no_next_attempt_at x' \<and> no_next_attempt_at x' \<le> t + 300000000000)"
  using backoff_bounds [of "nat (no_attempts x)"] by (simp add: retried_def failed_def same_notice_def Let_def)

lemma submitted_outcome:
  assumes "no_state x = NoticePending"
  shows "let x' = submitted cfg t answer x
   in same_notice x x' \<and> no_attempts x' = no_attempts x \<and> no_body x' = no_body x
      \<and> (no_state x' = NoticeFailed
         \<or> no_state x' = NoticeSent \<and> no_sent_at x' = Some t \<and> no_next_attempt_at x' = t + 60000000000
           \<and> no_give_up_at x' = t + nc_ttl cfg + 3600000000000
         \<or> no_state x' = NoticePending \<and> t < no_give_up_at x \<and> no_give_up_at x' = no_give_up_at x
           \<and> t + 5000000000 \<le> no_next_attempt_at x' \<and> no_next_attempt_at x' \<le> t + 300000000000)"
proof (cases answer)
  case (Inr i)
  then show ?thesis by (simp add: submitted_def same_notice_def)
next
  case (Inl e)
  show ?thesis
  proof (cases "noticeRefused e")
    case True
    then show ?thesis using Inl by (simp add: submitted_def failed_def same_notice_def)
  next
    case False
    then show ?thesis
      using Inl assms retried_outcome [of t "''the fabric could not be reached before the notice gave up: ''" "errorText e" x]
      unfolding Let_def submitted_def by auto
  qed
qed


definition people_answered :: "time \<Rightarrow> person_answer \<Rightarrow> notice \<Rightarrow> notice" where
  "people_answered t a x =
     (case a of
        PersonTold i \<Rightarrow> x\<lparr>no_state := NoticeDelivered, no_message_id := i, no_sent_at := Some t, no_last_error := ''''\<rparr>
      | PersonRefused e \<Rightarrow> failed x e
      | PersonFailed e \<Rightarrow> retried t ''crew-humans could not be reached before the notice gave up: '' e x)"

lemma told_outcome:
  assumes "no_state x = NoticePending"
  shows "let x' = people_answered t a x
   in same_notice x x' \<and> no_attempts x' = no_attempts x \<and> no_body x' = no_body x
      \<and> (no_state x' = NoticeFailed
         \<or> no_state x' = NoticeDelivered \<and> no_sent_at x' = Some t
         \<or> no_state x' = NoticePending \<and> t < no_give_up_at x \<and> no_give_up_at x' = no_give_up_at x
           \<and> t + 5000000000 \<le> no_next_attempt_at x' \<and> no_next_attempt_at x' \<le> t + 300000000000)"
proof (cases a)
  case (PersonFailed e)
  then show ?thesis
    using assms retried_outcome [of t "''crew-humans could not be reached before the notice gave up: ''" e x]
    unfolding Let_def people_answered_def by auto
qed (simp_all add: people_answered_def failed_def same_notice_def)

text \<open>The notice as an attempt hands it on: counted, its text fixed.\<close>

definition frozen :: "notice \<Rightarrow> string \<Rightarrow> notice" where
  "frozen x body = x\<lparr>no_attempts := no_attempts x + 1, no_body := body\<rparr>"

definition delivery_progress :: "notifier_config \<Rightarrow> time \<Rightarrow> notice \<Rightarrow> notice \<Rightarrow> bool" where
  "delivery_progress cfg t y x' =
     (same_notice y x' \<and> no_attempts x' = no_attempts y \<and> no_body x' = no_body y
      \<and> (no_state x' = NoticeFailed
         \<or> no_state x' = NoticeSent \<and> \<not> for_person y \<and> no_sent_at x' = Some t \<and> no_next_attempt_at x' = t + 60000000000
           \<and> no_give_up_at x' = t + nc_ttl cfg + 3600000000000
         \<or> no_state x' = NoticeDelivered \<and> for_person y \<and> nc_people cfg \<and> no_sent_at x' = Some t
         \<or> no_state x' = NoticePending \<and> t < no_give_up_at y \<and> no_give_up_at x' = no_give_up_at y
           \<and> t + 5000000000 \<le> no_next_attempt_at x' \<and> no_next_attempt_at x' \<le> t + 300000000000))"

lemma first_hand_frozen:
  assumes "delivery_progress cfg t (frozen x body) x'" and "body \<noteq> ''''" and "no_body x \<noteq> '''' \<longrightarrow> body = no_body x"
  shows "same_notice x x' \<and> first_hand cfg True t x x'"
  using assms by (auto simp: delivery_progress_def first_hand_def frozen_def same_notice_def for_person_def)

lemma told_progress:
  assumes "no_state y = NoticePending" and "for_person y" and "nc_people cfg"
  shows "delivery_progress cfg t y (people_answered t a y)"
  using told_outcome [OF assms(1), of t a] assms(2,3) by (auto simp: delivery_progress_def Let_def)

lemma submitted_progress:
  assumes "no_state y = NoticePending" and "\<not> for_person y"
  shows "delivery_progress cfg t y (submitted cfg t answer y)"
  using submitted_outcome [OF assms(1), of cfg t answer] assms(2) by (auto simp: delivery_progress_def Let_def)

lemma first_hand_failed: "same_notice x (failed (x\<lparr>no_attempts := no_attempts x + 1\<rparr>) e)
    \<and> first_hand cfg vis t x (failed (x\<lparr>no_attempts := no_attempts x + 1\<rparr>) e)"
  by (simp add: failed_def same_notice_def first_hand_def)

lemma sendPerson_outcome:
  assumes "no_state x = NoticePending" and "for_person x"
  shows "\<exists>x'. sendPerson printable cfg io (x\<lparr>no_attempts := no_attempts x + 1\<rparr>) d = (no_state x' \<noteq> NoticePending, UpdateNotice x' d)
    \<and> same_notice x x' \<and> first_hand cfg True (io_now io) x x'"
proof -
  let ?x1 = "x\<lparr>no_attempts := no_attempts x + 1\<rparr>"
  have people_answered: "\<exists>x'. (no_state (people_answered t a (frozen x body)) \<noteq> NoticePending, UpdateNotice (people_answered t a (frozen x body)) d)
        = (no_state x' \<noteq> NoticePending, UpdateNotice x' d) \<and> same_notice x x' \<and> first_hand cfg True t x x'"
    if "nc_people cfg" "body \<noteq> ''''" "no_body x \<noteq> '''' \<longrightarrow> body = no_body x" for t a body
    using first_hand_frozen [OF told_progress that(2,3)] assms that(1) by (auto simp: frozen_def for_person_def)
  consider (none) "\<not> nc_people cfg"
    | (unread) e where "nc_people cfg" "no_body x = ''''" "personNotice printable cfg ?x1 d = Inl e"
    | (fresh) q where "nc_people cfg" "no_body x = ''''" "personNotice printable cfg ?x1 d = Inr q"
    | (bad) "nc_people cfg" "no_body x \<noteq> ''''" "readPersonNotice (no_body x) = None"
    | (again) q where "nc_people cfg" "no_body x \<noteq> ''''" "readPersonNotice (no_body x) = Some q"
    by (cases "personNotice printable cfg ?x1 d"; cases "readPersonNotice (no_body x)") blast+
  then show ?thesis
  proof cases
    case none
    let ?x' = "?x1\<lparr>no_state := NoticeNoRoute, no_last_error := ''no route to people (crew-humans is not configured)''\<rparr>"
    have "same_notice x ?x' \<and> first_hand cfg True (io_now io) x ?x'"
      using none assms(2) by (simp add: same_notice_def first_hand_def)
    then show ?thesis using none by (intro exI [of _ ?x']) (simp add: sendPerson_def)
  next
    case (unread e)
    then show ?thesis
      using first_hand_failed [of x e cfg True "io_now io"]
      by (intro exI [of _ "failed ?x1 e"]) (simp add: sendPerson_def failed_def)
  next
    case (fresh q)
    let ?b = "Marshal (personNoticeJSON q)"
    have "sendPerson printable cfg io ?x1 d
        = (no_state (people_answered (io_now io) (io_people io q) (frozen x ?b)) \<noteq> NoticePending,
           UpdateNotice (people_answered (io_now io) (io_people io q) (frozen x ?b)) (UpdateNotice (frozen x ?b) d))"
      using fresh by (simp add: sendPerson_def people_answered_def frozen_def Let_def split: person_answer.split)
    moreover have "no_id (people_answered t a y) = no_id y" for t a y
      by (simp add: people_answered_def failed_def retried_def split: person_answer.split)
    moreover have "?b \<noteq> ''''" by (simp add: personNoticeJSON_def)
    ultimately show ?thesis using people_answered [of ?b "io_now io" "io_people io q"] fresh by (simp add: UpdateNotice_twice)
  next
    case bad
    then show ?thesis
      using first_hand_failed [of x "''the stored notice is unreadable''" cfg True "io_now io"]
      by (intro exI [of _ "failed ?x1 ''the stored notice is unreadable''"]) (simp add: sendPerson_def failed_def)
  next
    case (again q)
    have "frozen x (no_body x) = ?x1" by (simp add: frozen_def)
    then have "sendPerson printable cfg io ?x1 d
        = (no_state (people_answered (io_now io) (io_people io q) (frozen x (no_body x))) \<noteq> NoticePending,
           UpdateNotice (people_answered (io_now io) (io_people io q) (frozen x (no_body x))) d)"
      using again by (simp add: sendPerson_def people_answered_def Let_def split: person_answer.split)
    then show ?thesis using people_answered [of "no_body x" "io_now io" "io_people io q"] again by simp
  qed
qed

lemma noticeBody_nonempty: "noticeBody printable cfg io x d = Inr body \<Longrightarrow> body \<noteq> ''''"
  unfolding noticeBody_def Let_def by (auto simp: bindR_Inr_iff)

lemma submitted_id: "no_id (submitted cfg t answer y) = no_id y"
  by (simp add: submitted_def failed_def retried_def split: sum.split)

text \<open>The message an attempt hands to the fabric is made of the frozen notice alone, and of the lease.\<close>

lemma send_outcome:
  assumes "no_state x = NoticePending"
  shows "\<exists>x' n'. send printable cfg io x (n, d) = (no_state x' \<noteq> NoticePending, n', UpdateNotice x' d)
    \<and> same_notice x x' \<and> first_hand cfg (post_shown (n, d) x) (io_now io) x x'"
proof -
  let ?x1 = "x\<lparr>no_attempts := no_attempts x + 1\<rparr>"
  have sub: "\<exists>x' n'. (no_state (submitted cfg t (fst v) (frozen x body)) \<noteq> NoticePending, snd v,
        UpdateNotice (submitted cfg t (fst v) (frozen x body)) d) = (no_state x' \<noteq> NoticePending, n', UpdateNotice x' d)
      \<and> same_notice x x' \<and> first_hand cfg True t x x'"
    if "\<not> for_person x" "body \<noteq> ''''" "no_body x \<noteq> '''' \<longrightarrow> body = no_body x" for t body v
    using first_hand_frozen [OF submitted_progress that(2,3)] assms that(1) by (auto simp: frozen_def for_person_def)
  show ?thesis
  proof (cases "stillShown ?x1 d")
    case (Inl e)
    then show ?thesis
      using first_hand_failed [of x e cfg "post_shown (n, d) x" "io_now io"]
      by (intro exI [of _ "failed ?x1 e"] exI [of _ n]) (simp add: send_def failed_def)
  next
    case (Inr p)
    then have vis: "post_shown (n, d) x"
      by (auto simp: stillShown_def post_shown_def split: option.splits if_splits)
    show ?thesis
    proof (cases "for_person x")
      case True
      obtain x' where x': "sendPerson printable cfg io ?x1 d = (no_state x' \<noteq> NoticePending, UpdateNotice x' d)"
        "same_notice x x'" "first_hand cfg True (io_now io) x x'"
        using sendPerson_outcome [OF assms True] by blast
      then show ?thesis
        using Inr True vis by (intro exI [of _ x'] exI [of _ n]) (simp add: send_def for_person_def)
    next
      case False
      consider (fails) e where "no_body x = ''''" "noticeBody printable cfg io ?x1 d = Inl e"
        | (fresh) body where "no_body x = ''''" "noticeBody printable cfg io ?x1 d = Inr body"
        | (again) "no_body x \<noteq> ''''" by (cases "noticeBody printable cfg io ?x1 d") blast+
      then show ?thesis
      proof cases
        case (fails e)
        then show ?thesis
          using Inr False vis first_hand_failed [of x e cfg True "io_now io"]
          by (intro exI [of _ "failed ?x1 e"] exI [of _ n]) (simp add: send_def failed_def for_person_def)
      next
        case (fresh body)
        let ?v = "submit cfg io (frozen x body) body n"
        have "send printable cfg io x (n, d) = (no_state (submitted cfg (io_now io) (fst ?v) (frozen x body)) \<noteq> NoticePending,
            snd ?v, UpdateNotice (submitted cfg (io_now io) (fst ?v) (frozen x body)) (UpdateNotice (frozen x body) d))"
          using Inr False fresh
          by (simp add: send_def for_person_def frozen_def Let_def split: prod.split)
        then show ?thesis
          using sub [OF False noticeBody_nonempty [OF fresh(2)], of "io_now io" ?v] fresh(1) vis
          by (simp add: UpdateNotice_twice submitted_id)
      next
        case again
        let ?v = "submit cfg io ?x1 (no_body x) n"
        have "frozen x (no_body x) = ?x1" by (simp add: frozen_def)
        then have "send printable cfg io x (n, d) = (no_state (submitted cfg (io_now io) (fst ?v) (frozen x (no_body x))) \<noteq> NoticePending,
            snd ?v, UpdateNotice (submitted cfg (io_now io) (fst ?v) (frozen x (no_body x))) d)"
          using Inr False again by (simp add: send_def for_person_def Let_def split: prod.split)
        then show ?thesis using sub [OF False again, of "io_now io" ?v] vis by simp
      qed
    qed
  qed
qed

section \<open>Passes\<close>

definition notice_ready :: "notifier \<times> bdb \<Rightarrow> notice \<Rightarrow> bool" where
  "notice_ready st x = (no_state x \<in> {NoticePending, NoticeSent})"

definition notice_act ::
  "(string \<Rightarrow> bool) \<Rightarrow> notifier_config \<Rightarrow> (nat \<Rightarrow> notice_io) \<Rightarrow> nat \<Rightarrow> notice \<Rightarrow> notifier \<times> bdb \<Rightarrow> bool \<times> notifier \<times> bdb" where
  "notice_act printable cfg io k x st =
     (if no_state x = NoticeSent then (let (b, d) = check (io k) x (snd st) in (b, fst st, d))
      else send printable cfg (io k) x st)"

definition notice_settled :: "notice \<Rightarrow> notice \<Rightarrow> bool" where
  "notice_settled x x' = (if no_state x = NoticeSent then no_state x' \<noteq> NoticeSent else no_state x' \<noteq> NoticePending)"

lemma notice_act_row:
  assumes "distinct (map no_id (live_notices st))" and "x \<in> set (live_notices st)" and "notice_ready st x"
  shows "\<exists>x'. notice_outcome cfg io st k x x' \<and> fst (notice_act printable cfg io k x st) = notice_settled x x'
    \<and> only_notices st (snd (notice_act printable cfg io k x st))
    \<and> live_notices (snd (notice_act printable cfg io k x st)) = map (\<lambda>y. if y = x then x' else y) (live_notices st)"
proof -
  obtain n d where st: "st = (n, d)" by (cases st)
  show ?thesis
  proof (cases "no_state x = NoticeSent")
    case True
    obtain x' where x': "same_notice x x'" "follow_up (io_now (io k)) x x'"
      "check (io k) x d = (no_state x' \<noteq> NoticeSent, UpdateNotice x' d)"
      using check_outcome [OF True, of "io k" d] by metis
    then show ?thesis
      using True UpdateNotice_row [OF assms(1,2) [unfolded st] x'(1)] UpdateNotice_only [of n d n x']
      by (intro exI [of _ x']) (simp add: notice_act_def notice_outcome_def notice_settled_def st)
  next
    case False
    then have "no_state x = NoticePending" using assms(3) by (simp add: notice_ready_def)
    then obtain x' n' where x': "send printable cfg (io k) x (n, d) = (no_state x' \<noteq> NoticePending, n', UpdateNotice x' d)"
      "same_notice x x'" "first_hand cfg (post_shown (n, d) x) (io_now (io k)) x x'"
      using send_outcome by blast
    then show ?thesis
      using False UpdateNotice_row [OF assms(1,2) [unfolded st] x'(2)] UpdateNotice_only [of n d n' x']
      by (intro exI [of _ x']) (simp add: notice_act_def notice_outcome_def notice_settled_def st)
  qed
qed

lemma notice_outcome_only: "only_notices s t \<Longrightarrow> notice_outcome cfg io t k x x' \<Longrightarrow> notice_outcome cfg io s k x x'"
proof -
  assume only: "only_notices s t" and out: "notice_outcome cfg io t k x x'"
  have "post_shown t x = post_shown s x" unfolding post_shown_def GetPost_only [OF only] by (rule refl)
  then show ?thesis using out by (cases "no_state x = NoticeSent") (simp_all add: notice_outcome_def)
qed

interpretation notifier: due_pass live_notices no_id notice_ready only_notices
  "notice_act printable cfg io" "notice_outcome cfg io" notice_settled
  for printable cfg io
  by unfold_locales
    (blast intro: notice_act_row, simp add: notice_outcome_def same_notice_def, rule only_notices_refl,
     blast intro: only_notices_trans, simp add: notice_ready_def, blast intro: notice_outcome_only)

lemma notify_all_pass: "notify_all printable cfg io k xs st = notifier.pass printable cfg io k xs st"
  by (induction xs arbitrary: k st) (simp_all add: notice_act_def Let_def split: prod.split)

lemma due_notices:
  assumes "distinct (map no_id (live_notices st))"
  shows "distinct (DueNotices start k (snd st))" and "set (DueNotices start k (snd st)) \<subseteq> set (live_notices st)"
    and "\<forall>x\<in>set (DueNotices start k (snd st)). notice_ready st x"
proof -
  let ?P = "\<lambda>r. no_state (nw_notice r) \<in> {NoticePending, NoticeSent} \<and> \<not> nw_purged r \<and> no_next_attempt_at (nw_notice r) \<le> start"
  have eq: "map nw_notice (filter ?P t) =
      filter (\<lambda>x. no_state x \<in> {NoticePending, NoticeSent} \<and> no_next_attempt_at x \<le> start)
        (map nw_notice (filter (\<lambda>r. \<not> nw_purged r) t))" for t
    by (induction t) auto
  have "distinct (live_notices st)" using assms by (simp add: distinct_map)
  then show "distinct (DueNotices start k (snd st))"
    unfolding DueNotices_def sel_def eq live_notices_def by simp
  have "set (DueNotices start k (snd st)) \<subseteq> {x \<in> set (live_notices st). no_state x \<in> {NoticePending, NoticeSent}}"
    unfolding DueNotices_def sel_def eq live_notices_def by (auto dest!: in_set_takeD)
  then show "set (DueNotices start k (snd st)) \<subseteq> set (live_notices st)"
    and "\<forall>x\<in>set (DueNotices start k (snd st)). notice_ready st x"
    by (auto simp: notice_ready_def)
qed


section \<open>Notices to people\<close>

definition clean_notice :: "person_notice \<Rightarrow> person_notice" where
  "clean_notice q =
     \<lparr>pn_person = clean (pn_person q), pn_key = clean (pn_key q), pn_title = clean (pn_title q), pn_text = clean (pn_text q),
      pn_link = clean (pn_link q), pn_reason = clean (pn_reason q), pn_group = clean (pn_group q), pn_urgent = pn_urgent q\<rparr>"

lemma clean_empty [simp]: "clean s = '''' \<longleftrightarrow> s = ''''"
proof
  assume "clean s = ''''"
  show "s = ''''"
  proof (cases s)
    case (Cons c r)
    then obtain x xs where "runes s = x # xs" by (cases "runes s") (auto simp: runes.simps(2) Let_def split: if_splits)
    moreover have "x \<noteq> ''''" using runes_valid [of x s] \<open>runes s = x # xs\<close> by (simp add: valid_rune_def)
    ultimately show ?thesis using \<open>clean s = ''''\<close> by (simp add: clean_def)
  qed simp
qed (simp add: clean_def runes.simps)

lemma clean_Nil [simp]: "clean [] = []"
  by simp

lemma clean_keys:
  "clean ''person'' = ''person''" "clean ''key'' = ''key''" "clean ''title'' = ''title''" "clean ''text'' = ''text''"
  "clean ''link'' = ''link''" "clean ''reason'' = ''reason''" "clean ''group'' = ''group''" "clean ''urgent'' = ''urgent''"
  by code_simp+

lemma read_frozen: "readPersonNotice (Marshal (personNoticeJSON q)) = Some (clean_notice q)"
proof -
  define fs where "fs = [(''person'', JString (pn_person q)), (''key'', JString (pn_key q)), (''title'', JString (pn_title q)),
      (''text'', JString (pn_text q))] @ text_field ''link'' (pn_link q)
     @ [(''reason'', JString (pn_reason q)), (''group'', JString (pn_group q))] @ bool_field ''urgent'' (pn_urgent q)"
  have "list_all (scalar \<circ> snd) fs" by (simp add: fs_def text_field_def bool_field_def)
  then have r: "readObject (Marshal (personNoticeJSON q)) = Some (map (\<lambda>(k, j). (clean k, clean_scalar j)) fs)"
    unfolding personNoticeJSON_def fs_def by (rule readObject_printed)
  show ?thesis
    unfolding readPersonNotice_def r option.case
    by (simp add: fs_def text_field_def bool_field_def clean_keys string_field_def flag_field_def field_of_def clean_notice_def)
qed

text \<open>
  C39: The text a person's notice is frozen as reads back: what a retry hands to crew-humans is the first
  request, with every byte that is no UTF-8 replaced once and for all.
\<close>

theorem person_notice_roundtrip:
  "readPersonNotice (Marshal (personNoticeJSON q)) = Some (clean_notice q)
   \<and> readPersonNotice (Marshal (personNoticeJSON (clean_notice q))) = Some (clean_notice q)"
  using read_frozen [of q] read_frozen [of "clean_notice q"] by (simp add: clean_notice_def)

section \<open>Sizes\<close>

lemma json_body_rune:
  assumes "valid_rune v"
  shows "json_body (v @ x) = json_body v @ json_body x"
proof -
  obtain c v' where v: "v = c # v'" using assms by (cases v) (auto simp: valid_rune_def)
  show ?thesis
  proof (cases "(of_char c :: nat) < 0x80")
    case True
    then have "v' = []" using assms by (simp add: v valid_rune_def rune_width_def byte_def)
    then show ?thesis using True by (simp add: v json_body.simps)
  next
    case False
    have w: "utf8_width (v @ y) = length v" for y
      using rune_width_append [OF assms, of y] False by (simp add: v rune_width_high)
    have sep: "line_separator (v @ y) \<longleftrightarrow> line_separator v" for y
    proof (cases "length v = 3")
      case True
      then show ?thesis by (simp add: line_separator_def)
    next
      case no: False
      have "\<not> line_separator (v @ z)" for z
      proof
        assume "line_separator (v @ z)"
        then obtain u r where "v @ z = [CHR 0xE2, CHR 0x80, u] @ r" "valid_rune [CHR 0xE2, CHR 0x80, u]"
          by (rule utf8_encode_separator)
        then have "rune_width (v @ z) = 3" using rune_width_append by fastforce
        then show False using rune_width_append [OF assms, of z] no by simp
      qed
      from this [of y] this [of "[]"] show ?thesis by simp
    qed
    show ?thesis
    proof (cases "line_separator v")
      case True
      then obtain u where u: "v = [CHR 0xE2, CHR 0x80, u]"
        using utf8_encode_separator [OF True] w [of "[]"] rune_width_append assms
        by (metis append_Nil2 append_eq_append_conv length_append_singleton rune_width_append utf8_encode_separator)
      then show ?thesis using True sep [of x] w [of x] w [of "[]"] False by (simp add: v json_body.simps)
    next
      case no: False
      have "json_body (v @ y) = v @ json_body y" for y
        using no sep [of y] w [of y] False assms
        by (simp add: v json_body.simps(2) [of c] valid_rune_def)
      from this [of x] this [of "[]"] show ?thesis by (simp add: json_body.simps(1))
    qed
  qed
qed

lemma json_body_clean: "length (json_body (clean s)) \<le> length (json_body s)"
proof (induction s rule: runes.induct)
  case 1
  then show ?case by simp
next
  case (2 c r)
  let ?s = "c # r" and ?w = "rune_width (c # r)"
  show ?case
  proof (cases "?w = 0")
    case True
    then have high: "\<not> (of_char c :: nat) < 0x80" by (auto simp: rune_width_def byte_def)
    then have "json_body ?s = CHR 0x5C # ''ufffd'' @ json_body r"
      using True by (simp add: json_body.simps(2) [of c r] rune_width_high)
    moreover have "clean ?s = replacement @ clean r" using True by (simp add: clean_def runes.simps(2) Let_def)
    moreover have "length (json_body replacement) = 3"
    proof -
      have "json_body (replacement @ []) = replacement @ json_body []"
        by (simp add: replacement_def json_body.simps utf8_width_def continuation_def line_separator_def Let_def)
      then show ?thesis by (simp add: json_body.simps replacement_def)
    qed
    ultimately show ?thesis using 2(1) True by (simp add: json_body_rune [OF replacement_valid])
  next
    case False
    have v: "valid_rune (take ?w ?s)" using rune_width_take [of ?s] False by simp
    have "json_body ?s = json_body (take ?w ?s) @ json_body (drop ?w ?s)"
      using json_body_rune [OF v, of "drop ?w ?s"] by (simp only: append_take_drop_id)
    moreover have "clean ?s = take ?w ?s @ clean (drop ?w ?s)" using False by (simp add: clean_def runes.simps(2) Let_def)
    ultimately show ?thesis using 2(2) False by (simp add: json_body_rune [OF v])
  qed
qed

section \<open>From crew-board to crew-humans\<close>

lemma json_string_clean: "length (jsonString (clean s)) \<le> length (jsonString s)"
  using json_body_clean [of s] by (simp add: jsonString_def)

lemma text_field_clean: "text_field k (clean s) = map (\<lambda>(k, j). (k, clean_scalar j)) (text_field k s)"
  by (simp add: text_field_def)

lemma Join_length:
  assumes "list_all2 (\<lambda>a b. length a \<le> length b) xs ys"
  shows "length (Join xs sep) \<le> length (Join ys sep)"
  using assms
proof (induction xs ys rule: list_all2_induct)
  case (Cons x xs y ys)
  then show ?case by (cases xs; cases ys) auto
qed simp

lemma marshal_clean:
  "list_all (scalar \<circ> snd) fs \<Longrightarrow>
     list_all2 (\<lambda>a b. length a \<le> length b) (marshal_fields (map (\<lambda>(k, j). (k, clean_scalar j)) fs)) (marshal_fields fs)"
proof (induction fs)
  case (Cons f fs)
  obtain k j where f: "f = (k, j)" by (cases f)
  with Cons show ?case by (cases j rule: scalar.cases) (auto simp: json_string_clean)
qed simp

lemma requestJSON_clean:
  assumes "length (Marshal (requestJSON (personRequest q))) \<le> 65536"
  shows "length (Marshal (requestJSON (personRequest (clean_notice q)))) \<le> 65536"
proof -
  obtain fs where fs: "requestJSON (personRequest q) = JObject fs"
    "fs = [(''person'', JString (pn_person q)), (''source'', JString ''system/crew-board''),
               (''idempotency_key'', JString (pn_key q)), (''title'', JString (pn_title q))]
              @ text_field ''text'' (pn_text q) @ text_field ''link'' (pn_link q) @ text_field ''reason'' (pn_reason q)
              @ text_field ''group'' (pn_group q) @ bool_field ''urgent'' (pn_urgent q)"
    by (simp add: requestJSON_def personRequest_def)
  have source: "clean ''system/crew-board'' = ''system/crew-board''" by code_simp
  have "requestJSON (personRequest (clean_notice q)) = JObject (map (\<lambda>(k, j). (k, clean_scalar j)) fs)"
    by (simp add: requestJSON_def personRequest_def clean_notice_def fs(2) text_field_clean source bool_field_def)
  moreover have "list_all (scalar \<circ> snd) fs" by (simp add: fs(2) text_field_def bool_field_def)
  ultimately show ?thesis
    using assms fs(1) Join_length [OF marshal_clean, of fs "'',''"] by simp
qed

text \<open>The request as crew-humans reads it.\<close>

definition clean_request :: "notify_request \<Rightarrow> notify_request" where
  "clean_request q =
     \<lparr>nr_person = clean (nr_person q), nr_source = clean (nr_source q), nr_key = clean (nr_key q),
      nr_title = clean (nr_title q), nr_text = clean (nr_text q), nr_link = clean (nr_link q),
      nr_reason = clean (nr_reason q), nr_group = clean (nr_group q), nr_urgent = nr_urgent q\<rparr>"

lemma clean_more_keys:
  "clean ''source'' = ''source''" "clean ''idempotency_key'' = ''idempotency_key''"
  by code_simp+

lemma readRequest_printed:
  "readRequest (Marshal (requestJSON q)) =
     (if length (Marshal (requestJSON q)) > 65536 then None else Some (clean_request q))"
proof -
  define fs where "fs = [(''person'', JString (nr_person q)), (''source'', JString (nr_source q)),
      (''idempotency_key'', JString (nr_key q)), (''title'', JString (nr_title q))]
     @ text_field ''text'' (nr_text q) @ text_field ''link'' (nr_link q) @ text_field ''reason'' (nr_reason q)
     @ text_field ''group'' (nr_group q) @ bool_field ''urgent'' (nr_urgent q)"
  have "list_all (scalar \<circ> snd) fs" by (simp add: fs_def text_field_def bool_field_def)
  then have r: "readObject (Marshal (requestJSON q)) = Some (map (\<lambda>(k, j). (clean k, clean_scalar j)) fs)"
    unfolding requestJSON_def fs_def by (rule readObject_printed)
  have f: "string_field k (map (\<lambda>(k, j). (clean k, clean_scalar j)) fs) =
      (if k = ''person'' then Some (clean (nr_person q)) else if k = ''source'' then Some (clean (nr_source q))
       else if k = ''idempotency_key'' then Some (clean (nr_key q)) else if k = ''title'' then Some (clean (nr_title q))
       else if k = ''text'' then Some (clean (nr_text q)) else if k = ''link'' then Some (clean (nr_link q))
       else if k = ''reason'' then Some (clean (nr_reason q)) else Some (clean (nr_group q)))"
    if "k \<in> {''person'', ''source'', ''idempotency_key'', ''title'', ''text'', ''link'', ''reason'', ''group''}" for k
    using that
    by (auto simp: fs_def text_field_def bool_field_def clean_keys clean_more_keys string_field_def field_of_def)
  have u: "flag_field ''urgent'' (map (\<lambda>(k, j). (clean k, clean_scalar j)) fs) = Some (nr_urgent q)"
    by (simp add: fs_def text_field_def bool_field_def clean_keys clean_more_keys flag_field_def field_of_def)
  show ?thesis unfolding readRequest_def r option.case by (simp add: f u clean_request_def)
qed

lemma readRequest_clean:
  assumes "readRequest (Marshal (requestJSON (personRequest q))) = Some r"
  shows "readRequest (Marshal (requestJSON (personRequest (clean_notice q)))) = Some r \<and> r = clean_request (personRequest q)"
proof -
  have n: "length (Marshal (requestJSON (personRequest q))) \<le> 65536" "r = clean_request (personRequest q)"
    using assms by (auto simp: readRequest_printed split: if_splits)
  have "clean_request (personRequest (clean_notice q)) = clean_request (personRequest q)"
    by (simp add: clean_request_def personRequest_def clean_notice_def)
  with n requestJSON_clean [OF n(1)] show ?thesis by (simp add: readRequest_printed)
qed

lemma Notify_valid:
  assumes "Notify url_ok cfg now random q s = (Inr v, s')"
  shows "notifiable url_ok (trimmed q)"
  using assms by (cases rule: Notify_cases) simp_all

text \<open>
  C8: A person's notice reaches their inbox once. Suppose crew-humans has recorded the notice of a first
  attempt, whether or not crew-board heard the answer. Then every later attempt, made from the text frozen
  on the notice and whatever both services did in between, is answered with the notice recorded first (it
  is never refused as a conflict) as long as the person is still on the site, and changes no record.
\<close>

theorem person_told_once:
  assumes "(humans_step url_ok)\<^sup>*\<^sup>* humans_start s" and "NewHumans url_ok raw = Inr cfg"
    and "handleNotify url_ok cfg now random (Marshal (requestJSON (personRequest q))) s = (Inr (res, replayed), s1)"
    and "(humans_step url_ok)\<^sup>*\<^sup>* s1 s2" and "person cfg' (clean (pn_person q)) \<noteq> None"
    and "readPersonNotice (Marshal (personNoticeJSON q)) = Some q'"
  shows "\<exists>ids. NotifyPerson url_ok cfg' now' random' Delivered q' s2 = (PersonTold (ns_notice_id res), s2\<lparr>hs_ids := ids\<rparr>)"
proof -
  obtain r where r: "readRequest (Marshal (requestJSON (personRequest q))) = Some r"
    and n: "Notify url_ok cfg now random r s = (Inr (res, replayed), s1)"
    using assms(3) by (auto simp: handleNotify_def split: option.splits)
  have q': "readRequest (Marshal (requestJSON (personRequest q'))) = Some r" using read_frozen assms(6) readRequest_clean [OF r] by simp
  have "nr_person r = clean (pn_person q)" using readRequest_clean [OF r] by (simp add: clean_request_def personRequest_def)
  then have p: "person cfg' (nr_person r) \<noteq> None" using assms(5) by simp
  obtain ids where "Notify url_ok cfg' now' random' r s2 = (Inr (res, True), s2\<lparr>hs_ids := ids\<rparr>)"
    using Notify_again [OF assms(1,2) n assms(4) refl refl p Notify_valid [OF n], of now' random'] by auto
  then show ?thesis using q' by (auto simp: NotifyPerson_def Let_def handleNotify_def person_answer_of_def)
qed

end
