(* ===== verification/Humans_Witnesses.thy ===== *)
theory Humans_Witnesses
  imports Humans_Guarantees
begin

text \<open>
  A site with one person, a notice for them and a pass that pushes it: the guarantees of crew-humans
  at concrete inputs.
\<close>

definition http_address :: "string \<Rightarrow> bool" where
  "http_address s = prefix ''http://'' s"

definition demo_people :: people_file where
  "demo_people = \<lparr>pe_site = ''box'', pe_people = [\<lparr>hu_name = ''pat'', hu_display = '''', hu_routes =
     [\<lparr>rk_kind = RouteHomeAssistant, rk_url = ''http://ha'', rk_service = ''phone'', rk_token_file = ''t'', rk_push = ''''\<rparr>]\<rparr>]\<rparr>"

definition demo_checked :: people_file where
  "demo_checked = \<lparr>pe_site = ''box'', pe_people = [\<lparr>hu_name = ''pat'', hu_display = ''pat'', hu_routes = [inboxRoute,
     \<lparr>rk_kind = RouteHomeAssistant, rk_url = ''http://ha'', rk_service = ''phone'', rk_token_file = ''t'', rk_push = PushMentions\<rparr>]\<rparr>]\<rparr>"

definition demo_config :: humans_config where
  "demo_config = \<lparr>hc_people = demo_checked, hc_give_up = 3600000000000\<rparr>"

definition demo_request :: notify_request where
  "demo_request = \<lparr>nr_person = ''pat'', nr_source = ''system/crew-board'', nr_key = ''k'', nr_title = ''Reply'',
     nr_text = ''Done. '', nr_link = '''', nr_reason = ''reply'', nr_group = ''t1'', nr_urgent = False\<rparr>"

definition demo_id :: string where
  "demo_id = fst (newID 0 ''abcd'' id_start)"

definition demo_row :: inbox_row where
  "demo_row = \<lparr>in_id = demo_id, in_person = ''pat'', in_source = ''system/crew-board'', in_key = ''k'', in_title = ''Reply'',
     in_text = ''Done.'', in_link = '''', in_reason = ''reply'', in_group = ''t1'', in_urgent = False,
     in_created_at = 0, in_read_at = None\<rparr>"

definition demo_push :: push_delivery where
  "demo_push = \<lparr>pd_notice_id = demo_id, pd_route = 1, pd_kind = RouteHomeAssistant, pd_state = DeliveryPending,
     pd_attempts = 0, pd_last_error = '''', pd_next_attempt_at = 0, pd_give_up_at = 3600000000000, pd_sent_at = None\<rparr>"

definition demo_humans :: humans_site where
  "demo_humans = \<lparr>hs_ids = snd (newID 0 ''abcd'' id_start), hs_db = \<lparr>hd_notices = [demo_row], hd_deliveries = [demo_push]\<rparr>\<rparr>"

definition demo_result :: notify_result where
  "demo_result = \<lparr>ns_notice_id = demo_id, ns_outcome = OutcomeAccepted, ns_routes = [RouteInbox, RouteHomeAssistant]\<rparr>"

lemma demo_check: "Check http_address demo_people = Inr demo_checked"
  by code_simp

lemma demo_new: "NewHumans http_address \<lparr>hc_people = demo_people, hc_give_up = 0\<rparr> = Inr demo_config"
  by (simp add: NewHumans_def demo_check demo_config_def)

lemma demo_notifiable: "notifiable http_address (trimmed demo_request)"
  by code_simp

lemma demo_person: "person demo_config ''pat'' = Some (hd (pe_people demo_checked))"
  by code_simp

lemma demo_stored: "noticeOf demo_id 0 (stored_request demo_request) = demo_row"
proof -
  have "TrimSpace ''Reply'' = ''Reply''" "cut_text (TrimSpace ''Done. '') 600 = ''Done.''" by code_simp+
  then show ?thesis by (simp add: noticeOf_def stored_request_def trimmed_def demo_request_def demo_row_def)
qed

lemma demo_pushes: "pushesFor demo_config 0 (hd (pe_people demo_checked)) demo_row = [demo_push]"
  by (simp add: pushesFor_def demo_checked_def inboxRoute_def pushes_def demo_row_def demo_push_def demo_config_def)

lemma demo_notified: "Notify http_address demo_config 0 ''abcd'' demo_request humans_start = (Inr (demo_result, False), demo_humans)"
proof -
  let ?n = "new_notice demo_config 0 demo_id (hd (pe_people demo_checked)) demo_request"
  obtain a s' where n: "Notify http_address demo_config 0 ''abcd'' demo_request humans_start = (a, s')"
    by (metis prod.exhaust)
  have ins: "InsertNotice ?n empty_hdb = Inr ((?n, True), \<lparr>hd_notices = [demo_row], hd_deliveries = [demo_push]\<rparr>)"
    using demo_stored demo_pushes notice_id_unchanged [of demo_row demo_config 0 "hd (pe_people demo_checked)"]
    by (simp add: InsertNotice_def empty_hdb_def) (simp add: demo_row_def demo_push_def)
  have res: "notifyResult ?n = demo_result"
    using demo_stored demo_pushes by (simp add: notifyResult_def demo_result_def demo_push_def)
  from n show ?thesis
  proof (cases rule: Notify_cases)
    case (insert p)
    then have "p = hd (pe_people demo_checked)" using demo_person by (simp add: demo_request_def)
    then have "(a, hs_db s') = (Inr (demo_result, False), hs_db demo_humans)"
      using insert(4) ins res by (simp add: Let_def humans_start_def demo_id_def demo_humans_def)
    then show ?thesis using n insert(3) by (simp add: humans_start_def demo_humans_def)
  qed (use demo_person demo_notifiable in \<open>simp_all add: demo_request_def\<close>)
qed

lemma demo_reached: "(humans_step http_address)\<^sup>*\<^sup>* humans_start demo_humans"
  using humans_step.notified [OF demo_new demo_notified] by blast

text \<open>The demonstration site is reached and well formed.\<close>

theorem reachable_inbox_wellformed_witness:
  "humans_inv (hs_db demo_humans) \<and> hd_notices (hs_db demo_humans) = [demo_row]"
  using reachable_inbox_wellformed [OF demo_reached] by (simp add: demo_humans_def)

text \<open>The same notify again answers the same, another under its key is refused.\<close>

theorem notify_exactly_once_witness:
  "(\<exists>ids. Notify http_address demo_config 9 ''efgh'' demo_request demo_humans
      = (Inr (demo_result, True), demo_humans\<lparr>hs_ids := ids\<rparr>))
   \<and> (\<exists>ids. Notify http_address demo_config 9 ''efgh'' (demo_request\<lparr>nr_title := ''Other''\<rparr>) demo_humans
      = (Inl (HumansRefused CodeConflict), demo_humans\<lparr>hs_ids := ids\<rparr>))"
proof -
  have p: "person demo_config (nr_person (demo_request\<lparr>nr_title := ''Other''\<rparr>)) \<noteq> None"
    "person demo_config (nr_person demo_request) \<noteq> None"
    using demo_person by (simp_all add: demo_request_def)
  have ok: "notifiable http_address (trimmed (demo_request\<lparr>nr_title := ''Other''\<rparr>))" by code_simp
  have other: "stored_request (demo_request\<lparr>nr_title := ''Other''\<rparr>) \<noteq> stored_request demo_request"
  proof -
    have "TrimSpace ''Reply'' = ''Reply''" "TrimSpace ''Other'' = ''Other''" by code_simp+
    then have "nr_title (stored_request (demo_request\<lparr>nr_title := ''Other''\<rparr>)) \<noteq> nr_title (stored_request demo_request)"
      by (simp add: stored_request_def trimmed_def demo_request_def)
    then show ?thesis by metis
  qed
  note once = notify_exactly_once [OF rtranclp.rtrancl_refl demo_new demo_notified rtranclp.rtrancl_refl]
  show ?thesis
    using once [OF refl refl p(2) demo_notifiable, of 9 "''efgh''"]
      once [OF _ _ p(1) ok, of 9 "''efgh''"] other by (simp add: demo_request_def)
qed

text \<open>A pass that reaches Home Assistant sends the one push that is due.\<close>

definition demo_pushers :: "nat \<Rightarrow> time \<times> pushers" where
  "demo_pushers k = (10, \<lambda>kind. if kind = RouteHomeAssistant then Some (\<lambda>p r n. Pushed) else None)"



text \<open>Two notices in one millisecond, and the wrap after 65536 of them.\<close>

theorem next_id_sorts_witness:
  "printed \<lparr>idLast = 5, idSeq = 3\<rparr> ''abcd'' < fst (newID 5000000 ''aaaa'' \<lparr>idLast = 5, idSeq = 3\<rparr>)
   \<and> \<not> printed \<lparr>idLast = 5, idSeq = 65535\<rparr> ''abcd'' < fst (newID 5000000 ''aaaa'' \<lparr>idLast = 5, idSeq = 65535\<rparr>)"
  using next_id_sorts [of "\<lparr>idLast = 5, idSeq = 3\<rparr>" 5000000 "''abcd''" "''aaaa''"]
    next_id_sorts [of "\<lparr>idLast = 5, idSeq = 65535\<rparr>" 5000000 "''abcd''" "''aaaa''"]
  by simp

text \<open>The demonstration file is accepted with its defaults filled in.\<close>

theorem people_file_checked_witness:
  "Check http_address demo_people = Inr demo_checked \<and> people_ok http_address demo_checked
   \<and> Check http_address demo_checked = Inr demo_checked"
  using people_file_checked [OF demo_check] demo_check by simp


end
