(* ===== verification/Notifier_Witnesses.thy ===== *)
theory Notifier_Witnesses
  imports Notifier_Guarantees Humans_Witnesses
begin

text \<open>The guarantees of the notifier at concrete inputs.\<close>

definition demo_sent :: notice where
  "demo_sent = \<lparr>no_id = ''n1'', no_post_id = ''p1'', no_thread_id = ''t1'',
     no_recipient = \<lparr>pa_kind = AuthorSeat, pa_address = ''crew.lead'', pa_site = ''box''\<rparr>, no_reason = ReasonReply,
     no_policy = ''next_turn'', no_urgent = False, no_state = NoticeSent, no_attempts = 1, no_next_attempt_at = 5,
     no_last_error = '''', no_message_id = ''m1'', no_created_at = 0, no_give_up_at = 9, no_sent_at = Some 1, no_body = ''hello''\<rparr>"

definition demo_notifier :: notifier_config where
  "demo_notifier = NewNotifier \<lparr>nc_adapter_id = '''', nc_instance_id = '''', nc_origin = '''', nc_site = ''box'',
     nc_lease_duration = 0, nc_ttl = 0, nc_people = True, nc_web_url = ''''\<rparr>"

definition unreachable :: fab_error where
  "unreachable = \<lparr>fe_status = None, fe_code = '''', fe_text = ''unreachable''\<rparr>"

definition demo_io :: "nat \<Rightarrow> notice_io" where
  "demo_io k = \<lparr>io_now = 7, io_lease_now = 7, io_register = \<lambda>_ _ _. Inl unreachable, io_renew = \<lambda>_ _ _. Inl unreachable,
     io_resolve = \<lambda>_. Inl unreachable, io_bind = \<lambda>_ _. Inl unreachable, io_submit = \<lambda>_. Inl unreachable,
     io_mailbox = \<lambda>_. Inr [\<lparr>cd_message_id = ''m1'', cd_state = ''delivered'', cd_terminal_reason = '''', cd_expires_at = None\<rparr>],
     io_seat_holder = \<lambda>_. Inr ('''', True), io_session = \<lambda>_. Inr ('''', False), io_people = \<lambda>_. PersonTold ''hn-1''\<rparr>"

definition notified_board :: "notifier \<times> bdb" where
  "notified_board = (\<lparr>nf_lease = no_lease, nf_bound = False\<rparr>,
     empty_bdb\<lparr>bt_notices := [\<lparr>nw_notice = demo_sent, nw_purged = False\<rparr>]\<rparr>)"

lemma demo_live: "live_notices notified_board = [demo_sent]"
  by (simp add: live_notices_def notified_board_def)

lemma demo_due: "DueNotices 6 50 (snd notified_board) = [demo_sent]"
  by (simp add: DueNotices_def notified_board_def sel_def demo_sent_def)

lemma demo_settled: "fst (NotifierPass (\<lambda>_. True) demo_notifier 6 demo_io notified_board) = 1"
  unfolding NotifierPass_def demo_due
  by (simp add: notified_board_def) (simp add: check_def checked_def demo_io_def demo_sent_def)


definition demo_person_notice :: person_notice where
  "demo_person_notice = \<lparr>pn_person = ''pat'', pn_key = ''k'', pn_title = ''Reply'', pn_text = ''Done. '', pn_link = '''',
     pn_reason = ''reply'', pn_group = ''t1'', pn_urgent = False\<rparr>"

lemma demo_read: "readRequest (Marshal (requestJSON (personRequest demo_person_notice))) = Some demo_request"
proof -
  have "length (Marshal (requestJSON (personRequest demo_person_notice))) = 129" by code_simp
  moreover have "clean ''pat'' = ''pat''" "clean ''system/crew-board'' = ''system/crew-board''" "clean ''k'' = ''k''"
    "clean ''Reply'' = ''Reply''" "clean ''Done. '' = ''Done. ''" "clean ''reply'' = ''reply''" "clean ''t1'' = ''t1''"
    by code_simp+
  ultimately show ?thesis 
    by (simp add: readRequest_printed clean_request_def personRequest_def demo_person_notice_def demo_request_def)
qed

text \<open>The answer to a first attempt is lost; the retry from the frozen text hears of the same notice.\<close>

theorem person_told_once_witness:
  "NotifyPerson http_address demo_config 0 ''abcd'' (ResponseLost ''timeout'') demo_person_notice humans_start
     = (PersonFailed ''timeout'', demo_humans)
   \<and> (\<exists>ids. NotifyPerson http_address demo_config 9 ''efgh'' Delivered (clean_notice demo_person_notice) demo_humans
     = (PersonTold demo_id, demo_humans\<lparr>hs_ids := ids\<rparr>))"
proof -
  have first: "handleNotify http_address demo_config 0 ''abcd'' (Marshal (requestJSON (personRequest demo_person_notice))) humans_start
      = (Inr (demo_result, False), demo_humans)"
    by (simp add: handleNotify_def demo_read demo_notified)
  have "clean ''pat'' = ''pat''" by code_simp
  then have p: "person demo_config (clean (pn_person demo_person_notice)) \<noteq> None"
    using demo_person by (simp add: demo_person_notice_def)
  show ?thesis
    using person_told_once [OF rtranclp.rtrancl_refl demo_new first rtranclp.rtrancl_refl p read_frozen, of 9 "''efgh''"] first
    by (simp add: NotifyPerson_def demo_result_def Let_def)
qed

end
