(* ===== verification/Spec2Isabelle.thy ===== *)
theory Spec2Isabelle
  imports Mailbox_Refinement Directory_Guarantees Replay_Guarantees Service_Guarantees Board_Witnesses Board_Uploads
    Notifier_Witnesses
begin

text \<open>
  \<^bold>\<open>Verification of crew-services.\<close>

  \<^bold>\<open>The program.\<close> crew-services lets agent sessions, driven by adapters, talk to each other through a
  durable messaging fabric. Its core is a store on SQLite (\<^verbatim>\<open>src/internal/store\<close> is the contract,
  \<^verbatim>\<open>src/internal/sqlite\<close> the implementation) behind an application layer
  (\<^verbatim>\<open>src/internal/service\<close>). Adapters hold fenced leases and bind addresses to their sessions;
  producers submit messages to addresses; each message has one delivery that the recipient's adapter claims,
  dispatches and reconciles; a round is a question whose answer or end is recorded; a seat is an address one
  session holds at a time, with texts and mail that outlive the holder. On top of the fabric,
  crew-board (\<^verbatim>\<open>src/internal/board\<close>, its store in \<^verbatim>\<open>boardsqlite\<close>) keeps boards, threads and posts
  with their revisions, tells participants about posts that concern them, takes attachments through a
  checking pipeline, and shares boards with other sites as signed files in a repository. Its notifier sends the
  notices about posts through the fabric and hands those for people to crew-humans
  (\<^verbatim>\<open>src/internal/humans\<close>), which keeps each person's inbox and pushes to their phones.

  \<^bold>\<open>The model.\<close> A database is the record \<open>db\<close> with one list of rows per table, in rowid order. A store
  operation is a function from the clock reading, the request and the database to a \<open>store_error\<close> or a result
  and the committed database: a Go function that returns an error rolls its transaction back, so an error leaves
  the caller's database as it was. SQLite serializes writers, so an execution is a sequence of committed
  transactions: \<open>live_step\<close> has one rule for each exported mutating operation of \<^verbatim>\<open>store.Store\<close>,
  \<open>fabric_step\<close> adds receipt pruning, and \<open>reachable\<close> are the databases of runs from the empty one. Table
  constraints, unique indexes, foreign keys and the immutability triggers of the migrations are part of the
  statements (\<open>insertMessage\<close>, \<open>updateDeliveries\<close>, \<open>insertRound\<close>, \<open>updateHoldings\<close>, ...), and a violated one is
  the error \<open>ErrSQL\<close>. Counters are unbounded integers: they grow by one per operation from one and stay far
  below the width of int64. Strings are byte strings.

  \<^item> \<open>Prelude\<close>: results, tables and their statements, Go string helpers, the locales \<open>evolving\<close> and
    \<open>evolving_trans\<close> for tables whose rows only move along a relation.
  \<^item> \<open>Timestamps\<close>: RFC3339Nano text of an instant, its parse, and the text comparison some SQL statements make.
  \<^item> \<open>Store_Types\<close>: the records and errors of \<^verbatim>\<open>src/internal/store\<close>.
  \<^item> \<open>Directory\<close>, \<open>Directory_Invariant\<close>: leases and bindings (\<^verbatim>\<open>sqlite/store.go\<close>, first half).
  \<^item> \<open>Ledger\<close>, \<open>Submission\<close>: messages, deliveries and rounds, acceptance and replay, replies, round operations and
    the reads (\<^verbatim>\<open>sqlite/store.go\<close>, \<^verbatim>\<open>sqlite/round.go\<close>).
  \<^item> \<open>Delivery_Protocol\<close>: claims, dispatch, reconciliation, cancellation, settlement, receipts
    (\<^verbatim>\<open>sqlite/delivery.go\<close> and \<^verbatim>\<open>SettlePending\<close>, \<^verbatim>\<open>CancelDelivery\<close> of \<^verbatim>\<open>sqlite/store.go\<close>).
  \<^item> \<open>Seats\<close>, \<open>Seat_Invariant\<close>: seats, holdings, texts (\<^verbatim>\<open>sqlite/seat.go\<close>).
  \<^item> \<open>Encoding\<close>, \<open>Service\<close>: the application layer with request normalization, fingerprints (JSON, SHA-256, hex written
    out), session addresses, waiting and pruning loops (\<^verbatim>\<open>src/internal/service\<close>).
  \<^item> \<open>Fabric\<close>: the step relations and the invariant of the whole database, with the locales \<open>invariant_machine\<close> and
    \<open>guided_machine\<close>; \<open>Replay\<close>: the locale \<open>receipted\<close> of operations that answer retries from a receipt, and its
    four interpretations.
  \<^item> \<open>Scenario\<close>: a concrete run whose states show that the hypotheses of the guarantees occur.

  The board has a database of its own, the record \<open>bdb\<close>, again with one list of rows per table. A write runs
  under the service's lock: it is checked against a receipt, computes a list of \<open>change\<close>s, adds the files to share,
  and applies all of them in one transaction (\<open>do_write\<close>, \<open>Apply\<close>). \<open>board_step\<close> has a rule for every exported operation
  that changes the database, the files pulled from partners included, and \<open>board_reachable\<close> are the states of runs.
  \<^item> \<open>Board_Types\<close>, \<open>Board_Text\<close>: records and codes (\<^verbatim>\<open>board.go\<close>), mentions, references, ids, \<^verbatim>\<open>LIKE\<close>
    and the JSON of results (\<^verbatim>\<open>mentions.go\<close>, \<^verbatim>\<open>ids.go\<close>).
  \<^item> \<open>Board_Store\<close>, \<open>Board_Reads\<close>: tables, \<^verbatim>\<open>Apply\<close>, purges and reads (\<^verbatim>\<open>boardsqlite/store.go\<close>).
  \<^item> \<open>Board_Format\<close>: paths and files of the shared repository (\<^verbatim>\<open>format.go\<close>).
  \<^item> \<open>Board_Service\<close>, \<open>Board_Curation\<close>: authors, mentions, notices, sharing, all writes and reads
    (\<^verbatim>\<open>service.go\<close>, \<^verbatim>\<open>curation.go\<close>, parts of \<^verbatim>\<open>notices.go\<close> and \<^verbatim>\<open>shared.go\<close>).
  \<^item> \<open>Board_Media\<close>: type checks, ingest, quarantine, uploads, releases and drops (\<^verbatim>\<open>media.go\<close>,
    \<^verbatim>\<open>attachments.go\<close>) on a database and a map of files. \<open>Board_Shared\<close>: what a site takes from a
    partner's files (\<^verbatim>\<open>shared.go\<close>).
  \<^item> \<open>Board_Render\<close>: a post as a model reads it, with its folds and images (\<^verbatim>\<open>render.go\<close>).
    \<open>Board_Notifier\<close>: the texts of notices, leases and origin, and the passes over due notices (second half of
    \<^verbatim>\<open>notices.go\<close>). \<open>Json_Read\<close>: the JSON objects a frozen notice and a request are read from.
  \<^item> \<open>Board_Scenario\<close>, \<open>Board_Partner\<close>, \<open>Board_Witnesses\<close>: a concrete site, a site with a partner, and the properties
    applied there.

  crew-humans has its own tables too, the record \<open>hdb\<close>, beside the variables its ids are made from
  (\<open>humans_site\<close>); \<open>humans_step\<close> has a rule for notify, for marking read and for a pass of the deliverer.
  \<^item> \<open>Humans\<close>: the people file, notify, inboxes, pushes, Home Assistant, ids and records. \<open>Humans_Api\<close>: a notify from
    crew-board through the client (\<^verbatim>\<open>humansclient\<close>) and the handler (\<^verbatim>\<open>humanshttp\<close>).
  \<^item> \<open>Humans_Witnesses\<close>, \<open>Notifier_Witnesses\<close>: a concrete site, and the properties applied there.

  \<^bold>\<open>What is shown.\<close>
  \<^item> This theory: every reachable database is well-formed, and messages and terminal deliveries are final.
  \<^item> \<open>Mailbox_Refinement\<close>: each transaction is a step of an abstract post office.
  \<^item> \<open>Delivery_Guarantees\<close>: first in first out claims, fencing of claims by token, owner and lease, requeueing in place,
    cancellation, completeness of settlement, dispatch actions within policy and capability.
  \<^item> \<open>Round_Guarantees\<close>: a reply decides its round, a round is decided once, expiry within a second, and the
    instants inside one second that the text comparison misses.
  \<^item> \<open>Directory_Guarantees\<close>: exclusive leases, the fence after a takeover (locale \<open>lease_guarded\<close>, seven
    interpretations), compare-and-set of bindings, generations that name routes.
  \<^item> \<open>Seat_Guarantees\<close>, \<open>Seat_Texts\<close>, \<open>Seat_Mail\<close>: one holder, sending as a seat, relief, retirement, reopening, mail across
    holders, versioned texts, history.
  \<^item> \<open>Replay_Guarantees\<close>, \<open>Service_Guarantees\<close>: exactly-once effects of every receipted operation, blind retries through
    the service under interference, exact pruning, idempotent session addresses, waits that return.

  \<^item> \<open>Board_Units\<close>, \<open>Board_Runs\<close>, \<open>Board_Ops\<close>, \<open>Board_History\<close>, \<open>Board_Guarantees\<close>: every operation of the board is a sequence
    of small unit steps, which keep the invariant \<open>board_inv\<close> and only move rows forward (\<open>kept\<close>).
  \<^item> \<open>Board_Promises\<close>: well-formed states, exactly-once writes, kept history, final purges. \<open>Board_Authority\<close>: who may
    change a post, for callers and for partners. \<open>Board_Uploads\<close>: what becomes of an upload.
  \<^item> \<open>Board_Search\<close>, \<open>Board_Paging\<close> (locale of key-ordered pages, interpreted on the posts of a thread and
    of a kind), \<open>Board_Audience\<close>, \<open>Board_Files\<close>, \<open>Board_Carries\<close>, \<open>Board_Ids\<close>: exact search, complete paging, one notice per
    concerned participant, file round trips, receipts found by the id they carry, ids that sort by time.

  \<^item> \<open>Due_Pass\<close>: the locale \<open>due_pass\<close> of a loop that attempts the due records of a table, each once, interpreted on
    the pushes of crew-humans and on the notices of the board.
  \<^item> \<open>Humans_Text\<close>, \<open>Humans_Guarantees\<close>: runes and cuts, ids; well-formed inboxes, exactly-once notifies, passes that
    settle, exact marking, ids in order, accepted people files.
  \<^item> \<open>Notifier_Guarantees\<close>: what a pass of the notifier does to each due notice, frozen notices that read back, and a
    notice that reaches a person's inbox once although requests and answers are lost.

  \<^bold>\<open>Bounds and parameters.\<close> No function uses fuel: the claim loop ends because each turn closes an open delivery,
  the pruning loop because each full batch removes rows, and the registration loop makes three attempts as in the
  code. The random generators, the clock, the order in which SQLite visits rows without an ORDER BY (\<open>plan\<close>)
  and what other requests commit between two store calls of one service operation (\<open>between\<close>, \<open>env\<close>) are arguments.
  The board takes the clock, the random bytes and the answers of the fabric as the record \<open>world\<close>, the YAML and
  JSON decoders of shared files as \<open>readers\<close>, and the decoder and scanner programs of attachments as \<open>media_tools\<close>;
  the notifier takes the answers of the fabric, the directory and crew-humans as one \<open>notice_io\<close> per notice of a pass, and
  crew-humans the address test of \<^verbatim>\<open>net/url\<close> as \<open>url_ok\<close> and the answers of its pushes; what is proved holds for
  all of them.

  \<^bold>\<open>Not modelled.\<close> Opening and migrating the database files and I/O errors of SQLite; the HTTP API of the fabric and
  its clients; the agent drivers, the dev server, the playtest and review programs, which control processes, browsers
  and remote services; command line programs and configuration; the web pages. Of the board: the base64 text of
  a listing's position, HTTP, and the git transport and signature checks of networks. Of the notifier and of
  crew-humans: the ticker that runs the passes, the reading of the people file, and the handlers of plain reads.
\<close>

section \<open>The fabric as a whole\<close>

text \<open>
  C1: Every database the fabric can reach is well-formed: leases, bindings, messages, deliveries, rounds,
  seats, holdings and texts have unique keys and valid references, the deliveries are those of the
  messages in order with dense sequence numbers, claims have the shape their state demands, each seat
  has at most one open holding, and receipts are unique per operation.
\<close>

theorem reachable_wellformed:
  assumes "reachable d"
  shows "directory_inv d \<and> messages_inv d \<and> deliveries_inv d \<and> rounds_inv d \<and>
     holdings_inv (seats d) (holdings d) \<and> texts_inv (seats d) (texts d) \<and> receipts_inv d"
  using reachable_inv [OF assms] by (simp add: db_inv_def fabric_inv_def ledger_inv_def seat_inv_def)

theorem reachable_wellformed_witness:
  "deliveries_inv e5 \<and> deliveries e5 \<noteq> [] \<and> holdings_inv (seats e5) (holdings e5) \<and> holdings e5 \<noteq> []"
proof -
  have "deliveries e5 \<noteq> [] \<and> holdings e5 \<noteq> []" by code_simp
  with reachable_wellformed [OF seat_scenario_reachable(5)] show ?thesis by blast
qed

text \<open>
  C11: What is written stays written. Along every run of the fabric, whatever mix of operations, settlements
  and prunings it is, each message stays as it was accepted, and a delivery that has reached a terminal
  state is found under its id exactly as it was left.
\<close>

theorem records_are_final:
  assumes "reachable d" and "fabric_step\<^sup>*\<^sup>* d d'"
  shows "(\<forall>i<length (messages d). i < length (messages d') \<and> messages d' ! i = messages d ! i) \<and>
     (\<forall>v. readDelivery d (d_delivery_id v) = Some v \<and> terminal_state (d_state v) \<longrightarrow>
        readDelivery d' (d_delivery_id v) = Some v)"
proof -
  have inv: "db_inv d" by (rule reachable_inv [OF assms(1)])
  have led': "ledger_inv d'" using fm.run_inv [OF assms(2) inv] by (simp add: db_inv_def fabric_inv_def)
  have step: "ledger_step delivery_path d d'"
    using fm.run_within [OF assms(2) inv] by (simp add: fabric_moves_def)
  then have m: "evolves (=) (messages d) (messages d')" by (simp add: ledger_step_def)
  have "readDelivery d' (d_delivery_id v) = Some v"
    if "readDelivery d (d_delivery_id v) = Some v" "terminal_state (d_state v)" for v
  proof -
    have "v \<in> set (deliveries d)" using readDelivery_Some [OF that(1)] by blast
    from ledger_step_readDelivery [OF step led' this] obtain v' where
      "readDelivery d' (d_delivery_id v) = Some v'" "delivery_moves delivery_path v v'" by blast
    with that(2) show ?thesis by (simp add: delivery_moves_def)
  qed
  moreover have "i < length (messages d') \<and> messages d' ! i = messages d ! i" if "i < length (messages d)" for i
    using evolves_nth [OF m that] evolves_length [OF m] that by simp
  ultimately show ?thesis by blast
qed

theorem records_are_final_witness:
  "messages e2 \<noteq> [] \<and> messages e5 ! 0 = messages e2 ! 0"
proof -
  have ne: "messages e2 \<noteq> []" by code_simp
  have "fabric_step e2 e3" "fabric_step e3 e4" "fabric_step e4 e5"
    using fabric_step.live live_step.seat_op [OF seat_runs(3)] live_step.seat_op [OF seat_runs(4)]
      live_step.seat_op [OF seat_runs(5)] by blast+
  then have "fabric_step\<^sup>*\<^sup>* e2 e5" by (meson converse_rtranclp_into_rtranclp rtranclp.rtrancl_refl)
  from records_are_final [OF seat_scenario_reachable(2) this] ne show ?thesis by simp
qed

end
